(* ===== verification/Factory_Prelude.thy ===== *)
theory Factory_Prelude
  imports Main "HOL-Library.Product_Lexorder" "HOL-Library.List_Lexorder" "HOL-Library.Char_ord"
begin

text \<open>
  Shared vocabulary of the development.

  The program keeps all durable state in SQLite tables. A table is modelled as the list of its
  rows, in insertion (rowid) order, and the few SQL statement shapes the source uses are the
  combinators of this theory: \<open>update_where\<close> (\<open>UPDATE \<dots> WHERE\<close>), \<open>count_where\<close> (the number of
  rows a statement touches), \<open>exists_where\<close> (\<open>SELECT EXISTS\<close>), \<open>delete_where\<close>,
  \<open>find_where\<close> (a query for one row), \<open>upsert_where\<close> (\<open>INSERT \<dots> ON CONFLICT DO UPDATE\<close>) and
  \<open>next_rowid\<close> (the key SQLite gives a new row of an \<open>INTEGER PRIMARY KEY\<close> table). The lemmas
  about them are collected in \<open>table_simps\<close> so that component proofs rarely unfold a
  combinator. The last section is the interface every invariant proof of the development
  uses: a start predicate, a step relation and a predicate each step keeps.
\<close>

named_theorems table_simps "rewriting of the SQL table combinators"

subsection \<open>Tables\<close>

definition update_where :: "('r \<Rightarrow> bool) \<Rightarrow> ('r \<Rightarrow> 'r) \<Rightarrow> 'r list \<Rightarrow> 'r list" where
  "update_where P f t = map (\<lambda>r. if P r then f r else r) t"

definition count_where :: "('r \<Rightarrow> bool) \<Rightarrow> 'r list \<Rightarrow> nat" where
  "count_where P t = length (filter P t)"

definition exists_where :: "('r \<Rightarrow> bool) \<Rightarrow> 'r list \<Rightarrow> bool" where
  "exists_where P t = list_ex P t"

definition delete_where :: "('r \<Rightarrow> bool) \<Rightarrow> 'r list \<Rightarrow> 'r list" where
  "delete_where P t = filter (\<lambda>r. \<not> P r) t"

definition find_where :: "('r \<Rightarrow> bool) \<Rightarrow> 'r list \<Rightarrow> 'r option" where
  "find_where P t = List.find P t"

definition upsert_where :: "('r \<Rightarrow> bool) \<Rightarrow> ('r \<Rightarrow> 'r) \<Rightarrow> 'r \<Rightarrow> 'r list \<Rightarrow> 'r list" where
  "upsert_where P f new t = (if exists_where P t then update_where P f t else t @ [new])"

definition max_key :: "('r \<Rightarrow> int) \<Rightarrow> 'r list \<Rightarrow> int" where
  "max_key k t = fold max (map k t) 0"

definition next_rowid :: "('r \<Rightarrow> int) \<Rightarrow> 'r list \<Rightarrow> int" where
  "next_rowid k t = max_key k t + 1"

text \<open>A key column (or key tuple) that SQLite keeps unique.\<close>

definition unique_key :: "('r \<Rightarrow> 'k) \<Rightarrow> 'r list \<Rightarrow> bool" where
  "unique_key k t \<longleftrightarrow> distinct (map k t)"

lemma exists_where_iff [table_simps]: "exists_where P t \<longleftrightarrow> (\<exists>r\<in>set t. P r)"
  by (simp add: exists_where_def list_ex_iff)

lemma set_update_where [table_simps]:
  "set (update_where P f t) = (\<lambda>r. if P r then f r else r) ` set t"
  by (simp add: update_where_def)

lemma update_where_hit: "r \<in> set t \<Longrightarrow> P r \<Longrightarrow> f r \<in> set (update_where P f t)"
  by (auto simp: update_where_def)

lemma update_where_miss: "r \<in> set t \<Longrightarrow> \<not> P r \<Longrightarrow> r \<in> set (update_where P f t)"
  by (auto simp: update_where_def image_iff intro!: bexI [of _ r])

lemma length_update_where [simp]: "length (update_where P f t) = length t"
  by (simp add: update_where_def)

lemma update_where_Nil [simp]: "update_where P f [] = []"
  by (simp add: update_where_def)

lemma update_where_append [table_simps]:
  "update_where P f (t @ u) = update_where P f t @ update_where P f u"
  by (simp add: update_where_def)

lemma set_delete_where [table_simps]: "set (delete_where P t) = {r \<in> set t. \<not> P r}"
  by (auto simp: delete_where_def)

lemma map_update_where:
  assumes "\<And>r. P r \<Longrightarrow> k (f r) = k r"
  shows "map k (update_where P f t) = map k t"
  using assms by (induction t) (auto simp: update_where_def)

lemma update_where_none:
  assumes "\<And>r. r \<in> set t \<Longrightarrow> \<not> P r"
  shows "update_where P f t = t"
  using assms by (induction t) (auto simp: update_where_def)

lemma find_where_SomeD:
  assumes "find_where P t = Some r"
  shows "r \<in> set t" and "P r"
  using assms by (auto simp: find_where_def find_Some_iff)

lemma find_where_NoneD: "find_where P t = None \<Longrightarrow> r \<in> set t \<Longrightarrow> \<not> P r"
  by (auto simp: find_where_def find_None_iff)

lemma find_where_None_iff: "find_where P t = None \<longleftrightarrow> (\<forall>r\<in>set t. \<not> P r)"
  by (auto simp: find_where_def find_None_iff)

lemma find_where_first: "find_where P t = None \<longleftrightarrow> \<not> exists_where P t"
  by (auto simp: find_where_None_iff exists_where_iff)

lemma find_where_append:
  "find_where P (t @ u) = (case find_where P t of None \<Rightarrow> find_where P u | Some r \<Rightarrow> Some r)"
  by (induction t) (auto simp: find_where_def)

lemma find_where_single [simp]: "find_where P [r] = (if P r then Some r else None)"
  by (simp add: find_where_def)

lemma find_where_update:
  assumes "\<And>r. r \<in> set t \<Longrightarrow> P r \<Longrightarrow> Q (f r) = Q r"
  shows "find_where Q (update_where P f t) = map_option (\<lambda>r. if P r then f r else r) (find_where Q t)"
  using assms by (induction t) (auto simp: find_where_def update_where_def)

lemma find_where_upsert_same:
  assumes "\<And>r. P r \<Longrightarrow> P (f r)" and "P new"
  shows "find_where P (upsert_where P f new t) =
    Some (case find_where P t of None \<Rightarrow> new | Some r \<Rightarrow> f r)"
proof (cases "find_where P t")
  case None
  then have "\<not> exists_where P t" by (simp add: find_where_first)
  with None assms(2) show ?thesis by (simp add: upsert_where_def find_where_append)
next
  case (Some r)
  then have "exists_where P t" and "P r"
    using find_where_first [of P t] find_where_SomeD(2) [of P t r] by auto
  with Some assms(1) show ?thesis by (simp add: upsert_where_def find_where_update)
qed

lemma find_where_upsert_other:
  assumes "\<And>r. P r \<Longrightarrow> \<not> Q r \<and> \<not> Q (f r)" and "\<not> Q new"
  shows "find_where Q (upsert_where P f new t) = find_where Q t"
proof -
  have "find_where Q (update_where P f t) = find_where Q t"
    using assms(1) by (induction t) (auto simp: find_where_def update_where_def)
  with assms(2) show ?thesis by (simp add: upsert_where_def find_where_append split: option.splits)
qed

lemma find_where_unique:
  assumes "unique_key k t" and "r \<in> set t"
  shows "find_where (\<lambda>x. k x = k r) t = Some r"
proof -
  have "\<exists>x. find_where (\<lambda>x. k x = k r) t = Some x"
    using assms(2) by (cases "find_where (\<lambda>x. k x = k r) t") (auto dest: find_where_NoneD)
  then obtain x where x: "find_where (\<lambda>x. k x = k r) t = Some x" by blast
  then have "x \<in> set t" and "k x = k r" by (auto dest: find_where_SomeD)
  with assms x show ?thesis by (auto simp: unique_key_def distinct_map dest: inj_onD)
qed

lemma unique_key_inj:
  assumes "unique_key k t" and "r \<in> set t" and "r' \<in> set t" and "k r = k r'"
  shows "r = r'"
  using assms by (auto simp: unique_key_def distinct_map dest: inj_onD)

lemma unique_key_Nil [simp]: "unique_key k []"
  by (simp add: unique_key_def)

lemma unique_key_append1:
  "unique_key k (t @ [r]) \<longleftrightarrow> unique_key k t \<and> \<not> exists_where (\<lambda>x. k x = k r) t"
  by (simp add: unique_key_def exists_where_iff image_iff) metis

lemma unique_key_update_where:
  assumes "\<And>r. P r \<Longrightarrow> k (f r) = k r"
  shows "unique_key k (update_where P f t) = unique_key k t"
  using map_update_where [of P k f t] assms by (simp add: unique_key_def)

lemma unique_key_delete_where: "unique_key k t \<Longrightarrow> unique_key k (delete_where P t)"
  by (simp add: unique_key_def delete_where_def distinct_map_filter)

lemma unique_key_upsert_where:
  assumes "unique_key k t" and "\<And>r. P r \<longleftrightarrow> k r = k new" and "\<And>r. k (f r) = k r"
  shows "unique_key k (upsert_where P f new t)"
proof -
  from assms(2) have "P = (\<lambda>r. k r = k new)" by auto
  with assms(1,3) show ?thesis
    by (simp add: upsert_where_def unique_key_update_where unique_key_append1)
qed

lemma count_where_unique:
  assumes "unique_key k t"
  shows "count_where (\<lambda>r. k r = x \<and> Q r) t \<le> 1"
  using assms
proof (induction t)
  case Nil
  then show ?case by (simp add: count_where_def)
next
  case (Cons r t)
  show ?case
  proof (cases "k r = x \<and> Q r")
    case True
    with Cons.prems have "\<forall>s\<in>set t. k s \<noteq> x"
      by (simp add: unique_key_def image_iff) metis
    then have "filter (\<lambda>r. k r = x \<and> Q r) t = []" by (auto simp: filter_empty_conv)
    with True show ?thesis by (simp add: count_where_def)
  next
    case False
    with Cons show ?thesis by (auto simp: count_where_def unique_key_def)
  qed
qed

lemma count_where_pos: "0 < count_where P t \<longleftrightarrow> exists_where P t"
  by (auto simp: count_where_def exists_where_iff filter_empty_conv)

lemma count_where_append [table_simps]:
  "count_where P (t @ u) = count_where P t + count_where P u"
  by (simp add: count_where_def)

lemma count_where_one_iff:
  assumes "unique_key k t"
  shows "count_where (\<lambda>r. k r = x \<and> Q r) t = 1 \<longleftrightarrow> exists_where (\<lambda>r. k r = x \<and> Q r) t"
  using count_where_unique [OF assms, of x Q] count_where_pos [of "\<lambda>r. k r = x \<and> Q r" t]
  by linarith

lemma max_key_ge: "0 \<le> max_key k t" "r \<in> set t \<Longrightarrow> k r \<le> max_key k t"
proof -
  have ge: "a \<le> fold max xs a" for xs and a :: int
    by (induction xs arbitrary: a) (auto intro: order.trans [OF max.cobounded2])
  have mem: "x \<in> set xs \<Longrightarrow> x \<le> fold max xs a" for x xs and a :: int
  proof (induction xs arbitrary: a)
    case (Cons y ys)
    show ?case
    proof (cases "x = y")
      case True
      have "y \<le> fold max ys (max y a)" by (rule order.trans [OF max.cobounded1 ge])
      with True show ?thesis by simp
    next
      case False
      with Cons show ?thesis by simp
    qed
  qed simp
  show "0 \<le> max_key k t" by (simp add: max_key_def ge)
  show "r \<in> set t \<Longrightarrow> k r \<le> max_key k t" by (simp add: max_key_def mem)
qed

lemma max_key_append: "max_key k t \<le> max_key k (t @ u)"
proof -
  have "a \<le> fold max xs a" for xs and a :: int
    by (induction xs arbitrary: a) (auto intro: order.trans [OF max.cobounded2])
  then show ?thesis by (simp add: max_key_def)
qed

lemma next_rowid_pos: "0 < next_rowid k t"
  using max_key_ge(1) [of k t] by (simp add: next_rowid_def)

lemma next_rowid_fresh: "r \<in> set t \<Longrightarrow> k r < next_rowid k t"
  using max_key_ge(2) [of r t k] by (simp add: next_rowid_def)

lemma unique_key_next_rowid:
  assumes "unique_key k t" and "k r = next_rowid k t"
  shows "unique_key k (t @ [r])"
  using assms next_rowid_fresh [of _ t k] by (force simp: unique_key_append1 exists_where_iff)

subsection \<open>Saturating 64-bit arithmetic\<close>

text \<open>Timestamps are \<open>i64\<close> milliseconds; the source subtracts leases with \<open>saturating_sub\<close>.\<close>

definition i64_min :: int where "i64_min = - (2 ^ 63)"
definition i64_max :: int where "i64_max = 2 ^ 63 - 1"

definition saturating_sub :: "int \<Rightarrow> int \<Rightarrow> int" where
  "saturating_sub a b = max i64_min (min i64_max (a - b))"

lemma saturating_sub_exact:
  "0 \<le> a \<Longrightarrow> a \<le> i64_max \<Longrightarrow> 0 \<le> b \<Longrightarrow> b \<le> i64_max \<Longrightarrow> saturating_sub a b = a - b"
  by (auto simp: saturating_sub_def i64_min_def i64_max_def)

subsection \<open>Invariants of step relations\<close>

locale state_invariant =
  fixes start :: "'s \<Rightarrow> bool"
    and step :: "'s \<Rightarrow> 's \<Rightarrow> bool"
    and inv :: "'s \<Rightarrow> bool"
  assumes inv_start: "start s \<Longrightarrow> inv s"
    and inv_step: "inv s \<Longrightarrow> step s t \<Longrightarrow> inv t"
begin

lemma inv_steps: "inv s \<Longrightarrow> step\<^sup>*\<^sup>* s t \<Longrightarrow> inv t"
  by (rotate_tac, induction rule: rtranclp_induct) (auto intro: inv_step)

lemma inv_reachable: "start s \<Longrightarrow> step\<^sup>*\<^sup>* s t \<Longrightarrow> inv t"
  by (rule inv_steps [OF inv_start])

end

end
