(* ===== verification/Rust_Text.thy ===== *)
theory Rust_Text
  imports Factory_Prelude "HOL-Library.Word"
begin

unbundle bit_operations_syntax

text \<open>
  The string functions of Rust's standard library that the source uses, on \<open>string\<close> read as
  the UTF-8 bytes of a \<open>str\<close>: \<open>len\<close> is \<open>length\<close>, a slice is \<open>take\<close> or \<open>drop\<close>, and
  \<open>chars\<close> splits the bytes into characters (a lead byte and its continuation bytes). On top
  of them stand the source's own text helpers: the two truncations that bound what the ledger
  stores (\<open>src/storage.rs\<close>), and the lower-case hexadecimal encoder (\<open>src/hash.rs\<close>).
\<close>

named_theorems text_simps "evaluation of the string functions"

subsection \<open>Bytes and characters\<close>

definition byte :: "char \<Rightarrow> nat" where
  "byte c = of_char c"

lemma byte_less: "byte c < 256"
  by (simp add: byte_def)

lemma byte_char_of: "n < 256 \<Longrightarrow> byte (char_of n) = n"
  by (simp add: byte_def of_char_of)

definition is_cont :: "char \<Rightarrow> bool" where
  "is_cont c \<longleftrightarrow> 128 \<le> byte c \<and> byte c < 192"

definition is_char_boundary :: "string \<Rightarrow> nat \<Rightarrow> bool" where
  "is_char_boundary s i \<longleftrightarrow> i = 0 \<or> (if length s \<le> i then i = length s else \<not> is_cont (s ! i))"

function chars :: "string \<Rightarrow> string list" where
  "chars [] = []"
| "chars (b # bs) = (b # takeWhile is_cont bs) # chars (dropWhile is_cont bs)"
  by pat_completeness auto
termination
  by (relation "measure length") (auto simp: less_Suc_eq_le length_dropWhile_le)

lemma concat_chars [simp]: "concat (chars s) = s"
  by (induction s rule: chars.induct) auto

lemma chars_eq_Nil [simp]: "chars s = [] \<longleftrightarrow> s = []"
  by (cases s) auto

definition is_whitespace :: "string \<Rightarrow> bool" where
  "is_whitespace c = (case map byte c of
      [a] \<Rightarrow> (9 \<le> a \<and> a \<le> 13) \<or> a = 32
    | [a, b] \<Rightarrow> a = 194 \<and> (b = 133 \<or> b = 160)
    | [a, b, d] \<Rightarrow>
        (a = 225 \<and> b = 154 \<and> d = 128)
        \<or> (a = 226 \<and> b = 128 \<and> ((128 \<le> d \<and> d \<le> 138) \<or> d = 168 \<or> d = 169 \<or> d = 175))
        \<or> (a = 226 \<and> b = 129 \<and> d = 159)
        \<or> (a = 227 \<and> b = 128 \<and> d = 128)
    | _ \<Rightarrow> False)"

definition is_control :: "string \<Rightarrow> bool" where
  "is_control c = (case map byte c of
      [a] \<Rightarrow> a < 32 \<or> a = 127
    | [a, b] \<Rightarrow> a = 194 \<and> 128 \<le> b \<and> b < 160
    | _ \<Rightarrow> False)"

definition trim :: "string \<Rightarrow> string" where
  "trim s = concat (rev (dropWhile is_whitespace (rev (dropWhile is_whitespace (chars s)))))"

text \<open>The source's guard \<open>value.trim().is_empty()\<close>.\<close>

definition blank :: "string \<Rightarrow> bool" where
  "blank s \<longleftrightarrow> trim s = []"

definition has_control :: "string \<Rightarrow> bool" where
  "has_control s \<longleftrightarrow> list_ex is_control (chars s)"

definition char_count :: "string \<Rightarrow> nat" where
  "char_count s = length (chars s)"

lemma blank_Nil [simp]: "blank []"
  by (simp add: blank_def trim_def)

lemma chars_nonempty: "c \<in> set (chars s) \<Longrightarrow> c \<noteq> []"
  by (induction s rule: chars.induct) auto

lemma blank_iff: "blank s \<longleftrightarrow> (\<forall>c\<in>set (chars s). is_whitespace c)"
proof -
  let ?d = "dropWhile is_whitespace (chars s)"
  have "blank s \<longleftrightarrow> dropWhile is_whitespace (rev ?d) = []"
  proof
    assume "blank s"
    then have all: "\<forall>c\<in>set (dropWhile is_whitespace (rev ?d)). c = []"
      by (simp add: blank_def trim_def)
    have "set (dropWhile is_whitespace (rev ?d)) \<subseteq> set (chars s)"
      by (metis set_dropWhileD set_rev subsetI)
    with all chars_nonempty [of _ s] show "dropWhile is_whitespace (rev ?d) = []"
      by (cases "dropWhile is_whitespace (rev ?d)") auto
  next
    assume none: "dropWhile is_whitespace (rev ?d) = []"
    show "blank s" unfolding blank_def trim_def none by simp
  qed
  also have "\<dots> \<longleftrightarrow> (\<forall>c\<in>set ?d. is_whitespace c)" by (simp add: dropWhile_eq_Nil_conv)
  also have "\<dots> \<longleftrightarrow> (\<forall>c\<in>set (chars s). is_whitespace c)"
  proof
    assume *: "\<forall>c\<in>set ?d. is_whitespace c"
    have "?d = []"
    proof (rule ccontr)
      assume ne: "?d \<noteq> []"
      with hd_dropWhile [OF this] * show False by auto
    qed
    then show "\<forall>c\<in>set (chars s). is_whitespace c" by (simp add: dropWhile_eq_Nil_conv)
  qed (auto dest: set_dropWhileD)
  finally show ?thesis .
qed

subsection \<open>ASCII classes, case folding, splitting\<close>

definition is_ascii_digit :: "char \<Rightarrow> bool" where
  "is_ascii_digit c \<longleftrightarrow> 48 \<le> byte c \<and> byte c \<le> 57"

definition is_ascii_lower :: "char \<Rightarrow> bool" where
  "is_ascii_lower c \<longleftrightarrow> 97 \<le> byte c \<and> byte c \<le> 122"

definition is_ascii_upper :: "char \<Rightarrow> bool" where
  "is_ascii_upper c \<longleftrightarrow> 65 \<le> byte c \<and> byte c \<le> 90"

definition is_ascii_alphanumeric :: "char \<Rightarrow> bool" where
  "is_ascii_alphanumeric c \<longleftrightarrow> is_ascii_digit c \<or> is_ascii_lower c \<or> is_ascii_upper c"

definition is_ascii_hexdigit :: "char \<Rightarrow> bool" where
  "is_ascii_hexdigit c \<longleftrightarrow> is_ascii_digit c
     \<or> (97 \<le> byte c \<and> byte c \<le> 102) \<or> (65 \<le> byte c \<and> byte c \<le> 70)"

text \<open>Bytes are compared as binary numbers when definitions are evaluated.\<close>

lemma byte_int: "int (byte c) = of_char c"
  unfolding byte_def by (rule of_nat_of_char)

lemma is_cont_code [code]: "is_cont c \<longleftrightarrow> (let b = of_char c :: int in 128 \<le> b \<and> b < 192)"
  by (simp add: is_cont_def Let_def flip: byte_int)

lemma ascii_code [code]:
  "is_ascii_digit c \<longleftrightarrow> (let b = of_char c :: int in 48 \<le> b \<and> b \<le> 57)"
  "is_ascii_lower c \<longleftrightarrow> (let b = of_char c :: int in 97 \<le> b \<and> b \<le> 122)"
  "is_ascii_upper c \<longleftrightarrow> (let b = of_char c :: int in 65 \<le> b \<and> b \<le> 90)"
  by (simp_all add: is_ascii_digit_def is_ascii_lower_def is_ascii_upper_def Let_def flip: byte_int)

lemma is_whitespace_code [code]:
  "is_whitespace c = (case map of_char c :: int list of
      [a] \<Rightarrow> (9 \<le> a \<and> a \<le> 13) \<or> a = 32
    | [a, b] \<Rightarrow> a = 194 \<and> (b = 133 \<or> b = 160)
    | [a, b, d] \<Rightarrow>
        (a = 225 \<and> b = 154 \<and> d = 128)
        \<or> (a = 226 \<and> b = 128 \<and> ((128 \<le> d \<and> d \<le> 138) \<or> d = 168 \<or> d = 169 \<or> d = 175))
        \<or> (a = 226 \<and> b = 129 \<and> d = 159)
        \<or> (a = 227 \<and> b = 128 \<and> d = 128)
    | _ \<Rightarrow> False)"
  by (cases c rule: remdups_adj.cases; cases "tl (tl c)")
    (auto simp: is_whitespace_def simp flip: byte_int split: list.split)

definition ascii_lower_char :: "char \<Rightarrow> char" where
  "ascii_lower_char c = (if is_ascii_upper c then char_of (byte c + 32) else c)"

definition to_ascii_lowercase :: "string \<Rightarrow> string" where
  "to_ascii_lowercase s = map ascii_lower_char s"

definition eq_ignore_ascii_case :: "string \<Rightarrow> string \<Rightarrow> bool" where
  "eq_ignore_ascii_case a b \<longleftrightarrow> to_ascii_lowercase a = to_ascii_lowercase b"

fun strip_prefix :: "string \<Rightarrow> string \<Rightarrow> string option" where
  "strip_prefix [] s = Some s"
| "strip_prefix (p # ps) [] = None"
| "strip_prefix (p # ps) (c # s) = (if p = c then strip_prefix ps s else None)"

definition strip_suffix :: "string \<Rightarrow> string \<Rightarrow> string option" where
  "strip_suffix p s = map_option rev (strip_prefix (rev p) (rev s))"

fun split :: "char \<Rightarrow> string \<Rightarrow> string list" where
  "split d [] = [[]]"
| "split d (c # s) = (if c = d then [] # split d s
     else (case split d s of [] \<Rightarrow> [[c]] | w # ws \<Rightarrow> (c # w) # ws))"

fun split_once :: "char \<Rightarrow> string \<Rightarrow> (string \<times> string) option" where
  "split_once d [] = None"
| "split_once d (c # s) = (if c = d then Some ([], s)
     else map_option (\<lambda>(a, b). (c # a, b)) (split_once d s))"

definition rsplit_once :: "char \<Rightarrow> string \<Rightarrow> (string \<times> string) option" where
  "rsplit_once d s = map_option (\<lambda>(a, b). (rev b, rev a)) (split_once d (rev s))"

definition trim_end_matches :: "char \<Rightarrow> string \<Rightarrow> string" where
  "trim_end_matches d s = rev (dropWhile (\<lambda>c. c = d) (rev s))"

fun join :: "string \<Rightarrow> string list \<Rightarrow> string" where
  "join sep [] = []"
| "join sep [w] = w"
| "join sep (w # v # ws) = w @ sep @ join sep (v # ws)"

lemma strip_prefix_Some_iff [simp]: "strip_prefix p s = Some r \<longleftrightarrow> s = p @ r"
  by (induction p s rule: strip_prefix.induct) auto

lemma strip_prefix_append [simp]: "strip_prefix p (p @ r) = Some r"
  by simp

lemma strip_suffix_Some_iff: "strip_suffix p s = Some r \<longleftrightarrow> s = r @ p"
  by (auto simp: strip_suffix_def map_option_case rev_swap split: option.splits)

lemma split_not_Nil [simp]: "split d s \<noteq> []"
  by (induction s) (auto split: list.splits)

lemma join_Cons_first: "join sep ((c # w) # ws) = c # join sep (w # ws)"
  by (cases ws) auto

lemma join_split: "join [d] (split d s) = s"
proof (induction s)
  case (Cons c s)
  then show ?case
    by (cases "split d s") (auto simp: join_Cons_first split: list.splits)
qed simp

lemma split_no_sep: "w \<in> set (split d s) \<Longrightarrow> d \<notin> set w"
proof (induction s arbitrary: w)
  case (Cons c s)
  obtain v vs where sp: "split d s = v # vs" by (cases "split d s") auto
  with Cons have "d \<notin> set v" by simp
  with Cons sp show ?case by (auto split: if_splits)
qed simp

lemma split_word: "d \<notin> set w \<Longrightarrow> split d w = [w]"
  by (induction w) auto

lemma split_append_sep: "d \<notin> set w \<Longrightarrow> split d (w @ d # s) = w # split d s"
  by (induction w) auto

lemma split_join:
  assumes "ws \<noteq> []" and "\<forall>w\<in>set ws. d \<notin> set w"
  shows "split d (join [d] ws) = ws"
  using assms by (induction "[d]" ws rule: join.induct) (auto simp: split_word split_append_sep)

lemma split_once_Some_iff:
  "split_once d s = Some (a, b) \<longleftrightarrow> s = a @ d # b \<and> d \<notin> set a"
proof (induction s arbitrary: a)
  case (Cons c s)
  then show ?case by (cases a) auto
qed simp

lemma ascii_lower_idem [simp]: "to_ascii_lowercase (to_ascii_lowercase s) = to_ascii_lowercase s"
proof -
  have "ascii_lower_char (ascii_lower_char c) = ascii_lower_char c" for c
    by (auto simp: ascii_lower_char_def is_ascii_upper_def byte_char_of)
  then show ?thesis by (simp add: to_ascii_lowercase_def)
qed

lemma eq_ignore_ascii_case_refl [simp]: "eq_ignore_ascii_case s s"
  by (simp add: eq_ignore_ascii_case_def)

subsection \<open>UTF-8 encoding of scalar values\<close>

text \<open>
  A Rust \<open>String\<close> is the UTF-8 encoding of a list of scalar values. The encoder is only used
  to state what the byte-level functions do to well-formed strings.
\<close>

definition utf8_char :: "nat \<Rightarrow> string" where
  "utf8_char n = map char_of
     (if n < 128 then [n]
      else if n < 2048 then [192 + n div 64, 128 + n mod 64]
      else if n < 65536 then [224 + n div 4096, 128 + n div 64 mod 64, 128 + n mod 64]
      else [240 + n div 262144, 128 + n div 4096 mod 64, 128 + n div 64 mod 64, 128 + n mod 64])"

definition scalar :: "nat \<Rightarrow> bool" where
  "scalar n \<longleftrightarrow> n < 55296 \<or> (57344 \<le> n \<and> n < 1114112)"

definition utf8 :: "nat list \<Rightarrow> string" where
  "utf8 ns = concat (map utf8_char ns)"

lemma utf8_Nil [simp]: "utf8 [] = []"
  by (simp add: utf8_def)

lemma utf8_Cons [simp]: "utf8 (n # ns) = utf8_char n @ utf8 ns"
  by (simp add: utf8_def)

lemma utf8_append [simp]: "utf8 (ms @ ns) = utf8 ms @ utf8 ns"
  by (simp add: utf8_def)

lemma utf8_char_shape:
  assumes "scalar n"
  obtains b bs where "utf8_char n = b # bs" and "\<not> is_cont b" and "\<forall>c\<in>set bs. is_cont c"
    and "length bs \<le> 3"
proof -
  have "n < 1114112" using assms by (auto simp: scalar_def)
  then show ?thesis
    by (intro that [of "hd (utf8_char n)" "tl (utf8_char n)"])
       (auto simp: utf8_char_def is_cont_def byte_char_of)
qed

lemma chars_utf8:
  assumes "\<forall>n\<in>set ns. scalar n"
  shows "chars (utf8 ns) = map utf8_char ns"
  using assms
proof (induction ns)
  case (Cons n ns)
  obtain b bs where b: "utf8_char n = b # bs" "\<not> is_cont b" "\<forall>c\<in>set bs. is_cont c"
    using Cons.prems by (auto elim: utf8_char_shape)
  have hd: "utf8 ns = [] \<or> \<not> is_cont (hd (utf8 ns))"
  proof (cases ns)
    case (Cons m ms)
    then have "scalar m" using Cons.prems by simp
    then show ?thesis using Cons by (auto elim: utf8_char_shape)
  qed simp
  have "takeWhile is_cont (bs @ utf8 ns) = bs" "dropWhile is_cont (bs @ utf8 ns) = utf8 ns"
    using b(3) hd by (cases "utf8 ns"; simp add: takeWhile_append2 dropWhile_append2)+
  with b(1) Cons show ?case by simp
qed simp

lemma utf8_hd_not_cont:
  assumes "\<forall>n\<in>set ns. scalar n" and "ns \<noteq> []"
  shows "utf8 ns \<noteq> []" and "\<not> is_cont (hd (utf8 ns))"
  using assms by (cases ns; auto elim: utf8_char_shape)+

text \<open>The character boundaries of an encoded string are the ends of its encoded prefixes.\<close>

lemma is_char_boundary_utf8:
  assumes "\<forall>n\<in>set ns. scalar n"
  shows "is_char_boundary (utf8 ns) i \<longleftrightarrow> (\<exists>k\<le>length ns. i = length (utf8 (take k ns)))"
  using assms
proof (induction ns arbitrary: i)
  case Nil
  then show ?case by (auto simp: is_char_boundary_def)
next
  case (Cons n ns)
  obtain b bs where b: "utf8_char n = b # bs" "\<not> is_cont b" "\<forall>c\<in>set bs. is_cont c"
    using Cons.prems by (auto elim: utf8_char_shape)
  let ?m = "length (b # bs)"
  show ?case
  proof (cases "i < ?m")
    case True
    have "is_char_boundary (utf8 (n # ns)) i \<longleftrightarrow> i = 0"
      using True b by (auto simp: is_char_boundary_def nth_append nth_Cons split: nat.splits)
    also have "\<dots> \<longleftrightarrow> (\<exists>k\<le>length (n # ns). i = length (utf8 (take k (n # ns))))"
      using True b(1) by (auto simp: take_Cons' intro: exI [of _ 0] split: if_splits)
    finally show ?thesis .
  next
    case False
    then have i: "i = ?m + (i - ?m)" by simp
    have start: "\<not> is_cont (utf8 ns ! 0)" if "utf8 ns \<noteq> []"
      using utf8_hd_not_cont [of ns] Cons.prems that by (cases "ns = []") (auto simp: hd_conv_nth)
    have "is_char_boundary (utf8 (n # ns)) i \<longleftrightarrow> is_char_boundary (utf8 ns) (i - ?m)"
      using False b(1) start by (auto simp: is_char_boundary_def nth_append)
    also have "\<dots> \<longleftrightarrow> (\<exists>k\<le>length ns. i - ?m = length (utf8 (take k ns)))"
      using Cons by simp
    also have "\<dots> \<longleftrightarrow> (\<exists>k\<le>length ns. i = length (utf8 (take (Suc k) (n # ns))))"
      using False b(1) by auto
    also have "\<dots> \<longleftrightarrow> (\<exists>k\<le>length (n # ns). i = length (utf8 (take k (n # ns))))"
    proof
      assume "\<exists>k\<le>length (n # ns). i = length (utf8 (take k (n # ns)))"
      then obtain k where k: "k \<le> length (n # ns)" "i = length (utf8 (take k (n # ns)))" by blast
      with False have "k \<noteq> 0" by (intro notI) simp
      with k show "\<exists>k\<le>length ns. i = length (utf8 (take (Suc k) (n # ns)))" by (cases k) auto
    qed force
    finally show ?thesis .
  qed
qed

subsection \<open>Truncation\<close>

text \<open>
  \<open>truncate_utf8\<close> (\<open>src/storage.rs\<close>; \<open>truncate\<close> of \<open>src/inspection.rs\<close> is the same loop)
  walks down from the byte limit to a character boundary; \<open>truncate_tail_utf8\<close> walks up from
  the start of the last bytes it may keep.
\<close>

primrec boundary_down :: "string \<Rightarrow> nat \<Rightarrow> nat" where
  "boundary_down s 0 = 0"
| "boundary_down s (Suc n) =
     (if is_char_boundary s (Suc n) then Suc n else boundary_down s n)"

definition truncate_utf8 :: "string \<Rightarrow> nat \<Rightarrow> string" where
  "truncate_utf8 value maximum_bytes =
     (if length value \<le> maximum_bytes then value
      else take (boundary_down value maximum_bytes) value)"

function boundary_up :: "string \<Rightarrow> nat \<Rightarrow> nat" where
  "boundary_up s n = (if length s \<le> n \<or> is_char_boundary s n then n else boundary_up s (Suc n))"
  by pat_completeness auto
termination
  by (relation "measure (\<lambda>(s, n). length s - n)") auto

declare boundary_up.simps [simp del]

definition truncate_tail_utf8 :: "string \<Rightarrow> nat \<Rightarrow> string" where
  "truncate_tail_utf8 value maximum_bytes =
     (if length value \<le> maximum_bytes then value
      else drop (boundary_up value (length value - maximum_bytes)) value)"

lemma boundary_down_le: "boundary_down s n \<le> n"
  by (induction n) auto

lemma boundary_down_boundary: "is_char_boundary s (boundary_down s n)"
  by (induction n) (auto simp: is_char_boundary_def)

lemma boundary_down_max: "is_char_boundary s m \<Longrightarrow> m \<le> n \<Longrightarrow> m \<le> boundary_down s n"
  by (induction n) (auto simp: le_Suc_eq)

lemma boundary_up_spec:
  assumes "n \<le> length s"
  shows "n \<le> boundary_up s n" and "boundary_up s n \<le> length s"
    and "is_char_boundary s (boundary_up s n)"
  using assms
proof (induction s n rule: boundary_up.induct)
  case (1 s n)
  { case 1 then show ?case using "1.IH"(1) by (subst boundary_up.simps) (auto dest: Suc_leD) }
  { case 2 then show ?case using "1.IH"(2) by (subst boundary_up.simps) auto }
  { case 3 then show ?case using "1.IH"(3)
      by (subst boundary_up.simps) (auto simp: is_char_boundary_def) }
qed

lemma boundary_up_min:
  assumes "is_char_boundary s m" and "n \<le> m" and "m \<le> length s"
  shows "boundary_up s n \<le> m"
  using assms
proof (induction s n rule: boundary_up.induct)
  case (1 s n)
  show ?case
  proof (cases "length s \<le> n \<or> is_char_boundary s n")
    case True
    with "1.prems" show ?thesis by (simp add: boundary_up.simps [of s n])
  next
    case False
    with "1.prems" have "n \<noteq> m" by auto
    with "1.prems" have "Suc n \<le> m" by simp
    with 1 False have "boundary_up s (Suc n) \<le> m" by simp
    with False show ?thesis by (simp add: boundary_up.simps [of s n])
  qed
qed

lemma length_truncate_utf8: "length (truncate_utf8 s n) \<le> n"
  using boundary_down_le [of s n] by (simp add: truncate_utf8_def)

lemma length_truncate_tail_utf8: "length (truncate_tail_utf8 s n) \<le> n"
proof (cases "length s \<le> n")
  case False
  have "length s - n \<le> boundary_up s (length s - n)" by (rule boundary_up_spec) simp
  with False show ?thesis by (simp add: truncate_tail_utf8_def)
qed (simp add: truncate_tail_utf8_def)

lemma utf8_char_not_Nil [simp]: "utf8_char n \<noteq> []"
  by (simp add: utf8_char_def)

lemma utf8_prefix_mono:
  "j < k \<Longrightarrow> k \<le> length ns \<Longrightarrow> length (utf8 (take j ns)) < length (utf8 (take k ns))"
proof (induction k)
  case (Suc k)
  have "length (utf8 (take k ns)) < length (utf8 (take (Suc k) ns))"
    using Suc.prems by (simp add: take_Suc_conv_app_nth)
  with Suc show ?case by (cases "j = k") auto
qed simp

subsection \<open>Decimal and hexadecimal rendering\<close>

fun nat_dec :: "nat \<Rightarrow> string" where
  "nat_dec n = (if n < 10 then [char_of (48 + n)] else nat_dec (n div 10) @ [char_of (48 + n mod 10)])"

declare nat_dec.simps [simp del]

lemma nat_dec_digits: "c \<in> set (nat_dec n) \<Longrightarrow> is_ascii_digit c"
proof (induction n rule: nat_dec.induct)
  case (1 n)
  show ?case
  proof (cases "n < 10")
    case True
    with "1.prems" show ?thesis
      by (subst (asm) nat_dec.simps) (simp add: is_ascii_digit_def byte_char_of)
  next
    case False
    have "n mod 10 < 10" by simp
    with False 1 show ?thesis
      by (subst (asm) nat_dec.simps) (auto simp: is_ascii_digit_def byte_char_of)
  qed
qed

definition dec_value :: "string \<Rightarrow> nat" where
  "dec_value s = foldl (\<lambda>a c. 10 * a + (byte c - 48)) 0 s"

lemma dec_value_nat_dec: "dec_value (nat_dec n) = n"
proof (induction n rule: nat_dec.induct)
  case (1 n)
  show ?case
  proof (cases "n < 10")
    case True
    then show ?thesis by (subst nat_dec.simps) (simp add: dec_value_def byte_char_of)
  next
    case False
    have "n mod 10 < 10" by simp
    then have "byte (char_of (48 + n mod 10)) = 48 + n mod 10" by (intro byte_char_of) simp
    with False 1 show ?thesis by (subst nat_dec.simps) (simp add: dec_value_def)
  qed
qed

lemma nat_dec_inject [simp]: "nat_dec m = nat_dec n \<longleftrightarrow> m = n"
  by (metis dec_value_nat_dec)

definition int_dec :: "int \<Rightarrow> string" where
  "int_dec i = (if i < 0 then CHR ''-'' # nat_dec (nat (- i)) else nat_dec (nat i))"

definition lower_hex :: string where
  "lower_hex = ''0123456789abcdef''"

definition hex_pair :: "8 word \<Rightarrow> string" where
  "hex_pair b = [lower_hex ! unat (drop_bit 4 b), lower_hex ! unat (b AND 15)]"

definition encode_lower :: "8 word list \<Rightarrow> string" where
  "encode_lower bytes = concat (map hex_pair bytes)"

subsection \<open>What truncation keeps\<close>

text \<open>
  Truncation for storage keeps whole characters and as many as fit: for the UTF-8 bytes of
  any list of scalar values, \<open>truncate_utf8\<close> returns the encoding of a prefix of that list, it
  has at most the allowed number of bytes, and one character more would not fit. In particular
  the walk to a character boundary always ends and never cuts a character in half.
\<close>

theorem truncate_utf8_longest_prefix:
  assumes "\<forall>c\<in>set cs. scalar c"
  shows "\<exists>k\<le>length cs. truncate_utf8 (utf8 cs) n = utf8 (take k cs)
    \<and> length (utf8 (take k cs)) \<le> n
    \<and> (\<forall>j\<le>length cs. length (utf8 (take j cs)) \<le> n \<longrightarrow> j \<le> k)"
proof (cases "length (utf8 cs) \<le> n")
  case True
  then show ?thesis by (intro exI [of _ "length cs"]) (simp add: truncate_utf8_def)
next
  case False
  let ?b = "boundary_down (utf8 cs) n"
  obtain k where k: "k \<le> length cs" "?b = length (utf8 (take k cs))"
    using boundary_down_boundary [of "utf8 cs" n] is_char_boundary_utf8 [OF assms] by blast
  have "utf8 cs = utf8 (take k cs) @ utf8 (drop k cs)"
    by (metis append_take_drop_id utf8_append)
  with False k(2) have eq: "truncate_utf8 (utf8 cs) n = utf8 (take k cs)"
    by (metis append_eq_conv_conj truncate_utf8_def)
  have max: "j \<le> k" if j: "j \<le> length cs" "length (utf8 (take j cs)) \<le> n" for j
  proof (rule ccontr)
    assume "\<not> j \<le> k"
    then have "?b < length (utf8 (take j cs))"
      using utf8_prefix_mono [of k j cs] j(1) k(2) by simp
    moreover have "length (utf8 (take j cs)) \<le> ?b"
      using j is_char_boundary_utf8 [OF assms] by (intro boundary_down_max) auto
    ultimately show False by simp
  qed
  show ?thesis
    using k eq max boundary_down_le [of "utf8 cs" n] by (intro exI [of _ k]) simp
qed

theorem truncate_utf8_longest_prefix_witness:
  "truncate_utf8 (utf8 [104, 233, 8364]) 5 = utf8 [104, 233]"
proof -
  have "\<exists>k\<le>3. truncate_utf8 (utf8 [104, 233, 8364]) 5 = utf8 (take k [104, 233, 8364])
    \<and> length (utf8 (take k [104, 233, 8364])) \<le> 5
    \<and> (\<forall>j\<le>3. length (utf8 (take j [104, 233, 8364])) \<le> 5 \<longrightarrow> j \<le> k)"
    using truncate_utf8_longest_prefix [of "[104, 233, 8364]" 5]
    by (simp add: scalar_def numeral_3_eq_3)
  then obtain k where k: "k \<le> 3"
      "truncate_utf8 (utf8 [104, 233, 8364]) 5 = utf8 (take k [104, 233, 8364])"
      "length (utf8 (take k [104, 233, 8364])) \<le> 5"
      "\<forall>j\<le>3. length (utf8 (take j [104, 233, 8364])) \<le> 5 \<longrightarrow> j \<le> k"
    by blast
  have "2 \<le> k" using k(4)[rule_format, of 2] by (simp add: utf8_char_def)
  moreover have "k \<noteq> 3" using k(3) by (intro notI) (simp add: utf8_char_def)
  ultimately have "k = 2" using k(1) by simp
  with k(2) show ?thesis by simp
qed

end
