(* ===== verification/Ledger_Data.thy ===== *)
theory Ledger_Data
  imports Rust_Text
begin

text \<open>
  The durable data of the ledger (\<open>src/storage.rs\<close>): the enumerations and structs the source
  declares, one row record per SQL table, and the whole database as one record of tables.
  Columns that are \<open>NULL\<close>-able are options; timestamps and row ids are \<open>int\<close> (\<open>i64\<close>), process
  ids and counters are \<open>nat\<close> (\<open>u32\<close>, \<open>usize\<close>). Errors are values of \<open>ledger_error\<close>, one
  constructor per \<open>bail!\<close> of the source; an operation that fails returns \<open>Inl\<close> and leaves the
  database as it was, because every operation is one transaction (or one statement).
\<close>

subsection \<open>Enumerations\<close>

datatype task_state = Queued | Running | Succeeded | Failed | Cancelled

fun is_terminal :: "task_state \<Rightarrow> bool" where
  "is_terminal s = (s = Succeeded \<or> s = Failed \<or> s = Cancelled)"

fun task_state_as_str :: "task_state \<Rightarrow> string" where
  "task_state_as_str Queued = ''queued''"
| "task_state_as_str Running = ''running''"
| "task_state_as_str Succeeded = ''succeeded''"
| "task_state_as_str Failed = ''failed''"
| "task_state_as_str Cancelled = ''cancelled''"

definition task_state_from_str :: "string \<Rightarrow> string + task_state" where
  "task_state_from_str value =
     (if value = ''queued'' then Inr Queued
      else if value = ''running'' then Inr Running
      else if value = ''succeeded'' then Inr Succeeded
      else if value = ''failed'' then Inr Failed
      else if value = ''cancelled'' then Inr Cancelled
      else Inl value)"

datatype run_outcome = Running | Succeeded | Failed | Cancelled

fun run_outcome_as_str :: "run_outcome \<Rightarrow> string" where
  "run_outcome_as_str run_outcome.Running = ''running''"
| "run_outcome_as_str run_outcome.Succeeded = ''succeeded''"
| "run_outcome_as_str run_outcome.Failed = ''failed''"
| "run_outcome_as_str run_outcome.Cancelled = ''cancelled''"

datatype pr_event_state = Observed | Claimed | AsanaApplied | Consumed

definition pull_request_event_state_of_str :: "string \<Rightarrow> pr_event_state option" where
  "pull_request_event_state_of_str value =
     (if value = ''observed'' then Some Observed
      else if value = ''claimed'' then Some Claimed
      else if value = ''asana_applied'' then Some AsanaApplied
      else if value = ''consumed'' then Some Consumed
      else None)"

datatype continuation_request = ContQueued | ContDuplicate | ContUnsafe | ContLimitReached

text \<open>The life cycle order of an event, as the source's comment describes it.\<close>

instantiation pr_event_state :: linorder
begin

fun pr_event_rank :: "pr_event_state \<Rightarrow> nat" where
  "pr_event_rank Observed = 0"
| "pr_event_rank Claimed = 1"
| "pr_event_rank AsanaApplied = 2"
| "pr_event_rank Consumed = 3"

definition less_eq_pr_event_state :: "pr_event_state \<Rightarrow> pr_event_state \<Rightarrow> bool" where
  "a \<le> b \<longleftrightarrow> pr_event_rank a \<le> pr_event_rank b"

definition less_pr_event_state :: "pr_event_state \<Rightarrow> pr_event_state \<Rightarrow> bool" where
  "a < b \<longleftrightarrow> pr_event_rank a < pr_event_rank b"

instance
proof
  fix a b c :: pr_event_state
  show "(a < b) = (a \<le> b \<and> \<not> b \<le> a)"
    by (auto simp: less_eq_pr_event_state_def less_pr_event_state_def)
  show "a \<le> a" by (simp add: less_eq_pr_event_state_def)
  show "a \<le> b \<Longrightarrow> b \<le> c \<Longrightarrow> a \<le> c" by (simp add: less_eq_pr_event_state_def)
  show "a \<le> b \<Longrightarrow> b \<le> a \<Longrightarrow> a = b"
    by (cases a; cases b) (auto simp: less_eq_pr_event_state_def)
  show "a \<le> b \<or> b \<le> a" by (auto simp: less_eq_pr_event_state_def)
qed

end

subsection \<open>Task identity\<close>

datatype task_identity =
    Ticket string string string string \<comment> \<open>repository, workflow, ticket, revision\<close>
  | Scheduled string string string \<comment> \<open>repository, workflow, scheduled instant\<close>

subsection \<open>Row records\<close>

record task =
  t_id :: int
  t_identity_key :: string
  t_kind :: string
  t_repository :: string
  t_workflow :: string
  t_source_item :: "string option"
  t_payload :: "string option"
  t_state :: task_state
  t_created_at :: int
  t_updated_at :: int
  t_recovery_source_run_id :: "int option"

record run =
  r_id :: int
  r_task_id :: int
  r_workflow :: string
  r_repository :: string
  r_source_item :: "string option"
  r_runtime :: string
  r_started_at :: int
  r_finished_at :: "int option"
  r_outcome :: run_outcome
  r_result :: "string option"
  r_error :: "string option"
  r_session_id :: "string option"
  r_cancellation_requested_at :: "int option"
  r_owner_pid :: "nat option"
  r_owner_id :: "string option"
  r_process_id :: "nat option"
  r_process_identity :: "string option"
  r_pull_request :: "string option"
  r_last_activity_at :: int
  r_activity :: "string option"
  r_working_directory :: "string option"
  r_recovery_of :: "int option"
  r_recovery_attempt :: nat
  r_base_branch :: "string option"
  r_base_sha :: "string option"
  r_factory_branch :: "string option"
  r_workspace_kind :: "string option"
  r_agent_profile :: "string option"
  r_model :: "string option"
  r_reasoning_effort :: "string option"
  r_service_tier :: "string option"

record enqueued_task =
  enq_task :: task
  enq_created :: bool

record observed_ticket =
  ot_source_item :: string
  ot_revision :: string
  ot_eligible :: bool
  ot_payload :: string

record trigger_observation =
  to_repository :: string
  to_workflow :: string
  to_source_item :: string
  to_revision :: string
  to_eligible :: bool
  to_payload :: string
  to_observed_at :: int

record schedule_cursor =
  sc_repository :: string
  sc_workflow :: string
  sc_fingerprint :: string
  sc_next_due_at :: int
  sc_updated_at :: int

record schedule_owner =
  so_repository :: string
  so_workflow :: string
  so_owner_id :: string
  so_fingerprint :: string

record daemon_owner =
  do_owner_id :: string
  do_pid :: nat
  do_heartbeat_at :: int

record approval_evidence =
  ev_artifact_id :: nat
  ev_label_event_id :: nat
  ev_approver_id :: nat
  ev_content_hash :: string
  ev_workflow_hash :: string
  ev_source_revision :: string

record approval_consumption =
  ac_artifact_id :: nat
  ac_label_event_id :: nat
  ac_task_id :: int
  ac_approver_id :: nat
  ac_content_hash :: string
  ac_workflow_hash :: string
  ac_source_revision :: string
  ac_consumed_at :: int

record approval_reservation =
  ar_repository :: string
  ar_issue :: nat
  ar_reservation_id :: string
  ar_created_at :: int

record project_claim_evidence =
  pe_project_id :: string
  pe_project_item_id :: string
  pe_status_field_id :: string
  pe_expected_option_id :: string
  pe_active_option_id :: string

record project_claim =
  pc_task_id :: int
  pc_evidence :: project_claim_evidence
  pc_claimed_at :: int

record task_workspace =
  w_task_id :: int
  w_kind :: string
  w_backend :: string
  w_repository :: string
  w_base_branch :: string
  w_base_sha :: string
  w_factory_branch :: "string option"
  w_path :: string
  w_state :: string
  w_status_summary :: "string option"
  w_created_at :: int
  w_updated_at :: int
  w_cleaned_at :: "int option"

record run_container =
  rc_run_id :: int
  rc_container_id :: string
  rc_instance_id :: string
  rc_image_ref :: string
  rc_image_id :: string
  rc_limits_json :: string
  rc_state :: string
  rc_exit_code :: "int option"
  rc_logs :: "string option"
  rc_created_at :: int
  rc_updated_at :: int
  rc_removed_at :: "int option"

record run_sandbox =
  rs_run_id :: int
  rs_sandbox_name :: string
  rs_instance_id :: string
  rs_template_ref :: string
  rs_sbx_version :: string
  rs_limits_json :: string
  rs_state :: string
  rs_exit_code :: "int option"
  rs_logs :: "string option"
  rs_created_at :: int
  rs_updated_at :: int
  rs_removed_at :: "int option"

record repository_health_snapshot =
  rh_repository :: string
  rh_state :: string
  rh_validation_error :: "string option"
  rh_consecutive_failures :: nat
  rh_next_retry_at :: "int option"
  rh_updated_at :: int

record poll_status =
  ps_repository :: string
  ps_workflow :: string
  ps_outcome :: string
  ps_issues_seen :: nat
  ps_tasks_created :: nat
  ps_error :: "string option"
  ps_polled_at :: int

record pr_association =
  pa_repository :: string
  pa_task_gid :: string
  pa_pull_request :: string
  pa_associated_at :: int

record pr_event =
  pv_repository :: string
  pv_task_gid :: string
  pv_fingerprint :: string
  pv_state :: pr_event_state
  pv_observed_at :: int
  pv_claimed_at :: "int option"
  pv_applied_at :: "int option"
  pv_consumed_at :: "int option"

record continuation =
  cn_repository :: string
  cn_task_gid :: string
  cn_fingerprint :: string
  cn_task_id :: int
  cn_requested_at :: int

subsection \<open>The database\<close>

record ledger =
  tasks :: "task list"
  runs :: "run list"
  trigger_observations :: "trigger_observation list"
  schedule_cursors :: "schedule_cursor list"
  schedule_owners :: "schedule_owner list"
  daemon_owners :: "daemon_owner list"
  approval_consumptions :: "approval_consumption list"
  approval_reservations :: "approval_reservation list"
  project_claims :: "project_claim list"
  task_workspaces :: "task_workspace list"
  run_containers :: "run_container list"
  run_sandboxes :: "run_sandbox list"
  repository_health :: "repository_health_snapshot list"
  poll_statuses :: "poll_status list"
  autonomous_pull_requests :: "pr_association list"
  autonomous_pull_request_events :: "pr_event list"
  autonomous_continuations :: "continuation list"

definition empty_ledger :: ledger where
  "empty_ledger = \<lparr>tasks = [], runs = [], trigger_observations = [], schedule_cursors = [],
     schedule_owners = [], daemon_owners = [], approval_consumptions = [],
     approval_reservations = [], project_claims = [], task_workspaces = [], run_containers = [],
     run_sandboxes = [], repository_health = [], poll_statuses = [],
     autonomous_pull_requests = [], autonomous_pull_request_events = [],
     autonomous_continuations = []\<rparr>"

datatype ledger_error =
    EmptyIdentityField string
  | EmptyField
  | ConstraintViolation
  | RowDisappeared
  | NotClaimedAtomically int
  | NoLiveLease string
  | MissingTask int
  | TaskNotRunning int
  | RunMissingOrTerminal int
  | RunLaunched int
  | TerminalOutcomeRequired
  | ProcessIdZero
  | WorkingDirectoryMissing
  | RuntimeMissing
  | NotScheduled
  | OccurrenceNotLater
  | PayloadInvalid
  | CursorChanged
  | ScheduleOwnedElsewhere string
  | SignalFailed int
  | WorkspaceConflict int
  | WorkspaceLimit "int list"
  | WorkspaceStateInvalid string
  | WorkspaceMissing int
  | ContainerMissing int
  | OwnerNotRegistered string
  | AssociationContradictory string
  | AssociationNotCanonical
  | EventKeyInvalid
  | ClaimDiffers int
  | IssueActive nat
  | ReservationExists nat
  | ReservationLost nat
  | ApprovalConsumed nat nat
  | PollOutcomeInvalid

end
