(* ===== verification/Task_Identity.thy ===== *)
theory Task_Identity
  imports Ledger_Data
begin

text \<open>
  The durable identity of a task (\<open>TaskIdentity\<close> of \<open>src/storage.rs\<close>). Its key is the text the
  database keeps unique, so two identities must never share a key: each component is written
  with its length in front.
\<close>

fun identity_fields :: "task_identity \<Rightarrow> (string \<times> string) list" where
  "identity_fields (Ticket repository workflow ticket revision) =
     [(''repository'', repository), (''workflow'', workflow), (''ticket'', ticket),
      (''revision'', revision)]"
| "identity_fields (Scheduled repository workflow scheduled_at) =
     [(''repository'', repository), (''workflow'', workflow), (''scheduled_at'', scheduled_at)]"

definition identity_validate :: "task_identity \<Rightarrow> ledger_error + unit" where
  "identity_validate i = (case List.find (\<lambda>(name, value). blank value) (identity_fields i) of
      Some (name, value) \<Rightarrow> Inl (EmptyIdentityField name)
    | None \<Rightarrow> Inr ())"

definition identity_ticket ::
  "string \<Rightarrow> string \<Rightarrow> string \<Rightarrow> string \<Rightarrow> ledger_error + task_identity" where
  "identity_ticket repository workflow ticket revision =
     (let identity = Ticket repository workflow ticket revision in
      case identity_validate identity of Inl e \<Rightarrow> Inl e | Inr _ \<Rightarrow> Inr identity)"

definition identity_scheduled ::
  "string \<Rightarrow> string \<Rightarrow> string \<Rightarrow> ledger_error + task_identity" where
  "identity_scheduled repository workflow scheduled_at =
     (let identity = Scheduled repository workflow scheduled_at in
      case identity_validate identity of Inl e \<Rightarrow> Inl e | Inr _ \<Rightarrow> Inr identity)"

definition key_component :: "string \<Rightarrow> string" where
  "key_component value = nat_dec (length value) @ '':'' @ value"

fun identity_key :: "task_identity \<Rightarrow> string" where
  "identity_key (Ticket repository workflow ticket revision) =
     ''ticket:'' @ key_component repository @ '':'' @ key_component workflow @ '':''
       @ key_component ticket @ '':'' @ key_component revision"
| "identity_key (Scheduled repository workflow scheduled_at) =
     ''scheduled:'' @ key_component repository @ '':'' @ key_component workflow @ '':''
       @ key_component scheduled_at"

fun identity_repository :: "task_identity \<Rightarrow> string" where
  "identity_repository (Ticket repository _ _ _) = repository"
| "identity_repository (Scheduled repository _ _) = repository"

fun identity_workflow :: "task_identity \<Rightarrow> string" where
  "identity_workflow (Ticket _ workflow _ _) = workflow"
| "identity_workflow (Scheduled _ workflow _) = workflow"

fun identity_source_item :: "task_identity \<Rightarrow> string option" where
  "identity_source_item (Ticket _ _ ticket _) = Some ticket"
| "identity_source_item (Scheduled _ _ _) = None"

fun identity_kind :: "task_identity \<Rightarrow> string" where
  "identity_kind (Ticket _ _ _ _) = ''ticket''"
| "identity_kind (Scheduled _ _ _) = ''scheduled''"

lemma identity_validate_Inr_iff:
  "identity_validate i = Inr u \<longleftrightarrow> (\<forall>(name, value)\<in>set (identity_fields i). \<not> blank value)"
proof (cases "List.find (\<lambda>(name, value). blank value) (identity_fields i)")
  case None
  then have "\<forall>(name, value)\<in>set (identity_fields i). \<not> blank value"
    by (auto simp: find_None_iff)
  with None show ?thesis by (simp add: identity_validate_def)
next
  case (Some p)
  then have "p \<in> set (identity_fields i)" and "blank (snd p)"
    by (auto simp: find_Some_iff split_beta)
  with Some show ?thesis by (cases p) (auto simp: identity_validate_def)
qed

lemma identity_validate_InlD:
  assumes "identity_validate i = Inl e"
  shows "\<exists>name value. (name, value) \<in> set (identity_fields i) \<and> blank value
    \<and> e = EmptyIdentityField name"
proof -
  from assms obtain p where p: "List.find (\<lambda>(name, value). blank value) (identity_fields i) = Some p"
      "e = EmptyIdentityField (fst p)"
    by (auto simp: identity_validate_def split: option.splits prod.splits)
  then have "p \<in> set (identity_fields i)" and "blank (snd p)"
    by (auto simp: find_Some_iff split_beta)
  with p(2) show ?thesis by (cases p) auto
qed

subsection \<open>The key determines the identity\<close>

lemma no_colon_nat_dec: "CHR '':'' \<notin> set (nat_dec n)"
  using nat_dec_digits [of "CHR '':''" n] by (auto simp: is_ascii_digit_def byte_def)

lemma split_at_colon:
  assumes "CHR '':'' \<notin> set a" and "CHR '':'' \<notin> set b"
    and "a @ CHR '':'' # x = b @ CHR '':'' # y"
  shows "a = b" and "x = y"
proof -
  have "split_once CHR '':'' (a @ CHR '':'' # x) = Some (a, x)"
    using assms(1) by (simp add: split_once_Some_iff)
  moreover have "split_once CHR '':'' (b @ CHR '':'' # y) = Some (b, y)"
    using assms(2) by (simp add: split_once_Some_iff)
  ultimately have "Some (a, x) = Some (b, y)" by (simp only: assms(3))
  then show "a = b" and "x = y" by simp_all
qed

lemma key_component_prefix_free:
  assumes "key_component u @ x = key_component v @ y"
  shows "u = v" and "x = y"
proof -
  have eq: "nat_dec (length u) @ CHR '':'' # (u @ x) = nat_dec (length v) @ CHR '':'' # (v @ y)"
    using assms by (simp add: key_component_def)
  have len: "nat_dec (length u) = nat_dec (length v)" and rest: "u @ x = v @ y"
    using split_at_colon [OF no_colon_nat_dec no_colon_nat_dec eq] .
  from len have "length u = length v" by simp
  with rest show "u = v" and "x = y" by simp_all
qed

lemma key_component_colon_inject:
  "key_component u @ CHR '':'' # x = key_component v @ CHR '':'' # y \<longleftrightarrow> u = v \<and> x = y"
  using key_component_prefix_free [of u "CHR '':'' # x" v "CHR '':'' # y"] by auto

lemma key_component_inject: "key_component u = key_component v \<longleftrightarrow> u = v"
  using key_component_prefix_free [of u "[]" v "[]"] by auto

lemma identity_key_inject [simp]: "identity_key i = identity_key j \<longleftrightarrow> i = j"
  by (cases i; cases j) (auto simp: key_component_colon_inject key_component_inject)

text \<open>
  Task identities never collide: two identities with the same database key are the same
  identity, whatever their components contain (colons and digits included). The uniqueness
  constraint on \<open>tasks.identity_key\<close> is therefore uniqueness of the identity itself.
\<close>

theorem identity_key_injective: "inj identity_key"
  by (simp add: inj_def)

end
