(* ===== verification/Json_Value.thy ===== *)
theory Json_Value
  imports Rust_Text "HOL-Library.AList"
begin

text \<open>
  The JSON values that payloads decode to, as \<open>serde_json::Value\<close> presents them, with the
  accessors the source calls on them. Parsing and printing text are the third-party crate's:
  the operations that need them take them as arguments.
\<close>

datatype json =
    JNull
  | JBool bool
  | JNumber string
  | JString string
  | JArray "json list"
  | JObject "(string \<times> json) list"

fun json_get :: "string \<Rightarrow> json \<Rightarrow> json option" where
  "json_get k (JObject fields) = map_of fields k"
| "json_get k _ = None"

fun json_as_str :: "json \<Rightarrow> string option" where
  "json_as_str (JString s) = Some s"
| "json_as_str _ = None"

fun json_as_array :: "json \<Rightarrow> json list option" where
  "json_as_array (JArray xs) = Some xs"
| "json_as_array _ = None"

fun json_as_bool :: "json \<Rightarrow> bool option" where
  "json_as_bool (JBool b) = Some b"
| "json_as_bool _ = None"

fun json_as_object :: "json \<Rightarrow> (string \<times> json) list option" where
  "json_as_object (JObject fields) = Some fields"
| "json_as_object _ = None"

definition json_object_insert :: "string \<Rightarrow> json \<Rightarrow> (string \<times> json) list \<Rightarrow> (string \<times> json) list" where
  "json_object_insert k v fields = AList.update k v fields"

lemma json_get_insert_same [simp]: "json_get k (JObject (json_object_insert k v fields)) = Some v"
  by (simp add: json_object_insert_def update_conv)

lemma json_get_insert_other [simp]:
  "k \<noteq> j \<Longrightarrow> json_get j (JObject (json_object_insert k v fields)) = json_get j (JObject fields)"
  by (simp add: json_object_insert_def update_conv)

text \<open>The string elements of an array: \<open>iter().filter_map(Value::as_str)\<close>.\<close>

definition json_strings :: "json list \<Rightarrow> string list" where
  "json_strings xs = List.map_filter json_as_str xs"

end
