(* ===== verification/Ledger_Core.thy ===== *)
theory Ledger_Core
  imports Ledger_Data Task_Identity Json_Value
begin

text \<open>
  The task and run tables of the ledger: row lookups, row insertion with the schema's unique
  indexes, and the invariant that ties the two tables together. The operations of the queue
  (\<open>Ledger_Queue\<close>, \<open>Ledger_Recovery\<close>, \<open>Ledger_Poll\<close>, \<open>Ledger_Schedule\<close>) are built from these
  and their preservation proofs from the lemmas of the last section.
\<close>

subsection \<open>Constants of the source\<close>

definition MAX_RESULT_BYTES :: nat where "MAX_RESULT_BYTES = 256 * 1024"
definition MAX_ERROR_BYTES :: nat where "MAX_ERROR_BYTES = 64 * 1024"
definition MAX_SESSION_ID_BYTES :: nat where "MAX_SESSION_ID_BYTES = 1024"
definition MAX_ACTIVITY_BYTES :: nat where "MAX_ACTIVITY_BYTES = 64 * 1024"
definition MAX_RECOVERY_ATTEMPTS :: nat where "MAX_RECOVERY_ATTEMPTS = 2"
definition DAEMON_OWNER_LEASE_MILLIS :: int where "DAEMON_OWNER_LEASE_MILLIS = 10000"
definition APPROVAL_RESERVATION_TTL_MILLIS :: int where
  "APPROVAL_RESERVATION_TTL_MILLIS = 10 * 60 * 1000"
definition PULL_REQUEST_CLAIM_LEASE_MILLIS :: int where "PULL_REQUEST_CLAIM_LEASE_MILLIS = 60000"

subsection \<open>Lookups\<close>

definition query_task :: "int \<Rightarrow> ledger \<Rightarrow> task option" where
  "query_task i db = find_where (\<lambda>t. t_id t = i) (tasks db)"

definition query_task_by_key :: "string \<Rightarrow> ledger \<Rightarrow> task option" where
  "query_task_by_key key db = find_where (\<lambda>t. t_identity_key t = key) (tasks db)"

definition query_run :: "int \<Rightarrow> ledger \<Rightarrow> run option" where
  "query_run i db = find_where (\<lambda>r. r_id r = i) (runs db)"

definition runs_for_task :: "int \<Rightarrow> ledger \<Rightarrow> run list" where
  "runs_for_task task_id db = sort_key r_id (filter (\<lambda>r. r_task_id r = task_id) (runs db))"

definition list_runs :: "string option \<Rightarrow> ledger \<Rightarrow> run list" where
  "list_runs workflow db = sort_key r_id
     (filter (\<lambda>r. workflow = None \<or> workflow = Some (r_workflow r)) (runs db))"

definition list_tasks :: "ledger \<Rightarrow> task list" where
  "list_tasks db = sort_key t_id (tasks db)"

text \<open>\<open>ORDER BY created_at, id\<close>: the order in which queued work is claimed.\<close>

definition claim_order :: "task list \<Rightarrow> task list" where
  "claim_order ts = sort_key (\<lambda>t. (t_created_at t, t_id t)) ts"

definition task_is_running :: "int \<Rightarrow> ledger \<Rightarrow> bool" where
  "task_is_running i db = exists_where (\<lambda>t. t_id t = i \<and> t_state t = task_state.Running) (tasks db)"

definition run_is_running :: "int \<Rightarrow> ledger \<Rightarrow> bool" where
  "run_is_running i db = exists_where (\<lambda>r. r_id r = i \<and> r_outcome r = run_outcome.Running) (runs db)"

subsection \<open>Insertion\<close>

text \<open>
  \<open>INSERT OR IGNORE INTO tasks\<close>: the only constraint a generated row can break is
  \<open>UNIQUE(identity_key)\<close>, and then the statement inserts nothing.
\<close>

definition insert_task_or_ignore ::
  "string \<Rightarrow> string \<Rightarrow> string \<Rightarrow> string \<Rightarrow> string option \<Rightarrow> string option \<Rightarrow> int \<Rightarrow> ledger \<Rightarrow> ledger \<times> bool"
where
  "insert_task_or_ignore key kind repository workflow source_item payload now db =
     (if exists_where (\<lambda>t. t_identity_key t = key) (tasks db) then (db, False)
      else (db\<lparr>tasks := tasks db @
        [\<lparr>t_id = next_rowid t_id (tasks db), t_identity_key = key, t_kind = kind,
          t_repository = repository, t_workflow = workflow, t_source_item = source_item,
          t_payload = payload, t_state = task_state.Queued, t_created_at = now,
          t_updated_at = now, t_recovery_source_run_id = None\<rparr>]\<rparr>, True))"

text \<open>A new run row; the columns an \<open>INSERT\<close> does not name are \<open>NULL\<close> (\<open>recovery_attempt\<close> is 0).\<close>

definition new_run :: "int \<Rightarrow> task \<Rightarrow> string \<Rightarrow> int \<Rightarrow> run" where
  "new_run i task runtime now =
     \<lparr>r_id = i, r_task_id = t_id task, r_workflow = t_workflow task,
      r_repository = t_repository task, r_source_item = t_source_item task, r_runtime = runtime,
      r_started_at = now, r_finished_at = None, r_outcome = run_outcome.Running,
      r_result = None, r_error = None, r_session_id = None, r_cancellation_requested_at = None,
      r_owner_pid = None, r_owner_id = None, r_process_id = None, r_process_identity = None,
      r_pull_request = None, r_last_activity_at = now, r_activity = None,
      r_working_directory = None, r_recovery_of = None, r_recovery_attempt = 0,
      r_base_branch = None, r_base_sha = None, r_factory_branch = None, r_workspace_kind = None,
      r_agent_profile = None, r_model = None, r_reasoning_effort = None, r_service_tier = None\<rparr>"

text \<open>
  Inserting a running run obeys the foreign key \<open>task_id REFERENCES tasks(id)\<close> and the partial
  unique index \<open>runs_one_active_per_task_idx ON runs(task_id) WHERE outcome = 'running'\<close>.
\<close>

definition insert_run :: "run \<Rightarrow> ledger \<Rightarrow> ledger_error + ledger" where
  "insert_run r db =
     (if \<not> exists_where (\<lambda>t. t_id t = r_task_id r) (tasks db) then Inl ConstraintViolation
      else if r_outcome r = run_outcome.Running \<and>
        exists_where (\<lambda>x. r_task_id x = r_task_id r \<and> r_outcome x = run_outcome.Running) (runs db)
      then Inl ConstraintViolation
      else Inr (db\<lparr>runs := runs db @ [r]\<rparr>))"

subsection \<open>The invariant of the queue\<close>

definition task_keys_ok :: "task list \<Rightarrow> bool" where
  "task_keys_ok ts \<longleftrightarrow> unique_key t_id ts \<and> unique_key t_identity_key ts"

text \<open>Every run belongs to a task, and a running run to a running task.\<close>

definition run_of_task :: "run \<Rightarrow> task \<Rightarrow> bool" where
  "run_of_task r t \<longleftrightarrow> t_id t = r_task_id r \<and> t_repository t = r_repository r
     \<and> t_workflow t = r_workflow r \<and> t_source_item t = r_source_item r
     \<and> (r_outcome r = run_outcome.Running \<longrightarrow> t_state t = task_state.Running)"

definition runs_fit :: "task list \<Rightarrow> run list \<Rightarrow> bool" where
  "runs_fit ts rs \<longleftrightarrow> (\<forall>r\<in>set rs. \<exists>t\<in>set ts. run_of_task r t)"

definition one_active :: "run list \<Rightarrow> bool" where
  "one_active rs \<longleftrightarrow> unique_key r_task_id (filter (\<lambda>r. r_outcome r = run_outcome.Running) rs)"

text \<open>A recovery source is a finished run of the same task with recovery attempts left.\<close>

definition sources_ok :: "task list \<Rightarrow> run list \<Rightarrow> bool" where
  "sources_ok ts rs \<longleftrightarrow> (\<forall>t\<in>set ts. \<forall>i. t_recovery_source_run_id t = Some i \<longrightarrow>
     (\<exists>r\<in>set rs. r_id r = i \<and> r_task_id r = t_id t \<and> r_outcome r \<noteq> run_outcome.Running
        \<and> r_recovery_attempt r < MAX_RECOVERY_ATTEMPTS))"

text \<open>Recovery chains: a recovery run continues a finished, older run of its task by one attempt.\<close>

definition continues_run :: "run \<Rightarrow> run \<Rightarrow> bool" where
  "continues_run r p \<longleftrightarrow> r_task_id p = r_task_id r \<and> r_id p < r_id r
     \<and> r_outcome p \<noteq> run_outcome.Running \<and> r_recovery_attempt r = Suc (r_recovery_attempt p)"

definition chains_ok :: "run list \<Rightarrow> bool" where
  "chains_ok rs \<longleftrightarrow> (\<forall>r\<in>set rs. r_recovery_attempt r \<le> MAX_RECOVERY_ATTEMPTS \<and>
     (case r_recovery_of r of
        None \<Rightarrow> r_recovery_attempt r = 0
      | Some i \<Rightarrow> \<exists>p\<in>set rs. r_id p = i \<and> continues_run r p))"

definition queue_ok :: "task list \<Rightarrow> run list \<Rightarrow> bool" where
  "queue_ok ts rs \<longleftrightarrow> task_keys_ok ts \<and> unique_key r_id rs \<and> runs_fit ts rs \<and> one_active rs
     \<and> sources_ok ts rs \<and> chains_ok rs"

definition queue_inv :: "ledger \<Rightarrow> bool" where
  "queue_inv db \<longleftrightarrow> queue_ok (tasks db) (runs db)"

subsection \<open>How updates keep the invariant\<close>

text \<open>Updates that leave the identifying columns of a row alone.\<close>

definition keeps_task :: "(task \<Rightarrow> task) \<Rightarrow> bool" where
  "keeps_task f \<longleftrightarrow> (\<forall>t. t_id (f t) = t_id t \<and> t_identity_key (f t) = t_identity_key t
     \<and> t_repository (f t) = t_repository t \<and> t_workflow (f t) = t_workflow t
     \<and> t_source_item (f t) = t_source_item t)"

definition keeps_run :: "(run \<Rightarrow> run) \<Rightarrow> bool" where
  "keeps_run f \<longleftrightarrow> (\<forall>r. r_id (f r) = r_id r \<and> r_task_id (f r) = r_task_id r
     \<and> r_repository (f r) = r_repository r \<and> r_workflow (f r) = r_workflow r
     \<and> r_source_item (f r) = r_source_item r \<and> r_recovery_of (f r) = r_recovery_of r
     \<and> r_recovery_attempt (f r) = r_recovery_attempt r)"

lemma task_keys_ok_update: "keeps_task f \<Longrightarrow> task_keys_ok (update_where P f ts) = task_keys_ok ts"
  by (simp add: task_keys_ok_def keeps_task_def unique_key_update_where)

lemma run_keys_update: "keeps_run f \<Longrightarrow> unique_key r_id (update_where P f rs) = unique_key r_id rs"
  by (simp add: keeps_run_def unique_key_update_where)

text \<open>A run may only be closed: a finished run stays finished.\<close>

definition closes_run :: "(run \<Rightarrow> run) \<Rightarrow> bool" where
  "closes_run f \<longleftrightarrow> keeps_run f \<and>
     (\<forall>r. r_outcome r \<noteq> run_outcome.Running \<longrightarrow> r_outcome (f r) \<noteq> run_outcome.Running)"

lemma runs_fit_update_runs:
  assumes "runs_fit ts rs" and "closes_run f"
  shows "runs_fit ts (update_where P f rs)"
proof -
  have "\<exists>t\<in>set ts. run_of_task (f r) t" if "r \<in> set rs" for r
    using that assms by (fastforce simp: runs_fit_def run_of_task_def closes_run_def keeps_run_def)
  with assms(1) show ?thesis by (auto simp: runs_fit_def set_update_where)
qed

lemma runs_fit_update_tasks:
  assumes "runs_fit ts rs" and "keeps_task f"
    and "\<And>t r. t \<in> set ts \<Longrightarrow> r \<in> set rs \<Longrightarrow> P t \<Longrightarrow> r_task_id r = t_id t \<Longrightarrow>
      r_outcome r = run_outcome.Running \<Longrightarrow> t_state (f t) = task_state.Running"
  shows "runs_fit (update_where P f ts) rs"
  unfolding runs_fit_def
proof
  fix r assume r: "r \<in> set rs"
  with assms(1) obtain t where t: "t \<in> set ts" "run_of_task r t" by (auto simp: runs_fit_def)
  let ?u = "if P t then f t else t"
  have "run_of_task r ?u"
    using t assms(2) assms(3) [OF t(1) r] by (auto simp: run_of_task_def keeps_task_def)
  moreover have "?u \<in> set (update_where P f ts)" using t(1) by (auto simp: set_update_where)
  ultimately show "\<exists>t\<in>set (update_where P f ts). run_of_task r t" by blast
qed

lemma one_active_update:
  assumes "one_active rs" and "closes_run f"
  shows "one_active (update_where P f rs)"
proof -
  have sub: "set (map r_task_id (filter (\<lambda>r. r_outcome r = run_outcome.Running) (update_where P f rs)))
      \<subseteq> set (map r_task_id (filter (\<lambda>r. r_outcome r = run_outcome.Running) rs))" for rs
    using assms(2) by (force simp: set_update_where closes_run_def keeps_run_def split: if_splits)
  show ?thesis
    using assms(1)
  proof (induction rs)
    case (Cons r rs)
    have "r_task_id (f r) = r_task_id r" using assms(2) by (simp add: closes_run_def keeps_run_def)
    moreover have "r_outcome (f r) = run_outcome.Running \<Longrightarrow> r_outcome r = run_outcome.Running"
      using assms(2) by (auto simp: closes_run_def)
    ultimately show ?case
      using Cons sub [of rs]
      by (auto simp: one_active_def unique_key_def update_where_def split: if_splits)
  qed (simp add: one_active_def)
qed

lemma sources_ok_update_runs:
  assumes "sources_ok ts rs" and "closes_run f"
  shows "sources_ok ts (update_where P f rs)"
  unfolding sources_ok_def
proof (intro ballI allI impI)
  fix t i assume "t \<in> set ts" and "t_recovery_source_run_id t = Some i"
  with assms(1) obtain r where r: "r \<in> set rs" "r_id r = i" "r_task_id r = t_id t"
      "r_outcome r \<noteq> run_outcome.Running" "r_recovery_attempt r < MAX_RECOVERY_ATTEMPTS"
    by (auto simp: sources_ok_def)
  then show "\<exists>r\<in>set (update_where P f rs). r_id r = i \<and> r_task_id r = t_id t
      \<and> r_outcome r \<noteq> run_outcome.Running \<and> r_recovery_attempt r < MAX_RECOVERY_ATTEMPTS"
    using assms(2)
    by (intro bexI [of _ "if P r then f r else r"])
      (auto simp: closes_run_def keeps_run_def set_update_where)
qed

lemma sources_ok_update_tasks:
  assumes "sources_ok ts rs" and "keeps_task f"
    and "\<And>t i. t \<in> set ts \<Longrightarrow> P t \<Longrightarrow> t_recovery_source_run_id (f t) = Some i \<Longrightarrow>
      t_recovery_source_run_id t = Some i \<or>
      (\<exists>r\<in>set rs. r_id r = i \<and> r_task_id r = t_id t \<and> r_outcome r \<noteq> run_outcome.Running
        \<and> r_recovery_attempt r < MAX_RECOVERY_ATTEMPTS)"
  shows "sources_ok (update_where P f ts) rs"
  unfolding sources_ok_def
proof (intro ballI allI impI)
  fix u i assume "u \<in> set (update_where P f ts)" and src: "t_recovery_source_run_id u = Some i"
  then obtain t where t: "t \<in> set ts" "u = (if P t then f t else t)" by (auto simp: set_update_where)
  then have id: "t_id u = t_id t" using assms(2) by (simp add: keeps_task_def)
  from t src assms(3) [OF t(1)] assms(1)
  show "\<exists>r\<in>set rs. r_id r = i \<and> r_task_id r = t_id u \<and> r_outcome r \<noteq> run_outcome.Running
      \<and> r_recovery_attempt r < MAX_RECOVERY_ATTEMPTS"
    unfolding id sources_ok_def by (auto split: if_splits)
qed

lemma chains_ok_update:
  assumes "chains_ok rs" and "closes_run f"
  shows "chains_ok (update_where P f rs)"
  unfolding chains_ok_def
proof
  fix u assume "u \<in> set (update_where P f rs)"
  then obtain r where r: "r \<in> set rs" "u = (if P r then f r else r)" by (auto simp: set_update_where)
  have k: "r_recovery_of u = r_recovery_of r" "r_recovery_attempt u = r_recovery_attempt r"
      "r_id u = r_id r" "r_task_id u = r_task_id r"
    using r(2) assms(2) by (auto simp: closes_run_def keeps_run_def)
  have parent: "\<exists>p\<in>set (update_where P f rs). r_id p = i \<and> continues_run u p"
    if "p \<in> set rs" "r_id p = i" "continues_run r p" for p i
    using that assms(2) k
    by (intro bexI [of _ "if P p then f p else p"])
      (auto simp: closes_run_def keeps_run_def continues_run_def set_update_where)
  from assms(1) r(1) have "r_recovery_attempt r \<le> MAX_RECOVERY_ATTEMPTS \<and>
     (case r_recovery_of r of None \<Rightarrow> r_recovery_attempt r = 0
      | Some i \<Rightarrow> \<exists>p\<in>set rs. r_id p = i \<and> continues_run r p)" by (simp add: chains_ok_def)
  with parent show "r_recovery_attempt u \<le> MAX_RECOVERY_ATTEMPTS \<and>
     (case r_recovery_of u of None \<Rightarrow> r_recovery_attempt u = 0
      | Some i \<Rightarrow> \<exists>p\<in>set (update_where P f rs). r_id p = i \<and> continues_run u p)"
    by (auto simp: k split: option.splits)
qed

text \<open>Any update of run columns that neither renames a run nor reopens it is harmless.\<close>

lemma queue_ok_update_runs:
  "queue_ok ts rs \<Longrightarrow> closes_run f \<Longrightarrow> queue_ok ts (update_where P f rs)"
  by (simp add: queue_ok_def run_keys_update closes_run_def runs_fit_update_runs
      one_active_update sources_ok_update_runs chains_ok_update)

lemma queue_ok_update_tasks:
  assumes "queue_ok ts rs" and "keeps_task f"
    and "\<And>t r. t \<in> set ts \<Longrightarrow> r \<in> set rs \<Longrightarrow> P t \<Longrightarrow> r_task_id r = t_id t \<Longrightarrow>
      r_outcome r = run_outcome.Running \<Longrightarrow> t_state (f t) = task_state.Running"
    and "\<And>t i. t \<in> set ts \<Longrightarrow> P t \<Longrightarrow> t_recovery_source_run_id (f t) = Some i \<Longrightarrow>
      t_recovery_source_run_id t = Some i \<or>
      (\<exists>r\<in>set rs. r_id r = i \<and> r_task_id r = t_id t \<and> r_outcome r \<noteq> run_outcome.Running
        \<and> r_recovery_attempt r < MAX_RECOVERY_ATTEMPTS)"
  shows "queue_ok (update_where P f ts) rs"
  using assms runs_fit_update_tasks [of ts rs f P] sources_ok_update_tasks [of ts rs f P]
  by (simp add: queue_ok_def task_keys_ok_update)

lemma queue_ok_insert_task:
  assumes "queue_ok ts rs" and "t_id t = next_rowid t_id ts"
    and "\<not> exists_where (\<lambda>u. t_identity_key u = t_identity_key t) ts"
    and "t_recovery_source_run_id t = None"
  shows "queue_ok (ts @ [t]) rs"
  using assms unfolding queue_ok_def task_keys_ok_def
  by (auto simp: unique_key_next_rowid unique_key_append1 [of t_identity_key] runs_fit_def
      sources_ok_def)

lemma queue_ok_insert_run:
  assumes ok: "queue_ok ts rs" and id: "r_id r = next_rowid r_id rs"
    and fit: "t \<in> set ts" "run_of_task r t"
    and free: "\<not> exists_where (\<lambda>x. r_task_id x = r_task_id r \<and> r_outcome x = run_outcome.Running) rs"
    and chain: "r_recovery_attempt r \<le> MAX_RECOVERY_ATTEMPTS"
      "case r_recovery_of r of None \<Rightarrow> r_recovery_attempt r = 0
       | Some i \<Rightarrow> \<exists>p\<in>set rs. r_id p = i \<and> continues_run r p"
  shows "queue_ok ts (rs @ [r])"
proof -
  have "one_active (rs @ [r])"
    using ok free by (auto simp: queue_ok_def one_active_def unique_key_append1 exists_where_iff)
  moreover have "chains_ok (rs @ [r])"
    using ok chain unfolding queue_ok_def chains_ok_def
    by (auto split: option.splits)
  moreover have "sources_ok ts (rs @ [r])"
    using ok unfolding queue_ok_def sources_ok_def by auto
  moreover have "runs_fit ts (rs @ [r])"
    using ok fit unfolding queue_ok_def runs_fit_def by auto
  ultimately show ?thesis using ok id by (simp add: queue_ok_def unique_key_next_rowid)
qed

lemma queue_inv_empty: "queue_inv empty_ledger"
  by (simp add: queue_inv_def empty_ledger_def queue_ok_def task_keys_ok_def runs_fit_def
      one_active_def sources_ok_def chains_ok_def)

text \<open>The invariant reads no other table.\<close>

lemma queue_inv_tables [simp]:
  "queue_inv (db\<lparr>trigger_observations := x1\<rparr>) = queue_inv db"
  "queue_inv (db\<lparr>schedule_cursors := x2\<rparr>) = queue_inv db"
  "queue_inv (db\<lparr>schedule_owners := x3\<rparr>) = queue_inv db"
  "queue_inv (db\<lparr>daemon_owners := x4\<rparr>) = queue_inv db"
  "queue_inv (db\<lparr>approval_consumptions := x5\<rparr>) = queue_inv db"
  "queue_inv (db\<lparr>approval_reservations := x6\<rparr>) = queue_inv db"
  "queue_inv (db\<lparr>project_claims := x7\<rparr>) = queue_inv db"
  "queue_inv (db\<lparr>task_workspaces := x8\<rparr>) = queue_inv db"
  "queue_inv (db\<lparr>run_containers := x9\<rparr>) = queue_inv db"
  "queue_inv (db\<lparr>run_sandboxes := x10\<rparr>) = queue_inv db"
  "queue_inv (db\<lparr>repository_health := x11\<rparr>) = queue_inv db"
  "queue_inv (db\<lparr>poll_statuses := x12\<rparr>) = queue_inv db"
  "queue_inv (db\<lparr>autonomous_pull_requests := x13\<rparr>) = queue_inv db"
  "queue_inv (db\<lparr>autonomous_pull_request_events := x14\<rparr>) = queue_inv db"
  "queue_inv (db\<lparr>autonomous_continuations := x15\<rparr>) = queue_inv db"
  by (simp_all add: queue_inv_def)

text \<open>A running run pins its task: found by id, the task is running.\<close>

lemma running_run_task:
  assumes "queue_ok ts rs" and "r \<in> set rs" and "r_outcome r = run_outcome.Running"
  obtains t where "t \<in> set ts" and "t_id t = r_task_id r" and "t_state t = task_state.Running"
  using assms by (auto simp: queue_ok_def runs_fit_def run_of_task_def)

lemma running_run_state:
  assumes "queue_ok ts rs" and "r \<in> set rs" and "r_outcome r = run_outcome.Running"
    and "t \<in> set ts" and "t_id t = r_task_id r"
  shows "t_state t = task_state.Running"
proof -
  obtain u where u: "u \<in> set ts" "t_id u = r_task_id r" "t_state u = task_state.Running"
    using assms(1-3) by (rule running_run_task)
  have "unique_key t_id ts" using assms(1) by (simp add: queue_ok_def task_keys_ok_def)
  then have "t = u" using assms(4,5) u by (auto dest: unique_key_inj)
  with u show ?thesis by simp
qed

lemma one_active_same:
  assumes "one_active rs" and "r \<in> set rs" and "r' \<in> set rs" and "r_task_id r = r_task_id r'"
    and "r_outcome r = run_outcome.Running" and "r_outcome r' = run_outcome.Running"
  shows "r = r'"
  using assms unique_key_inj [of r_task_id "filter (\<lambda>r. r_outcome r = run_outcome.Running) rs" r r']
  by (simp add: one_active_def)

text \<open>
  Finishing an attempt: the running run \<open>r\<close> is closed and its running task moves to another
  state, possibly back to the queue with \<open>r\<close> as its recovery source. Every way an attempt ends
  (completion, failed launch, orphan recovery) is an instance.
\<close>

lemma queue_ok_finish_attempt:
  assumes ok: "queue_ok ts rs" and r: "r \<in> set rs" "r_outcome r = run_outcome.Running"
    and f: "closes_run f" "\<And>x. r_outcome (f x) \<noteq> run_outcome.Running"
    and g: "keeps_task g"
    and src: "\<And>t i. t_recovery_source_run_id (g t) = Some i \<Longrightarrow>
      t_recovery_source_run_id t = Some i \<or> i = r_id r \<and> r_recovery_attempt r < MAX_RECOVERY_ATTEMPTS"
  shows "queue_ok
    (update_where (\<lambda>t. t_id t = r_task_id r \<and> t_state t = task_state.Running) g ts)
    (update_where (\<lambda>x. r_id x = r_id r \<and> r_outcome x = run_outcome.Running) f rs)"
    (is "queue_ok (update_where ?P g ts) ?rs")
proof (rule queue_ok_update_tasks)
  show "queue_ok ts ?rs" using ok f(1) by (rule queue_ok_update_runs)
  show "keeps_task g" by (rule g)
  have keys: "unique_key r_id rs" and act: "one_active rs" using ok by (auto simp: queue_ok_def)
  have kf: "r_id (f x) = r_id x" "r_task_id (f x) = r_task_id x"
      "r_recovery_attempt (f x) = r_recovery_attempt x" for x
    using f(1) by (auto simp: closes_run_def keeps_run_def)
  show "t_state (g t) = task_state.Running"
    if "t \<in> set ts" "u \<in> set ?rs" "?P t" "r_task_id u = t_id t" "r_outcome u = run_outcome.Running"
    for t u
  proof -
    from that(2,5) f(2) obtain x where x: "x \<in> set rs" "u = x" "\<not> (r_id x = r_id r)"
      by (auto simp: set_update_where split: if_splits)
    with that have "x = r" by (intro one_active_same [OF act x(1) r(1)]) (use r(2) in auto)
    with x(3) show ?thesis by simp
  qed
  show "t_recovery_source_run_id t = Some i \<or>
      (\<exists>u\<in>set ?rs. r_id u = i \<and> r_task_id u = t_id t \<and> r_outcome u \<noteq> run_outcome.Running
        \<and> r_recovery_attempt u < MAX_RECOVERY_ATTEMPTS)"
    if "t \<in> set ts" "?P t" "t_recovery_source_run_id (g t) = Some i" for t i
  proof -
    have "f r \<in> set ?rs" using r by (auto simp: set_update_where image_iff)
    with that src [OF that(3)] f(2) kf [of r] show ?thesis by auto
  qed
qed

end
