(* ===== verification/Ledger_Queue.thy ===== *)
theory Ledger_Queue
  imports Ledger_Core
begin

text \<open>
  The durable task queue of \<open>src/storage.rs\<close>: enqueueing by identity, the two claims, run
  start, completion, failed launches, runtime observation, cancellation and the daemon leases.
  The clock readings of an operation are its \<open>now\<close> arguments, in the order the source takes
  them. The operating system, the redaction of secrets and JSON parsing are arguments.
\<close>

subsection \<open>The operating system\<close>

record os_env =
  os_signal0 :: "nat \<Rightarrow> bool"  \<comment> \<open>\<open>kill(pid, 0)\<close> is \<open>Ok\<close> or \<open>EPERM\<close>\<close>
  os_killpg :: "nat \<Rightarrow> bool"   \<comment> \<open>\<open>killpg(pid, SIGKILL)\<close> is \<open>Ok\<close> or \<open>ESRCH\<close>\<close>
  os_identity :: "nat \<Rightarrow> string option"  \<comment> \<open>\<open>runtime::process_identity\<close>\<close>
  os_debug :: "string \<Rightarrow> string"  \<comment> \<open>the \<open>Debug\<close> rendering of a string\<close>

definition process_is_alive :: "os_env \<Rightarrow> nat \<Rightarrow> bool" where
  "process_is_alive os pid \<longleftrightarrow> pid < 2 ^ 31 \<and> os_signal0 os pid"

subsection \<open>Enqueue\<close>

definition enqueue_with_payload ::
  "task_identity \<Rightarrow> string option \<Rightarrow> int \<Rightarrow> ledger \<Rightarrow> ledger_error + (enqueued_task \<times> ledger)" where
  "enqueue_with_payload identity payload now db =
     (case identity_validate identity of
        Inl e \<Rightarrow> Inl e
      | Inr _ \<Rightarrow>
          (let key = identity_key identity;
               (db', inserted) = insert_task_or_ignore key (identity_kind identity)
                 (identity_repository identity) (identity_workflow identity)
                 (identity_source_item identity) payload now db
           in case query_task_by_key key db' of
                None \<Rightarrow> Inl RowDisappeared
              | Some task \<Rightarrow> Inr (\<lparr>enq_task = task, enq_created = inserted\<rparr>, db')))"

definition enqueue :: "task_identity \<Rightarrow> int \<Rightarrow> ledger \<Rightarrow> ledger_error + (enqueued_task \<times> ledger)" where
  "enqueue identity now db = enqueue_with_payload identity None now db"

subsection \<open>Claiming\<close>

definition set_task_running :: "int \<Rightarrow> int \<Rightarrow> task list \<Rightarrow> task list" where
  "set_task_running now i ts =
     update_where (\<lambda>t. t_id t = i \<and> t_state t = task_state.Queued)
       (\<lambda>t. t\<lparr>t_state := task_state.Running, t_updated_at := now\<rparr>) ts"

definition queued_tasks :: "ledger \<Rightarrow> task list" where
  "queued_tasks db = claim_order (filter (\<lambda>t. t_state t = task_state.Queued) (tasks db))"

definition claim_next_matching ::
  "string list option \<Rightarrow> int \<Rightarrow> ledger \<Rightarrow> ledger_error + (task option \<times> ledger)" where
  "claim_next_matching repositories now db =
     (case filter (\<lambda>t. repositories = None \<or> t_repository t \<in> set (the repositories))
             (queued_tasks db) of
        [] \<Rightarrow> Inr (None, db)
      | c # _ \<Rightarrow>
          if count_where (\<lambda>t. t_id t = t_id c \<and> t_state t = task_state.Queued) (tasks db) \<noteq> 1
          then Inl (NotClaimedAtomically (t_id c))
          else let db' = db\<lparr>tasks := set_task_running now (t_id c) (tasks db)\<rparr>
               in case query_task (t_id c) db' of
                    None \<Rightarrow> Inl RowDisappeared
                  | Some task \<Rightarrow> Inr (Some task, db'))"

definition claim_next :: "int \<Rightarrow> ledger \<Rightarrow> ledger_error + (task option \<times> ledger)" where
  "claim_next now db = claim_next_matching None now db"

definition claim_next_for_repositories ::
  "string list \<Rightarrow> int \<Rightarrow> ledger \<Rightarrow> ledger_error + (task option \<times> ledger)" where
  "claim_next_for_repositories repositories now db =
     (if repositories = [] then Inr (None, db)
      else claim_next_matching (Some repositories) now db)"

text \<open>The context a daemon claims in: what it can run, and its identity.\<close>

record claim_context =
  cc_repositories :: "string list"
  cc_runtimes :: "string \<times> string \<times> string \<Rightarrow> string option"
  cc_owner_id :: string
  cc_owner_pid :: nat
  cc_workdirs :: "string \<Rightarrow> string option"
  cc_allow_new_tickets :: bool

definition owner_lease_live :: "string \<Rightarrow> nat \<Rightarrow> int \<Rightarrow> ledger \<Rightarrow> bool" where
  "owner_lease_live owner pid cutoff db =
     exists_where (\<lambda>o'. do_owner_id o' = owner \<and> do_pid o' = pid \<and> cutoff \<le> do_heartbeat_at o')
       (daemon_owners db)"

text \<open>The schedule fingerprint this owner holds for a workflow, when the cursor still has it.\<close>

definition owned_fingerprint :: "string \<Rightarrow> string \<Rightarrow> string \<Rightarrow> ledger \<Rightarrow> string option" where
  "owned_fingerprint owner repository workflow db =
     map_option so_fingerprint
       (find_where (\<lambda>o'. so_owner_id o' = owner \<and> so_repository o' = repository
            \<and> so_workflow o' = workflow
            \<and> exists_where (\<lambda>c. sc_repository c = so_repository o' \<and> sc_workflow c = so_workflow o'
                \<and> sc_fingerprint c = so_fingerprint o') (schedule_cursors db))
         (schedule_owners db))"

definition payload_fingerprint :: "(string \<Rightarrow> json option) \<Rightarrow> task \<Rightarrow> string option" where
  "payload_fingerprint parse t =
     Option.bind (t_payload t) (\<lambda>p. Option.bind (parse p)
       (\<lambda>v. Option.bind (json_get ''schedule_fingerprint'' v) json_as_str))"

definition running_ticket_source :: "ledger \<Rightarrow> string \<Rightarrow> string \<Rightarrow> bool" where
  "running_ticket_source db repository source_item =
     exists_where (\<lambda>t. t_kind t = ''ticket'' \<and> t_state t = task_state.Running
       \<and> t_repository t = repository \<and> t_source_item t = Some source_item) (tasks db)"

definition has_workspace :: "ledger \<Rightarrow> int \<Rightarrow> bool" where
  "has_workspace db i = exists_where (\<lambda>w. w_task_id w = i \<and> w_state w \<noteq> ''cleaned'') (task_workspaces db)"

definition claimable :: "(string \<Rightarrow> json option) \<Rightarrow> claim_context \<Rightarrow> ledger \<Rightarrow> task \<Rightarrow> bool" where
  "claimable parse cc db t =
     (if t_kind t = ''ticket'' \<and>
         (case t_source_item t of None \<Rightarrow> False
          | Some s \<Rightarrow> running_ticket_source db (t_repository t) s) then False
      else if t_kind t = ''ticket'' \<and> \<not> cc_allow_new_tickets cc \<and> \<not> has_workspace db (t_id t)
      then False
      else if t_repository t \<notin> set (cc_repositories cc)
        \<or> cc_runtimes cc (t_repository t, t_workflow t, t_kind t) = None then False
      else if t_kind t \<noteq> ''scheduled'' then True
      else (case (payload_fingerprint parse t,
                  owned_fingerprint (cc_owner_id cc) (t_repository t) (t_workflow t) db) of
              (Some task_fp, Some owner_fp) \<Rightarrow> task_fp = owner_fp
            | _ \<Rightarrow> False))"

definition recovery_attempt_of :: "task \<Rightarrow> ledger \<Rightarrow> ledger_error + nat" where
  "recovery_attempt_of t db = (case t_recovery_source_run_id t of
      None \<Rightarrow> Inr 0
    | Some i \<Rightarrow> (case query_run i db of
          None \<Rightarrow> Inl RowDisappeared
        | Some r \<Rightarrow> Inr (r_recovery_attempt r + 1)))"

definition clear_recovery_source :: "int \<Rightarrow> ledger \<Rightarrow> ledger" where
  "clear_recovery_source i db = db\<lparr>tasks :=
     update_where (\<lambda>t. t_id t = i) (\<lambda>t. t\<lparr>t_recovery_source_run_id := None\<rparr>) (tasks db)\<rparr>"

definition claimed_run :: "claim_context \<Rightarrow> task \<Rightarrow> string \<Rightarrow> string \<Rightarrow> nat \<Rightarrow> int \<Rightarrow> int \<Rightarrow> run" where
  "claimed_run cc c runtime workdir attempt i now =
     (new_run i c runtime now)\<lparr>r_owner_pid := Some (cc_owner_pid cc),
        r_owner_id := Some (cc_owner_id cc), r_working_directory := Some workdir,
        r_recovery_of := t_recovery_source_run_id c, r_recovery_attempt := attempt\<rparr>"

definition start_claimed_run ::
  "claim_context \<Rightarrow> task \<Rightarrow> int \<Rightarrow> ledger \<Rightarrow> ledger_error + ((task \<times> run) \<times> ledger)" where
  "start_claimed_run cc c now db =
     (case cc_runtimes cc (t_repository c, t_workflow c, t_kind c) of
        None \<Rightarrow> Inl RuntimeMissing
      | Some runtime \<Rightarrow>
     (if count_where (\<lambda>t. t_id t = t_id c \<and> t_state t = task_state.Queued) (tasks db) \<noteq> 1
      then Inl (NotClaimedAtomically (t_id c))
      else let db1 = db\<lparr>tasks := set_task_running now (t_id c) (tasks db)\<rparr> in
     (case recovery_attempt_of c db1 of
        Inl e \<Rightarrow> Inl e
      | Inr attempt \<Rightarrow>
     (case cc_workdirs cc (t_repository c) of
        None \<Rightarrow> Inl WorkingDirectoryMissing
      | Some workdir \<Rightarrow>
     (let i = next_rowid r_id (runs db1) in
      case insert_run (claimed_run cc c runtime workdir attempt i now) db1 of
           Inl e \<Rightarrow> Inl e
         | Inr db2 \<Rightarrow>
     (case (query_task (t_id c) db2, query_run i db2) of
        (Some task, Some run) \<Rightarrow> Inr ((task, run), clear_recovery_source (t_id c) db2)
      | _ \<Rightarrow> Inl RowDisappeared))))))"

definition claim_and_start_run ::
  "(string \<Rightarrow> json option) \<Rightarrow> claim_context \<Rightarrow> int \<Rightarrow> ledger \<Rightarrow>
     ledger_error + ((task \<times> run) option \<times> ledger)" where
  "claim_and_start_run parse cc now db =
     (if cc_repositories cc = [] then Inr (None, db)
      else if \<not> owner_lease_live (cc_owner_id cc) (cc_owner_pid cc)
             (saturating_sub now DAEMON_OWNER_LEASE_MILLIS) db
      then Inl (NoLiveLease (cc_owner_id cc))
      else (case List.find (claimable parse cc db) (queued_tasks db) of
              None \<Rightarrow> Inr (None, db)
            | Some c \<Rightarrow> (case start_claimed_run cc c now db of
                  Inl e \<Rightarrow> Inl e
                | Inr (claimed, db') \<Rightarrow> Inr (Some claimed, db'))))"

subsection \<open>Runs\<close>

definition start_run :: "int \<Rightarrow> string \<Rightarrow> int \<Rightarrow> ledger \<Rightarrow> ledger_error + (run \<times> ledger)" where
  "start_run task_id runtime now db =
     (if blank runtime then Inl EmptyField
      else (case query_task task_id db of
          None \<Rightarrow> Inl (MissingTask task_id)
        | Some task \<Rightarrow>
            if t_state task \<noteq> task_state.Running then Inl (TaskNotRunning task_id)
            else let i = next_rowid r_id (runs db) in
              (case insert_run (new_run i task (trim runtime) now) db of
                 Inl e \<Rightarrow> Inl e
               | Inr db' \<Rightarrow> (case query_run i db' of
                     None \<Rightarrow> Inl RowDisappeared
                   | Some run \<Rightarrow> Inr (run, db')))))"

text \<open>A statement on one running run; \<open>changed != 1\<close> is an error.\<close>

definition update_running_run :: "int \<Rightarrow> (run \<Rightarrow> run) \<Rightarrow> ledger \<Rightarrow> ledger_error + ledger" where
  "update_running_run i f db =
     (if count_where (\<lambda>r. r_id r = i \<and> r_outcome r = run_outcome.Running) (runs db) \<noteq> 1
      then Inl (RunMissingOrTerminal i)
      else Inr (db\<lparr>runs :=
        update_where (\<lambda>r. r_id r = i \<and> r_outcome r = run_outcome.Running) f (runs db)\<rparr>))"

definition set_run_agent_profile ::
  "int \<Rightarrow> string \<Rightarrow> string \<Rightarrow> string \<Rightarrow> string \<Rightarrow> ledger \<Rightarrow> ledger_error + ledger" where
  "set_run_agent_profile i profile model reasoning_effort service_tier db =
     (if list_ex blank [profile, model, reasoning_effort, service_tier] then Inl EmptyField
      else update_running_run i (\<lambda>r. r\<lparr>r_agent_profile := Some profile, r_model := Some model,
             r_reasoning_effort := Some reasoning_effort, r_service_tier := Some service_tier\<rparr>) db)"

definition record_run_workspace ::
  "int \<Rightarrow> string \<Rightarrow> string \<Rightarrow> string \<Rightarrow> string option \<Rightarrow> string \<Rightarrow> ledger \<Rightarrow> ledger_error + ledger" where
  "record_run_workspace i working_directory base_branch base_sha factory_branch workspace_kind db =
     update_running_run i (\<lambda>r. r\<lparr>r_working_directory := Some working_directory,
        r_base_branch := Some base_branch, r_base_sha := Some base_sha,
        r_factory_branch := factory_branch, r_workspace_kind := Some workspace_kind\<rparr>) db"

text \<open>SQL \<open>COALESCE(?, column)\<close>.\<close>

fun coalesce :: "'a option \<Rightarrow> 'a option \<Rightarrow> 'a option" where
  "coalesce (Some x) _ = Some x"
| "coalesce None y = y"

definition observe_run ::
  "(string \<Rightarrow> string) \<Rightarrow> int \<Rightarrow> nat option \<Rightarrow> string option \<Rightarrow> string option \<Rightarrow> string option \<Rightarrow>
     string option \<Rightarrow> int \<Rightarrow> ledger \<Rightarrow> ledger_error + ledger" where
  "observe_run sanitize i process_id process_identity session_id pull_request activity now db =
     (if process_id = Some 0 then Inl ProcessIdZero
      else let session_id = map_option (\<lambda>v. truncate_utf8 v MAX_SESSION_ID_BYTES) session_id;
               pull_request = map_option (\<lambda>v. truncate_utf8 v 2048) pull_request;
               activity = map_option (\<lambda>v. truncate_tail_utf8 (sanitize v) MAX_ACTIVITY_BYTES) activity
           in update_running_run i (\<lambda>r. r\<lparr>
                r_process_id := coalesce process_id (r_process_id r),
                r_process_identity := coalesce process_identity (r_process_identity r),
                r_session_id := coalesce session_id (r_session_id r),
                r_pull_request := coalesce pull_request (r_pull_request r),
                r_activity := coalesce activity (r_activity r),
                r_last_activity_at := now\<rparr>) db)"

definition reset_run_runtime_observation :: "int \<Rightarrow> int \<Rightarrow> ledger \<Rightarrow> ledger_error + ledger" where
  "reset_run_runtime_observation i now db =
     update_running_run i (\<lambda>r. r\<lparr>r_process_id := None, r_process_identity := None,
        r_session_id := None, r_activity := None, r_last_activity_at := now\<rparr>) db"

subsection \<open>Ending an attempt\<close>

text \<open>Closing the run and moving its running task: the two updates every ending makes.\<close>

definition close_attempt :: "run \<Rightarrow> (run \<Rightarrow> run) \<Rightarrow> (task \<Rightarrow> task) \<Rightarrow> ledger \<Rightarrow> ledger" where
  "close_attempt r f g db = db\<lparr>
     runs := update_where (\<lambda>x. r_id x = r_id r \<and> r_outcome x = run_outcome.Running) f (runs db),
     tasks := update_where (\<lambda>t. t_id t = r_task_id r \<and> t_state t = task_state.Running) g (tasks db)\<rparr>"

definition requeue_task :: "int \<Rightarrow> int \<Rightarrow> task \<Rightarrow> task" where
  "requeue_task now source t = t\<lparr>t_state := task_state.Queued, t_updated_at := now,
     t_recovery_source_run_id := Some source\<rparr>"

definition move_task :: "int \<Rightarrow> task_state \<Rightarrow> task \<Rightarrow> task" where
  "move_task now s t = t\<lparr>t_state := s, t_updated_at := now\<rparr>"

fun task_state_of_outcome :: "run_outcome \<Rightarrow> task_state" where
  "task_state_of_outcome run_outcome.Succeeded = task_state.Succeeded"
| "task_state_of_outcome run_outcome.Failed = task_state.Failed"
| "task_state_of_outcome run_outcome.Cancelled = task_state.Cancelled"
| "task_state_of_outcome run_outcome.Running = task_state.Running" \<comment> \<open>unreachable in the source\<close>

definition cancellation_error :: string where
  "cancellation_error = ''Cancellation requested by local operator''"

text \<open>A requested cancellation overrides the reported outcome.\<close>

definition final_outcome :: "run \<Rightarrow> run_outcome \<Rightarrow> run_outcome" where
  "final_outcome r outcome =
     (if r_cancellation_requested_at r \<noteq> None then run_outcome.Cancelled else outcome)"

definition final_error :: "run \<Rightarrow> string option \<Rightarrow> string option" where
  "final_error r err =
     (if r_cancellation_requested_at r \<noteq> None \<and> err = None then Some cancellation_error else err)"

definition retry_recovery :: "bool \<Rightarrow> run \<Rightarrow> run_outcome \<Rightarrow> bool" where
  "retry_recovery allow_recovery r outcome \<longleftrightarrow>
     allow_recovery \<and> outcome = run_outcome.Failed \<and> r_process_id r \<noteq> None
     \<and> r_recovery_attempt r < MAX_RECOVERY_ATTEMPTS \<and> r_cancellation_requested_at r = None"

definition record_terminal ::
  "int \<Rightarrow> run_outcome \<Rightarrow> string option \<Rightarrow> string option \<Rightarrow> string option \<Rightarrow> run \<Rightarrow> run" where
  "record_terminal now outcome result err session_id x =
     x\<lparr>r_finished_at := Some now, r_outcome := outcome, r_result := result, r_error := err,
       r_session_id := coalesce session_id (r_session_id x)\<rparr>"

definition finish_run_and_task_with_recovery ::
  "(string \<Rightarrow> string) \<Rightarrow> int \<Rightarrow> run_outcome \<Rightarrow> string option \<Rightarrow> string option \<Rightarrow> string option \<Rightarrow>
     bool \<Rightarrow> int \<Rightarrow> int \<Rightarrow> ledger \<Rightarrow> ledger_error + (run \<times> ledger)" where
  "finish_run_and_task_with_recovery sanitize i outcome result err session_id allow_recovery
       now1 now2 db =
     (if outcome = run_outcome.Running then Inl TerminalOutcomeRequired
      else let result = map_option (\<lambda>v. truncate_utf8 (sanitize v) MAX_RESULT_BYTES) result;
               err = map_option (\<lambda>v. truncate_utf8 (sanitize v) MAX_ERROR_BYTES) err;
               session_id = map_option (\<lambda>v. truncate_utf8 v MAX_SESSION_ID_BYTES) session_id
           in
      (case find_where (\<lambda>r. r_id r = i \<and> r_outcome r = run_outcome.Running) (runs db) of
         None \<Rightarrow> Inl (RunMissingOrTerminal i)
       | Some r \<Rightarrow>
           let outcome = final_outcome r outcome;
               db' = close_attempt r (record_terminal now1 outcome result (final_error r err) session_id)
                 (if retry_recovery allow_recovery r outcome then requeue_task now2 i
                  else move_task now2 (task_state_of_outcome outcome)) db
           in if count_where (\<lambda>t. t_id t = r_task_id r \<and> t_state t = task_state.Running) (tasks db) \<noteq> 1
              then Inl (TaskNotRunning (r_task_id r))
              else (case query_run i db' of
                  None \<Rightarrow> Inl RowDisappeared
                | Some run \<Rightarrow> Inr (run, db'))))"

definition finish_run_and_task ::
  "(string \<Rightarrow> string) \<Rightarrow> int \<Rightarrow> run_outcome \<Rightarrow> string option \<Rightarrow> string option \<Rightarrow> string option \<Rightarrow>
     int \<Rightarrow> int \<Rightarrow> ledger \<Rightarrow> ledger_error + (run \<times> ledger)" where
  "finish_run_and_task sanitize i outcome result err session_id now1 now2 db =
     finish_run_and_task_with_recovery sanitize i outcome result err session_id True now1 now2 db"

definition finish_run_and_task_terminal ::
  "(string \<Rightarrow> string) \<Rightarrow> int \<Rightarrow> run_outcome \<Rightarrow> string option \<Rightarrow> string option \<Rightarrow> string option \<Rightarrow>
     int \<Rightarrow> int \<Rightarrow> ledger \<Rightarrow> ledger_error + (run \<times> ledger)" where
  "finish_run_and_task_terminal sanitize i outcome result err session_id now1 now2 db =
     finish_run_and_task_with_recovery sanitize i outcome result err session_id False now1 now2 db"

definition fail_prelaunch_and_requeue ::
  "(string \<Rightarrow> string) \<Rightarrow> int \<Rightarrow> string \<Rightarrow> int \<Rightarrow> ledger \<Rightarrow> ledger_error + (run \<times> ledger)" where
  "fail_prelaunch_and_requeue sanitize i err now db =
     (let err = truncate_utf8 (sanitize err) MAX_ERROR_BYTES in
      case find_where (\<lambda>r. r_id r = i \<and> r_outcome r = run_outcome.Running \<and> r_process_id r = None)
             (runs db) of
        None \<Rightarrow> Inl (RunLaunched i)
      | Some r \<Rightarrow>
          let db' = close_attempt r
                (\<lambda>x. x\<lparr>r_outcome := run_outcome.Failed, r_finished_at := Some now, r_error := Some err\<rparr>)
                (if r_recovery_attempt r < MAX_RECOVERY_ATTEMPTS then requeue_task now i
                 else move_task now task_state.Failed) db
          in if count_where (\<lambda>t. t_id t = r_task_id r \<and> t_state t = task_state.Running) (tasks db) \<noteq> 1
             then Inl (TaskNotRunning (r_task_id r))
             else (case query_run i db' of
                 None \<Rightarrow> Inl RowDisappeared
               | Some run \<Rightarrow> Inr (run, db')))"

subsection \<open>Cancellation and leases\<close>

datatype cancellation_request =
    Requested run | AlreadyRequested run | Terminal run | OwnedElsewhere run | NotFound

definition run_owner_is_live :: "os_env \<Rightarrow> run \<Rightarrow> int \<Rightarrow> ledger \<Rightarrow> bool" where
  "run_owner_is_live os r now db =
     (case (r_owner_id r, r_owner_pid r) of
        (Some owner, Some pid) \<Rightarrow>
          owner_lease_live owner pid (saturating_sub now DAEMON_OWNER_LEASE_MILLIS) db
          \<and> process_is_alive os pid
      | _ \<Rightarrow> False)"

definition request_run_cancellation ::
  "os_env \<Rightarrow> int \<Rightarrow> int \<Rightarrow> int \<Rightarrow> ledger \<Rightarrow> ledger_error + (cancellation_request \<times> ledger)" where
  "request_run_cancellation os i now1 now2 db =
     (case query_run i db of
        None \<Rightarrow> Inr (NotFound, db)
      | Some r \<Rightarrow>
          if r_outcome r \<noteq> run_outcome.Running then Inr (Terminal r, db)
          else if r_cancellation_requested_at r \<noteq> None then Inr (AlreadyRequested r, db)
          else if \<not> run_owner_is_live os r now1 db then Inr (OwnedElsewhere r, db)
          else let db' = db\<lparr>runs := update_where
                   (\<lambda>r. r_id r = i \<and> r_outcome r = run_outcome.Running
                        \<and> r_cancellation_requested_at r = None)
                   (\<lambda>r. r\<lparr>r_cancellation_requested_at := Some now2\<rparr>) (runs db)\<rparr>
               in (case query_run i db' of
                     None \<Rightarrow> Inl RowDisappeared
                   | Some r' \<Rightarrow> Inr (Requested r', db')))"

definition cancellation_requested :: "int \<Rightarrow> ledger \<Rightarrow> bool" where
  "cancellation_requested i db =
     (case find_where (\<lambda>r. r_id r = i \<and> r_outcome r = run_outcome.Running) (runs db) of
        None \<Rightarrow> False
      | Some r \<Rightarrow> r_cancellation_requested_at r \<noteq> None)"

definition register_daemon_owner :: "string \<Rightarrow> nat \<Rightarrow> int \<Rightarrow> ledger \<Rightarrow> ledger_error + ledger" where
  "register_daemon_owner owner pid now db =
     (if blank owner then Inl EmptyField
      else Inr (db\<lparr>daemon_owners := upsert_where (\<lambda>o'. do_owner_id o' = owner)
        (\<lambda>o'. o'\<lparr>do_pid := pid, do_heartbeat_at := now\<rparr>)
        \<lparr>do_owner_id = owner, do_pid = pid, do_heartbeat_at = now\<rparr> (daemon_owners db)\<rparr>))"

definition heartbeat_daemon_owner :: "string \<Rightarrow> int \<Rightarrow> ledger \<Rightarrow> ledger_error + ledger" where
  "heartbeat_daemon_owner owner now db =
     (let P = (\<lambda>o'. do_owner_id o' = owner \<and> now - DAEMON_OWNER_LEASE_MILLIS \<le> do_heartbeat_at o')
      in if count_where P (daemon_owners db) \<noteq> 1 then Inl (OwnerNotRegistered owner)
         else Inr (db\<lparr>daemon_owners :=
           update_where P (\<lambda>o'. o'\<lparr>do_heartbeat_at := now\<rparr>) (daemon_owners db)\<rparr>))"

text \<open>\<open>schedule_owners.owner_id\<close> references \<open>daemon_owners\<close> with \<open>ON DELETE CASCADE\<close>.\<close>

definition remove_daemon_owner :: "string \<Rightarrow> ledger \<Rightarrow> ledger" where
  "remove_daemon_owner owner db = db\<lparr>
     daemon_owners := delete_where (\<lambda>o'. do_owner_id o' = owner) (daemon_owners db),
     schedule_owners := delete_where (\<lambda>o'. so_owner_id o' = owner) (schedule_owners db)\<rparr>"

subsection \<open>Run history queries\<close>

definition last_opt :: "'a list \<Rightarrow> 'a option" where
  "last_opt xs = (if xs = [] then None else Some (last xs))"

definition latest_session :: "string \<Rightarrow> string \<Rightarrow> string option \<Rightarrow> ledger \<Rightarrow> string option" where
  "latest_session repository workflow source_item db = Option.bind (last_opt (sort_key r_id
     (filter (\<lambda>r. r_repository r = repository \<and> r_workflow r = workflow
        \<and> r_source_item r = source_item \<and> r_session_id r \<noteq> None) (runs db)))) r_session_id"

definition latest_successful_scheduled_run_finished_at :: "string \<Rightarrow> string \<Rightarrow> ledger \<Rightarrow> int option" where
  "latest_successful_scheduled_run_finished_at repository workflow db =
     Option.bind (last_opt (sort_key (\<lambda>r. (the (r_finished_at r), r_id r))
       (filter (\<lambda>r. r_repository r = repository \<and> r_workflow r = workflow
          \<and> exists_where (\<lambda>t. t_id t = r_task_id r \<and> t_kind t = ''scheduled'') (tasks db)
          \<and> r_outcome r = run_outcome.Succeeded \<and> r_finished_at r \<noteq> None) (runs db)))) r_finished_at"

definition latest_pull_request_for_task :: "int \<Rightarrow> ledger \<Rightarrow> string option" where
  "latest_pull_request_for_task task_id db = Option.bind (last_opt (sort_key r_id
     (filter (\<lambda>r. r_task_id r = task_id \<and> r_pull_request r \<noteq> None) (runs db)))) r_pull_request"

end
