(* ===== verification/Registers.thy ===== *)
theory Registers
  imports Factory_Prelude
begin

text \<open>
  The interfaces the daemon's clients rely on to act once per thing they see. A register accepts
  insertions under a key and says whether one was new. An \<open>at_most_once\<close> register may refuse for
  other reasons too (an approval needs a running task); a \<open>once_only_register\<close> accepts exactly
  the keys it does not hold, and is therefore an \<open>at_most_once\<close> register. The ledger's
  enqueueing, event observation and approval consumption provide these interfaces in the
  theories of their components.
\<close>

text \<open>A sequence of insertions, by any callers: each call with its answer.\<close>

primrec put_all :: "('a \<Rightarrow> 's \<Rightarrow> bool \<times> 's) \<Rightarrow> 'a list \<Rightarrow> 's \<Rightarrow> ('a \<times> bool) list \<times> 's" where
  "put_all put [] s = ([], s)"
| "put_all put (a # as) s =
     (let (new, s1) = put a s; (rest, s2) = put_all put as s1 in ((a, new) # rest, s2))"

locale at_most_once =
  fixes key :: "'a \<Rightarrow> 'k"
    and held :: "'s \<Rightarrow> 'k \<Rightarrow> bool"
    and put :: "'a \<Rightarrow> 's \<Rightarrow> bool \<times> 's"
  assumes accept_new: "fst (put a s) \<Longrightarrow> \<not> held s (key a)"
    and accept_held: "fst (put a s) \<Longrightarrow> held (snd (put a s)) (key a)"
    and held_mono: "held s k \<Longrightarrow> held (snd (put a s)) k"
begin

lemma held_put_all: "held s k \<Longrightarrow> held (snd (put_all put as s)) k"
  by (induction as arbitrary: s) (auto simp: Let_def split_beta intro: held_mono)

lemma refused_when_held: "held s k \<Longrightarrow> (a, new) \<in> set (fst (put_all put as s)) \<Longrightarrow> key a = k \<Longrightarrow> \<not> new"
proof (induction as arbitrary: s)
  case (Cons b as)
  obtain n s1 where p: "put b s = (n, s1)" by (cases "put b s")
  have "held s1 k" using held_mono [OF Cons.prems(1), of b] p by simp
  moreover have "n \<Longrightarrow> \<not> held s (key b)" using accept_new [of b s] p by simp
  ultimately show ?case using Cons p by (auto simp: Let_def split_beta)
qed simp

text \<open>No key is ever accepted twice.\<close>

lemma accepted_at_most_once:
  "length (filter (\<lambda>(a, new). new \<and> key a = k) (fst (put_all put as s))) \<le> 1"
proof (induction as arbitrary: s)
  case (Cons b as)
  obtain n s1 where p: "put b s = (n, s1)" by (cases "put b s")
  obtain rest s2 where q: "put_all put as s1 = (rest, s2)" by (cases "put_all put as s1")
  show ?case
  proof (cases "n \<and> key b = k")
    case True
    then have "held s1 k" using accept_held [of b s] p by simp
    then have "filter (\<lambda>(a, new). new \<and> key a = k) rest = []"
      using refused_when_held [of s1 k _ _ as] q by (auto simp: filter_empty_conv)
    with p q show ?thesis by simp
  next
    case False
    with Cons [of s1] p q show ?thesis by auto
  qed
qed simp

end

locale once_only_register =
  fixes key :: "'a \<Rightarrow> 'k"
    and held :: "'s \<Rightarrow> 'k \<Rightarrow> bool"
    and put :: "'a \<Rightarrow> 's \<Rightarrow> bool \<times> 's"
  assumes put_new: "fst (put a s) \<longleftrightarrow> \<not> held s (key a)"
    and put_held: "held (snd (put a s)) k \<longleftrightarrow> k = key a \<or> held s k"

sublocale once_only_register \<subseteq> at_most_once key held put
  by unfold_locales (auto simp: put_new put_held)

context once_only_register
begin

lemma put_again: "\<not> fst (put b (snd (put a s)))" if "key b = key a"
  using that by (simp add: put_new put_held)

text \<open>Over any sequence, a key is accepted exactly once if it was absent, and never otherwise.\<close>

lemma accepted_count:
  "length (filter (\<lambda>(a, new). new \<and> key a = k) (fst (put_all put as s)))
     = (if held s k \<or> k \<notin> key ` set as then 0 else 1)"
proof (induction as arbitrary: s)
  case (Cons b as)
  obtain new s1 where p: "put b s = (new, s1)" by (cases "put b s")
  have new: "new \<longleftrightarrow> \<not> held s (key b)" using put_new [of b s] p by simp
  have h: "held s1 k \<longleftrightarrow> k = key b \<or> held s k" using put_held [of b s k] p by simp
  obtain rest s2 where q: "put_all put as s1 = (rest, s2)" by (cases "put_all put as s1")
  have "length (filter (\<lambda>(a, new). new \<and> key a = k) rest)
      = (if held s1 k \<or> k \<notin> key ` set as then 0 else 1)"
    using Cons [of s1] q by simp
  then show ?case using new h p q by auto
qed simp

end

end
