(* ===== verification/Ledger_Queue_Proofs.thy ===== *)
theory Ledger_Queue_Proofs
  imports Ledger_Queue Registers
begin

text \<open>
  The operations of the queue keep \<open>queue_inv\<close>; enqueueing is the once-only register the poller
  relies on; the claim takes the oldest claimable task and cannot fail halfway; an attempt
  ends in exactly the states the source allows.
\<close>

named_theorems queue_step "every queue operation keeps the queue invariant"

subsection \<open>Enqueue\<close>

lemma insert_task_tasks:
  "tasks (fst (insert_task_or_ignore key kind repository workflow src payload now db)) =
     (if exists_where (\<lambda>t. t_identity_key t = key) (tasks db) then tasks db
      else tasks db @ [\<lparr>t_id = next_rowid t_id (tasks db), t_identity_key = key, t_kind = kind,
          t_repository = repository, t_workflow = workflow, t_source_item = src,
          t_payload = payload, t_state = task_state.Queued, t_created_at = now,
          t_updated_at = now, t_recovery_source_run_id = None\<rparr>])"
  by (simp add: insert_task_or_ignore_def)

lemma insert_task_inv:
  assumes "queue_inv db"
  shows "queue_inv (fst (insert_task_or_ignore key kind repository workflow src payload now db))"
  using assms
  by (auto simp: insert_task_or_ignore_def queue_inv_def intro!: queue_ok_insert_task)

lemma insert_task_runs [simp]:
  "runs (fst (insert_task_or_ignore key kind repository workflow src payload now db)) = runs db"
  by (simp add: insert_task_or_ignore_def)

lemma insert_task_present:
  "exists_where (\<lambda>t. t_identity_key t = key)
     (tasks (fst (insert_task_or_ignore key kind repository workflow src payload now db)))"
  by (auto simp: insert_task_tasks exists_where_iff)

text \<open>The row an insertion leads to: the old one with that key, or the new one at the end.\<close>

lemma insert_then_query:
  assumes "insert_task_or_ignore key kind repository workflow src payload now db = (db', inserted)"
  shows "inserted = (\<not> exists_where (\<lambda>t. t_identity_key t = key) (tasks db))"
    and "inserted = False \<Longrightarrow> db' = db"
    and "query_task_by_key key db' = Some task \<Longrightarrow> t_identity_key task = key \<and> task \<in> set (tasks db')
      \<and> (inserted \<longrightarrow> tasks db' = tasks db @ [task] \<and> t_repository task = repository
        \<and> t_workflow task = workflow \<and> t_source_item task = src \<and> t_kind task = kind
        \<and> t_payload task = payload \<and> t_state task = task_state.Queued \<and> t_created_at task = now
        \<and> t_id task = next_rowid t_id (tasks db))"
proof -
  show "inserted = (\<not> exists_where (\<lambda>t. t_identity_key t = key) (tasks db))"
    and "inserted = False \<Longrightarrow> db' = db"
    using assms by (auto simp: insert_task_or_ignore_def split: if_splits)
  assume q: "query_task_by_key key db' = Some task"
  show "t_identity_key task = key \<and> task \<in> set (tasks db')
      \<and> (inserted \<longrightarrow> tasks db' = tasks db @ [task] \<and> t_repository task = repository
        \<and> t_workflow task = workflow \<and> t_source_item task = src \<and> t_kind task = kind
        \<and> t_payload task = payload \<and> t_state task = task_state.Queued \<and> t_created_at task = now
        \<and> t_id task = next_rowid t_id (tasks db))"
  proof (cases "exists_where (\<lambda>t. t_identity_key t = key) (tasks db)")
    case True
    with assms q show ?thesis
      by (auto simp: insert_task_or_ignore_def query_task_by_key_def dest: find_where_SomeD)
  next
    case False
    then have "find_where (\<lambda>t. t_identity_key t = key) (tasks db) = None" by (simp add: find_where_first)
    with False assms q show ?thesis
      by (auto simp: insert_task_or_ignore_def query_task_by_key_def find_where_append)
  qed
qed

lemma enqueue_inv [queue_step]:
  "enqueue_with_payload identity payload now db = Inr (x, db') \<Longrightarrow> queue_inv db \<Longrightarrow> queue_inv db'"
  using insert_task_inv
  by (cases "identity_validate identity")
    (auto simp: enqueue_with_payload_def Let_def split_beta split: option.splits)

text \<open>Enqueueing as a register: the key is the identity, held while a task row carries it.\<close>

definition enqueue_put :: "task_identity \<times> string option \<times> int \<Rightarrow> ledger \<Rightarrow> bool \<times> ledger" where
  "enqueue_put = (\<lambda>(identity, payload, now) db.
     let (db', inserted) = insert_task_or_ignore (identity_key identity) (identity_kind identity)
       (identity_repository identity) (identity_workflow identity)
       (identity_source_item identity) payload now db in (inserted, db'))"

definition identity_held :: "ledger \<Rightarrow> task_identity \<Rightarrow> bool" where
  "identity_held db identity = exists_where (\<lambda>t. t_identity_key t = identity_key identity) (tasks db)"

interpretation enq: once_only_register "fst :: task_identity \<times> string option \<times> int \<Rightarrow> task_identity"
  identity_held enqueue_put
  by unfold_locales
    (auto simp: enqueue_put_def identity_held_def insert_task_or_ignore_def exists_where_iff
      split: prod.splits)


text \<open>
  A successful enqueue returns a task that carries the identity and is stored, reports it as
  created exactly when no task carried the identity before, and appends nothing otherwise;
  an identity with a blank component is refused.
\<close>

theorem enqueue_result:
  "case enqueue_with_payload identity payload now db of
     Inl e \<Rightarrow> \<exists>name value. (name, value) \<in> set (identity_fields identity) \<and> blank value
       \<and> e = EmptyIdentityField name
   | Inr (x, db') \<Rightarrow> t_identity_key (enq_task x) = identity_key identity
       \<and> enq_task x \<in> set (tasks db') \<and> enq_created x = (\<not> identity_held db identity)
       \<and> (enq_created x \<longrightarrow> tasks db' = tasks db @ [enq_task x] \<and> t_state (enq_task x) = task_state.Queued
            \<and> t_payload (enq_task x) = payload)
       \<and> (\<not> enq_created x \<longrightarrow> db' = db)"
proof (cases "identity_validate identity")
  case (Inl e)
  then show ?thesis
    by (auto simp: enqueue_with_payload_def dest: identity_validate_InlD)
next
  case (Inr u)
  show ?thesis
  proof (cases "identity_held db identity")
    case True
    with Inr show ?thesis
      by (auto simp: enqueue_with_payload_def identity_held_def insert_task_or_ignore_def
          query_task_by_key_def find_where_first Let_def dest: find_where_SomeD split: option.splits)
  next
    case False
    then have "find_where (\<lambda>t. t_identity_key t = identity_key identity) (tasks db) = None"
      by (simp add: identity_held_def find_where_first)
    with Inr False show ?thesis
      by (auto simp: enqueue_with_payload_def identity_held_def insert_task_or_ignore_def
          query_task_by_key_def find_where_append Let_def)
  qed
qed

subsection \<open>Claims\<close>

lemma keeps_task_simps [simp]:
  "keeps_task (\<lambda>t. t\<lparr>t_state := s, t_updated_at := now\<rparr>)"
  "keeps_task (requeue_task now i)"
  "keeps_task (move_task now s)"
  "keeps_task (\<lambda>t. t\<lparr>t_recovery_source_run_id := None\<rparr>)"
  by (simp_all add: keeps_task_def requeue_task_def move_task_def)

lemma set_task_running_ok:
  "queue_ok ts rs \<Longrightarrow> queue_ok (set_task_running now i ts) rs"
  unfolding set_task_running_def by (rule queue_ok_update_tasks) auto

lemma set_task_running_mem:
  assumes "c \<in> set ts" and "t_state c = task_state.Queued"
  shows "c\<lparr>t_state := task_state.Running, t_updated_at := now\<rparr> \<in> set (set_task_running now (t_id c) ts)"
  using assms by (auto simp: set_task_running_def set_update_where image_iff intro!: bexI [of _ c])

lemma claim_order_set [simp]: "set (claim_order ts) = set ts"
  by (simp add: claim_order_def)

lemma set_queued_tasks: "set (queued_tasks db) = {t \<in> set (tasks db). t_state t = task_state.Queued}"
  by (auto simp: queued_tasks_def)

lemma count_queued:
  assumes "queue_inv db" and "c \<in> set (tasks db)" and "t_state c = task_state.Queued"
  shows "count_where (\<lambda>t. t_id t = t_id c \<and> t_state t = task_state.Queued) (tasks db) = 1"
  using assms count_where_one_iff [of t_id "tasks db" "t_id c"]
  by (auto simp: queue_inv_def queue_ok_def task_keys_ok_def exists_where_iff)

lemma query_task_unique:
  assumes "unique_key t_id (tasks db)" and "t \<in> set (tasks db)"
  shows "query_task (t_id t) db = Some t"
  unfolding query_task_def using assms by (rule find_where_unique)

lemma query_run_unique:
  assumes "unique_key r_id (runs db)" and "r \<in> set (runs db)"
  shows "query_run (r_id r) db = Some r"
  unfolding query_run_def using assms by (rule find_where_unique)

lemma queue_inv_keys:
  assumes "queue_inv db"
  shows "unique_key t_id (tasks db)" and "unique_key t_identity_key (tasks db)"
    and "unique_key r_id (runs db)"
  using assms by (auto simp: queue_inv_def queue_ok_def task_keys_ok_def)

lemma claim_next_inv [queue_step]:
  "claim_next_matching repos now db = Inr (x, db') \<Longrightarrow> queue_inv db \<Longrightarrow> queue_inv db'"
  by (auto simp: claim_next_matching_def queue_inv_def Let_def set_task_running_ok
      split: list.splits if_splits option.splits)

text \<open>A queued task has no running run, so the claim's insertion meets no constraint.\<close>

lemma queued_task_idle:
  assumes "queue_inv db" and "c \<in> set (tasks db)" and "t_state c = task_state.Queued"
    and "r \<in> set (runs db)" and "r_task_id r = t_id c"
  shows "r_outcome r \<noteq> run_outcome.Running"
proof
  assume "r_outcome r = run_outcome.Running"
  then obtain t where "t \<in> set (tasks db)" "t_id t = r_task_id r" "t_state t = task_state.Running"
    using assms running_run_task [of "tasks db" "runs db" r] by (auto simp: queue_inv_def)
  with assms queue_inv_keys(1) [OF assms(1)] show False
    by (metis task_state.distinct(1) unique_key_inj)
qed

text \<open>The recovery source of a task, resolved.\<close>

lemma recovery_source_run:
  assumes "queue_inv db" and "c \<in> set (tasks db)" and "t_recovery_source_run_id c = Some i"
  obtains p where "p \<in> set (runs db)" and "r_id p = i" and "r_task_id p = t_id c"
    and "r_outcome p \<noteq> run_outcome.Running" and "r_recovery_attempt p < MAX_RECOVERY_ATTEMPTS"
    and "query_run i db = Some p"
proof -
  from assms obtain p where p: "p \<in> set (runs db)" "r_id p = i" "r_task_id p = t_id c"
      "r_outcome p \<noteq> run_outcome.Running" "r_recovery_attempt p < MAX_RECOVERY_ATTEMPTS"
    by (auto simp: queue_inv_def queue_ok_def sources_ok_def)
  moreover have "query_run i db = Some p"
    using query_run_unique [OF queue_inv_keys(3) [OF assms(1)] p(1)] p(2) by simp
  ultimately show ?thesis by (rule that)
qed

lemma start_claimed_run_eq:
  assumes inv: "queue_inv db" and c: "c \<in> set (tasks db)" "t_state c = task_state.Queued"
    and rt: "cc_runtimes cc (t_repository c, t_workflow c, t_kind c) = Some runtime"
    and wd: "cc_workdirs cc (t_repository c) = Some workdir"
  obtains attempt R db2 where
    "R = claimed_run cc c runtime workdir attempt (next_rowid r_id (runs db)) now"
    "db2 = db\<lparr>tasks := set_task_running now (t_id c) (tasks db), runs := runs db @ [R]\<rparr>"
    "start_claimed_run cc c now db =
       Inr ((c\<lparr>t_state := task_state.Running, t_updated_at := now\<rparr>, R), clear_recovery_source (t_id c) db2)"
    "queue_inv db2"
    "case t_recovery_source_run_id c of None \<Rightarrow> attempt = 0
     | Some i \<Rightarrow> \<exists>p\<in>set (runs db). r_id p = i \<and> attempt = Suc (r_recovery_attempt p)"
    "attempt \<le> MAX_RECOVERY_ATTEMPTS"
proof -
  let ?db1 = "db\<lparr>tasks := set_task_running now (t_id c) (tasks db)\<rparr>"
  let ?c = "c\<lparr>t_state := task_state.Running, t_updated_at := now\<rparr>"
  have inv1: "queue_inv ?db1" using inv by (simp add: queue_inv_def set_task_running_ok)
  have c1: "?c \<in> set (tasks ?db1)" using set_task_running_mem [OF c] by simp
  obtain attempt where att: "recovery_attempt_of c ?db1 = Inr attempt"
      "case t_recovery_source_run_id c of None \<Rightarrow> attempt = 0
       | Some i \<Rightarrow> \<exists>p\<in>set (runs db). r_id p = i \<and> r_task_id p = t_id c
           \<and> r_outcome p \<noteq> run_outcome.Running \<and> attempt = Suc (r_recovery_attempt p)"
      "attempt \<le> MAX_RECOVERY_ATTEMPTS"
  proof (cases "t_recovery_source_run_id c")
    case None
    then show ?thesis by (intro that [of 0]) (simp_all add: recovery_attempt_of_def)
  next
    case (Some i)
    then obtain p where "p \<in> set (runs db)" "r_id p = i" "r_task_id p = t_id c"
        "r_outcome p \<noteq> run_outcome.Running" "r_recovery_attempt p < MAX_RECOVERY_ATTEMPTS"
        "query_run i db = Some p"
      using recovery_source_run [OF inv c(1)] by blast
    with Some show ?thesis
      by (intro that [of "Suc (r_recovery_attempt p)"]) (auto simp: recovery_attempt_of_def query_run_def)
  qed
  let ?R = "claimed_run cc c runtime workdir attempt (next_rowid r_id (runs db)) now"
  let ?db2 = "?db1\<lparr>runs := runs db @ [?R]\<rparr>"
  have Rid: "r_id ?R = next_rowid r_id (runs db)" and Rtask: "r_task_id ?R = t_id c"
    and Rof: "r_recovery_of ?R = t_recovery_source_run_id c" "r_recovery_attempt ?R = attempt"
    by (simp_all add: claimed_run_def new_run_def)
  have free: "\<not> exists_where (\<lambda>x. r_task_id x = t_id c \<and> r_outcome x = run_outcome.Running) (runs db)"
    using queued_task_idle [OF inv c] by (auto simp: exists_where_iff)
  have "exists_where (\<lambda>t. t_id t = t_id c) (tasks ?db1)"
    using bexI [of "\<lambda>t. t_id t = t_id c", OF _ c1] by (simp add: exists_where_iff)
  with free have ins: "insert_run ?R ?db1 = Inr ?db2"
    by (simp add: insert_run_def Rtask)
  have inv2: "queue_inv ?db2"
  proof -
    have "run_of_task ?R ?c" by (simp add: run_of_task_def claimed_run_def new_run_def)
    moreover have "case r_recovery_of ?R of None \<Rightarrow> r_recovery_attempt ?R = 0
       | Some i \<Rightarrow> \<exists>p\<in>set (runs db). r_id p = i \<and> continues_run ?R p"
      using att(2) next_rowid_fresh [of _ "runs db" r_id]
      by (auto simp: Rof Rid Rtask continues_run_def split: option.splits)
    ultimately show ?thesis
      using inv1 c1 free Rof att(3) unfolding queue_inv_def
      by (simp add: Rid Rtask queue_ok_insert_run [where t = ?c])
  qed
  have qr: "query_run (next_rowid r_id (runs db)) ?db2 = Some ?R"
    using query_run_unique [OF queue_inv_keys(3) [OF inv2], of ?R] Rid by simp
  have qt: "query_task (t_id c) ?db2 = Some ?c"
    using query_task_unique [OF queue_inv_keys(1) [OF inv2], of ?c] c1 by simp
  have "start_claimed_run cc c now db = Inr ((?c, ?R), clear_recovery_source (t_id c) ?db2)"
    using rt wd att(1) count_queued [OF inv c] ins qr qt
    by (simp add: start_claimed_run_def Let_def)
  with inv2 att(2,3) show ?thesis
    by (intro that [of ?R attempt ?db2]) (auto split: option.splits)
qed

lemma clear_recovery_source_inv: "queue_inv db \<Longrightarrow> queue_inv (clear_recovery_source i db)"
  unfolding queue_inv_def clear_recovery_source_def
  by (auto intro!: queue_ok_update_tasks dest: running_run_state)

text \<open>The candidate of a claim: the first claimable task in claim order.\<close>

lemma claim_candidate:
  assumes "List.find (claimable parse cc db) (queued_tasks db) = Some c"
  shows "c \<in> set (tasks db)" and "t_state c = task_state.Queued" and "claimable parse cc db c"
    and "cc_runtimes cc (t_repository c, t_workflow c, t_kind c) \<noteq> None"
    and "t_repository c \<in> set (cc_repositories cc)"
proof -
  have c: "c \<in> set (queued_tasks db)" "claimable parse cc db c"
    using assms by (auto simp: find_Some_iff)
  then show "c \<in> set (tasks db)" and "t_state c = task_state.Queued" and "claimable parse cc db c"
    by (auto simp: set_queued_tasks)
  from c(2) show "cc_runtimes cc (t_repository c, t_workflow c, t_kind c) \<noteq> None"
    and "t_repository c \<in> set (cc_repositories cc)"
    by (auto simp: claimable_def split: if_splits)
qed

text \<open>Everything a successful claim does.\<close>

lemma claim_and_start_cases:
  assumes claim: "claim_and_start_run parse cc now db = Inr (Some (task, run), db')"
    and inv: "queue_inv db"
  obtains c attempt runtime workdir where
    "List.find (claimable parse cc db) (queued_tasks db) = Some c"
    and "task = c\<lparr>t_state := task_state.Running, t_updated_at := now\<rparr>"
    and "run = claimed_run cc c runtime workdir attempt (next_rowid r_id (runs db)) now"
    and "db' = clear_recovery_source (t_id c)
      (db\<lparr>tasks := set_task_running now (t_id c) (tasks db), runs := runs db @ [run]\<rparr>)"
    and "queue_inv db'"
proof -
  from claim obtain c where c: "List.find (claimable parse cc db) (queued_tasks db) = Some c"
      and st: "start_claimed_run cc c now db = Inr ((task, run), db')"
    by (auto simp: claim_and_start_run_def split: if_splits option.splits sum.splits)
  note cand = claim_candidate [OF c]
  from st obtain runtime workdir where
      rt: "cc_runtimes cc (t_repository c, t_workflow c, t_kind c) = Some runtime"
      and wd: "cc_workdirs cc (t_repository c) = Some workdir"
    by (auto simp: start_claimed_run_def Let_def split: option.splits if_splits sum.splits)
  obtain attempt R db2 where R: "R = claimed_run cc c runtime workdir attempt (next_rowid r_id (runs db)) now"
      and db2: "db2 = db\<lparr>tasks := set_task_running now (t_id c) (tasks db), runs := runs db @ [R]\<rparr>"
      and eq: "start_claimed_run cc c now db =
        Inr ((c\<lparr>t_state := task_state.Running, t_updated_at := now\<rparr>, R), clear_recovery_source (t_id c) db2)"
      and inv2: "queue_inv db2"
      and "case t_recovery_source_run_id c of None \<Rightarrow> attempt = 0
       | Some i \<Rightarrow> \<exists>p\<in>set (runs db). r_id p = i \<and> attempt = Suc (r_recovery_attempt p)"
      and "attempt \<le> MAX_RECOVERY_ATTEMPTS"
    by (rule start_claimed_run_eq [OF inv cand(1,2) rt wd, of now])
  from eq st have out: "task = c\<lparr>t_state := task_state.Running, t_updated_at := now\<rparr>" "run = R"
      "db' = clear_recovery_source (t_id c) db2" by auto
  show ?thesis
    by (rule that [OF c out(1)]) (use R out db2 clear_recovery_source_inv [OF inv2] in auto)
qed

lemma claim_and_start_inv [queue_step]:
  assumes claim: "claim_and_start_run parse cc now db = Inr (x, db')" and inv: "queue_inv db"
  shows "queue_inv db'"
proof (cases x)
  case None
  with assms show ?thesis
    by (auto simp: claim_and_start_run_def split: if_splits option.splits sum.splits)
next
  case (Some p)
  obtain task run where "p = (task, run)" by (cases p)
  with claim Some have "claim_and_start_run parse cc now db = Inr (Some (task, run), db')" by simp
  then show ?thesis using inv by (rule claim_and_start_cases)
qed

lemma claim_order_first:
  assumes "List.find P (claim_order ts) = Some c" and "u \<in> set ts" and "P u"
  shows "(t_created_at c, t_id c) \<le> (t_created_at u, t_id u)"
proof -
  let ?k = "\<lambda>t. (t_created_at t, t_id t)"
  from assms(1) obtain i where i: "i < length (claim_order ts)" "claim_order ts ! i = c"
      "\<forall>j<i. \<not> P (claim_order ts ! j)"
    by (auto simp: find_Some_iff)
  from assms(2) obtain j where j: "j < length (claim_order ts)" "claim_order ts ! j = u"
    by (metis claim_order_set in_set_conv_nth)
  have "i \<le> j" using i(3) j(2) assms(3) by (metis not_le)
  moreover have "sorted (map ?k (claim_order ts))" by (simp add: claim_order_def)
  ultimately have "map ?k (claim_order ts) ! i \<le> map ?k (claim_order ts) ! j"
    using j(1) by (intro sorted_nth_mono) auto
  with i(1,2) j show ?thesis by simp
qed

text \<open>
  C3. The claim is first in, first out among the work it may take: when it returns a task, that
  task was queued and claimable, it is the oldest such task by creation time and then id, it is
  now running, and its new run belongs to it, records the claiming daemon and is the only
  running run of the task.
\<close>

theorem claim_takes_oldest:
  assumes "queue_inv db" and "claim_and_start_run parse cc now db = Inr (Some (task, run), db')"
  shows "\<exists>c\<in>set (tasks db). task = c\<lparr>t_state := task_state.Running, t_updated_at := now\<rparr>
    \<and> t_state c = task_state.Queued \<and> claimable parse cc db c
    \<and> (\<forall>u\<in>set (tasks db). t_state u = task_state.Queued \<and> claimable parse cc db u
         \<longrightarrow> (t_created_at c, t_id c) \<le> (t_created_at u, t_id u))
    \<and> run \<in> set (runs db') \<and> run \<notin> set (runs db) \<and> r_task_id run = t_id task
    \<and> r_outcome run = run_outcome.Running \<and> r_owner_id run = Some (cc_owner_id cc)
    \<and> r_owner_pid run = Some (cc_owner_pid cc)
    \<and> (\<forall>r\<in>set (runs db'). r_task_id r = t_id task \<and> r_outcome r = run_outcome.Running \<longrightarrow> r = run)"
proof -
  obtain c attempt runtime workdir where
      c: "List.find (claimable parse cc db) (queued_tasks db) = Some c"
      and task: "task = c\<lparr>t_state := task_state.Running, t_updated_at := now\<rparr>"
      and run: "run = claimed_run cc c runtime workdir attempt (next_rowid r_id (runs db)) now"
      and db': "db' = clear_recovery_source (t_id c)
        (db\<lparr>tasks := set_task_running now (t_id c) (tasks db), runs := runs db @ [run]\<rparr>)"
      and "queue_inv db'"
    by (rule claim_and_start_cases [OF assms(2,1)])
  note cand = claim_candidate [OF c]
  have runs': "runs db' = runs db @ [run]" by (simp add: db' clear_recovery_source_def)
  have old: "(t_created_at c, t_id c) \<le> (t_created_at u, t_id u)"
    if "u \<in> set (tasks db)" "t_state u = task_state.Queued" "claimable parse cc db u" for u
    using c that by (intro claim_order_first [where P = "claimable parse cc db"
        and ts = "filter (\<lambda>t. t_state t = task_state.Queued) (tasks db)"]) (auto simp: queued_tasks_def)
  have new: "run \<notin> set (runs db)"
    using next_rowid_fresh [of run "runs db" r_id] by (auto simp: run claimed_run_def new_run_def)
  have fields: "r_task_id run = t_id c" "r_outcome run = run_outcome.Running"
      "r_owner_id run = Some (cc_owner_id cc)" "r_owner_pid run = Some (cc_owner_pid cc)"
    by (simp_all add: run claimed_run_def new_run_def)
  show ?thesis
    using cand(1-3) old new fields queued_task_idle [OF assms(1) cand(1,2)]
    by (intro bexI [of _ c]) (auto simp: task runs')
qed


text \<open>
  C5. One worker per ticket: a claim that returns a ticket task never does so while another task
  of the same repository and ticket is running.
\<close>

theorem claim_one_worker_per_ticket:
  assumes "claim_and_start_run parse cc now db = Inr (Some (task, run), db')"
    and "t_kind task = ''ticket''" and "t_source_item task = Some item"
    and "queue_inv db"
  shows "\<not> (\<exists>t\<in>set (tasks db). t_kind t = ''ticket'' \<and> t_state t = task_state.Running
    \<and> t_repository t = t_repository task \<and> t_source_item t = Some item)"
proof -
  obtain c where "task = c\<lparr>t_state := task_state.Running, t_updated_at := now\<rparr>"
      "claimable parse cc db c"
    by (rule claim_and_start_cases [OF assms(1,4)]) (blast dest: claim_candidate(3))
  with assms(2,3) show ?thesis
    by (auto simp: claimable_def running_ticket_source_def exists_where_iff split: if_splits)
qed

subsection \<open>Runs\<close>

lemma start_run_inv [queue_step]:
  assumes "start_run task_id runtime now db = Inr (x, db')" and inv: "queue_inv db"
  shows "queue_inv db'"
proof -
  from assms(1) obtain t where t: "query_task task_id db = Some t" "t_state t = task_state.Running"
      and ins: "insert_run (new_run (next_rowid r_id (runs db)) t (trim runtime) now) db = Inr db'"
    by (auto simp: start_run_def Let_def split: if_splits option.splits sum.splits)
  let ?r = "new_run (next_rowid r_id (runs db)) t (trim runtime) now"
  from t(1) have "t \<in> set (tasks db)" by (auto simp: query_task_def dest: find_where_SomeD)
  moreover have "run_of_task ?r t" using t(2) by (simp add: run_of_task_def new_run_def)
  moreover have "db' = db\<lparr>runs := runs db @ [?r]\<rparr>"
      "\<not> exists_where (\<lambda>x. r_task_id x = r_task_id ?r \<and> r_outcome x = run_outcome.Running) (runs db)"
    using ins by (auto simp: insert_run_def new_run_def split: if_splits)
  ultimately show ?thesis
    using inv unfolding queue_inv_def
    by (simp add: queue_ok_insert_run [where t = t] new_run_def)
qed

lemma update_running_run_inv:
  "update_running_run i f db = Inr db' \<Longrightarrow> closes_run f \<Longrightarrow> queue_inv db \<Longrightarrow> queue_inv db'"
  by (auto simp: update_running_run_def queue_inv_def queue_ok_update_runs split: if_splits)

lemma observation_inv [queue_step]:
  "set_run_agent_profile i p m e t db = Inr db' \<Longrightarrow> queue_inv db \<Longrightarrow> queue_inv db'"
  "record_run_workspace i wd bb bs fb wk db = Inr db' \<Longrightarrow> queue_inv db \<Longrightarrow> queue_inv db'"
  "observe_run sanitize i pid ident sess pr act now db = Inr db' \<Longrightarrow> queue_inv db \<Longrightarrow> queue_inv db'"
  "reset_run_runtime_observation i now db = Inr db' \<Longrightarrow> queue_inv db \<Longrightarrow> queue_inv db'"
  by (auto simp: set_run_agent_profile_def record_run_workspace_def observe_run_def
      reset_run_runtime_observation_def Let_def closes_run_def keeps_run_def
      split: if_splits elim!: update_running_run_inv)

subsection \<open>Ending an attempt\<close>

lemma close_attempt_inv:
  assumes "queue_inv db" and "r \<in> set (runs db)" and "r_outcome r = run_outcome.Running"
    and "closes_run f" and "\<And>x. r_outcome (f x) \<noteq> run_outcome.Running" and "keeps_task g"
    and "\<And>t i. t_recovery_source_run_id (g t) = Some i \<Longrightarrow>
      t_recovery_source_run_id t = Some i \<or> i = r_id r \<and> r_recovery_attempt r < MAX_RECOVERY_ATTEMPTS"
  shows "queue_inv (close_attempt r f g db)"
  using queue_ok_finish_attempt [of "tasks db" "runs db" r f g] assms
  by (simp add: queue_inv_def close_attempt_def)

lemma record_terminal_simps [simp]:
  "r_id (record_terminal now outcome result err sess x) = r_id x"
  "r_task_id (record_terminal now outcome result err sess x) = r_task_id x"
  "r_outcome (record_terminal now outcome result err sess x) = outcome"
  "r_finished_at (record_terminal now outcome result err sess x) = Some now"
  by (simp_all add: record_terminal_def)

lemma closes_record_terminal:
  "outcome \<noteq> run_outcome.Running \<Longrightarrow> closes_run (record_terminal now outcome result err sess)"
  by (simp add: closes_run_def keeps_run_def record_terminal_def)

lemma final_outcome_terminal: "outcome \<noteq> run_outcome.Running \<Longrightarrow> final_outcome r outcome \<noteq> run_outcome.Running"
  by (simp add: final_outcome_def)

lemma finish_inv [queue_step]:
  assumes "finish_run_and_task_with_recovery sanitize i outcome result err session_id allow now1 now2 db
      = Inr (x, db')"
    and inv: "queue_inv db"
  shows "queue_inv db'"
proof -
  from assms(1) obtain r where
      r: "find_where (\<lambda>r. r_id r = i \<and> r_outcome r = run_outcome.Running) (runs db) = Some r"
      and out: "outcome \<noteq> run_outcome.Running"
      and db': "db' = close_attempt r (record_terminal now1 (final_outcome r outcome)
          (map_option (\<lambda>v. truncate_utf8 (sanitize v) MAX_RESULT_BYTES) result)
          (final_error r (map_option (\<lambda>v. truncate_utf8 (sanitize v) MAX_ERROR_BYTES) err))
          (map_option (\<lambda>v. truncate_utf8 v MAX_SESSION_ID_BYTES) session_id))
        (if retry_recovery allow r (final_outcome r outcome) then requeue_task now2 i
         else move_task now2 (task_state_of_outcome (final_outcome r outcome))) db"
    by (auto simp: finish_run_and_task_with_recovery_def Let_def split: if_split_asm option.split_asm)
  have rin: "r \<in> set (runs db)" "r_id r = i" "r_outcome r = run_outcome.Running"
    using find_where_SomeD [OF r] by auto
  have fin: "final_outcome r outcome \<noteq> run_outcome.Running" using out by (rule final_outcome_terminal)
  show ?thesis
    unfolding db'
    by (rule close_attempt_inv [OF inv rin(1,3) closes_record_terminal [OF fin]])
      (auto simp: requeue_task_def move_task_def retry_recovery_def rin(2) record_terminal_def fin
        split: if_splits)
qed

lemma fail_prelaunch_inv [queue_step]:
  assumes "fail_prelaunch_and_requeue sanitize i err now db = Inr (x, db')" and inv: "queue_inv db"
  shows "queue_inv db'"
proof -
  from assms(1) obtain r where
      r: "find_where (\<lambda>r. r_id r = i \<and> r_outcome r = run_outcome.Running \<and> r_process_id r = None)
            (runs db) = Some r"
      and db': "db' = close_attempt r
        (\<lambda>x. x\<lparr>r_outcome := run_outcome.Failed, r_finished_at := Some now,
           r_error := Some (truncate_utf8 (sanitize err) MAX_ERROR_BYTES)\<rparr>)
        (if r_recovery_attempt r < MAX_RECOVERY_ATTEMPTS then requeue_task now i
         else move_task now task_state.Failed) db"
    by (auto simp: fail_prelaunch_and_requeue_def Let_def split: if_splits option.splits)
  have rin: "r \<in> set (runs db)" "r_id r = i" "r_outcome r = run_outcome.Running"
    using find_where_SomeD [OF r] by auto
  show ?thesis
    unfolding db'
    by (rule close_attempt_inv [OF inv rin(1,3)])
      (auto simp: closes_run_def keeps_run_def requeue_task_def move_task_def rin(2) split: if_splits)
qed

lemma cancellation_inv [queue_step]:
  assumes "request_run_cancellation os i now1 now2 db = Inr (x, db')" and "queue_inv db"
  shows "queue_inv db'"
proof -
  have "closes_run (\<lambda>r. r\<lparr>r_cancellation_requested_at := Some now2\<rparr>)"
    by (simp add: closes_run_def keeps_run_def)
  with assms show ?thesis
    by (auto simp: request_run_cancellation_def queue_inv_def Let_def queue_ok_update_runs
        split: if_splits option.splits)
qed

lemma daemon_owner_inv [queue_step]:
  "register_daemon_owner owner pid now db = Inr db' \<Longrightarrow> queue_inv db \<Longrightarrow> queue_inv db'"
  "heartbeat_daemon_owner owner now db = Inr db' \<Longrightarrow> queue_inv db \<Longrightarrow> queue_inv db'"
  "queue_inv db \<Longrightarrow> queue_inv (remove_daemon_owner owner db)"
  by (auto simp: register_daemon_owner_def heartbeat_daemon_owner_def remove_daemon_owner_def
      queue_inv_def Let_def split: if_splits)

text \<open>What closing an attempt does to the two rows it concerns, and that it touches no others.\<close>

lemma running_run_count:
  assumes "queue_inv db" and "r \<in> set (runs db)" and "r_outcome r = run_outcome.Running"
  shows "count_where (\<lambda>t. t_id t = r_task_id r \<and> t_state t = task_state.Running) (tasks db) = 1"
proof -
  obtain t where "t \<in> set (tasks db)" "t_id t = r_task_id r" "t_state t = task_state.Running"
    using assms running_run_task [of "tasks db" "runs db" r] by (auto simp: queue_inv_def)
  then show ?thesis
    using count_where_one_iff [OF queue_inv_keys(1) [OF assms(1)], of "r_task_id r"]
    by (auto simp: exists_where_iff)
qed

lemma close_attempt_rows:
  assumes inv: "queue_inv db" and r: "r \<in> set (runs db)" "r_outcome r = run_outcome.Running"
    and f: "closes_run f" "\<And>x. r_outcome (f x) \<noteq> run_outcome.Running"
    and db': "db' = close_attempt r f g db"
  obtains t where "t \<in> set (tasks db)" and "t_id t = r_task_id r" and "g t \<in> set (tasks db')"
    and "f r \<in> set (runs db')" and "query_run (r_id r) db' = Some (f r)"
    and "\<forall>x\<in>set (runs db'). r_task_id x = r_task_id r \<longrightarrow> r_outcome x \<noteq> run_outcome.Running"
    and "\<forall>u\<in>set (tasks db). t_id u \<noteq> r_task_id r \<longrightarrow> u \<in> set (tasks db')"
    and "\<forall>x\<in>set (runs db). r_id x \<noteq> r_id r \<longrightarrow> x \<in> set (runs db')"
proof -
  obtain t where t: "t \<in> set (tasks db)" "t_id t = r_task_id r" "t_state t = task_state.Running"
    using inv r running_run_task [of "tasks db" "runs db" r] by (auto simp: queue_inv_def)
  have kf: "r_id (f x) = r_id x" "r_task_id (f x) = r_task_id x" for x
    using f(1) by (auto simp: closes_run_def keeps_run_def)
  have rs: "set (runs db') = (\<lambda>x. if r_id x = r_id r \<and> r_outcome x = run_outcome.Running then f x else x)
      ` set (runs db)" by (simp add: db' close_attempt_def set_update_where)
  have ts: "set (tasks db') = (\<lambda>t. if t_id t = r_task_id r \<and> t_state t = task_state.Running then g t else t)
      ` set (tasks db)" by (simp add: db' close_attempt_def set_update_where)
  have gt: "g t \<in> set (tasks db')" using t by (force simp: ts)
  have fr: "f r \<in> set (runs db')" using r by (force simp: rs)
  have keys: "unique_key r_id (runs db')"
    using queue_inv_keys(3) [OF inv] kf by (simp add: db' close_attempt_def unique_key_update_where)
  have closed: "r_outcome x \<noteq> run_outcome.Running"
    if x: "x \<in> set (runs db')" "r_task_id x = r_task_id r" for x
  proof
    assume run: "r_outcome x = run_outcome.Running"
    with x(1) f(2) obtain y where y: "y \<in> set (runs db)" "x = y" "r_id y \<noteq> r_id r"
      by (auto simp: rs split: if_splits)
    have "one_active (runs db)" using inv by (simp add: queue_inv_def queue_ok_def)
    then have "y = r" using y(1) r x(2) run y(2) by (intro one_active_same) auto
    with y(3) show False by simp
  qed
  have "query_run (r_id r) db' = Some (f r)"
    using query_run_unique [OF keys fr] by (simp add: kf)
  moreover have "u \<in> set (tasks db')" if "u \<in> set (tasks db)" "t_id u \<noteq> r_task_id r" for u
    using that by (force simp: ts)
  moreover have "x \<in> set (runs db')" if "x \<in> set (runs db)" "r_id x \<noteq> r_id r" for x
    using that by (force simp: rs)
  ultimately show ?thesis using that [OF t(1,2) gt fr] closed by blast
qed

lemma find_running_run:
  assumes "queue_inv db" and "r \<in> set (runs db)" and "r_outcome r = run_outcome.Running"
  shows "find_where (\<lambda>x. r_id x = r_id r \<and> r_outcome x = run_outcome.Running) (runs db) = Some r"
proof (cases "find_where (\<lambda>x. r_id x = r_id r \<and> r_outcome x = run_outcome.Running) (runs db)")
  case None
  then show ?thesis using assms by (auto simp: find_where_None_iff)
next
  case (Some x)
  then have "x \<in> set (runs db)" "r_id x = r_id r" by (auto dest: find_where_SomeD)
  then have "x = r" using assms queue_inv_keys(3) [OF assms(1)] by (auto dest: unique_key_inj)
  with Some show ?thesis by simp
qed

text \<open>
  Completion is total and decides both rows together: for a running run and a terminal
  outcome the call succeeds; the stored outcome is the reported one unless cancellation was
  requested; the task goes back to the queue with this run as recovery source exactly when
  recovery is allowed, the run failed after its process started and it has attempts left,
  and otherwise ends in the matching state; no run of the task is left running, and every
  other task and run is as before.
\<close>

theorem finish_run_spec:
  assumes "queue_inv db" and "r \<in> set (runs db)" and "r_outcome r = run_outcome.Running"
    and "outcome \<noteq> run_outcome.Running"
  shows "\<exists>run db'. finish_run_and_task_with_recovery sanitize (r_id r) outcome result err session_id
      allow now1 now2 db = Inr (run, db')
    \<and> run \<in> set (runs db') \<and> r_id run = r_id r
    \<and> r_outcome run = (if r_cancellation_requested_at r \<noteq> None then run_outcome.Cancelled else outcome)
    \<and> r_finished_at run = Some now1
    \<and> (\<exists>t\<in>set (tasks db). t_id t = r_task_id r \<and>
        (if allow \<and> outcome = run_outcome.Failed \<and> r_cancellation_requested_at r = None
            \<and> r_process_id r \<noteq> None \<and> r_recovery_attempt r < MAX_RECOVERY_ATTEMPTS
         then requeue_task now2 (r_id r) t \<in> set (tasks db')
         else move_task now2 (task_state_of_outcome (r_outcome run)) t \<in> set (tasks db')))
    \<and> (\<forall>x\<in>set (runs db'). r_task_id x = r_task_id r \<longrightarrow> r_outcome x \<noteq> run_outcome.Running)
    \<and> (\<forall>u\<in>set (tasks db). t_id u \<noteq> r_task_id r \<longrightarrow> u \<in> set (tasks db'))
    \<and> (\<forall>x\<in>set (runs db). r_id x \<noteq> r_id r \<longrightarrow> x \<in> set (runs db'))"
proof -
  let ?o = "final_outcome r outcome"
  let ?f = "record_terminal now1 ?o
      (map_option (\<lambda>v. truncate_utf8 (sanitize v) MAX_RESULT_BYTES) result)
      (final_error r (map_option (\<lambda>v. truncate_utf8 (sanitize v) MAX_ERROR_BYTES) err))
      (map_option (\<lambda>v. truncate_utf8 v MAX_SESSION_ID_BYTES) session_id)"
  let ?g = "if retry_recovery allow r ?o then requeue_task now2 (r_id r)
      else move_task now2 (task_state_of_outcome ?o)"
  let ?db' = "close_attempt r ?f ?g db"
  have fin: "?o \<noteq> run_outcome.Running" using assms(4) by (rule final_outcome_terminal)
  have fx: "r_outcome (?f x) \<noteq> run_outcome.Running" for x by (simp add: fin)
  obtain t where t: "t \<in> set (tasks db)" "t_id t = r_task_id r" "?g t \<in> set (tasks ?db')"
      "?f r \<in> set (runs ?db')" "query_run (r_id r) ?db' = Some (?f r)"
      "\<forall>x\<in>set (runs ?db'). r_task_id x = r_task_id r \<longrightarrow> r_outcome x \<noteq> run_outcome.Running"
      "\<forall>u\<in>set (tasks db). t_id u \<noteq> r_task_id r \<longrightarrow> u \<in> set (tasks ?db')"
      "\<forall>x\<in>set (runs db). r_id x \<noteq> r_id r \<longrightarrow> x \<in> set (runs ?db')"
    by (rule close_attempt_rows [OF assms(1-3) closes_record_terminal [OF fin] fx refl, where g = ?g])
  have eq: "finish_run_and_task_with_recovery sanitize (r_id r) outcome result err session_id
      allow now1 now2 db = Inr (?f r, ?db')"
    using assms(4) find_running_run [OF assms(1-3)] running_run_count [OF assms(1-3)] t(5)
    by (simp add: finish_run_and_task_with_recovery_def Let_def)
  have run: "r_id (?f r) = r_id r" "r_outcome (?f r) = ?o" "r_finished_at (?f r) = Some now1"
    by (simp_all add: record_terminal_def)
  have o: "?o = (if r_cancellation_requested_at r \<noteq> None then run_outcome.Cancelled else outcome)"
    by (simp add: final_outcome_def)
  have retry: "retry_recovery allow r ?o \<longleftrightarrow> allow \<and> outcome = run_outcome.Failed
      \<and> r_cancellation_requested_at r = None \<and> r_process_id r \<noteq> None
      \<and> r_recovery_attempt r < MAX_RECOVERY_ATTEMPTS"
    by (auto simp: retry_recovery_def o)
  have task: "\<exists>t\<in>set (tasks db). t_id t = r_task_id r \<and>
      (if retry_recovery allow r ?o then requeue_task now2 (r_id r) t \<in> set (tasks ?db')
       else move_task now2 (task_state_of_outcome (r_outcome (?f r))) t \<in> set (tasks ?db'))"
    using t(1-3) run(2) by (intro bexI [of _ t]) (auto split: if_splits)
  obtain run where R: "run = ?f r" by blast
  obtain db' where D: "db' = ?db'" by blast
  have "finish_run_and_task_with_recovery sanitize (r_id r) outcome result err session_id
      allow now1 now2 db = Inr (run, db')" unfolding R D by (rule eq)
  moreover have "run \<in> set (runs db')" unfolding R D by (rule t(4))
  moreover have "r_id run = r_id r" "r_finished_at run = Some now1" unfolding R by (fact run)+
  moreover have "r_outcome run = (if r_cancellation_requested_at r \<noteq> None then run_outcome.Cancelled
      else outcome)" unfolding R run(2) by (rule o)
  moreover note task [folded R D, unfolded retry] t(6-8) [folded D]
  ultimately show ?thesis by blast
qed

end
