(* ===== verification/Ledger_Recovery.thy ===== *)
theory Ledger_Recovery
  imports Ledger_Queue_Proofs
begin

text \<open>
  Recovery of runs whose daemon stopped (\<open>recover_orphaned_runs_matching\<close> of \<open>src/storage.rs\<close>):
  the loop over the running runs, one iteration per run, with the signals it sends to process
  groups recorded in the result. \<open>clk i\<close> is the clock reading of the iteration for run \<open>i\<close>. A
  failed signal aborts the transaction; the signals already sent are not undone, and the model
  reports them only when the recovery succeeds.
\<close>

record recovery_acc =
  ra_recovered :: "int list"
  ra_exhausted :: "int list"
  ra_unresolved :: "int list"
  ra_signalled :: "nat list"

definition empty_recovery :: recovery_acc where
  "empty_recovery = \<lparr>ra_recovered = [], ra_exhausted = [], ra_unresolved = [], ra_signalled = []\<rparr>"

definition terminate_orphaned_process_group :: "os_env \<Rightarrow> nat \<Rightarrow> bool" where
  "terminate_orphaned_process_group os pid \<longleftrightarrow> pid \<noteq> 0 \<and> pid < 2 ^ 31 \<and> os_killpg os pid"

text \<open>The process group an orphan still owns: its recorded identity must match the live one.\<close>

definition orphan_process :: "os_env \<Rightarrow> run \<Rightarrow> nat option" where
  "orphan_process os r = (case (r_process_id r, r_process_identity r) of
      (Some pid, Some recorded) \<Rightarrow>
        if 0 < pid \<and> os_identity os pid = Some recorded then Some pid else None
    | _ \<Rightarrow> None)"

definition unresolved_detail :: "os_env \<Rightarrow> run \<Rightarrow> string \<Rightarrow> string option \<Rightarrow> string" where
  "unresolved_detail os r repository task_repository =
     ''Flashy Factory could not resolve interrupted run '' @ int_dec (r_id r)
     @ '' to owning repository '' @ repository @ ''; run repository is ''
     @ os_debug os (r_repository r) @ '' and task repository is ''
     @ (case task_repository of None \<Rightarrow> ''None'' | Some x \<Rightarrow> ''Some('' @ os_debug os x @ '')'')"

definition cancelled_orphan_error :: string where
  "cancelled_orphan_error =
     ''Flashy Factory completed a durable cancellation after its owning daemon stopped''"

definition interrupted_error :: string where
  "interrupted_error = ''Flashy Factory detected an interrupted run without a live owned process''"

definition orphan_outcome :: "run \<Rightarrow> run_outcome" where
  "orphan_outcome r =
     (if r_cancellation_requested_at r \<noteq> None then run_outcome.Cancelled else run_outcome.Failed)"

definition close_orphan_run :: "run \<Rightarrow> int \<Rightarrow> run \<Rightarrow> run" where
  "close_orphan_run r now x = x\<lparr>r_outcome := orphan_outcome r, r_finished_at := Some now,
     r_error := Some (if r_cancellation_requested_at r \<noteq> None then cancelled_orphan_error
                      else interrupted_error)\<rparr>"

definition settle_orphan_task :: "run \<Rightarrow> int \<Rightarrow> task \<Rightarrow> task" where
  "settle_orphan_task r now =
     (if r_cancellation_requested_at r \<noteq> None then move_task now task_state.Cancelled
      else if r_recovery_attempt r < MAX_RECOVERY_ATTEMPTS then requeue_task now (r_id r)
      else move_task now task_state.Failed)"

definition report_orphan :: "run \<Rightarrow> recovery_acc \<Rightarrow> recovery_acc" where
  "report_orphan r acc =
     (if r_cancellation_requested_at r \<noteq> None then acc
      else if r_recovery_attempt r < MAX_RECOVERY_ATTEMPTS
      then acc\<lparr>ra_recovered := ra_recovered acc @ [r_id r]\<rparr>
      else acc\<lparr>ra_exhausted := ra_exhausted acc @ [r_id r]\<rparr>)"

definition close_orphan ::
  "os_env \<Rightarrow> (int \<Rightarrow> int) \<Rightarrow> run \<Rightarrow> recovery_acc \<times> ledger \<Rightarrow> ledger_error + (recovery_acc \<times> ledger)" where
  "close_orphan os clk r = (\<lambda>(acc, db).
     let closed = (\<lambda>acc. (report_orphan r acc,
           close_attempt r (close_orphan_run r (clk (r_id r))) (settle_orphan_task r (clk (r_id r))) db))
     in case orphan_process os r of
          Some pid \<Rightarrow>
            if terminate_orphaned_process_group os pid
            then Inr (closed (acc\<lparr>ra_signalled := ra_signalled acc @ [pid]\<rparr>))
            else Inl (SignalFailed (r_id r))
        | None \<Rightarrow> Inr (closed acc))"

definition record_unresolved ::
  "os_env \<Rightarrow> (int \<Rightarrow> int) \<Rightarrow> string \<Rightarrow> string option \<Rightarrow> run \<Rightarrow> recovery_acc \<times> ledger \<Rightarrow>
     recovery_acc \<times> ledger" where
  "record_unresolved os clk repository task_repository r = (\<lambda>(acc, db).
     (acc\<lparr>ra_unresolved := ra_unresolved acc @ [r_id r]\<rparr>,
      db\<lparr>runs := update_where (\<lambda>x. r_id x = r_id r \<and> r_outcome x = run_outcome.Running)
        (\<lambda>x. x\<lparr>r_error := Some (unresolved_detail os r repository task_repository),
               r_activity := Some (unresolved_detail os r repository task_repository),
               r_last_activity_at := clk (r_id r)\<rparr>) (runs db)\<rparr>))"

definition recover_run ::
  "os_env \<Rightarrow> string option \<Rightarrow> int \<Rightarrow> (int \<Rightarrow> int) \<Rightarrow> run \<Rightarrow> recovery_acc \<times> ledger \<Rightarrow>
     ledger_error + (recovery_acc \<times> ledger)" where
  "recover_run os repository now0 clk r = (\<lambda>(acc, db).
     if run_owner_is_live os r now0 db then Inr (acc, db)
     else case repository of
        None \<Rightarrow> close_orphan os clk r (acc, db)
      | Some owning \<Rightarrow>
          (let task_repository = map_option t_repository (query_task (r_task_id r) db) in
           if r_repository r \<noteq> owning \<or> task_repository \<noteq> Some owning
           then Inr (record_unresolved os clk owning task_repository r (acc, db))
           else close_orphan os clk r (acc, db)))"

fun recover_each ::
  "os_env \<Rightarrow> string option \<Rightarrow> int \<Rightarrow> (int \<Rightarrow> int) \<Rightarrow> run list \<Rightarrow> recovery_acc \<times> ledger \<Rightarrow>
     ledger_error + (recovery_acc \<times> ledger)" where
  "recover_each os repository now0 clk [] s = Inr s"
| "recover_each os repository now0 clk (r # rs) s =
     (case recover_run os repository now0 clk r s of
        Inl e \<Rightarrow> Inl e
      | Inr s' \<Rightarrow> recover_each os repository now0 clk rs s')"

definition active_runs :: "ledger \<Rightarrow> run list" where
  "active_runs db = sort_key r_id (filter (\<lambda>r. r_outcome r = run_outcome.Running) (runs db))"

definition recover_orphaned_runs_matching ::
  "os_env \<Rightarrow> string option \<Rightarrow> int \<Rightarrow> (int \<Rightarrow> int) \<Rightarrow> ledger \<Rightarrow> ledger_error + (recovery_acc \<times> ledger)" where
  "recover_orphaned_runs_matching os repository now0 clk db =
     recover_each os repository now0 clk (active_runs db) (empty_recovery, db)"

definition recover_orphaned_runs ::
  "os_env \<Rightarrow> int \<Rightarrow> (int \<Rightarrow> int) \<Rightarrow> ledger \<Rightarrow> ledger_error + (recovery_acc \<times> ledger)" where
  "recover_orphaned_runs os now0 clk db = recover_orphaned_runs_matching os None now0 clk db"

definition recover_orphaned_runs_for_repository ::
  "os_env \<Rightarrow> string \<Rightarrow> int \<Rightarrow> (int \<Rightarrow> int) \<Rightarrow> ledger \<Rightarrow> ledger_error + (recovery_acc \<times> ledger)" where
  "recover_orphaned_runs_for_repository os repository now0 clk db =
     (if blank repository then Inl EmptyField
      else recover_orphaned_runs_matching os (Some repository) now0 clk db)"

subsection \<open>One iteration\<close>

lemma orphan_outcome_terminal [simp]: "orphan_outcome r \<noteq> run_outcome.Running"
  by (simp add: orphan_outcome_def)

lemma closes_orphan_run [simp]:
  "closes_run (close_orphan_run r now)" "r_outcome (close_orphan_run r now x) \<noteq> run_outcome.Running"
  "r_id (close_orphan_run r now x) = r_id x" "r_outcome (close_orphan_run r now x) = orphan_outcome r"
  by (simp_all add: closes_run_def keeps_run_def close_orphan_run_def orphan_outcome_def)

lemma settle_orphan_task_simps [simp]:
  "keeps_task (settle_orphan_task r now)" "t_id (settle_orphan_task r now t) = t_id t"
  by (simp_all add: settle_orphan_task_def keeps_task_def move_task_def requeue_task_def)

lemma close_orphan_db:
  "close_orphan os clk r (acc, db) = Inr (acc', db') \<Longrightarrow>
     db' = close_attempt r (close_orphan_run r (clk (r_id r))) (settle_orphan_task r (clk (r_id r))) db"
  by (auto simp: close_orphan_def Let_def split: option.splits if_splits)

text \<open>
  What an iteration leaves alone: the other runs and tasks, the daemon leases; and it keeps the
  invariant.
\<close>

lemma recover_run_frame:
  assumes inv: "queue_inv db" and r: "r \<in> set (runs db)" "r_outcome r = run_outcome.Running"
    and step: "recover_run os repository now0 clk r (acc, db) = Inr (acc', db')"
  shows "queue_inv db'" and "daemon_owners db' = daemon_owners db"
    and "\<forall>x\<in>set (runs db). r_id x \<noteq> r_id r \<longrightarrow> x \<in> set (runs db')"
    and "\<forall>t\<in>set (tasks db). t_id t \<noteq> r_task_id r \<longrightarrow> t \<in> set (tasks db')"
proof -
  let ?c = "close_attempt r (close_orphan_run r (clk (r_id r))) (settle_orphan_task r (clk (r_id r))) db"
  consider (same) "db' = db" | (close) "db' = ?c"
    | (unresolved) repo tr where "db' = snd (record_unresolved os clk repo tr r (acc, db))"
  proof (cases "run_owner_is_live os r now0 db")
    case True
    with step show ?thesis using that(1) by (simp add: recover_run_def)
  next
    case False
    show ?thesis
    proof (cases "close_orphan os clk r (acc, db) = Inr (acc', db')")
      case True
      then show ?thesis using that(2) close_orphan_db by blast
    next
      case no_close: False
      then obtain owning where "repository = Some owning"
          "record_unresolved os clk owning (map_option t_repository (query_task (r_task_id r) db)) r (acc, db)
             = (acc', db')"
        using step False by (auto simp: recover_run_def Let_def split: option.splits if_splits)
      then show ?thesis using that(3) by (metis snd_conv)
    qed
  qed
  then have "queue_inv db' \<and> daemon_owners db' = daemon_owners db
    \<and> (\<forall>x\<in>set (runs db). r_id x \<noteq> r_id r \<longrightarrow> x \<in> set (runs db'))
    \<and> (\<forall>t\<in>set (tasks db). t_id t \<noteq> r_task_id r \<longrightarrow> t \<in> set (tasks db'))"
  proof cases
    case same
    then show ?thesis using inv by simp
  next
    case close
    have "queue_inv ?c"
      by (rule close_attempt_inv [OF inv r])
        (auto simp: settle_orphan_task_def move_task_def requeue_task_def split: if_splits)
    then show ?thesis
      using close by (force simp: close_attempt_def set_update_where image_iff)
  next
    case unresolved
    have "queue_inv db'"
      using inv unfolding unresolved by (simp add: record_unresolved_def queue_inv_def queue_ok_update_runs
          closes_run_def keeps_run_def)
    then show ?thesis unfolding unresolved by (force simp: record_unresolved_def set_update_where image_iff)
  qed
  then show "queue_inv db'" and "daemon_owners db' = daemon_owners db"
    and "\<forall>x\<in>set (runs db). r_id x \<noteq> r_id r \<longrightarrow> x \<in> set (runs db')"
    and "\<forall>t\<in>set (tasks db). t_id t \<noteq> r_task_id r \<longrightarrow> t \<in> set (tasks db')"
    by blast+
qed

lemma recover_run_inv:
  "recover_run os repository now0 clk r (acc, db) = Inr (acc', db') \<Longrightarrow> r \<in> set (runs db) \<Longrightarrow>
     r_outcome r = run_outcome.Running \<Longrightarrow> queue_inv db \<Longrightarrow> queue_inv db'"
  using recover_run_frame(1) by blast

text \<open>
  What recovery owes a run: nothing changes while its owner lives; outside the repository being
  recovered it only gets the diagnosis; otherwise run and task are closed together.
\<close>

definition foreign_run :: "string option \<Rightarrow> run \<Rightarrow> bool" where
  "foreign_run repository r \<longleftrightarrow> (case repository of None \<Rightarrow> False | Some owning \<Rightarrow> r_repository r \<noteq> owning)"

definition orphan_task_settled :: "run \<Rightarrow> task \<Rightarrow> bool" where
  "orphan_task_settled r t \<longleftrightarrow> t_id t = r_task_id r \<and>
     (if r_cancellation_requested_at r \<noteq> None then t_state t = task_state.Cancelled
      else if r_recovery_attempt r < MAX_RECOVERY_ATTEMPTS
      then t_state t = task_state.Queued \<and> t_recovery_source_run_id t = Some (r_id r)
      else t_state t = task_state.Failed)"

definition orphan_settled :: "os_env \<Rightarrow> string option \<Rightarrow> int \<Rightarrow> ledger \<Rightarrow> run \<Rightarrow> ledger \<Rightarrow> bool" where
  "orphan_settled os repository now0 db r db' \<longleftrightarrow>
     (if run_owner_is_live os r now0 db then r \<in> set (runs db')
      else if foreign_run repository r
      then \<exists>x\<in>set (runs db'). r_id x = r_id r \<and> r_outcome x = run_outcome.Running \<and> r_error x \<noteq> None
      else (\<exists>x\<in>set (runs db'). r_id x = r_id r \<and> r_outcome x = orphan_outcome r)
        \<and> (\<exists>t\<in>set (tasks db'). orphan_task_settled r t))"

lemma run_owner_is_live_cong:
  "daemon_owners db' = daemon_owners db \<Longrightarrow> run_owner_is_live os r now db' = run_owner_is_live os r now db"
  by (simp add: run_owner_is_live_def owner_lease_live_def split: option.splits)

lemma orphan_settled_cong:
  "daemon_owners db1 = daemon_owners db \<Longrightarrow>
     orphan_settled os repository now db1 r db' = orphan_settled os repository now db r db'"
  using run_owner_is_live_cong [of db1 db os r now] by (simp add: orphan_settled_def)

lemma run_repository_of_task:
  assumes inv: "queue_inv db" and r: "r \<in> set (runs db)"
  shows "map_option t_repository (query_task (r_task_id r) db) = Some (r_repository r)"
proof -
  obtain t where t: "t \<in> set (tasks db)" "t_id t = r_task_id r" "t_repository t = r_repository r"
    using assms by (auto simp: queue_inv_def queue_ok_def runs_fit_def run_of_task_def)
  then show ?thesis using query_task_unique [OF queue_inv_keys(1) [OF inv] t(1)] by simp
qed

lemma recover_run_cases:
  assumes inv: "queue_inv db" and r: "r \<in> set (runs db)"
  shows "recover_run os repository now0 clk r (acc, db) =
    (if run_owner_is_live os r now0 db then Inr (acc, db)
     else if foreign_run repository r
     then Inr (record_unresolved os clk (the repository) (Some (r_repository r)) r (acc, db))
     else close_orphan os clk r (acc, db))"
  by (simp add: recover_run_def foreign_run_def run_repository_of_task [OF assms] split: option.splits)

lemma recover_run_settles:
  assumes inv: "queue_inv db" and r: "r \<in> set (runs db)" "r_outcome r = run_outcome.Running"
    and step: "recover_run os repository now0 clk r (acc, db) = Inr (acc', db')"
  shows "orphan_settled os repository now0 db r db'"
proof -
  note step' = step [unfolded recover_run_cases [OF inv r(1)]]
  consider (live) "run_owner_is_live os r now0 db" | (foreign) "\<not> run_owner_is_live os r now0 db"
      "foreign_run repository r"
    | (orphan) "\<not> run_owner_is_live os r now0 db" "\<not> foreign_run repository r" by blast
  then show ?thesis
  proof cases
    case live
    with step' r show ?thesis by (simp add: orphan_settled_def)
  next
    case foreign
    let ?d = "Some (unresolved_detail os r (the repository) (Some (r_repository r)))"
    let ?y = "r\<lparr>r_error := ?d, r_activity := ?d, r_last_activity_at := clk (r_id r)\<rparr>"
    have "?y \<in> set (runs db')"
      using step' foreign update_where_hit [OF r(1),
          of "\<lambda>x. r_id x = r_id r \<and> r_outcome x = run_outcome.Running"
             "\<lambda>x. x\<lparr>r_error := ?d, r_activity := ?d, r_last_activity_at := clk (r_id r)\<rparr>"] r(2)
      by (auto simp: record_unresolved_def)
    moreover have "r_id ?y = r_id r" "r_outcome ?y = run_outcome.Running" "r_error ?y \<noteq> None"
      using r(2) by simp_all
    ultimately show ?thesis unfolding orphan_settled_def if_P [OF foreign(2)] if_not_P [OF foreign(1)]
      by blast
  next
    case orphan
    with step' have "close_orphan os clk r (acc, db) = Inr (acc', db')" by simp
    then have db': "db' = close_attempt r (close_orphan_run r (clk (r_id r)))
        (settle_orphan_task r (clk (r_id r))) db" by (rule close_orphan_db)
    have fx: "r_outcome (close_orphan_run r (clk (r_id r)) x) \<noteq> run_outcome.Running" for x by simp
    obtain t where t: "t \<in> set (tasks db)" "t_id t = r_task_id r"
        "settle_orphan_task r (clk (r_id r)) t \<in> set (tasks db')"
        "close_orphan_run r (clk (r_id r)) r \<in> set (runs db')"
        "query_run (r_id r) db' = Some (close_orphan_run r (clk (r_id r)) r)"
        "\<forall>x\<in>set (runs db'). r_task_id x = r_task_id r \<longrightarrow> r_outcome x \<noteq> run_outcome.Running"
        "\<forall>u\<in>set (tasks db). t_id u \<noteq> r_task_id r \<longrightarrow> u \<in> set (tasks db')"
        "\<forall>x\<in>set (runs db). r_id x \<noteq> r_id r \<longrightarrow> x \<in> set (runs db')"
      by (rule close_attempt_rows [OF inv r closes_orphan_run(1) fx db'])
    have "orphan_task_settled r (settle_orphan_task r (clk (r_id r)) t)"
      using t(2) by (simp add: orphan_task_settled_def settle_orphan_task_def move_task_def requeue_task_def)
    with orphan t(3,4) show ?thesis
      by (auto simp: orphan_settled_def intro!: bexI [OF _ t(4)])
  qed
qed

subsection \<open>The whole pass\<close>

text \<open>The rows a pass over \<open>rs\<close> leaves alone.\<close>

definition pass_frame :: "run list \<Rightarrow> ledger \<Rightarrow> ledger \<Rightarrow> bool" where
  "pass_frame rs db db' \<longleftrightarrow> daemon_owners db' = daemon_owners db
     \<and> (\<forall>x\<in>set (runs db). r_id x \<notin> r_id ` set rs \<longrightarrow> x \<in> set (runs db'))
     \<and> (\<forall>t\<in>set (tasks db). t_id t \<notin> r_task_id ` set rs \<longrightarrow> t \<in> set (tasks db'))"

lemma orphan_settled_frame:
  assumes "orphan_settled os repository now0 db r db1" and "pass_frame rs db1 db'"
    and "r_id r \<notin> r_id ` set rs" and "r_task_id r \<notin> r_task_id ` set rs"
  shows "orphan_settled os repository now0 db r db'"
  using assms by (auto simp: orphan_settled_def pass_frame_def orphan_task_settled_def split: if_splits)

definition pass_ready :: "run list \<Rightarrow> ledger \<Rightarrow> bool" where
  "pass_ready rs db \<longleftrightarrow> queue_inv db \<and> distinct (map r_id rs) \<and> distinct (map r_task_id rs)
     \<and> (\<forall>r\<in>set rs. r \<in> set (runs db) \<and> r_outcome r = run_outcome.Running)"

lemma recover_each_spec:
  assumes "pass_ready rs db"
    and "recover_each os repository now0 clk rs (acc, db) = Inr (acc', db')"
  shows "queue_inv db' \<and> pass_frame rs db db' \<and> (\<forall>r\<in>set rs. orphan_settled os repository now0 db r db')"
  using assms
proof (induction rs arbitrary: acc db)
  case Nil
  then show ?case by (simp add: pass_ready_def pass_frame_def)
next
  case (Cons r rs)
  from Cons.prems(2) obtain acc1 db1 where
      step: "recover_run os repository now0 clk r (acc, db) = Inr (acc1, db1)"
      and rest: "recover_each os repository now0 clk rs (acc1, db1) = Inr (acc', db')"
    by (auto split: sum.splits)
  from Cons.prems(1) have inv: "queue_inv db" and r: "r \<in> set (runs db)" "r_outcome r = run_outcome.Running"
    and fresh: "r_id r \<notin> r_id ` set rs" "r_task_id r \<notin> r_task_id ` set rs"
    by (auto simp: pass_ready_def)
  note frame = recover_run_frame [OF inv r step]
  have "pass_ready rs db1"
    using Cons.prems(1) frame(1,3) fresh by (auto simp: pass_ready_def image_iff)
  from Cons.IH [OF this rest] have
      IH: "queue_inv db'" "pass_frame rs db1 db'" "\<forall>x\<in>set rs. orphan_settled os repository now0 db1 x db'"
    by auto
  have "orphan_settled os repository now0 db r db'"
    by (rule orphan_settled_frame [OF recover_run_settles [OF inv r step] IH(2) fresh])
  moreover have "orphan_settled os repository now0 db x db'" if "x \<in> set rs" for x
    using IH(3) that orphan_settled_cong [OF frame(2)] by blast
  moreover have "pass_frame (r # rs) db db'"
    using IH(2) frame(2-4) by (simp add: pass_frame_def)
  ultimately show ?case using IH(1) by simp
qed

lemma active_runs_set: "set (active_runs db) = {r \<in> set (runs db). r_outcome r = run_outcome.Running}"
  by (auto simp: active_runs_def)

lemma pass_ready_active:
  assumes "queue_inv db"
  shows "pass_ready (active_runs db) db"
proof -
  have keys: "distinct (map r_id (runs db))"
    using queue_inv_keys(3) [OF assms] by (simp add: unique_key_def)
  have one: "distinct (map r_task_id (filter (\<lambda>r. r_outcome r = run_outcome.Running) (runs db)))"
    using assms by (simp add: queue_inv_def queue_ok_def one_active_def unique_key_def)
  have perm: "distinct (map k (sort_key r_id xs)) = distinct (map k xs)" for k :: "run \<Rightarrow> int" and xs
    by (simp add: distinct_map)
  show ?thesis
    using assms one keys unfolding pass_ready_def active_runs_def perm
    by (auto simp: distinct_map_filter)
qed

lemma recover_orphans_inv [queue_step]:
  "recover_orphaned_runs os now0 clk db = Inr (acc, db') \<Longrightarrow> queue_inv db \<Longrightarrow> queue_inv db'"
  "recover_orphaned_runs_for_repository os repo now0 clk db = Inr (acc, db') \<Longrightarrow> queue_inv db \<Longrightarrow> queue_inv db'"
  using recover_each_spec [OF pass_ready_active]
  by (auto simp: recover_orphaned_runs_def recover_orphaned_runs_for_repository_def
      recover_orphaned_runs_matching_def split: if_splits)

text \<open>
  C6. A recovery pass settles every running run: one whose daemon still holds a live lease is
  left as it is; one of another repository (when a repository is given) stays running with a
  diagnosis; any other is closed, as cancelled if a cancellation was requested and as failed
  otherwise, and its task ends cancelled, goes back to the queue with the run as its recovery
  source while attempts remain, or fails. Runs that were not running, and the tasks without
  running run, are untouched.
\<close>

theorem recovery_pass_spec:
  assumes "queue_inv db"
    and "recover_orphaned_runs_matching os repository now0 clk db = Inr (acc, db')"
  shows "(\<forall>r\<in>set (runs db). r_outcome r = run_outcome.Running \<longrightarrow>
           orphan_settled os repository now0 db r db')
    \<and> (\<forall>r\<in>set (runs db). r_outcome r \<noteq> run_outcome.Running \<longrightarrow> r \<in> set (runs db'))
    \<and> (\<forall>t\<in>set (tasks db). t_state t \<noteq> task_state.Running \<longrightarrow> t \<in> set (tasks db'))
    \<and> queue_inv db'"
proof -
  have spec: "queue_inv db'" "pass_frame (active_runs db) db db'"
      "\<forall>r\<in>set (active_runs db). orphan_settled os repository now0 db r db'"
    using recover_each_spec [OF pass_ready_active [OF assms(1)]] assms(2)
    by (auto simp: recover_orphaned_runs_matching_def)
  have "r_id r \<notin> r_id ` set (active_runs db)"
    if "r \<in> set (runs db)" "r_outcome r \<noteq> run_outcome.Running" for r
    using that queue_inv_keys(3) [OF assms(1)] by (auto simp: active_runs_set dest: unique_key_inj)
  moreover have "t_id t \<notin> r_task_id ` set (active_runs db)"
    if "t \<in> set (tasks db)" "t_state t \<noteq> task_state.Running" for t
    using that assms(1) running_run_state by (auto simp: active_runs_set queue_inv_def)
  ultimately show ?thesis using spec by (auto simp: pass_frame_def active_runs_set)
qed

subsection \<open>Signals\<close>

lemma recover_run_signals:
  assumes "recover_run os repository now0 clk r (acc, db) = Inr (acc', db')"
  shows "daemon_owners db' = daemon_owners db"
    and "pid \<in> set (ra_signalled acc') \<Longrightarrow> pid \<in> set (ra_signalled acc) \<or>
      (orphan_process os r = Some pid \<and> \<not> run_owner_is_live os r now0 db \<and> \<not> foreign_run repository r)"
  using assms
  by (auto simp: recover_run_def close_orphan_def record_unresolved_def close_attempt_def Let_def
      report_orphan_def foreign_run_def split: option.splits if_splits)

lemma recover_each_signals:
  "recover_each os repository now0 clk rs (acc, db) = Inr (acc', db') \<Longrightarrow> pid \<in> set (ra_signalled acc') \<Longrightarrow>
     pid \<in> set (ra_signalled acc) \<or> (\<exists>r\<in>set rs. orphan_process os r = Some pid
        \<and> \<not> run_owner_is_live os r now0 db \<and> \<not> foreign_run repository r)"
proof (induction rs arbitrary: acc db)
  case (Cons r rs)
  then obtain acc1 db1 where step: "recover_run os repository now0 clk r (acc, db) = Inr (acc1, db1)"
      and rest: "recover_each os repository now0 clk rs (acc1, db1) = Inr (acc', db')"
    by (auto split: sum.splits)
  have live: "run_owner_is_live os x now0 db1 = run_owner_is_live os x now0 db" for x
    by (rule run_owner_is_live_cong [OF recover_run_signals(1) [OF step]])
  from Cons.IH [OF rest Cons.prems(2)] recover_run_signals(2) [OF step, of pid]
  show ?case unfolding live by auto
qed simp

lemma recover_each_total:
  assumes "\<forall>r\<in>set rs. \<forall>pid. orphan_process os r = Some pid \<longrightarrow> terminate_orphaned_process_group os pid"
  shows "\<exists>s'. recover_each os repository now0 clk rs s = Inr s'"
  using assms
proof (induction rs arbitrary: s)
  case (Cons r rs)
  have "\<exists>s1. recover_run os repository now0 clk r s = Inr s1"
    using Cons.prems by (cases s) (auto simp: recover_run_def close_orphan_def Let_def split: option.splits)
  with Cons show ?case by auto
qed simp

text \<open>
  C7. Recovery never kills a stranger: it signals a process group only for a running run of the
  recovered repository whose daemon's lease is gone, and only while the live process still has
  the identity recorded for the run, so a process id the system has reused is never signalled.
\<close>

theorem recovery_signals_only_owned_processes:
  assumes "recover_orphaned_runs_matching os repository now0 clk db = Inr (acc, db')"
    and "pid \<in> set (ra_signalled acc)"
  shows "\<exists>r\<in>set (runs db). r_outcome r = run_outcome.Running \<and> r_process_id r = Some pid \<and> 0 < pid
    \<and> r_process_identity r \<noteq> None \<and> os_identity os pid = r_process_identity r
    \<and> \<not> run_owner_is_live os r now0 db
    \<and> (case repository of None \<Rightarrow> True | Some owning \<Rightarrow> r_repository r = owning)"
proof -
  obtain r where "r \<in> set (active_runs db)" "orphan_process os r = Some pid"
      "\<not> run_owner_is_live os r now0 db" "\<not> foreign_run repository r"
    using recover_each_signals [of os repository now0 clk "active_runs db" empty_recovery db acc db' pid]
      assms by (auto simp: recover_orphaned_runs_matching_def empty_recovery_def)
  then show ?thesis
    by (auto simp: active_runs_set orphan_process_def foreign_run_def split: option.splits if_splits)
qed

text \<open>
  Recovery completes: whenever every process group still owned by a running run accepts its
  signal, the whole pass succeeds; no row of the ledger can make it fail.
\<close>

theorem recovery_completes:
  assumes "\<forall>r\<in>set (runs db). \<forall>pid. r_outcome r = run_outcome.Running \<and> orphan_process os r = Some pid
    \<longrightarrow> terminate_orphaned_process_group os pid"
  shows "\<exists>acc db'. recover_orphaned_runs_matching os repository now0 clk db = Inr (acc, db')"
  using assms recover_each_total [of "active_runs db" os repository now0 clk "(empty_recovery, db)"]
  by (auto simp: recover_orphaned_runs_matching_def active_runs_set)

end
