(* ===== verification/Ledger_Poll.thy ===== *)
theory Ledger_Poll
  imports Ledger_Queue_Proofs
begin

text \<open>
  Ticket polling (\<open>reconcile_ticket_poll\<close> of \<open>src/storage.rs\<close>): one transaction that compares the
  tickets a poll observed with the observations of the previous poll and enqueues a task for each
  ticket that became eligible or changed its revision. \<open>clk\<close> gives the clock readings of the
  loop: observation number \<open>i\<close> reads \<open>clk (2 * i)\<close> for its task row and \<open>clk (2 * i + 1)\<close> for its
  observation row.
\<close>

subsection \<open>The poll\<close>

definition observation_of :: "string \<Rightarrow> string \<Rightarrow> string \<Rightarrow> trigger_observation \<Rightarrow> bool" where
  "observation_of repository workflow item x \<longleftrightarrow>
     to_repository x = repository \<and> to_workflow x = workflow \<and> to_source_item x = item"

lemma observation_of_simps:
  "observation_of repository workflow item (x\<lparr>to_eligible := e\<rparr>) = observation_of repository workflow item x"
  "observation_of repository workflow item (x\<lparr>to_revision := rv, to_eligible := e, to_payload := pl,
     to_observed_at := at\<rparr>) = observation_of repository workflow item x"
  "observation_of repository workflow item \<lparr>to_repository = r, to_workflow = w, to_source_item = i,
     to_revision = rv, to_eligible = e, to_payload = pl, to_observed_at = at\<rparr>
     \<longleftrightarrow> r = repository \<and> w = workflow \<and> i = item"
  by (simp_all add: observation_of_def)

definition previous_observation ::
  "string \<Rightarrow> string \<Rightarrow> ledger \<Rightarrow> string \<Rightarrow> (bool \<times> string) option" where
  "previous_observation repository workflow db item =
     map_option (\<lambda>x. (to_eligible x, to_revision x))
       (find_where (observation_of repository workflow item) (trigger_observations db))"

definition reset_eligibility :: "string \<Rightarrow> string \<Rightarrow> ledger \<Rightarrow> ledger" where
  "reset_eligibility repository workflow db = db\<lparr>trigger_observations :=
     update_where (\<lambda>x. to_repository x = repository \<and> to_workflow x = workflow)
       (\<lambda>x. x\<lparr>to_eligible := False\<rparr>) (trigger_observations db)\<rparr>"

definition active_ticket_task :: "string \<Rightarrow> string \<Rightarrow> string \<Rightarrow> task \<Rightarrow> bool" where
  "active_ticket_task repository workflow item t \<longleftrightarrow>
     t_repository t = repository \<and> t_workflow t = workflow \<and> t_source_item t = Some item
     \<and> (t_state t = task_state.Queued \<or> t_state t = task_state.Running)"

text \<open>Whether an observation opens a visit, and the revision of the visit's task.\<close>

definition opens_visit :: "(bool \<times> string) option \<Rightarrow> observed_ticket \<Rightarrow> bool" where
  "opens_visit previous obs \<longleftrightarrow> ot_eligible obs \<and>
     (case previous of None \<Rightarrow> True
      | Some (was_eligible, revision) \<Rightarrow> \<not> was_eligible \<or> revision \<noteq> ot_revision obs)"

definition visit_revision :: "(bool \<times> string) option \<Rightarrow> observed_ticket \<Rightarrow> ledger \<Rightarrow> string" where
  "visit_revision previous obs db =
     (if previous = Some (False, ot_revision obs)
      then ot_revision obs @ '':visit:'' @ int_dec (next_rowid t_id (tasks db))
      else ot_revision obs)"

definition enqueue_visit ::
  "string \<Rightarrow> string \<Rightarrow> (bool \<times> string) option \<Rightarrow> int \<Rightarrow> observed_ticket \<Rightarrow>
     enqueued_task list \<times> ledger \<Rightarrow> ledger_error + (enqueued_task list \<times> ledger)" where
  "enqueue_visit repository workflow previous now obs = (\<lambda>(enqueued, db).
     if \<not> opens_visit previous obs then Inr (enqueued, db)
     else case identity_ticket repository workflow (ot_source_item obs) (visit_revision previous obs db) of
       Inl e \<Rightarrow> Inl e
     | Inr identity \<Rightarrow>
         if exists_where (active_ticket_task repository workflow (ot_source_item obs)) (tasks db)
         then Inr (enqueued, db)
         else let (db', inserted) = insert_task_or_ignore (identity_key identity) ''ticket''
                repository workflow (Some (ot_source_item obs)) (Some (ot_payload obs)) now db
           in case query_task_by_key (identity_key identity) db' of
                None \<Rightarrow> Inl RowDisappeared
              | Some task \<Rightarrow> Inr (enqueued @ [\<lparr>enq_task = task, enq_created = inserted\<rparr>], db'))"

definition record_observation :: "string \<Rightarrow> string \<Rightarrow> int \<Rightarrow> observed_ticket \<Rightarrow> ledger \<Rightarrow> ledger" where
  "record_observation repository workflow now obs db = db\<lparr>trigger_observations :=
     upsert_where (observation_of repository workflow (ot_source_item obs))
       (\<lambda>x. x\<lparr>to_revision := ot_revision obs, to_eligible := ot_eligible obs,
              to_payload := ot_payload obs, to_observed_at := now\<rparr>)
       \<lparr>to_repository = repository, to_workflow = workflow, to_source_item = ot_source_item obs,
        to_revision = ot_revision obs, to_eligible = ot_eligible obs, to_payload = ot_payload obs,
        to_observed_at = now\<rparr> (trigger_observations db)\<rparr>"

fun observe_each ::
  "string \<Rightarrow> string \<Rightarrow> (string \<Rightarrow> (bool \<times> string) option) \<Rightarrow> (nat \<Rightarrow> int) \<Rightarrow> nat \<Rightarrow>
     observed_ticket list \<Rightarrow> enqueued_task list \<times> ledger \<Rightarrow>
     ledger_error + (enqueued_task list \<times> ledger)" where
  "observe_each repository workflow previous clk i [] s = Inr s"
| "observe_each repository workflow previous clk i (obs # rest) s =
     (if blank (ot_source_item obs) \<or> blank (ot_revision obs) then Inl EmptyField
      else case enqueue_visit repository workflow (previous (ot_source_item obs)) (clk (2 * i)) obs s of
        Inl e \<Rightarrow> Inl e
      | Inr (enqueued, db) \<Rightarrow>
          observe_each repository workflow previous clk (Suc i) rest
            (enqueued, record_observation repository workflow (clk (2 * i + 1)) obs db))"

definition reconcile_ticket_poll ::
  "string \<Rightarrow> string \<Rightarrow> observed_ticket list \<Rightarrow> (nat \<Rightarrow> int) \<Rightarrow> ledger \<Rightarrow>
     ledger_error + (enqueued_task list \<times> ledger)" where
  "reconcile_ticket_poll repository workflow observations clk db =
     (if blank repository \<or> blank workflow then Inl EmptyField
      else observe_each repository workflow (previous_observation repository workflow db) clk 0
             observations ([], reset_eligibility repository workflow db))"

subsection \<open>Frames\<close>

lemma record_observation_simps [simp]:
  "tasks (record_observation repository workflow now obs db) = tasks db"
  "runs (record_observation repository workflow now obs db) = runs db"
  by (simp_all add: record_observation_def)

lemma reset_eligibility_simps [simp]:
  "tasks (reset_eligibility repository workflow db) = tasks db"
  "runs (reset_eligibility repository workflow db) = runs db"
  by (simp_all add: reset_eligibility_def)

lemma insert_task_observations [simp]:
  "trigger_observations (fst (insert_task_or_ignore key kind repo workflow src payload now db))
     = trigger_observations db"
  by (simp add: insert_task_or_ignore_def)

text \<open>What \<open>enqueue_visit\<close> can do: nothing, or one insertion of the visit's task.\<close>

abbreviation ticket_active :: "string \<Rightarrow> string \<Rightarrow> observed_ticket \<Rightarrow> ledger \<Rightarrow> bool" where
  "ticket_active repository workflow obs db \<equiv>
     exists_where (active_ticket_task repository workflow (ot_source_item obs)) (tasks db)"

lemma enqueue_visit_skip:
  assumes "enqueue_visit repository workflow previous now obs (enqueued, db) = Inr (enqueued', db')"
    and "\<not> opens_visit previous obs \<or> ticket_active repository workflow obs db"
  shows "enqueued' = enqueued" and "db' = db"
  using assms by (auto simp: enqueue_visit_def split: if_splits sum.splits)

lemma enqueue_visit_insert:
  assumes step: "enqueue_visit repository workflow previous now obs (enqueued, db) = Inr (enqueued', db')"
    and go: "opens_visit previous obs" "\<not> ticket_active repository workflow obs db"
    and identity: "identity = Ticket repository workflow (ot_source_item obs) (visit_revision previous obs db)"
  obtains task inserted where "enqueued' = enqueued @ [\<lparr>enq_task = task, enq_created = inserted\<rparr>]"
    and "insert_task_or_ignore (identity_key identity) ''ticket'' repository workflow
          (Some (ot_source_item obs)) (Some (ot_payload obs)) now db = (db', inserted)"
    and "query_task_by_key (identity_key identity) db' = Some task"
proof -
  obtain db1 inserted where ins: "insert_task_or_ignore (identity_key identity) ''ticket'' repository workflow
      (Some (ot_source_item obs)) (Some (ot_payload obs)) now db = (db1, inserted)" by fastforce
  have "identity_ticket repository workflow (ot_source_item obs) (visit_revision previous obs db) = Inr identity"
    using step go by (auto simp: enqueue_visit_def identity_ticket_def Let_def identity split: sum.splits)
  with step go ins that [of _ inserted] show ?thesis
    by (auto simp: enqueue_visit_def simp del: identity_key.simps split: option.splits)
qed

lemma enqueue_visit_inv:
  assumes "enqueue_visit repository workflow previous now obs (enqueued, db) = Inr (enqueued', db')"
    and inv: "queue_inv db"
  shows "queue_inv db'"
proof (cases "\<not> opens_visit previous obs \<or> ticket_active repository workflow obs db")
  case True
  then show ?thesis using enqueue_visit_skip [OF assms(1)] inv by simp
next
  case False
  then have go: "opens_visit previous obs" "\<not> ticket_active repository workflow obs db" by auto
  show ?thesis
    by (rule enqueue_visit_insert [OF assms(1) go refl])
      (metis fst_conv insert_task_inv [OF inv])
qed

lemma observe_each_inv:
  "observe_each repository workflow previous clk i obs (enqueued, db) = Inr (enqueued', db') \<Longrightarrow>
     queue_inv db \<Longrightarrow> queue_inv db'"
proof (induction obs arbitrary: i enqueued db)
  case (Cons x xs)
  then obtain e1 db1 where
      v: "enqueue_visit repository workflow (previous (ot_source_item x)) (clk (2 * i)) x (enqueued, db)
        = Inr (e1, db1)"
      and rest: "observe_each repository workflow previous clk (Suc i) xs
        (e1, record_observation repository workflow (clk (2 * i + 1)) x db1) = Inr (enqueued', db')"
    by (auto split: if_splits sum.splits)
  have "queue_inv (record_observation repository workflow (clk (2 * i + 1)) x db1)"
    using enqueue_visit_inv [OF v Cons.prems(2)] by (simp add: queue_inv_def)
  with Cons.IH [OF rest] show ?case .
qed simp

lemma reconcile_ticket_poll_inv [queue_step]:
  "reconcile_ticket_poll repository workflow observations clk db = Inr (x, db') \<Longrightarrow> queue_inv db \<Longrightarrow> queue_inv db'"
  by (cases x) (auto simp: reconcile_ticket_poll_def queue_inv_def split: if_splits
      dest!: observe_each_inv)

subsection \<open>What a poll remembers\<close>

lemma previous_observation_record:
  "previous_observation repository workflow (record_observation repository workflow now obs db) item =
     (if item = ot_source_item obs then Some (ot_eligible obs, ot_revision obs)
      else previous_observation repository workflow db item)"
proof (cases "item = ot_source_item obs")
  case True
  have "find_where (observation_of repository workflow (ot_source_item obs))
      (trigger_observations (record_observation repository workflow now obs db)) = Some z \<Longrightarrow>
      to_eligible z = ot_eligible obs \<and> to_revision z = ot_revision obs" for z
    by (auto simp: record_observation_def observation_of_simps find_where_upsert_same split: option.splits)
  moreover have "find_where (observation_of repository workflow (ot_source_item obs))
      (trigger_observations (record_observation repository workflow now obs db)) \<noteq> None"
    by (simp add: record_observation_def observation_of_simps find_where_upsert_same)
  ultimately show ?thesis using True by (auto simp: previous_observation_def)
next
  case False
  then show ?thesis
    by (simp add: previous_observation_def record_observation_def)
      (subst find_where_upsert_other, auto simp: observation_of_def)
qed

lemma previous_observation_reset:
  "previous_observation repository workflow (reset_eligibility repository workflow db) item =
     map_option (\<lambda>(_, revision). (False, revision)) (previous_observation repository workflow db item)"
proof -
  have "find_where (observation_of repository workflow item)
      (trigger_observations (reset_eligibility repository workflow db)) =
      map_option (\<lambda>x. if to_repository x = repository \<and> to_workflow x = workflow
          then x\<lparr>to_eligible := False\<rparr> else x)
        (find_where (observation_of repository workflow item) (trigger_observations db))"
    by (simp add: reset_eligibility_def find_where_update observation_of_def)
  then show ?thesis
    by (auto simp: previous_observation_def observation_of_def map_option.compositionality o_def
        intro!: option.map_cong dest: find_where_SomeD(2) cong: option.map_cong)
qed

lemma enqueue_visit_observations:
  assumes "enqueue_visit repository workflow previous now obs (enqueued, db) = Inr (enqueued', db')"
  shows "trigger_observations db' = trigger_observations db"
proof (cases "\<not> opens_visit previous obs \<or> ticket_active repository workflow obs db")
  case True
  then show ?thesis using enqueue_visit_skip [OF assms] by simp
next
  case False
  then have go: "opens_visit previous obs" "\<not> ticket_active repository workflow obs db" by auto
  show ?thesis
    by (rule enqueue_visit_insert [OF assms go refl]) (metis fst_conv insert_task_observations)
qed

lemma previous_observation_cong:
  "trigger_observations a = trigger_observations b \<Longrightarrow>
     previous_observation repository workflow a = previous_observation repository workflow b"
  by (simp add: previous_observation_def fun_eq_iff)

lemma observe_each_remembers:
  assumes "observe_each repository workflow previous clk i obs (enqueued, db) = Inr (enqueued', db')"
    and "distinct (map ot_source_item obs)"
  shows "\<forall>x\<in>set obs. previous_observation repository workflow db' (ot_source_item x)
      = Some (ot_eligible x, ot_revision x)"
    and "\<forall>item. item \<notin> ot_source_item ` set obs \<longrightarrow>
      previous_observation repository workflow db' item = previous_observation repository workflow db item"
  using assms
proof (induction obs arbitrary: i enqueued db)
  case (Cons x xs)
  case 1
  then obtain e1 db1 where
      v: "enqueue_visit repository workflow (previous (ot_source_item x)) (clk (2 * i)) x (enqueued, db)
        = Inr (e1, db1)"
      and rest: "observe_each repository workflow previous clk (Suc i) xs
        (e1, record_observation repository workflow (clk (2 * i + 1)) x db1) = Inr (enqueued', db')"
    by (auto split: if_splits sum.splits)
  have "distinct (map ot_source_item xs)" "ot_source_item x \<notin> ot_source_item ` set xs"
    using 1 by auto
  with Cons.IH [OF rest] show ?case by (simp add: previous_observation_record)
next
  case (Cons x xs)
  case 2
  then obtain e1 db1 where
      v: "enqueue_visit repository workflow (previous (ot_source_item x)) (clk (2 * i)) x (enqueued, db)
        = Inr (e1, db1)"
      and rest: "observe_each repository workflow previous clk (Suc i) xs
        (e1, record_observation repository workflow (clk (2 * i + 1)) x db1) = Inr (enqueued', db')"
    by (auto split: if_splits sum.splits)
  have "distinct (map ot_source_item xs)" using 2 by auto
  with Cons.IH(2) [OF rest] previous_observation_cong [OF enqueue_visit_observations [OF v]]
  show ?case by (simp add: previous_observation_record)
qed simp_all

subsection \<open>What a poll enqueues\<close>

text \<open>
  The decision for one ticket, as a function of the observation the previous poll left and of the
  tasks there are: the ticket must be eligible without active task, and either it left and came
  back at its last revision, or it is new at this revision and no task ever carried it.
\<close>

definition creates_task :: "string \<Rightarrow> string \<Rightarrow> (bool \<times> string) option \<Rightarrow> observed_ticket \<Rightarrow> ledger \<Rightarrow> bool" where
  "creates_task repository workflow previous obs db \<longleftrightarrow>
     ot_eligible obs \<and> \<not> ticket_active repository workflow obs db \<and>
     (if previous = Some (True, ot_revision obs) then False
      else if previous = Some (False, ot_revision obs) then True
      else \<not> identity_held db (Ticket repository workflow (ot_source_item obs) (ot_revision obs)))"

text \<open>No task yet carries a visit generation that a poll could still allocate.\<close>

definition visits_fresh :: "string \<Rightarrow> string \<Rightarrow> ledger \<Rightarrow> observed_ticket \<Rightarrow> bool" where
  "visits_fresh repository workflow db obs \<longleftrightarrow> (\<forall>t\<in>set (tasks db). \<forall>n.
     t_identity_key t = identity_key (Ticket repository workflow (ot_source_item obs)
       (ot_revision obs @ '':visit:'' @ int_dec n)) \<longrightarrow> n < next_rowid t_id (tasks db))"

text \<open>The tasks an observation adds.\<close>

definition visit_task :: "string \<Rightarrow> string \<Rightarrow> observed_ticket \<Rightarrow> task \<Rightarrow> bool" where
  "visit_task repository workflow obs t \<longleftrightarrow> t_repository t = repository \<and> t_workflow t = workflow
     \<and> t_source_item t = Some (ot_source_item obs) \<and> t_payload t = Some (ot_payload obs)
     \<and> t_state t = task_state.Queued
     \<and> (\<exists>revision. t_identity_key t = identity_key (Ticket repository workflow (ot_source_item obs) revision))"

lemma held_iff: "exists_where (\<lambda>t. t_identity_key t = identity_key i) (tasks db) = identity_held db i"
  by (simp add: identity_held_def)

lemma visits_fresh_next:
  "visits_fresh repository workflow db obs \<Longrightarrow> \<not> identity_held db (Ticket repository workflow
     (ot_source_item obs) (ot_revision obs @ '':visit:'' @ int_dec (next_rowid t_id (tasks db))))"
  unfolding visits_fresh_def identity_held_def exists_where_iff by blast

lemma enqueue_visit_creates:
  assumes step: "enqueue_visit repository workflow previous now obs (enqueued, db) = Inr (enqueued', db')"
    and fresh: "visits_fresh repository workflow db obs"
  shows "\<exists>new. enqueued' = enqueued @ new \<and> tasks db' = tasks db @ map enq_task (filter enq_created new)
    \<and> (filter enq_created new \<noteq> [] \<longleftrightarrow> creates_task repository workflow previous obs db)
    \<and> (\<forall>e\<in>set new. enq_created e \<longrightarrow> visit_task repository workflow obs (enq_task e))"
proof (cases "\<not> opens_visit previous obs \<or> ticket_active repository workflow obs db")
  case True
  then have "\<not> creates_task repository workflow previous obs db"
    by (auto simp: creates_task_def opens_visit_def split: option.splits if_splits)
  then show ?thesis using enqueue_visit_skip [OF step True] by (intro exI [of _ "[]"]) simp
next
  case False
  then have go: "opens_visit previous obs" "\<not> ticket_active repository workflow obs db" by auto
  obtain identity where
      identity: "identity = Ticket repository workflow (ot_source_item obs) (visit_revision previous obs db)"
    by blast
  obtain task inserted where out: "enqueued' = enqueued @ [\<lparr>enq_task = task, enq_created = inserted\<rparr>]"
      and ins: "insert_task_or_ignore (identity_key identity) ''ticket'' repository workflow
          (Some (ot_source_item obs)) (Some (ot_payload obs)) now db = (db', inserted)"
      and q: "query_task_by_key (identity_key identity) db' = Some task"
    by (rule enqueue_visit_insert [OF step go identity])
  note row = insert_then_query [OF ins]
  have new: "inserted = (\<not> identity_held db identity)" using row(1) by (simp only: held_iff)
  have "creates_task repository workflow previous obs db = (\<not> identity_held db identity)"
    using go visits_fresh_next [OF fresh]
    by (auto simp: creates_task_def opens_visit_def identity visit_revision_def split: option.splits if_splits)
  moreover have "visit_task repository workflow obs task" if inserted
    using row(3) [OF q] that identity unfolding visit_task_def by blast
  moreover have "tasks db' = tasks db @ (if inserted then [task] else [])"
    using row(2) row(3) [OF q] by (cases inserted) auto
  ultimately show ?thesis
    using out new by (intro exI [of _ "[\<lparr>enq_task = task, enq_created = inserted\<rparr>]"]) auto
qed

text \<open>Tasks added for other tickets change neither the decision nor the freshness.\<close>

lemma other_visits:
  assumes "tasks db' = tasks db @ added" and "\<forall>t\<in>set added. visit_task repository workflow x t"
    and "ot_source_item obs \<noteq> ot_source_item x"
  shows "creates_task repository workflow previous obs db' = creates_task repository workflow previous obs db"
    and "visits_fresh repository workflow db obs \<Longrightarrow> visits_fresh repository workflow db' obs"
proof -
  have no: "\<not> active_ticket_task repository workflow (ot_source_item obs) t"
      "t_identity_key t \<noteq> identity_key (Ticket repository workflow (ot_source_item obs) rv)"
    if "t \<in> set added" for t rv
    using that assms(2,3) identity_key_inject
    by (fastforce simp: visit_task_def active_ticket_task_def simp del: identity_key.simps)+
  show "creates_task repository workflow previous obs db' = creates_task repository workflow previous obs db"
    using no assms(1) by (auto simp: creates_task_def identity_held_def exists_where_iff simp del: identity_key.simps)
  have "next_rowid t_id (tasks db) \<le> next_rowid t_id (tasks db')"
    by (simp add: next_rowid_def max_key_append assms(1))
  then show "visits_fresh repository workflow db obs \<Longrightarrow> visits_fresh repository workflow db' obs"
    using no assms(1) by (fastforce simp: visits_fresh_def simp del: identity_key.simps)
qed

lemma observe_each_creates:
  assumes "observe_each repository workflow previous clk i obs (enqueued, db) = Inr (enqueued', db')"
    and "distinct (map ot_source_item obs)" and "\<forall>x\<in>set obs. visits_fresh repository workflow db x"
  shows "\<exists>new. enqueued' = enqueued @ new \<and> tasks db' = tasks db @ map enq_task (filter enq_created new)
    \<and> (\<forall>x\<in>set obs. (\<exists>e\<in>set new. enq_created e \<and> visit_task repository workflow x (enq_task e))
         \<longleftrightarrow> creates_task repository workflow (previous (ot_source_item x)) x db)
    \<and> (\<forall>e\<in>set new. enq_created e \<longrightarrow> (\<exists>x\<in>set obs. visit_task repository workflow x (enq_task e)))"
  using assms
proof (induction obs arbitrary: i enqueued db)
  case (Cons x xs)
  from Cons.prems(1) obtain e1 db1 where
      v: "enqueue_visit repository workflow (previous (ot_source_item x)) (clk (2 * i)) x (enqueued, db)
        = Inr (e1, db1)"
      and rest: "observe_each repository workflow previous clk (Suc i) xs
        (e1, record_observation repository workflow (clk (2 * i + 1)) x db1) = Inr (enqueued', db')"
    by (auto split: if_splits sum.splits)
  let ?db2 = "record_observation repository workflow (clk (2 * i + 1)) x db1"
  have "visits_fresh repository workflow db x" using Cons.prems(3) by simp
  from enqueue_visit_creates [OF v this] obtain new1 where
      n1: "e1 = enqueued @ new1" "tasks db1 = tasks db @ map enq_task (filter enq_created new1)"
      "filter enq_created new1 \<noteq> [] \<longleftrightarrow> creates_task repository workflow (previous (ot_source_item x)) x db"
      "\<forall>e\<in>set new1. enq_created e \<longrightarrow> visit_task repository workflow x (enq_task e)" by blast
  have added: "tasks ?db2 = tasks db @ map enq_task (filter enq_created new1)" by (simp add: n1(2))
  have vt: "\<forall>t\<in>set (map enq_task (filter enq_created new1)). visit_task repository workflow x t"
    using n1(4) by auto
  have ne: "ot_source_item y \<noteq> ot_source_item x" if "y \<in> set xs" for y
    using Cons.prems(2) imageI [OF that, of ot_source_item] by auto
  have "\<forall>y\<in>set xs. visits_fresh repository workflow ?db2 y"
    using other_visits(2) [OF added vt ne] Cons.prems(3) by simp
  with Cons.IH [OF rest] Cons.prems(2) obtain new2 where
      n2: "enqueued' = e1 @ new2" "tasks db' = tasks ?db2 @ map enq_task (filter enq_created new2)"
      "\<forall>y\<in>set xs. (\<exists>e\<in>set new2. enq_created e \<and> visit_task repository workflow y (enq_task e))
         \<longleftrightarrow> creates_task repository workflow (previous (ot_source_item y)) y ?db2"
      "\<forall>e\<in>set new2. enq_created e \<longrightarrow> (\<exists>y\<in>set xs. visit_task repository workflow y (enq_task e))"
    by auto
  have sep: "\<not> visit_task repository workflow y t" if "visit_task repository workflow z t"
      "ot_source_item y \<noteq> ot_source_item z" for y z t
    using that by (auto simp: visit_task_def)
  have head: "(\<exists>e\<in>set (new1 @ new2). enq_created e \<and> visit_task repository workflow x (enq_task e))
      \<longleftrightarrow> creates_task repository workflow (previous (ot_source_item x)) x db"
    using n1(3,4) n2(4) sep ne by (auto simp: filter_empty_conv)
  have tail: "(\<exists>e\<in>set (new1 @ new2). enq_created e \<and> visit_task repository workflow y (enq_task e))
      \<longleftrightarrow> creates_task repository workflow (previous (ot_source_item y)) y db" if "y \<in> set xs" for y
    using n2(3) that n1(4) sep [OF _ ne [OF that]] other_visits(1) [OF added vt ne [OF that]]
    by auto
  show ?case
    using head tail n1(1,2,4) n2(1,2,4) by (intro exI [of _ "new1 @ new2"]) auto
qed simp

text \<open>At most one active task per repository, workflow and ticket.\<close>

definition active_key :: "task \<Rightarrow> string \<times> string \<times> string option" where
  "active_key t = (t_repository t, t_workflow t, t_source_item t)"

definition active_with_item :: "task \<Rightarrow> bool" where
  "active_with_item t \<longleftrightarrow> t_source_item t \<noteq> None
     \<and> (t_state t = task_state.Queued \<or> t_state t = task_state.Running)"

definition one_active_ticket :: "ledger \<Rightarrow> bool" where
  "one_active_ticket db \<longleftrightarrow> unique_key active_key (filter active_with_item (tasks db))"

lemma enqueue_visit_one_active:
  assumes step: "enqueue_visit repository workflow previous now obs (enqueued, db) = Inr (enqueued', db')"
    and one: "one_active_ticket db"
  shows "one_active_ticket db'"
proof (cases "\<not> opens_visit previous obs \<or> ticket_active repository workflow obs db")
  case True
  then show ?thesis using enqueue_visit_skip [OF step] one by simp
next
  case False
  then have go: "opens_visit previous obs" "\<not> ticket_active repository workflow obs db" by auto
  obtain task inserted where out: "enqueued' = enqueued @ [\<lparr>enq_task = task, enq_created = inserted\<rparr>]"
      and ins: "insert_task_or_ignore (identity_key (Ticket repository workflow (ot_source_item obs)
            (visit_revision previous obs db))) ''ticket'' repository workflow
          (Some (ot_source_item obs)) (Some (ot_payload obs)) now db = (db', inserted)"
      and q: "query_task_by_key (identity_key (Ticket repository workflow (ot_source_item obs)
            (visit_revision previous obs db))) db' = Some task"
    by (rule enqueue_visit_insert [OF step go refl])
  note row = insert_then_query [OF ins]
  show ?thesis
  proof (cases inserted)
    case True
    with row(3) [OF q] have t: "tasks db' = tasks db @ [task]" "t_repository task = repository"
        "t_workflow task = workflow" "t_source_item task = Some (ot_source_item obs)" by auto
    have "active_key x \<noteq> active_key task" if "x \<in> set (tasks db)" "active_with_item x" for x
      using go(2) that t by (auto simp: exists_where_iff active_ticket_task_def active_key_def active_with_item_def)
    with one show ?thesis
      by (auto simp: one_active_ticket_def t(1) unique_key_append1 exists_where_iff)
  next
    case False
    with row(2) one show ?thesis by simp
  qed
qed

lemma observe_each_one_active:
  "observe_each repository workflow previous clk i obs (enqueued, db) = Inr (enqueued', db') \<Longrightarrow>
     one_active_ticket db \<Longrightarrow> one_active_ticket db'"
proof (induction obs arbitrary: i enqueued db)
  case (Cons x xs)
  then obtain e1 db1 where
      v: "enqueue_visit repository workflow (previous (ot_source_item x)) (clk (2 * i)) x (enqueued, db)
        = Inr (e1, db1)"
      and rest: "observe_each repository workflow previous clk (Suc i) xs
        (e1, record_observation repository workflow (clk (2 * i + 1)) x db1) = Inr (enqueued', db')"
    by (auto split: if_splits sum.splits)
  have "one_active_ticket (record_observation repository workflow (clk (2 * i + 1)) x db1)"
    using enqueue_visit_one_active [OF v Cons.prems(2)] by (simp add: one_active_ticket_def)
  with Cons.IH [OF rest] show ?case .
qed simp


lemma observe_each_quiet:
  assumes "\<forall>x\<in>set obs. \<not> blank (ot_source_item x) \<and> \<not> blank (ot_revision x)
      \<and> (ot_eligible x \<longrightarrow> previous (ot_source_item x) = Some (True, ot_revision x))"
  shows "\<exists>db'. observe_each repository workflow previous clk i obs (enqueued, db) = Inr (enqueued, db')
    \<and> tasks db' = tasks db"
  using assms
proof (induction obs arbitrary: i db)
  case (Cons x xs)
  have "\<not> opens_visit (previous (ot_source_item x)) x"
    using Cons.prems by (auto simp: opens_visit_def)
  then have "enqueue_visit repository workflow (previous (ot_source_item x)) (clk (2 * i)) x (enqueued, db)
      = Inr (enqueued, db)" by (simp add: enqueue_visit_def)
  with Cons.prems Cons.IH [of "Suc i" "record_observation repository workflow (clk (2 * i + 1)) x db"]
  show ?case by simp
qed simp

lemma observe_each_nonblank:
  "observe_each repository workflow previous clk i obs s = Inr s' \<Longrightarrow>
     \<forall>x\<in>set obs. \<not> blank (ot_source_item x) \<and> \<not> blank (ot_revision x)"
  by (induction obs arbitrary: i s) (auto split: if_splits sum.splits)

text \<open>
  Polling is idempotent: repeating a poll that succeeded, with the same observations, creates
  no task, whatever happened to the tasks of the first poll meanwhile.
\<close>

theorem poll_repeat_creates_nothing:
  assumes "reconcile_ticket_poll repository workflow observations clk db = Inr (enqueued, db1)"
    and "distinct (map ot_source_item observations)"
    and "trigger_observations db2 = trigger_observations db1"
  shows "\<exists>db3. reconcile_ticket_poll repository workflow observations clk' db2 = Inr ([], db3)
    \<and> tasks db3 = tasks db2"
proof -
  have ok: "\<not> blank repository" "\<not> blank workflow"
    and run: "observe_each repository workflow (previous_observation repository workflow db) clk 0
      observations ([], reset_eligibility repository workflow db) = Inr (enqueued, db1)"
    using assms(1) by (simp_all add: reconcile_ticket_poll_def split: if_splits)
  have "\<forall>x\<in>set observations. \<not> blank (ot_source_item x) \<and> \<not> blank (ot_revision x)
      \<and> (ot_eligible x \<longrightarrow> previous_observation repository workflow db2 (ot_source_item x)
           = Some (True, ot_revision x))"
    using observe_each_remembers(1) [OF run assms(2)] observe_each_nonblank [OF run]
      previous_observation_cong [OF assms(3)] by auto
  from observe_each_quiet [OF this, of repository workflow clk' 0 "[]"
      "reset_eligibility repository workflow db2"] ok
  show ?thesis by (simp add: reconcile_ticket_poll_def)
qed

text \<open>
  A poll never doubles work: if every repository, workflow and ticket has at most one queued
  or running task before a poll, it has at most one after it.
\<close>

theorem poll_keeps_one_active_task:
  assumes "reconcile_ticket_poll repository workflow observations clk db = Inr (enqueued, db')"
    and "one_active_ticket db"
  shows "one_active_ticket db'"
  using assms observe_each_one_active [of repository workflow _ clk 0 observations "[]"
      "reset_eligibility repository workflow db" enqueued db']
  by (auto simp: reconcile_ticket_poll_def one_active_ticket_def split: if_splits)


subsection \<open>Examples\<close>

definition ticket_42 :: "string \<Rightarrow> observed_ticket" where
  "ticket_42 revision = \<lparr>ot_source_item = ''42'', ot_revision = revision, ot_eligible = True,
     ot_payload = ''{}''\<rparr>"

definition poll_42 :: "observed_ticket list \<Rightarrow> ledger \<Rightarrow> enqueued_task list \<times> ledger" where
  "poll_42 observations db =
     (case reconcile_ticket_poll ''acme/app'' ''deliver'' observations int db of
        Inl e \<Rightarrow> ([], db) | Inr r \<Rightarrow> r)"

definition complete_all :: "ledger \<Rightarrow> ledger" where
  "complete_all db = db\<lparr>tasks := map (\<lambda>t. t\<lparr>t_state := task_state.Succeeded\<rparr>) (tasks db)\<rparr>"

lemma poll_42_run:
  "reconcile_ticket_poll ''acme/app'' ''deliver'' [ticket_42 ''r1''] int empty_ledger
     = Inr (fst (poll_42 [ticket_42 ''r1''] empty_ledger), snd (poll_42 [ticket_42 ''r1''] empty_ledger))"
  by code_simp


theorem poll_repeat_creates_nothing_witness:
  "\<exists>db3. reconcile_ticket_poll ''acme/app'' ''deliver'' [ticket_42 ''r1''] int
     (complete_all (snd (poll_42 [ticket_42 ''r1''] empty_ledger))) = Inr ([], db3)
     \<and> tasks db3 = tasks (complete_all (snd (poll_42 [ticket_42 ''r1''] empty_ledger)))"
  by (rule poll_repeat_creates_nothing
      [OF poll_42_run])
    (simp_all add: complete_all_def)

theorem poll_keeps_one_active_task_witness:
  "one_active_ticket (snd (poll_42 [ticket_42 ''r1''] empty_ledger))"
  by (rule poll_keeps_one_active_task
      [OF poll_42_run])
    (simp add: one_active_ticket_def empty_ledger_def)

text \<open>
  Leaving the condition does not always rearm a ticket: a ticket that was handled at revision
  \<open>r1\<close>, left, came back at \<open>r2\<close> (a second task), left again and returns at \<open>r1\<close> gets no third
  task, because the identity of the first task is still in the ledger; returning at \<open>r2\<close> does
  create a task.
\<close>

theorem poll_return_at_old_revision:
  "let db1 = complete_all (snd (poll_42 [ticket_42 ''r1''] empty_ledger));
       db2 = complete_all (snd (poll_42 [ticket_42 ''r2''] (snd (poll_42 [] db1))));
       db3 = snd (poll_42 [] db2)
   in length (tasks db3) = 2
      \<and> map enq_created (fst (poll_42 [ticket_42 ''r1''] db3)) = [False]
      \<and> tasks (snd (poll_42 [ticket_42 ''r1''] db3)) = tasks db3
      \<and> map enq_created (fst (poll_42 [ticket_42 ''r2''] db3)) = [True]"
  by code_simp

end
