(* ===== verification/Ledger_Schedule.thy ===== *)
theory Ledger_Schedule
  imports Ledger_Queue_Proofs
begin

text \<open>
  Schedules in the ledger (\<open>src/storage.rs\<close>): the cursor of a scheduled workflow, its owners, and
  the transaction that enqueues the due occurrence and moves the cursor on. JSON parsing and
  printing are arguments.
\<close>

subsection \<open>The cursor\<close>

definition cursor_of :: "string \<Rightarrow> string \<Rightarrow> schedule_cursor \<Rightarrow> bool" where
  "cursor_of repository workflow c \<longleftrightarrow> sc_repository c = repository \<and> sc_workflow c = workflow"

definition query_cursor :: "string \<Rightarrow> string \<Rightarrow> ledger \<Rightarrow> (string \<times> int) option" where
  "query_cursor repository workflow db =
     map_option (\<lambda>c. (sc_fingerprint c, sc_next_due_at c))
       (find_where (cursor_of repository workflow) (schedule_cursors db))"

definition live_owner_fingerprints ::
  "os_env \<Rightarrow> string \<Rightarrow> string \<Rightarrow> string \<Rightarrow> int \<Rightarrow> ledger \<Rightarrow> string list" where
  "live_owner_fingerprints os repository workflow owner cutoff db =
     map so_fingerprint (filter (\<lambda>s. so_repository s = repository \<and> so_workflow s = workflow
       \<and> so_owner_id s \<noteq> owner
       \<and> exists_where (\<lambda>d. do_owner_id d = so_owner_id s \<and> cutoff \<le> do_heartbeat_at d
            \<and> process_is_alive os (do_pid d)) (daemon_owners db)) (schedule_owners db))"

definition current_owner_matches ::
  "string \<Rightarrow> string \<Rightarrow> string \<Rightarrow> string \<Rightarrow> int \<Rightarrow> ledger \<Rightarrow> bool" where
  "current_owner_matches repository workflow fingerprint owner cutoff db =
     exists_where (\<lambda>s. so_repository s = repository \<and> so_workflow s = workflow
       \<and> so_owner_id s = owner \<and> so_fingerprint s = fingerprint
       \<and> exists_where (\<lambda>d. do_owner_id d = owner \<and> cutoff \<le> do_heartbeat_at d) (daemon_owners db))
       (schedule_owners db)"

definition put_cursor :: "string \<Rightarrow> string \<Rightarrow> string \<Rightarrow> int \<Rightarrow> int \<Rightarrow> ledger \<Rightarrow> ledger" where
  "put_cursor repository workflow fingerprint next_due now db = db\<lparr>schedule_cursors :=
     upsert_where (cursor_of repository workflow)
       (\<lambda>c. c\<lparr>sc_fingerprint := fingerprint, sc_next_due_at := next_due, sc_updated_at := now\<rparr>)
       \<lparr>sc_repository = repository, sc_workflow = workflow, sc_fingerprint = fingerprint,
        sc_next_due_at = next_due, sc_updated_at = now\<rparr> (schedule_cursors db)\<rparr>"

text \<open>\<open>INSERT OR REPLACE\<close>, with the foreign key on \<open>daemon_owners\<close>.\<close>

definition put_schedule_owner ::
  "string \<Rightarrow> string \<Rightarrow> string \<Rightarrow> string \<Rightarrow> ledger \<Rightarrow> ledger_error + ledger" where
  "put_schedule_owner repository workflow owner fingerprint db =
     (if \<not> exists_where (\<lambda>d. do_owner_id d = owner) (daemon_owners db) then Inl ConstraintViolation
      else Inr (db\<lparr>schedule_owners :=
        delete_where (\<lambda>s. so_repository s = repository \<and> so_workflow s = workflow
          \<and> so_owner_id s = owner) (schedule_owners db)
        @ [\<lparr>so_repository = repository, so_workflow = workflow, so_owner_id = owner,
             so_fingerprint = fingerprint\<rparr>]\<rparr>))"

definition initialize_schedule_cursor ::
  "os_env \<Rightarrow> string \<Rightarrow> string \<Rightarrow> string \<Rightarrow> int \<Rightarrow> int \<Rightarrow> string \<Rightarrow> int \<Rightarrow> int \<Rightarrow> ledger \<Rightarrow>
     ledger_error + (int \<times> ledger)" where
  "initialize_schedule_cursor os repository workflow fingerprint next_due_at startup_at owner now1 now2 db =
     (if list_ex blank [repository, workflow, fingerprint, owner] then Inl EmptyField
      else if next_due_at \<le> startup_at then Inl OccurrenceNotLater
      else
       (let prior = query_cursor repository workflow db;
            cutoff = now1 - DAEMON_OWNER_LEASE_MILLIS;
            live = live_owner_fingerprints os repository workflow owner cutoff db;
            other_matching_owner = fingerprint \<in> set live;
            current_matches = current_owner_matches repository workflow fingerprint owner cutoff db
        in if (case prior of None \<Rightarrow> False
               | Some (prior_fingerprint, _) \<Rightarrow>
                   prior_fingerprint \<noteq> fingerprint \<and> prior_fingerprint \<in> set live)
           then Inl (ScheduleOwnedElsewhere (fst (the prior)))
           else
            (let fresh = (next_due_at, put_cursor repository workflow fingerprint next_due_at now2 db);
                 (resolved, db1) = (case prior of
                    None \<Rightarrow> fresh
                  | Some (prior_fingerprint, prior_due) \<Rightarrow>
                      if prior_fingerprint = fingerprint
                        \<and> (startup_at < prior_due \<or> other_matching_owner \<or> current_matches)
                      then (prior_due, db) else fresh)
             in case put_schedule_owner repository workflow owner fingerprint db1 of
                  Inl e \<Rightarrow> Inl e
                | Inr db2 \<Rightarrow> Inr (resolved, db2))))"

subsection \<open>The due occurrence\<close>

definition occurrence_payload ::
  "(string \<Rightarrow> json option) \<Rightarrow> (json \<Rightarrow> string) \<Rightarrow> string \<Rightarrow> string \<Rightarrow> string option" where
  "occurrence_payload parse print fingerprint payload =
     Option.bind (parse payload) (\<lambda>v. Option.bind (json_as_object v) (\<lambda>fields.
       Some (print (JObject (json_object_insert ''schedule_fingerprint'' (JString fingerprint) fields)))))"

definition enqueue_scheduled_occurrence ::
  "(string \<Rightarrow> json option) \<Rightarrow> (json \<Rightarrow> string) \<Rightarrow> task_identity \<Rightarrow> string \<Rightarrow> string \<Rightarrow> int \<Rightarrow> int \<Rightarrow>
     int \<Rightarrow> ledger \<Rightarrow> ledger_error + (enqueued_task option \<times> ledger)" where
  "enqueue_scheduled_occurrence parse print identity payload expected_fingerprint expected_due_at
       next_due_at now db =
     (case identity of
        Ticket _ _ _ _ \<Rightarrow> Inl NotScheduled
      | Scheduled repository workflow _ \<Rightarrow>
     (case identity_validate identity of
        Inl e \<Rightarrow> Inl e
      | Inr _ \<Rightarrow>
     (if next_due_at \<le> expected_due_at then Inl OccurrenceNotLater
      else case occurrence_payload parse print expected_fingerprint payload of
        None \<Rightarrow> Inl PayloadInvalid
      | Some payload \<Rightarrow>
     (if query_cursor repository workflow db \<noteq> Some (expected_fingerprint, expected_due_at)
      then Inr (None, db)
      else let (db1, inserted) = insert_task_or_ignore (identity_key identity) ''scheduled''
                 repository workflow None (Some payload) now db;
               here = (\<lambda>c. sc_repository c = repository \<and> sc_workflow c = workflow
                 \<and> sc_fingerprint c = expected_fingerprint \<and> sc_next_due_at c = expected_due_at)
           in case query_task_by_key (identity_key identity) db1 of
                None \<Rightarrow> Inl RowDisappeared
              | Some task \<Rightarrow>
                  if count_where here (schedule_cursors db1) \<noteq> 1 then Inl CursorChanged
                  else Inr (Some \<lparr>enq_task = task, enq_created = inserted\<rparr>,
                    db1\<lparr>schedule_cursors := update_where here
                      (\<lambda>c. c\<lparr>sc_next_due_at := next_due_at, sc_updated_at := now\<rparr>)
                      (schedule_cursors db1)\<rparr>)))))"

subsection \<open>Occurrences\<close>

lemma insert_task_cursors:
  "insert_task_or_ignore key kind repo workflow src payload now db = (db', b) \<Longrightarrow>
     schedule_cursors db' = schedule_cursors db \<and> runs db' = runs db"
  by (auto simp: insert_task_or_ignore_def split: if_splits)

lemma insert_task_keeps_inv:
  "insert_task_or_ignore key kind repo workflow src payload now db = (db', b) \<Longrightarrow> queue_inv db \<Longrightarrow> queue_inv db'"
  by (metis fst_conv insert_task_inv)

text \<open>Everything a fired occurrence does.\<close>

lemma occurrence_fired:
  assumes "enqueue_scheduled_occurrence parse print identity payload fingerprint due next_due now db
      = Inr (Some e, db')"
  obtains repository workflow instant body db1 inserted where
    "identity = Scheduled repository workflow instant" and "identity_validate identity = Inr ()"
    and "due < next_due" and "occurrence_payload parse print fingerprint payload = Some body"
    and "query_cursor repository workflow db = Some (fingerprint, due)"
    and "insert_task_or_ignore (identity_key identity) ''scheduled'' repository workflow None (Some body) now db
      = (db1, inserted)"
    and "query_task_by_key (identity_key identity) db1 = Some (enq_task e)" and "enq_created e = inserted"
    and "db' = db1\<lparr>schedule_cursors := update_where (\<lambda>c. sc_repository c = repository \<and> sc_workflow c = workflow
        \<and> sc_fingerprint c = fingerprint \<and> sc_next_due_at c = due)
        (\<lambda>c. c\<lparr>sc_next_due_at := next_due, sc_updated_at := now\<rparr>) (schedule_cursors db1)\<rparr>"
proof (cases identity)
  case (Scheduled repository workflow instant)
  obtain body where body: "occurrence_payload parse print fingerprint payload = Some body"
    using assms Scheduled by (auto simp: enqueue_scheduled_occurrence_def split: sum.splits if_splits option.splits)
  obtain db1 inserted where ins: "insert_task_or_ignore (identity_key identity) ''scheduled'' repository
      workflow None (Some body) now db = (db1, inserted)" by fastforce
  show ?thesis
    by (rule that [OF Scheduled _ _ body _ ins])
      (use assms Scheduled body ins in \<open>auto simp: enqueue_scheduled_occurrence_def Let_def
        simp del: identity_key.simps split: sum.splits if_splits option.splits\<close>)
qed (use assms in \<open>simp add: enqueue_scheduled_occurrence_def\<close>)

lemma query_cursor_advance:
  assumes "query_cursor repository workflow db1 = Some (fingerprint, due)"
    and "db' = db1\<lparr>schedule_cursors := update_where (\<lambda>c. sc_repository c = repository
        \<and> sc_workflow c = workflow \<and> sc_fingerprint c = fingerprint \<and> sc_next_due_at c = due)
        (\<lambda>c. c\<lparr>sc_next_due_at := next_due, sc_updated_at := now\<rparr>) (schedule_cursors db1)\<rparr>"
  shows "query_cursor r w db' = (if r = repository \<and> w = workflow then Some (fingerprint, next_due)
    else query_cursor r w db1)"
proof -
  let ?P = "\<lambda>c. sc_repository c = repository \<and> sc_workflow c = workflow
        \<and> sc_fingerprint c = fingerprint \<and> sc_next_due_at c = due"
  let ?f = "\<lambda>c. c\<lparr>sc_next_due_at := next_due, sc_updated_at := now\<rparr>"
  have "find_where (cursor_of r w) (schedule_cursors db') =
      map_option (\<lambda>c. if ?P c then ?f c else c) (find_where (cursor_of r w) (schedule_cursors db1))"
    by (simp add: assms(2) find_where_update cursor_of_def)
  then show ?thesis
    using assms(1) unfolding query_cursor_def
    by (cases "find_where (cursor_of r w) (schedule_cursors db1)")
      (auto simp: cursor_of_def dest: find_where_SomeD(2))
qed

lemma occurrence_cursor:
  assumes "enqueue_scheduled_occurrence parse print (Scheduled repository workflow instant) payload fingerprint
      due next_due now db = Inr (Some e, db')"
  shows "query_cursor repository workflow db = Some (fingerprint, due)" and "due < next_due"
    and "query_cursor r w db' = (if r = repository \<and> w = workflow then Some (fingerprint, next_due)
      else query_cursor r w db)"
proof -
  obtain repo flow instant2 body db1 inserted where id: "Scheduled repository workflow instant = Scheduled repo flow instant2"
    and "identity_validate (Scheduled repository workflow instant) = Inr ()"
    and lt: "due < next_due" and "occurrence_payload parse print fingerprint payload = Some body"
    and cur: "query_cursor repo flow db = Some (fingerprint, due)"
    and ins: "insert_task_or_ignore (identity_key (Scheduled repository workflow instant)) ''scheduled'' repo flow
        None (Some body) now db = (db1, inserted)"
    and "query_task_by_key (identity_key (Scheduled repository workflow instant)) db1 = Some (enq_task e)"
    and "enq_created e = inserted"
    and db': "db' = db1\<lparr>schedule_cursors := update_where (\<lambda>c. sc_repository c = repo \<and> sc_workflow c = flow
        \<and> sc_fingerprint c = fingerprint \<and> sc_next_due_at c = due)
        (\<lambda>c. c\<lparr>sc_next_due_at := next_due, sc_updated_at := now\<rparr>) (schedule_cursors db1)\<rparr>"
    by (rule occurrence_fired [OF assms])
  have q: "query_cursor r w db1 = query_cursor r w db" for r w
    using insert_task_cursors [OF ins] by (simp add: query_cursor_def)
  show "query_cursor repository workflow db = Some (fingerprint, due)" and "due < next_due"
    using cur lt id by auto
  show "query_cursor r w db' = (if r = repository \<and> w = workflow then Some (fingerprint, next_due)
      else query_cursor r w db)"
    using query_cursor_advance [OF _ db', of r w] cur id by (simp add: q)
qed

lemma occurrence_inv [queue_step]:
  assumes "enqueue_scheduled_occurrence parse print identity payload fingerprint due next_due now db
      = Inr (x, db')" and inv: "queue_inv db"
  shows "queue_inv db'"
proof (cases x)
  case None
  have "db' = db"
    using assms(1) unfolding None
    by (cases identity) (auto simp: enqueue_scheduled_occurrence_def Let_def split_beta
        simp del: identity_key.simps split: sum.splits if_splits option.splits)
  then show ?thesis using inv by simp
next
  case (Some e)
  then have fired: "enqueue_scheduled_occurrence parse print identity payload fingerprint due next_due now db
      = Inr (Some e, db')" using assms(1) by simp
  show ?thesis
    by (rule occurrence_fired [OF fired]) (auto dest: insert_task_keeps_inv [OF _ inv])
qed

subsection \<open>Initialization\<close>

text \<open>What a daemon that starts is told about the schedule.\<close>

definition keeps_pending ::
  "os_env \<Rightarrow> string \<Rightarrow> string \<Rightarrow> string \<Rightarrow> int \<Rightarrow> string \<Rightarrow> int \<Rightarrow> int \<Rightarrow> ledger \<Rightarrow> bool" where
  "keeps_pending os repository workflow fingerprint startup_at owner now prior_due db \<longleftrightarrow>
     startup_at < prior_due
     \<or> fingerprint \<in> set (live_owner_fingerprints os repository workflow owner
          (now - DAEMON_OWNER_LEASE_MILLIS) db)
     \<or> current_owner_matches repository workflow fingerprint owner (now - DAEMON_OWNER_LEASE_MILLIS) db"

lemma initialize_schedule_cases:
  assumes "initialize_schedule_cursor os repository workflow fingerprint next_due startup owner now1 now2 db
      = Inr (resolved, db')"
  obtains (kept) "query_cursor repository workflow db = Some (fingerprint, resolved)"
      and "keeps_pending os repository workflow fingerprint startup owner now1 resolved db"
      and "startup < next_due"
      and "put_schedule_owner repository workflow owner fingerprint db = Inr db'"
  | (reset) "resolved = next_due" and "startup < next_due"
      and "\<forall>prior_due. query_cursor repository workflow db = Some (fingerprint, prior_due) \<longrightarrow>
        \<not> keeps_pending os repository workflow fingerprint startup owner now1 prior_due db"
      and "\<forall>other due. query_cursor repository workflow db = Some (other, due) \<and> other \<noteq> fingerprint \<longrightarrow>
        other \<notin> set (live_owner_fingerprints os repository workflow owner
          (now1 - DAEMON_OWNER_LEASE_MILLIS) db)"
      and "put_schedule_owner repository workflow owner fingerprint
        (put_cursor repository workflow fingerprint next_due now2 db) = Inr db'"
proof (cases "query_cursor repository workflow db")
  case None
  with assms show ?thesis
    by (intro reset) (auto simp: initialize_schedule_cursor_def Let_def split: if_splits sum.splits)
next
  case (Some p)
  obtain prior_fp prior_due where p: "p = (prior_fp, prior_due)" by (cases p)
  show ?thesis
  proof (cases "prior_fp = fingerprint \<and> keeps_pending os repository workflow fingerprint startup owner now1 prior_due db")
    case True
    with assms Some p show ?thesis
      by (intro kept) (auto simp: initialize_schedule_cursor_def keeps_pending_def Let_def
          split: if_splits sum.splits)
  next
    case False
    with assms Some p show ?thesis
      by (intro reset) (auto simp: initialize_schedule_cursor_def keeps_pending_def Let_def
          split: if_splits sum.splits)
  qed
qed

lemma put_schedule_owner_simps:
  assumes "put_schedule_owner repository workflow owner fingerprint db = Inr db'"
  shows "queue_inv db' = queue_inv db" and "schedule_cursors db' = schedule_cursors db"
    and "tasks db' = tasks db" and "runs db' = runs db"
    and "query_cursor r w db' = query_cursor r w db"
  using assms by (auto simp: put_schedule_owner_def query_cursor_def split: if_splits)

lemma put_cursor_simps [simp]:
  "queue_inv (put_cursor repository workflow fingerprint next_due now db) = queue_inv db"
  "tasks (put_cursor repository workflow fingerprint next_due now db) = tasks db"
  "runs (put_cursor repository workflow fingerprint next_due now db) = runs db"
  by (simp_all add: put_cursor_def)

lemma query_put_cursor:
  "query_cursor r w (put_cursor repository workflow fingerprint next_due now db) =
     (if r = repository \<and> w = workflow then Some (fingerprint, next_due) else query_cursor r w db)"
proof (cases "r = repository \<and> w = workflow")
  case True
  have keep: "cursor_of repository workflow (c\<lparr>sc_fingerprint := a, sc_next_due_at := b, sc_updated_at := d\<rparr>)
      = cursor_of repository workflow c" for c a b d by (simp add: cursor_of_def)
  have new: "cursor_of repository workflow \<lparr>sc_repository = repository, sc_workflow = workflow,
      sc_fingerprint = a, sc_next_due_at = b, sc_updated_at = d\<rparr>" for a b d by (simp add: cursor_of_def)
  have "find_where (cursor_of repository workflow)
      (schedule_cursors (put_cursor repository workflow fingerprint next_due now db)) = Some z \<Longrightarrow>
      sc_fingerprint z = fingerprint \<and> sc_next_due_at z = next_due" for z
    by (auto simp: put_cursor_def find_where_upsert_same keep new split: option.splits)
  moreover have "find_where (cursor_of repository workflow)
      (schedule_cursors (put_cursor repository workflow fingerprint next_due now db)) \<noteq> None"
    by (simp add: put_cursor_def find_where_upsert_same keep new)
  ultimately show ?thesis using True by (auto simp: query_cursor_def)
next
  case False
  then show ?thesis
    by (simp add: query_cursor_def put_cursor_def)
      (subst find_where_upsert_other, auto simp: cursor_of_def)
qed

lemma initialize_schedule_inv [queue_step]:
  assumes "initialize_schedule_cursor os r w fp nd st ow now1 now2 db = Inr (x, db')" and "queue_inv db"
  shows "queue_inv db'"
  using assms(1)
proof (cases rule: initialize_schedule_cases)
  case kept
  then show ?thesis using assms(2) put_schedule_owner_simps(1) by blast
next
  case reset
  then show ?thesis using assms(2) put_schedule_owner_simps(1) put_cursor_simps(1) by blast
qed

lemma put_schedule_owner_owned:
  assumes "put_schedule_owner repository workflow owner fingerprint db = Inr db'"
    and "query_cursor repository workflow db = Some (fingerprint, due)"
  shows "owned_fingerprint owner repository workflow db' = Some fingerprint"
proof -
  have s: "schedule_owners db' = delete_where (\<lambda>s. so_repository s = repository \<and> so_workflow s = workflow
          \<and> so_owner_id s = owner) (schedule_owners db)
        @ [\<lparr>so_repository = repository, so_workflow = workflow, so_owner_id = owner, so_fingerprint = fingerprint\<rparr>]"
      "schedule_cursors db' = schedule_cursors db"
    using assms(1) by (auto simp: put_schedule_owner_def split: if_splits)
  have c: "exists_where (\<lambda>c. sc_repository c = repository \<and> sc_workflow c = workflow
      \<and> sc_fingerprint c = fingerprint) (schedule_cursors db)"
    using assms(2) find_where_SomeD [of "cursor_of repository workflow" "schedule_cursors db"]
    by (auto simp: query_cursor_def cursor_of_def exists_where_iff)
  let ?Q = "\<lambda>o'. so_owner_id o' = owner \<and> so_repository o' = repository \<and> so_workflow o' = workflow
      \<and> exists_where (\<lambda>c. sc_repository c = so_repository o' \<and> sc_workflow c = so_workflow o'
          \<and> sc_fingerprint c = so_fingerprint o') (schedule_cursors db)"
  have "find_where ?Q (delete_where (\<lambda>s. so_repository s = repository \<and> so_workflow s = workflow
          \<and> so_owner_id s = owner) (schedule_owners db)) = None"
    by (auto simp: find_where_None_iff set_delete_where)
  with c show ?thesis by (simp add: owned_fingerprint_def s find_where_append)
qed

text \<open>
  Starting a schedule: on success the daemon owns the workflow under its fingerprint and the
  stored cursor has that fingerprint and the returned due time; a pending occurrence after
  startup under the same fingerprint keeps its time, so a restart neither loses nor repeats it,
  and otherwise the next occurrence is after startup, so occurrences missed while stopped are not
  replayed, unless a live owner already holds the schedule; a different fingerprint a live owner
  still uses is never overwritten; other schedules, tasks and runs are untouched.
\<close>

theorem initialize_schedule_spec:
  assumes "initialize_schedule_cursor os repository workflow fingerprint next_due startup owner now1 now2 db
      = Inr (resolved, db')"
  shows "owned_fingerprint owner repository workflow db' = Some fingerprint
    \<and> query_cursor repository workflow db' = Some (fingerprint, resolved)
    \<and> (\<forall>due. query_cursor repository workflow db = Some (fingerprint, due) \<and> startup < due \<longrightarrow> resolved = due)
    \<and> (startup < resolved
       \<or> fingerprint \<in> set (live_owner_fingerprints os repository workflow owner (now1 - DAEMON_OWNER_LEASE_MILLIS) db)
       \<or> current_owner_matches repository workflow fingerprint owner (now1 - DAEMON_OWNER_LEASE_MILLIS) db)
    \<and> (\<forall>other due. query_cursor repository workflow db = Some (other, due) \<and> other \<noteq> fingerprint \<longrightarrow>
        other \<notin> set (live_owner_fingerprints os repository workflow owner (now1 - DAEMON_OWNER_LEASE_MILLIS) db))
    \<and> (\<forall>r w. (r, w) \<noteq> (repository, workflow) \<longrightarrow> query_cursor r w db' = query_cursor r w db)
    \<and> tasks db' = tasks db \<and> runs db' = runs db"
  using assms
proof (cases rule: initialize_schedule_cases)
  case kept
  note put = put_schedule_owner_simps [OF kept(4)] put_schedule_owner_owned [OF kept(4,1)]
  from kept(1-3) put show ?thesis by (auto simp: keeps_pending_def)
next
  case reset
  have cur: "query_cursor repository workflow (put_cursor repository workflow fingerprint next_due now2 db)
      = Some (fingerprint, next_due)" by (simp add: query_put_cursor)
  note put = put_schedule_owner_simps [OF reset(5)] put_schedule_owner_owned [OF reset(5) cur]
  from reset(1-4) put show ?thesis by (auto simp: query_put_cursor keeps_pending_def)
qed

subsection \<open>Firing\<close>

text \<open>
  A due occurrence fires once: when the transaction enqueues, the cursor stood exactly at the
  expected fingerprint and instant and moves strictly forward, and a second call for the same
  instant (from this daemon after a crash or from another one) changes nothing, whatever
  identity, payload and next instant it brings.
\<close>

theorem occurrence_fires_once:
  assumes "enqueue_scheduled_occurrence parse print (Scheduled repository workflow instant) payload
      fingerprint due next_due now db = Inr (Some e, db')"
  shows "query_cursor repository workflow db = Some (fingerprint, due)
    \<and> query_cursor repository workflow db' = Some (fingerprint, next_due) \<and> due < next_due
    \<and> (\<forall>r w. (r, w) \<noteq> (repository, workflow) \<longrightarrow> query_cursor r w db' = query_cursor r w db)
    \<and> t_identity_key (enq_task e) = identity_key (Scheduled repository workflow instant)
    \<and> enq_created e = (\<not> identity_held db (Scheduled repository workflow instant))
    \<and> tasks db' = tasks db @ (if enq_created e then [enq_task e] else [])
    \<and> (case enqueue_scheduled_occurrence parse' print' (Scheduled repository workflow instant')
          payload' fingerprint due next_due' now' db' of
        Inl _ \<Rightarrow> True | Inr (fired, db2) \<Rightarrow> fired = None \<and> db2 = db')"
proof -
  note cur = occurrence_cursor [OF assms]
  have again: "query_cursor repository workflow db' \<noteq> Some (fingerprint, due)"
    using cur(2) cur(3) [of repository workflow] by simp
  have replay: "case enqueue_scheduled_occurrence parse' print' (Scheduled repository workflow instant')
          payload' fingerprint due next_due' now' db' of
        Inl _ \<Rightarrow> True | Inr (fired, db2) \<Rightarrow> fired = None \<and> db2 = db'"
    using again by (simp add: enqueue_scheduled_occurrence_def split: sum.split option.split)
  obtain identity where identity: "identity = Scheduled repository workflow instant" by blast
  have row: "t_identity_key (enq_task e) = identity_key identity
    \<and> enq_created e = (\<not> identity_held db identity)
    \<and> tasks db' = tasks db @ (if enq_created e then [enq_task e] else [])"
  proof (rule occurrence_fired [OF assms [folded identity]])
    fix repository workflow instant body db1 inserted
    assume ins: "insert_task_or_ignore (identity_key identity) ''scheduled'' repository workflow None (Some body)
        now db = (db1, inserted)"
      and q: "query_task_by_key (identity_key identity) db1 = Some (enq_task e)" and c: "enq_created e = inserted"
      and db': "db' = db1\<lparr>schedule_cursors := update_where (\<lambda>c. sc_repository c = repository
        \<and> sc_workflow c = workflow \<and> sc_fingerprint c = fingerprint \<and> sc_next_due_at c = due)
        (\<lambda>c. c\<lparr>sc_next_due_at := next_due, sc_updated_at := now\<rparr>) (schedule_cursors db1)\<rparr>"
    note r = insert_then_query(1,2) [OF ins] insert_then_query(3) [OF ins q]
    have "tasks db' = tasks db1" by (simp add: db')
    with r c show ?thesis
      by (cases inserted) (simp_all add: identity_held_def)
  qed
  from row cur(1,2) cur(3) [of repository workflow] cur(3) replay show ?thesis
    unfolding identity by (simp del: identity_key.simps)
qed

text \<open>A sequence of calls, from any daemons and in any order; calls that fire nothing leave no trace.\<close>

record occurrence_call =
  oc_identity :: task_identity
  oc_payload :: string
  oc_fingerprint :: string
  oc_due :: int
  oc_next :: int
  oc_now :: int

fun fire_all ::
  "(string \<Rightarrow> json option) \<Rightarrow> (json \<Rightarrow> string) \<Rightarrow> occurrence_call list \<Rightarrow> ledger \<Rightarrow> occurrence_call list" where
  "fire_all parse print [] db = []"
| "fire_all parse print (c # cs) db =
     (case enqueue_scheduled_occurrence parse print (oc_identity c) (oc_payload c) (oc_fingerprint c)
         (oc_due c) (oc_next c) (oc_now c) db of
        Inr (Some e, db') \<Rightarrow> c # fire_all parse print cs db'
      | _ \<Rightarrow> fire_all parse print cs db)"

definition calls_for :: "string \<Rightarrow> string \<Rightarrow> occurrence_call \<Rightarrow> bool" where
  "calls_for repository workflow c \<longleftrightarrow>
     identity_repository (oc_identity c) = repository \<and> identity_workflow (oc_identity c) = workflow"

lemma fire_all_ge:
  "c \<in> set (fire_all parse print cs db) \<Longrightarrow> calls_for repository workflow c \<Longrightarrow>
     \<exists>fp due. query_cursor repository workflow db = Some (fp, due) \<and> due \<le> oc_due c"
proof (induction cs arbitrary: db)
  case (Cons x xs)
  show ?case
  proof (cases "\<exists>e db'. enqueue_scheduled_occurrence parse print (oc_identity x) (oc_payload x)
      (oc_fingerprint x) (oc_due x) (oc_next x) (oc_now x) db = Inr (Some e, db')")
    case True
    then obtain e db' where fired: "enqueue_scheduled_occurrence parse print (oc_identity x) (oc_payload x)
      (oc_fingerprint x) (oc_due x) (oc_next x) (oc_now x) db = Inr (Some e, db')" by blast
    obtain r w i where id: "oc_identity x = Scheduled r w i"
      by (rule occurrence_fired [OF fired])
    note cur = occurrence_cursor [OF fired [unfolded id]]
    from Cons.prems(1) fired consider "c = x" | "c \<in> set (fire_all parse print xs db')" by auto
    then show ?thesis
    proof cases
      case 1
      with Cons.prems(2) id cur(1) show ?thesis by (auto simp: calls_for_def)
    next
      case 2
      from Cons.IH [OF this Cons.prems(2)] cur show ?thesis by (auto split: if_splits)
    qed
  next
    case False
    with Cons.prems(1) have "c \<in> set (fire_all parse print xs db)"
      by (auto split: sum.splits option.splits prod.splits)
    with Cons.IH Cons.prems(2) show ?thesis by blast
  qed
qed simp

text \<open>
  Over any sequence of calls the instants that fire for one schedule strictly increase, so no
  instant ever fires twice.
\<close>

theorem occurrences_strictly_increase:
  "sorted_wrt (<) (map oc_due (filter (calls_for repository workflow) (fire_all parse print cs db)))"
proof (induction cs arbitrary: db)
  case (Cons x xs)
  show ?case
  proof (cases "\<exists>e db'. enqueue_scheduled_occurrence parse print (oc_identity x) (oc_payload x)
      (oc_fingerprint x) (oc_due x) (oc_next x) (oc_now x) db = Inr (Some e, db')")
    case True
    then obtain e db' where fired: "enqueue_scheduled_occurrence parse print (oc_identity x) (oc_payload x)
      (oc_fingerprint x) (oc_due x) (oc_next x) (oc_now x) db = Inr (Some e, db')" by blast
    obtain r w i where id: "oc_identity x = Scheduled r w i"
      by (rule occurrence_fired [OF fired])
    note cur = occurrence_cursor [OF fired [unfolded id]]
    have "oc_due x < oc_due c"
      if "c \<in> set (fire_all parse print xs db')" "calls_for repository workflow c"
        "calls_for repository workflow x" for c
    proof -
      note c = that
      obtain fp due where "query_cursor repository workflow db' = Some (fp, due)" "due \<le> oc_due c"
        using fire_all_ge [OF c(1,2)] by blast
      with c(3) cur(2) cur(3) [of repository workflow] id show ?thesis
        by (auto simp: calls_for_def)
    qed
    with Cons.IH [of db'] fired show ?thesis by auto
  next
    case False
    then have "fire_all parse print (x # xs) db = fire_all parse print xs db"
      by (auto split: sum.splits option.splits prod.splits)
    with Cons.IH show ?thesis by simp
  qed
qed simp

text \<open>
  Only the owner of the schedule works on its occurrences: when JSON printing and parsing round
  trip, a created occurrence can be claimed by a daemon only if that daemon owns the schedule
  under the fingerprint the occurrence was computed with.
\<close>

theorem occurrence_claimable_by_owner:
  assumes "enqueue_scheduled_occurrence parse print (Scheduled repository workflow instant) payload
      fingerprint due next_due now db = Inr (Some e, db')"
    and "enq_created e"
    and "\<forall>v. parse (print v) = Some v"
  shows "claimable parse cc db'' (enq_task e) \<longleftrightarrow>
    repository \<in> set (cc_repositories cc)
    \<and> cc_runtimes cc (repository, workflow, ''scheduled'') \<noteq> None
    \<and> owned_fingerprint (cc_owner_id cc) repository workflow db'' = Some fingerprint"
proof -
  obtain identity where identity: "identity = Scheduled repository workflow instant" by blast
  have "t_kind (enq_task e) = ''scheduled'' \<and> t_repository (enq_task e) = repository
    \<and> t_workflow (enq_task e) = workflow
    \<and> payload_fingerprint parse (enq_task e) = Some fingerprint"
  proof (rule occurrence_fired [OF assms(1) [folded identity]])
    fix r w i body db1 inserted
    assume id: "identity = Scheduled r w i"
      and body: "occurrence_payload parse print fingerprint payload = Some body"
      and ins: "insert_task_or_ignore (identity_key identity) ''scheduled'' r w None (Some body) now db
        = (db1, inserted)"
      and q: "query_task_by_key (identity_key identity) db1 = Some (enq_task e)" and c: "enq_created e = inserted"
    have fields: "t_kind (enq_task e) = ''scheduled''" "t_repository (enq_task e) = r" "t_workflow (enq_task e) = w"
        "t_payload (enq_task e) = Some body"
      using insert_then_query(3) [OF ins q] c assms(2) by auto
    obtain fs where "body = print (JObject (json_object_insert ''schedule_fingerprint'' (JString fingerprint) fs))"
      using body by (auto simp: occurrence_payload_def bind_eq_Some_conv)
    then have "payload_fingerprint parse (enq_task e) = Some fingerprint"
      using assms(3) fields(4) by (simp add: payload_fingerprint_def del: json_get.simps)
    with fields id identity show ?thesis by simp
  qed
  then show ?thesis by (auto simp: claimable_def split: option.splits)
qed

end
