(* ===== verification/Repository_Ref.thy ===== *)
theory Repository_Ref
  imports Rust_Text
begin

text \<open>
  Repository remotes and change-request links (\<open>src/repository.rs\<close>): parsing a git remote into
  provider, host, namespace and name, the identity the ledger stores, and the check that a link
  names a change request of the configured repository. Strings are byte strings; the code only
  splits them at ASCII characters.
\<close>

subsection \<open>Data\<close>

datatype repository_provider = GitHub | GitLab

record repository_ref =
  rr_provider :: repository_provider
  rr_host :: string
  rr_namespace :: string
  rr_name :: string

datatype remote_error = MalformedRemote | UnsupportedHost string

fun provider_name :: "repository_provider \<Rightarrow> string" where
  "provider_name GitHub = ''github''"
| "provider_name GitLab = ''gitlab''"

definition repository_identity :: "repository_ref \<Rightarrow> string" where
  "repository_identity r = (case rr_provider r of
      GitHub \<Rightarrow> to_ascii_lowercase (rr_namespace r @ ''/'' @ rr_name r)
    | GitLab \<Rightarrow> to_ascii_lowercase (rr_host r @ ''/'' @ rr_namespace r @ ''/'' @ rr_name r))"

subsection \<open>Change-request links\<close>

text \<open>The checks on the path: the project's segments, the provider's marker and a number.\<close>

definition change_request_path :: "repository_provider \<Rightarrow> string \<Rightarrow> string \<Rightarrow> string \<Rightarrow> bool" where
  "change_request_path provider expected_project marker path =
     (let segments = split (CHR ''/'') path;
          project_segments = split (CHR ''/'') expected_project;
          suffix = (case provider of GitHub \<Rightarrow> 2 | GitLab \<Rightarrow> 3);
          marker_offset = length project_segments;
          number_offset = (case provider of GitHub \<Rightarrow> marker_offset + 1 | GitLab \<Rightarrow> marker_offset + 2)
      in if length segments \<noteq> length project_segments + suffix
           \<or> \<not> list_all (\<lambda>(actual, expected). eq_ignore_ascii_case actual expected)
                 (zip (take (length project_segments) segments) project_segments) then False
         else if provider = GitLab \<and> segments ! marker_offset \<noteq> ''-'' then False
         else if segments ! (number_offset - 1) \<noteq> marker
           \<or> segments ! number_offset = []
           \<or> \<not> list_all is_ascii_digit (segments ! number_offset) then False
         else True)"

definition recognize_change_request_url ::
  "repository_provider \<Rightarrow> string \<Rightarrow> string \<Rightarrow> string option" where
  "recognize_change_request_url provider identity candidate =
     Option.bind (strip_prefix ''https://'' candidate) (\<lambda>remainder.
     Option.bind (split_once (CHR ''/'') remainder) (\<lambda>(host, path).
     Option.bind (case provider of
         GitHub \<Rightarrow> Some (''github.com'', identity, ''pull'')
       | GitLab \<Rightarrow> map_option (\<lambda>p. (''gitlab.com'', p, ''merge_requests''))
                     (strip_prefix ''gitlab.com/'' identity))
       (\<lambda>(expected_host, expected_project, marker).
        if \<not> eq_ignore_ascii_case host expected_host then None
        else if change_request_path provider expected_project marker path then Some candidate
        else None)))"

subsection \<open>Remotes\<close>

definition unsupported_host :: "string \<Rightarrow> remote_error" where
  "unsupported_host host = UnsupportedHost
     (case rsplit_once (CHR ''@'') host of None \<Rightarrow> host | Some (_, sanitized) \<Rightarrow> sanitized)"

definition parse_url_remote :: "string \<Rightarrow> string option \<Rightarrow> remote_error + (string \<times> string)" where
  "parse_url_remote remote required_user =
     (case split_once (CHR ''/'') remote of
        None \<Rightarrow> Inl MalformedRemote
      | Some (authority, path) \<Rightarrow>
          if authority = [] \<or> path = [] then Inl MalformedRemote
          else
           (let (user_info, host_and_port) = (case rsplit_once (CHR ''@'') authority of
                   None \<Rightarrow> (None, authority) | Some (user, host) \<Rightarrow> (Some user, host))
            in if required_user \<noteq> None \<and> user_info \<noteq> required_user then Inl MalformedRemote
               else
                (let (host, port) = (case rsplit_once (CHR '':'') host_and_port of
                        None \<Rightarrow> (host_and_port, None) | Some (host, port) \<Rightarrow> (host, Some port))
                 in if host = [] \<or> (case port of None \<Rightarrow> False
                       | Some p \<Rightarrow> p = [] \<or> \<not> list_all is_ascii_digit p) then Inl MalformedRemote
                    else if eq_ignore_ascii_case host ''ssh.github.com'' \<and> port \<noteq> None
                      \<and> port \<noteq> Some ''443'' then Inl (unsupported_host host)
                    else if required_user = None \<and> eq_ignore_ascii_case host ''ssh.github.com''
                      then Inl (unsupported_host host)
                    else Inr (host, path))))"

definition parse_scp_remote :: "string \<Rightarrow> remote_error + (string \<times> string)" where
  "parse_scp_remote remote =
     (case split_once (CHR '':'') remote of
        None \<Rightarrow> Inl MalformedRemote
      | Some (authority, path) \<Rightarrow>
          (case split_once (CHR ''@'') authority of
             None \<Rightarrow> Inl MalformedRemote
           | Some (user, host) \<Rightarrow>
               if user \<noteq> ''git'' \<or> host = [] \<or> path = [] then Inl MalformedRemote
               else if eq_ignore_ascii_case host ''ssh.github.com'' then Inl (unsupported_host host)
               else Inr (host, path)))"

definition split_transport :: "string \<Rightarrow> remote_error + (string \<times> string)" where
  "split_transport remote =
     (case strip_prefix ''https://'' remote of
        Some remainder \<Rightarrow> parse_url_remote remainder None
      | None \<Rightarrow> (case strip_prefix ''ssh://'' remote of
            Some remainder \<Rightarrow> parse_url_remote remainder (Some ''git'')
          | None \<Rightarrow> parse_scp_remote remote))"

definition provider_of_host :: "string \<Rightarrow> (repository_provider \<times> string) option" where
  "provider_of_host transport_host =
     (let h = to_ascii_lowercase transport_host in
      if h = ''github.com'' \<or> h = ''ssh.github.com'' then Some (GitHub, ''github.com'')
      else if h = ''gitlab.com'' then Some (GitLab, ''gitlab.com'')
      else None)"

definition path_segments :: "string \<Rightarrow> string list" where
  "path_segments path =
     (let path = trim_end_matches (CHR ''/'') path
      in split (CHR ''/'') (case strip_suffix ''.git'' path of None \<Rightarrow> path | Some p \<Rightarrow> p))"

definition bad_segment :: "string \<Rightarrow> bool" where
  "bad_segment s \<longleftrightarrow> s = [] \<or> s = ''.'' \<or> s = ''..'' \<or> strip_suffix ''.git'' s \<noteq> None"

definition parse_repository_ref :: "string \<Rightarrow> remote_error + repository_ref" where
  "parse_repository_ref remote =
     (if remote = [] \<or> CHR ''?'' \<in> set remote \<or> CHR ''#'' \<in> set remote then Inl MalformedRemote
      else case split_transport remote of
        Inl e \<Rightarrow> Inl e
      | Inr (transport_host, path) \<Rightarrow>
          (case provider_of_host transport_host of
             None \<Rightarrow> Inl (unsupported_host transport_host)
           | Some (provider, host) \<Rightarrow>
               (let segments = path_segments path
                in if list_ex bad_segment segments then Inl MalformedRemote
                   else if provider = GitLab \<and> ''-'' \<in> set segments then Inl MalformedRemote
                   else if length segments < 2 \<or> provider = GitHub \<and> length segments \<noteq> 2
                     then Inl MalformedRemote
                   else Inr \<lparr>rr_provider = provider, rr_host = host,
                     rr_namespace = join ''/'' (butlast segments), rr_name = last segments\<rparr>)))"

subsection \<open>Well-formed references\<close>

definition good_segment :: "string \<Rightarrow> bool" where
  "good_segment s \<longleftrightarrow> \<not> bad_segment s \<and> CHR ''/'' \<notin> set s \<and> CHR ''?'' \<notin> set s \<and> CHR ''#'' \<notin> set s"

definition wf_ref :: "repository_ref \<Rightarrow> bool" where
  "wf_ref r \<longleftrightarrow> good_segment (rr_name r) \<and>
     (let ns = split (CHR ''/'') (rr_namespace r) in
      list_all good_segment ns
      \<and> (case rr_provider r of
           GitHub \<Rightarrow> rr_host r = ''github.com'' \<and> length ns = 1
         | GitLab \<Rightarrow> rr_host r = ''gitlab.com'' \<and> ''-'' \<notin> set (ns @ [rr_name r])))"

definition scp_remote :: "repository_ref \<Rightarrow> string" where
  "scp_remote r = ''git@'' @ rr_host r @ '':'' @ rr_namespace r @ ''/'' @ rr_name r @ ''.git''"

lemma split_append_last: "d \<notin> set w \<Longrightarrow> split d (s @ d # w) = split d s @ [w]"
proof (induction s)
  case Nil
  then show ?case by (simp add: split_word)
next
  case (Cons c s)
  then show ?case by (cases "split d s") auto
qed

lemma set_split: "c \<in> set w \<Longrightarrow> w \<in> set (split d s) \<Longrightarrow> c \<in> set s"
proof (induction s arbitrary: w)
  case (Cons x s)
  obtain v vs where "split d s = v # vs" by (cases "split d s") auto
  with Cons show ?case by (fastforce split: if_splits)
qed simp

lemma set_trim_end_matches: "set (trim_end_matches d s) \<subseteq> set s"
  using set_dropWhileD by (fastforce simp: trim_end_matches_def)

lemma path_segments_set:
  assumes "w \<in> set (path_segments path)"
  shows "set w \<subseteq> set path" and "CHR ''/'' \<notin> set w"
proof -
  obtain p where p: "w \<in> set (split (CHR ''/'') p)" "set p \<subseteq> set path"
  proof (cases "strip_suffix ''.git'' (trim_end_matches (CHR ''/'') path)")
    case None
    with assms that set_trim_end_matches show ?thesis by (auto simp: path_segments_def Let_def)
  next
    case (Some q)
    then have "set q \<subseteq> set path"
      using set_trim_end_matches [of "CHR ''/''" path] by (auto simp: strip_suffix_Some_iff)
    with Some assms that show ?thesis by (auto simp: path_segments_def Let_def)
  qed
  from p set_split show "set w \<subseteq> set path" by blast
  from p(1) show "CHR ''/'' \<notin> set w" by (rule split_no_sep)
qed

lemma path_segments_canonical:
  assumes "CHR ''/'' \<notin> set name"
  shows "path_segments (ns @ ''/'' @ name @ ''.git'') = split (CHR ''/'') ns @ [name]"
proof -
  have "trim_end_matches (CHR ''/'') (ns @ ''/'' @ name @ ''.git'') = ns @ ''/'' @ name @ ''.git''"
    by (simp add: trim_end_matches_def)
  moreover have "strip_suffix ''.git'' (ns @ ''/'' @ name @ ''.git'') = Some (ns @ ''/'' @ name)"
    by (simp add: strip_suffix_Some_iff)
  ultimately show ?thesis
    using assms by (simp add: path_segments_def split_append_last)
qed

lemma not_in_segments:
  assumes "\<forall>w\<in>set (split d s). c \<notin> set w" and "c \<noteq> d"
  shows "c \<notin> set s"
proof -
  have "c \<in> set (join [d] ws) \<Longrightarrow> \<exists>w\<in>set ws. c \<in> set w" for ws
    using assms(2) by (induction "[d]" ws rule: join.induct) auto
  from this [of "split d s"] assms(1) show ?thesis by (auto simp: join_split)
qed

lemma parse_url_remote_path:
  "parse_url_remote remote required = Inr (host, path) \<Longrightarrow> set path \<subseteq> set remote"
  by (auto simp: parse_url_remote_def Let_def split_once_Some_iff split: option.splits if_splits prod.splits)

lemma split_transport_path:
  "split_transport remote = Inr (host, path) \<Longrightarrow> set path \<subseteq> set remote"
  by (auto simp: split_transport_def parse_scp_remote_def split_once_Some_iff
      dest!: parse_url_remote_path split: option.splits if_splits)

lemma wf_ref_parsed:
  assumes "parse_repository_ref remote = Inr r"
  shows "wf_ref r"
proof -
  obtain transport_host path host where
      t: "split_transport remote = Inr (transport_host, path)"
      and p: "provider_of_host transport_host = Some (rr_provider r, host)"
      and clean: "CHR ''?'' \<notin> set remote" "CHR ''#'' \<notin> set remote"
      and segs: "\<not> list_ex bad_segment (path_segments path)" "\<not> length (path_segments path) < 2"
        "rr_provider r = GitLab \<longrightarrow> ''-'' \<notin> set (path_segments path)"
        "rr_provider r = GitHub \<longrightarrow> length (path_segments path) = 2"
      and r: "rr_host r = host" "rr_namespace r = join ''/'' (butlast (path_segments path))"
        "rr_name r = last (path_segments path)"
    using assms by (fastforce simp: parse_repository_ref_def Let_def split: if_splits sum.splits option.splits)
  let ?s = "path_segments path"
  have ne: "?s \<noteq> []" and ne': "butlast ?s \<noteq> []" using segs(2) by (cases ?s; auto)+
  have good: "good_segment w" if "w \<in> set ?s" for w
    using that segs(1) path_segments_set [OF that] split_transport_path [OF t] clean
    by (auto simp: good_segment_def list_ex_iff)
  have ns: "split (CHR ''/'') (rr_namespace r) = butlast ?s"
    unfolding r(2) by (rule split_join) (use ne' path_segments_set(2) in_set_butlastD in fastforce)+
  have "list_all good_segment (butlast ?s)" "good_segment (last ?s)"
    using good ne by (auto simp: list_all_iff in_set_butlastD)
  moreover have "rr_host r = (case rr_provider r of GitHub \<Rightarrow> ''github.com'' | GitLab \<Rightarrow> ''gitlab.com'')"
    using p r(1) by (auto simp: provider_of_host_def Let_def split: if_splits)
  ultimately show ?thesis
    using segs(3,4) ne append_butlast_last_id [OF ne]
    by (auto simp: wf_ref_def ns Let_def r(3) split: repository_provider.splits)
qed

text \<open>
  A reference prints to a remote that parses back to it: for every well-formed reference the
  canonical scp-style remote is accepted and gives the same reference.
\<close>

theorem scp_remote_roundtrip:
  assumes "wf_ref r"
  shows "parse_repository_ref (scp_remote r) = Inr r"
proof -
  let ?ns = "split (CHR ''/'') (rr_namespace r)"
  have host: "rr_host r = (case rr_provider r of GitHub \<Rightarrow> ''github.com'' | GitLab \<Rightarrow> ''gitlab.com'')"
    and good: "good_segment (rr_name r)" "\<forall>w\<in>set ?ns. good_segment w"
    using assms by (auto simp: wf_ref_def Let_def list_all_iff split: repository_provider.splits)
  have clean: "CHR ''?'' \<notin> set (rr_namespace r)" "CHR ''#'' \<notin> set (rr_namespace r)"
    by (rule not_in_segments [where d = "CHR ''/''"]; use good(2) in \<open>auto simp: good_segment_def\<close>)+
  have name: "CHR ''/'' \<notin> set (rr_name r)" "rr_name r \<noteq> []"
    using good(1) by (auto simp: good_segment_def bad_segment_def)
  obtain path where path: "path = rr_namespace r @ ''/'' @ rr_name r @ ''.git''" by blast
  have segs: "path_segments path = ?ns @ [rr_name r]"
    unfolding path by (rule path_segments_canonical [OF name(1)])
  have transport: "split_transport (scp_remote r) = Inr (rr_host r, path)"
    by (cases "rr_provider r") (simp_all add: path split_transport_def scp_remote_def parse_scp_remote_def
        host eq_ignore_ascii_case_def to_ascii_lowercase_def ascii_lower_char_def is_ascii_upper_def byte_def)
  have provider: "provider_of_host (rr_host r) = Some (rr_provider r, rr_host r)"
    by (cases "rr_provider r") (simp_all add: host provider_of_host_def to_ascii_lowercase_def
        ascii_lower_char_def is_ascii_upper_def byte_def)
  have chars: "CHR ''?'' \<notin> set (scp_remote r)" "CHR ''#'' \<notin> set (scp_remote r)" "scp_remote r \<noteq> []"
    using clean good(1) by (cases "rr_provider r"; auto simp: scp_remote_def host good_segment_def)+
  have "\<not> list_ex bad_segment (?ns @ [rr_name r])"
    using good by (auto simp: list_ex_iff good_segment_def)
  moreover have "0 < length ?ns" by simp
  moreover have "rr_provider r = GitLab \<longrightarrow> ''-'' \<notin> set (?ns @ [rr_name r])"
      "rr_provider r = GitHub \<longrightarrow> length ?ns = 1"
    using assms by (auto simp: wf_ref_def Let_def split: repository_provider.splits)
  ultimately show ?thesis
    using chars by (auto simp: parse_repository_ref_def transport provider segs Let_def join_split)
qed

text \<open>
  Parsing normalizes: an accepted remote in any of the supported forms gives a well-formed
  reference, never with a query, a fragment, an empty or dotted segment, or a remaining
  \<open>.git\<close>, with one namespace segment exactly for GitHub, and the reference's canonical remote
  parses to the same reference.
\<close>

theorem parse_repository_ref_normalizes:
  assumes "parse_repository_ref remote = Inr r"
  shows "wf_ref r \<and> (\<exists>transport_host path. split_transport remote = Inr (transport_host, path)
    \<and> provider_of_host transport_host = Some (rr_provider r, rr_host r)
    \<and> split (CHR ''/'') (rr_namespace r) @ [rr_name r] = path_segments path)"
proof -
  have wf: "wf_ref r" by (rule wf_ref_parsed [OF assms])
  obtain transport_host path host where
      t: "split_transport remote = Inr (transport_host, path)"
      and p: "provider_of_host transport_host = Some (rr_provider r, host)"
      and len: "\<not> length (path_segments path) < 2"
      and r: "rr_host r = host" "rr_namespace r = join ''/'' (butlast (path_segments path))"
        "rr_name r = last (path_segments path)"
    using assms by (fastforce simp: parse_repository_ref_def Let_def split: if_splits sum.splits option.splits)
  let ?s = "path_segments path"
  have ne: "?s \<noteq> []" and ne': "butlast ?s \<noteq> []" using len by (cases ?s; auto)+
  have "split (CHR ''/'') (rr_namespace r) = butlast ?s"
    unfolding r(2) by (rule split_join) (use ne' path_segments_set(2) in_set_butlastD in fastforce)+
  with wf t p r ne show ?thesis by simp
qed

subsection \<open>Change-request links\<close>

definition project_of_identity :: "repository_provider \<Rightarrow> string \<Rightarrow> string option" where
  "project_of_identity provider identity =
     (case provider of GitHub \<Rightarrow> Some identity | GitLab \<Rightarrow> strip_prefix ''gitlab.com/'' identity)"

definition provider_domain :: "repository_provider \<Rightarrow> string" where
  "provider_domain provider = (case provider of GitHub \<Rightarrow> ''github.com'' | GitLab \<Rightarrow> ''gitlab.com'')"

definition change_markers :: "repository_provider \<Rightarrow> string list" where
  "change_markers provider = (case provider of GitHub \<Rightarrow> [''pull''] | GitLab \<Rightarrow> [''-'', ''merge_requests''])"

text \<open>A link to change request \<open>number\<close> of \<open>project\<close>, its host and project spelled in any case.\<close>

definition change_request_link :: "repository_provider \<Rightarrow> string \<Rightarrow> string \<Rightarrow> bool" where
  "change_request_link provider project url \<longleftrightarrow> (\<exists>host segs number.
     url = ''https://'' @ host @ ''/'' @ join ''/'' (segs @ change_markers provider @ [number])
     \<and> eq_ignore_ascii_case host (provider_domain provider) \<and> CHR ''/'' \<notin> set host
     \<and> list_all2 eq_ignore_ascii_case segs (split (CHR ''/'') project)
     \<and> (\<forall>w\<in>set segs. CHR ''/'' \<notin> set w)
     \<and> number \<noteq> [] \<and> list_all is_ascii_digit number)"

lemma digit_not_slash: "list_all is_ascii_digit s \<Longrightarrow> CHR ''/'' \<notin> set s"
  by (auto simp: list_all_iff is_ascii_digit_def byte_def)

lemma list_all_zip_take:
  "length xs = length ys + k \<Longrightarrow>
     list_all (\<lambda>(x, y). P x y) (zip (take (length ys) xs) ys) = list_all2 P (take (length ys) xs) ys"
  by (auto simp: list_all2_iff list_all_iff)

definition change_marker :: "repository_provider \<Rightarrow> string" where
  "change_marker provider = last (change_markers provider)"

lemma two_segments:
  "length segments = n + 2 \<Longrightarrow> segments = take n segments @ [segments ! n, segments ! Suc n]"
proof -
  assume "length segments = n + 2"
  then have "drop n segments = [segments ! n, segments ! Suc n]"
    by (simp add: Cons_nth_drop_Suc [symmetric])
  then show ?thesis by (metis append_take_drop_id)
qed

lemma three_segments:
  "length segments = n + 3 \<Longrightarrow>
     segments = take n segments @ [segments ! n, segments ! Suc n, segments ! Suc (Suc n)]"
proof -
  assume "length segments = n + 3"
  then have "drop n segments = [segments ! n, segments ! Suc n, segments ! Suc (Suc n)]"
    by (simp add: Cons_nth_drop_Suc [symmetric])
  then show ?thesis by (metis append_take_drop_id)
qed

lemma change_request_pathD:
  assumes "change_request_path provider project (change_marker provider) path"
  shows "\<exists>segs number. split (CHR ''/'') path = segs @ change_markers provider @ [number]
    \<and> list_all2 eq_ignore_ascii_case segs (split (CHR ''/'') project)
    \<and> number \<noteq> [] \<and> list_all is_ascii_digit number"
proof (cases provider)
  case GitHub
  let ?s = "split (CHR ''/'') path" and ?n = "length (split (CHR ''/'') project)"
  have "?s = take ?n ?s @ [''pull''] @ [?s ! Suc ?n]" "?s ! Suc ?n \<noteq> []"
      "list_all is_ascii_digit (?s ! Suc ?n)"
      "list_all2 eq_ignore_ascii_case (take ?n ?s) (split (CHR ''/'') project)"
    using assms two_segments [of ?s ?n] GitHub
    by (simp_all add: change_request_path_def Let_def change_marker_def change_markers_def
        list_all_zip_take split: if_splits)
  then show ?thesis unfolding GitHub change_markers_def by fastforce
next
  case GitLab
  let ?s = "split (CHR ''/'') path" and ?n = "length (split (CHR ''/'') project)"
  have "?s = take ?n ?s @ [''-'', ''merge_requests''] @ [?s ! Suc (Suc ?n)]" "?s ! Suc (Suc ?n) \<noteq> []"
      "list_all is_ascii_digit (?s ! Suc (Suc ?n))"
      "list_all2 eq_ignore_ascii_case (take ?n ?s) (split (CHR ''/'') project)"
    using assms three_segments [of ?s ?n] GitLab
    by (simp_all add: change_request_path_def Let_def change_marker_def change_markers_def
        list_all_zip_take split: if_splits)
  then show ?thesis unfolding GitLab change_markers_def by fastforce
qed

lemma change_request_pathI:
  assumes "split (CHR ''/'') path = segs @ change_markers provider @ [number]"
    and l: "list_all2 eq_ignore_ascii_case segs (split (CHR ''/'') project)"
    and "number \<noteq> []" and "list_all is_ascii_digit number"
  shows "change_request_path provider project (change_marker provider) path"
proof -
  have n: "length segs = length (split (CHR ''/'') project)" using l by (rule list_all2_lengthD)
  have z: "list_all (\<lambda>(actual, expected). eq_ignore_ascii_case actual expected)
      (zip segs (split (CHR ''/'') project))"
    using l by (auto simp: list_all2_iff list_all_iff)
  show ?thesis
    using assms(3,4) z unfolding change_request_path_def assms(1) n [symmetric]
    by (cases provider) (simp_all add: change_markers_def change_marker_def Let_def nth_append n)
qed

lemma change_request_path_iff:
  "change_request_path provider project (change_marker provider) path \<longleftrightarrow> (\<exists>segs number.
     path = join ''/'' (segs @ change_markers provider @ [number])
     \<and> list_all2 eq_ignore_ascii_case segs (split (CHR ''/'') project)
     \<and> (\<forall>w\<in>set segs. CHR ''/'' \<notin> set w) \<and> number \<noteq> [] \<and> list_all is_ascii_digit number)"
    (is "?L \<longleftrightarrow> ?R")
proof
  assume ?L
  from change_request_pathD [OF this] obtain segs number where
      s: "split (CHR ''/'') path = segs @ change_markers provider @ [number]"
      "list_all2 eq_ignore_ascii_case segs (split (CHR ''/'') project)"
      "number \<noteq> []" "list_all is_ascii_digit number" by blast
  have "path = join ''/'' (segs @ change_markers provider @ [number])"
    unfolding s(1) [symmetric] by (simp add: join_split)
  moreover have "\<forall>w\<in>set segs. CHR ''/'' \<notin> set w"
    using split_no_sep [of _ "CHR ''/''" path] by (simp add: s(1))
  ultimately show ?R using s by blast
next
  assume ?R
  then obtain segs number where
      p: "path = join ''/'' (segs @ change_markers provider @ [number])"
      and l: "list_all2 eq_ignore_ascii_case segs (split (CHR ''/'') project)"
      "\<forall>w\<in>set segs. CHR ''/'' \<notin> set w" "number \<noteq> []" "list_all is_ascii_digit number" by blast
  have "\<forall>w\<in>set (change_markers provider). CHR ''/'' \<notin> set w"
    by (cases provider) (simp_all add: change_markers_def)
  then have "split (CHR ''/'') path = segs @ change_markers provider @ [number]"
    using l(2) digit_not_slash [OF l(4)] unfolding p by (intro split_join) auto
  then show ?L using l(1,3,4) by (rule change_request_pathI)
qed

lemma recognize_unfold:
  "recognize_change_request_url provider identity candidate = Some url \<longleftrightarrow>
     url = candidate \<and> (\<exists>host path project. candidate = ''https://'' @ host @ ''/'' @ path
       \<and> CHR ''/'' \<notin> set host \<and> project_of_identity provider identity = Some project
       \<and> eq_ignore_ascii_case host (provider_domain provider)
       \<and> change_request_path provider project (change_marker provider) path)"
  by (cases provider)
    (auto simp: recognize_change_request_url_def bind_eq_Some_conv split_once_Some_iff
      project_of_identity_def provider_domain_def change_marker_def change_markers_def split: if_splits)

text \<open>
  Only links into the configured repository are recognized: a link is returned, unchanged,
  exactly when it is an HTTPS link to a numbered change request of the project the identity
  names, at the provider's own host; other hosts, projects, paths, queries and fragments are
  refused.
\<close>

theorem recognize_change_request_url_iff:
  "recognize_change_request_url provider identity candidate = Some url \<longleftrightarrow>
     url = candidate \<and> (\<exists>project. project_of_identity provider identity = Some project
       \<and> change_request_link provider project candidate)"
  unfolding recognize_unfold change_request_path_iff change_request_link_def by blast

subsection \<open>Examples\<close>

definition gitlab_example :: repository_ref where
  "gitlab_example = \<lparr>rr_provider = GitLab, rr_host = ''gitlab.com'',
     rr_namespace = ''example-group/subgroup'', rr_name = ''repository''\<rparr>"

theorem scp_remote_roundtrip_witness:
  "parse_repository_ref ''git@gitlab.com:example-group/subgroup/repository.git'' = Inr gitlab_example"
proof -
  have "wf_ref gitlab_example" by code_simp
  then have "parse_repository_ref (scp_remote gitlab_example) = Inr gitlab_example"
    by (rule scp_remote_roundtrip)
  then show ?thesis by (simp add: scp_remote_def gitlab_example_def)
qed

theorem parse_repository_ref_normalizes_witness:
  "wf_ref \<lparr>rr_provider = GitHub, rr_host = ''github.com'', rr_namespace = ''Owner'', rr_name = ''Repository''\<rparr>"
proof -
  have "parse_repository_ref ''https://token@GitHub.COM:443/Owner/Repository.git/''
      = Inr \<lparr>rr_provider = GitHub, rr_host = ''github.com'', rr_namespace = ''Owner'', rr_name = ''Repository''\<rparr>"
    by code_simp
  from parse_repository_ref_normalizes [OF this] show ?thesis by (rule conjunct1)
qed

end
