(* ===== verification/Ledger_PullRequests.thy ===== *)
theory Ledger_PullRequests
  imports Ledger_Queue_Proofs Repository_Ref
begin

text \<open>
  Change requests in the ledger (\<open>src/storage.rs\<close>): the association of a task with the pull
  request its implementation run opened, the life cycle of a pull-request event (observed,
  claimed under a lease, applied to the ticket system, consumed), and the bounded continuations
  that send a finished delivery task back to the queue.
\<close>

subsection \<open>Associations\<close>

definition association_of :: "string \<Rightarrow> string \<Rightarrow> pr_association \<Rightarrow> bool" where
  "association_of repository task_gid a \<longleftrightarrow> pa_repository a = repository \<and> pa_task_gid a = task_gid"

definition record_pull_request_association ::
  "repository_provider \<Rightarrow> string \<Rightarrow> string \<Rightarrow> string \<Rightarrow> int \<Rightarrow> ledger \<Rightarrow> ledger_error + ledger" where
  "record_pull_request_association provider repository task_gid pull_request now db =
     (if list_ex blank [repository, task_gid, pull_request] then Inl EmptyField
      else case recognize_change_request_url provider repository pull_request of
        None \<Rightarrow> Inl AssociationNotCanonical
      | Some canonical \<Rightarrow>
          (case find_where (association_of repository task_gid) (autonomous_pull_requests db) of
             Some existing \<Rightarrow>
               if pa_pull_request existing \<noteq> canonical then Inl (AssociationContradictory task_gid)
               else Inr db
           | None \<Rightarrow>
               if exists_where (\<lambda>a. pa_repository a = repository \<and> pa_pull_request a = canonical)
                    (autonomous_pull_requests db) then Inl ConstraintViolation
               else Inr (db\<lparr>autonomous_pull_requests := autonomous_pull_requests db @
                 [\<lparr>pa_repository = repository, pa_task_gid = task_gid, pa_pull_request = canonical,
                   pa_associated_at = now\<rparr>]\<rparr>)))"

definition implementation_workflow :: "string \<Rightarrow> bool" where
  "implementation_workflow w \<longleftrightarrow> w = ''implement'' \<or> w = ''implement-manual''"

definition implementation_handoff :: "int \<Rightarrow> string \<Rightarrow> ledger \<Rightarrow> (string \<times> string) option" where
  "implementation_handoff run_id repository db =
     Option.bind (find_where (\<lambda>r. r_id r = run_id \<and> r_outcome r = run_outcome.Succeeded
          \<and> r_repository r = repository \<and> implementation_workflow (r_workflow r)
          \<and> r_pull_request r \<noteq> None) (runs db)) (\<lambda>r.
     Option.bind (find_where (\<lambda>t. t_id t = r_task_id r \<and> t_repository t = repository
          \<and> implementation_workflow (t_workflow t) \<and> t_source_item t \<noteq> None) (tasks db)) (\<lambda>t.
     Some (the (t_source_item t), the (r_pull_request r))))"

definition associate_successful_implementation_handoff ::
  "int \<Rightarrow> string \<Rightarrow> repository_provider \<Rightarrow> int \<Rightarrow> ledger \<Rightarrow> ledger_error + ledger" where
  "associate_successful_implementation_handoff run_id repository provider now db =
     (case implementation_handoff run_id repository db of
        None \<Rightarrow> Inr db
      | Some (task_gid, pull_request) \<Rightarrow>
          record_pull_request_association provider repository task_gid pull_request now db)"

definition pull_request_associations :: "string \<Rightarrow> ledger \<Rightarrow> pr_association list" where
  "pull_request_associations repository db = sort_key (\<lambda>a. (pa_associated_at a, pa_task_gid a))
     (filter (\<lambda>a. pa_repository a = repository) (autonomous_pull_requests db))"

subsection \<open>Events\<close>

type_synonym event_key = "string \<times> string \<times> string" \<comment> \<open>repository, task, fingerprint\<close>

definition event_key :: "pr_event \<Rightarrow> event_key" where
  "event_key e = (pv_repository e, pv_task_gid e, pv_fingerprint e)"

definition validate_pull_request_event_key :: "event_key \<Rightarrow> bool" where
  "validate_pull_request_event_key = (\<lambda>(repository, task_gid, fingerprint).
     \<not> blank repository \<and> \<not> blank task_gid \<and> length fingerprint = 64
     \<and> list_all is_ascii_hexdigit fingerprint)"

definition query_event :: "event_key \<Rightarrow> ledger \<Rightarrow> pr_event option" where
  "query_event k db = find_where (\<lambda>e. event_key e = k) (autonomous_pull_request_events db)"

definition update_events :: "(pr_event \<Rightarrow> bool) \<Rightarrow> (pr_event \<Rightarrow> pr_event) \<Rightarrow> ledger \<Rightarrow> ledger" where
  "update_events P f db = db\<lparr>autonomous_pull_request_events :=
     update_where P f (autonomous_pull_request_events db)\<rparr>"

definition pull_request_event_state :: "event_key \<Rightarrow> ledger \<Rightarrow> pr_event_state option" where
  "pull_request_event_state k db = map_option pv_state (query_event k db)"

definition insert_event_or_ignore :: "event_key \<Rightarrow> int \<Rightarrow> ledger \<Rightarrow> bool \<times> ledger" where
  "insert_event_or_ignore k now db =
     (if exists_where (\<lambda>e. event_key e = k) (autonomous_pull_request_events db) then (False, db)
      else (True, db\<lparr>autonomous_pull_request_events := autonomous_pull_request_events db @
        [\<lparr>pv_repository = fst k, pv_task_gid = fst (snd k), pv_fingerprint = snd (snd k),
          pv_state = Observed, pv_observed_at = now, pv_claimed_at = None, pv_applied_at = None,
          pv_consumed_at = None\<rparr>]\<rparr>))"

definition observe_pull_request_event :: "event_key \<Rightarrow> int \<Rightarrow> ledger \<Rightarrow> ledger_error + (bool \<times> ledger)" where
  "observe_pull_request_event k now db =
     (if \<not> validate_pull_request_event_key k then Inl EventKeyInvalid
      else Inr (insert_event_or_ignore k now db))"

definition stale_claim :: "int \<Rightarrow> pr_event \<Rightarrow> bool" where
  "stale_claim stale_before e \<longleftrightarrow> pv_state e = Claimed
     \<and> (case pv_claimed_at e of None \<Rightarrow> False | Some t \<Rightarrow> t \<le> stale_before)"

definition claim_pull_request_event ::
  "event_key \<Rightarrow> int \<Rightarrow> ledger \<Rightarrow> pr_event_state option \<times> ledger" where
  "claim_pull_request_event k now db =
     (case query_event k db of
        None \<Rightarrow> (None, db)
      | Some e \<Rightarrow>
          (let stale_before = saturating_sub now PULL_REQUEST_CLAIM_LEASE_MILLIS;
               fresh = (\<lambda>e. event_key e = k \<and> pv_state e = Observed);
               stale = (\<lambda>e. event_key e = k \<and> stale_claim stale_before e);
               (claimed, db') =
                 (if pv_state e = Observed
                  then (count_where fresh (autonomous_pull_request_events db) = 1,
                        update_events fresh (\<lambda>e. e\<lparr>pv_state := Claimed, pv_claimed_at := Some now\<rparr>) db)
                  else if stale_claim stale_before e
                  then (count_where stale (autonomous_pull_request_events db) = 1,
                        update_events stale (\<lambda>e. e\<lparr>pv_claimed_at := Some now\<rparr>) db)
                  else (False, db))
           in if claimed then (Some Observed, db')
              else if pv_state e = AsanaApplied \<or> pv_state e = Consumed then (Some (pv_state e), db')
              else (None, db')))"

definition recover_expired_pull_request_event_claims :: "int \<Rightarrow> ledger \<Rightarrow> nat \<times> ledger" where
  "recover_expired_pull_request_event_claims now db =
     (let stale = stale_claim (saturating_sub now PULL_REQUEST_CLAIM_LEASE_MILLIS)
      in (count_where stale (autonomous_pull_request_events db),
          update_events stale (\<lambda>e. e\<lparr>pv_state := Observed, pv_claimed_at := None\<rparr>) db))"

definition release_pull_request_event_claim :: "event_key \<Rightarrow> ledger \<Rightarrow> ledger_error + ledger" where
  "release_pull_request_event_claim k db =
     (if \<not> validate_pull_request_event_key k then Inl EventKeyInvalid
      else Inr (update_events (\<lambda>e. event_key e = k \<and> pv_state e = Claimed)
        (\<lambda>e. e\<lparr>pv_state := Observed, pv_claimed_at := None\<rparr>) db))"

definition mark_pull_request_event_asana_applied :: "event_key \<Rightarrow> int \<Rightarrow> ledger \<Rightarrow> ledger" where
  "mark_pull_request_event_asana_applied k now db =
     update_events (\<lambda>e. event_key e = k \<and> (pv_state e = Observed \<or> pv_state e = Claimed))
       (\<lambda>e. e\<lparr>pv_state := AsanaApplied, pv_applied_at := Some now\<rparr>) db"

definition consume_pull_request_event :: "event_key \<Rightarrow> int \<Rightarrow> ledger \<Rightarrow> ledger_error + ledger" where
  "consume_pull_request_event k now db =
     (if \<not> validate_pull_request_event_key k then Inl EventKeyInvalid
      else Inr (update_events (\<lambda>e. event_key e = k
          \<and> (pv_state e = Observed \<or> pv_state e = Claimed \<or> pv_state e = AsanaApplied))
        (\<lambda>e. e\<lparr>pv_state := Consumed, pv_consumed_at := Some now\<rparr>) db))"

subsection \<open>Continuations\<close>

definition continuation_key :: "continuation \<Rightarrow> event_key" where
  "continuation_key c = (cn_repository c, cn_task_gid c, cn_fingerprint c)"

definition delivery_candidate :: "string \<Rightarrow> string \<Rightarrow> ledger \<Rightarrow> (task \<times> task_workspace) option" where
  "delivery_candidate repository task_gid db =
     Option.bind (last_opt (sort_key t_id (filter (\<lambda>t. t_repository t = repository
         \<and> t_workflow t = ''implement'' \<and> t_source_item t = Some task_gid
         \<and> exists_where (\<lambda>w. w_task_id w = t_id t) (task_workspaces db)) (tasks db))))
       (\<lambda>t. map_option (Pair t) (find_where (\<lambda>w. w_task_id w = t_id t) (task_workspaces db)))"

definition autonomous_payload :: "(string \<Rightarrow> json option) \<Rightarrow> string option \<Rightarrow> bool" where
  "autonomous_payload parse payload =
     (case Option.bind payload (\<lambda>p. Option.bind (parse p) (\<lambda>v.
         Option.bind (json_get ''labels'' v) json_as_array)) of
        None \<Rightarrow> False
      | Some labels \<Rightarrow> ''factory:auto-to-pr'' \<in> set (json_strings labels)
          \<and> ''factory:manual'' \<notin> set (json_strings labels))"

definition continuable :: "(string \<Rightarrow> json option) \<Rightarrow> task \<Rightarrow> task_workspace \<Rightarrow> bool" where
  "continuable parse t w \<longleftrightarrow> autonomous_payload parse (t_payload t)
     \<and> t_state t = task_state.Succeeded \<and> w_kind w = ''delivery'' \<and> w_state w \<noteq> ''cleaned''
     \<and> w_factory_branch w \<noteq> None"

definition continuations_of :: "string \<Rightarrow> string \<Rightarrow> ledger \<Rightarrow> nat" where
  "continuations_of repository task_gid db =
     count_where (\<lambda>c. cn_repository c = repository \<and> cn_task_gid c = task_gid)
       (autonomous_continuations db)"

definition request_continuation ::
  "(string \<Rightarrow> json option) \<Rightarrow> event_key \<Rightarrow> int \<Rightarrow> int \<Rightarrow> ledger \<Rightarrow>
     ledger_error + (continuation_request \<times> ledger)" where
  "request_continuation parse k now1 now2 db =
     (let (repository, task_gid, fingerprint) = k in
      if \<not> validate_pull_request_event_key k then Inl EventKeyInvalid
      else if exists_where (\<lambda>c. continuation_key c = k) (autonomous_continuations db)
      then Inr (ContDuplicate, db)
      else case delivery_candidate repository task_gid db of
        None \<Rightarrow> Inr (ContUnsafe, db)
      | Some (t, w) \<Rightarrow>
          if \<not> continuable parse t w then Inr (ContUnsafe, db)
          else
           (let db1 = db\<lparr>autonomous_continuations := autonomous_continuations db @
                  [\<lparr>cn_repository = repository, cn_task_gid = task_gid, cn_fingerprint = fingerprint,
                    cn_task_id = t_id t, cn_requested_at = now1\<rparr>]\<rparr>
            in if 3 < continuations_of repository task_gid db1
               then Inr (ContLimitReached, db1\<lparr>autonomous_continuations :=
                 delete_where (\<lambda>c. continuation_key c = k) (autonomous_continuations db1)\<rparr>)
               else Inr (ContQueued, db1\<lparr>tasks :=
                 update_where (\<lambda>u. t_id u = t_id t \<and> t_state u = task_state.Succeeded)
                   (move_task now2 task_state.Queued) (tasks db1)\<rparr>)))"

subsection \<open>Event rows\<close>

definition keeps_event :: "(pr_event \<Rightarrow> pr_event) \<Rightarrow> bool" where
  "keeps_event f \<longleftrightarrow> (\<forall>e. event_key (f e) = event_key e)"

lemma keeps_event_simps [simp]:
  "keeps_event (\<lambda>e. e\<lparr>pv_state := s, pv_claimed_at := c\<rparr>)"
  "keeps_event (\<lambda>e. e\<lparr>pv_claimed_at := c\<rparr>)"
  "keeps_event (\<lambda>e. e\<lparr>pv_state := s, pv_applied_at := c\<rparr>)"
  "keeps_event (\<lambda>e. e\<lparr>pv_state := s, pv_consumed_at := c\<rparr>)"
  by (simp_all add: keeps_event_def event_key_def)

lemma query_event_update:
  "keeps_event f \<Longrightarrow> query_event k (update_events P f db) =
     map_option (\<lambda>e. if P e then f e else e) (query_event k db)"
  by (simp add: query_event_def update_events_def keeps_event_def find_where_update)

lemma query_event_key: "query_event k db = Some e \<Longrightarrow> event_key e = k \<and> e \<in> set (autonomous_pull_request_events db)"
  by (auto simp: query_event_def dest: find_where_SomeD)

definition events_unique :: "ledger \<Rightarrow> bool" where
  "events_unique db \<longleftrightarrow> unique_key event_key (autonomous_pull_request_events db)"

lemma events_unique_update [simp]:
  "keeps_event f \<Longrightarrow> events_unique (update_events P f db) = events_unique db"
  by (simp add: events_unique_def update_events_def keeps_event_def unique_key_update_where)

lemma update_events_tables [simp]:
  "tasks (update_events P f db) = tasks db" "runs (update_events P f db) = runs db"
  "autonomous_continuations (update_events P f db) = autonomous_continuations db"
  "queue_inv (update_events P f db) = queue_inv db"
  by (simp_all add: update_events_def)

lemma event_count:
  assumes "events_unique db" and "query_event k db = Some e" and "Q e"
  shows "count_where (\<lambda>e. event_key e = k \<and> Q e) (autonomous_pull_request_events db) = 1"
proof -
  have "exists_where (\<lambda>e. event_key e = k \<and> Q e) (autonomous_pull_request_events db)"
    using query_event_key [OF assms(2)] assms(3) by (auto simp: exists_where_iff)
  then show ?thesis
    using count_where_one_iff [OF assms(1) [unfolded events_unique_def], of k Q] by simp
qed

text \<open>The claim, branch by branch.\<close>

lemma claim_event_cases:
  assumes "events_unique db"
  shows "claim_pull_request_event k now db = (case query_event k db of
      None \<Rightarrow> (None, db)
    | Some e \<Rightarrow>
        if pv_state e = Observed then (Some Observed, update_events (\<lambda>e. event_key e = k \<and> pv_state e = Observed)
           (\<lambda>e. e\<lparr>pv_state := Claimed, pv_claimed_at := Some now\<rparr>) db)
        else if stale_claim (saturating_sub now PULL_REQUEST_CLAIM_LEASE_MILLIS) e
        then (Some Observed, update_events (\<lambda>e. event_key e = k
             \<and> stale_claim (saturating_sub now PULL_REQUEST_CLAIM_LEASE_MILLIS) e)
           (\<lambda>e. e\<lparr>pv_claimed_at := Some now\<rparr>) db)
        else if pv_state e = Claimed then (None, db) else (Some (pv_state e), db))"
proof (cases "query_event k db")
  case None
  then show ?thesis by (simp add: claim_pull_request_event_def)
next
  case (Some e)
  then show ?thesis
    using event_count [OF assms Some, of "\<lambda>e. pv_state e = Observed"]
      event_count [OF assms Some, of "stale_claim (saturating_sub now PULL_REQUEST_CLAIM_LEASE_MILLIS)"]
    by (cases "pv_state e") (simp_all add: claim_pull_request_event_def Let_def)
qed

text \<open>A granted claim leaves the event claimed from now on; other events are untouched.\<close>

lemma claim_granted:
  assumes "events_unique db" and "claim_pull_request_event k now db = (Some Observed, db')"
  shows "\<exists>e. query_event k db' = Some e \<and> pv_state e = Claimed \<and> pv_claimed_at e = Some now"
    and "\<exists>e. query_event k db = Some e \<and> (pv_state e = Observed
      \<or> stale_claim (saturating_sub now PULL_REQUEST_CLAIM_LEASE_MILLIS) e)"
    and "j \<noteq> k \<Longrightarrow> query_event j db' = query_event j db" and "events_unique db'"
proof -
  obtain e where e: "query_event k db = Some e"
    using assms by (auto simp: claim_event_cases split: option.splits)
  note ek = query_event_key [OF e]
  have other: "query_event j (update_events (\<lambda>e. event_key e = k \<and> Q e) f db) = query_event j db"
    if "keeps_event f" "j \<noteq> k" for f Q
    using that query_event_key [of j db]
    by (cases "query_event j db") (auto simp: query_event_update)
  from assms e ek have "pv_state e = Observed \<or> stale_claim (saturating_sub now PULL_REQUEST_CLAIM_LEASE_MILLIS) e"
    by (auto simp: claim_event_cases split: if_splits)
  then show "\<exists>e. query_event k db' = Some e \<and> pv_state e = Claimed \<and> pv_claimed_at e = Some now"
    and "j \<noteq> k \<Longrightarrow> query_event j db' = query_event j db" and "events_unique db'"
    and "\<exists>e. query_event k db = Some e \<and> (pv_state e = Observed
      \<or> stale_claim (saturating_sub now PULL_REQUEST_CLAIM_LEASE_MILLIS) e)"
    using assms e ek other
    by (auto simp: claim_event_cases query_event_update stale_claim_def split: if_splits)
qed

lemma claim_refused:
  assumes "events_unique db" and "claim_pull_request_event k now db = (s, db')" and "s \<noteq> Some Observed"
  shows "db' = db"
  using assms by (auto simp: claim_event_cases split: option.splits if_splits)

text \<open>Observation is a once-only register.\<close>

definition event_held :: "ledger \<Rightarrow> event_key \<Rightarrow> bool" where
  "event_held db k = exists_where (\<lambda>e. event_key e = k) (autonomous_pull_request_events db)"

interpretation obs: once_only_register "fst :: event_key \<times> int \<Rightarrow> event_key" event_held
  "\<lambda>(k, now). insert_event_or_ignore k now"
  by unfold_locales (auto simp: insert_event_or_ignore_def event_held_def exists_where_iff event_key_def
      split: prod.splits)

text \<open>
  An event is news once: over any sequence of observations, whenever they are made, the same
  repository, task and fingerprint is reported as new exactly once if the ledger did not hold it,
  and never otherwise.
\<close>

theorem observed_once:
  "length (filter (\<lambda>(o', new). new \<and> fst o' = k) (fst (put_all (\<lambda>(k, now). insert_event_or_ignore k now) os db)))
     = (if event_held db k \<or> k \<notin> fst ` set os then 0 else 1)"
  by (rule obs.accepted_count)

subsection \<open>Leases\<close>

fun claim_all :: "(event_key \<times> int) list \<Rightarrow> ledger \<Rightarrow> (event_key \<times> int) list" where
  "claim_all [] db = []"
| "claim_all ((k, now) # cs) db =
     (case claim_pull_request_event k now db of
        (s, db') \<Rightarrow> (if s = Some Observed then (k, now) # claim_all cs db' else claim_all cs db'))"

definition clock_ok :: "int \<Rightarrow> bool" where
  "clock_ok now \<longleftrightarrow> 0 \<le> now \<and> now \<le> i64_max"

lemma stale_claim_lease:
  "clock_ok now \<Longrightarrow> stale_claim (saturating_sub now PULL_REQUEST_CLAIM_LEASE_MILLIS) e \<Longrightarrow>
     \<exists>t. pv_claimed_at e = Some t \<and> t + PULL_REQUEST_CLAIM_LEASE_MILLIS \<le> now"
  by (auto simp: stale_claim_def clock_ok_def saturating_sub_exact PULL_REQUEST_CLAIM_LEASE_MILLIS_def
      i64_max_def split: option.splits)

lemma claim_all_after_lease:
  "events_unique db \<Longrightarrow> query_event k db = Some e \<Longrightarrow> pv_state e = Claimed \<Longrightarrow> pv_claimed_at e = Some t \<Longrightarrow>
     \<forall>c\<in>set cs. clock_ok (snd c) \<Longrightarrow> (k, now) \<in> set (claim_all cs db) \<Longrightarrow>
     t + PULL_REQUEST_CLAIM_LEASE_MILLIS \<le> now"
proof (induction cs arbitrary: db e t)
  case (Cons c cs)
  obtain j n where c: "c = (j, n)" by (cases c)
  obtain s db1 where cl: "claim_pull_request_event j n db = (s, db1)" by fastforce
  show ?case
  proof (cases "s = Some Observed")
    case False
    with claim_refused [OF Cons.prems(1) cl] Cons c cl show ?thesis by auto
  next
    case True
    with cl have cl: "claim_pull_request_event j n db = (Some Observed, db1)" by simp
    note g = claim_granted [OF Cons.prems(1) cl]
    show ?thesis
    proof (cases "j = k")
      case True
      with g(2) Cons.prems(2,3) have "stale_claim (saturating_sub n PULL_REQUEST_CLAIM_LEASE_MILLIS) e" by auto
      then have le: "t + PULL_REQUEST_CLAIM_LEASE_MILLIS \<le> n"
        using stale_claim_lease Cons.prems(4,5) c by fastforce
      from g(1) True obtain e' where e': "query_event k db1 = Some e'" "pv_state e' = Claimed"
          "pv_claimed_at e' = Some n" by blast
      from Cons.prems(6) c cl True consider "now = n" | "(k, now) \<in> set (claim_all cs db1)" by auto
      then show ?thesis
      proof cases
        case 2
        have "n + PULL_REQUEST_CLAIM_LEASE_MILLIS \<le> now"
          by (rule Cons.IH [OF g(4) e' _ 2]) (use Cons.prems(5) in auto)
        with le show ?thesis by (simp add: PULL_REQUEST_CLAIM_LEASE_MILLIS_def)
      qed (use le in simp)
    next
      case False
      with g(3) Cons.prems(2) have "query_event k db1 = Some e" by simp
      from Cons.IH [OF g(4) this Cons.prems(3,4)] Cons.prems(5,6) c cl False show ?thesis by auto
    qed
  qed
qed simp

text \<open>
  The lease is exclusive: in any sequence of claims by any daemons, two granted claims of the
  same event are at least the lease of one minute apart.
\<close>

theorem claims_respect_lease:
  assumes "events_unique db" and "\<forall>c\<in>set cs. clock_ok (snd c)"
  shows "sorted_wrt (\<lambda>a b. a + PULL_REQUEST_CLAIM_LEASE_MILLIS \<le> b)
    (map snd (filter (\<lambda>c. fst c = k) (claim_all cs db)))"
  using assms
proof (induction cs arbitrary: db)
  case (Cons c cs)
  obtain j n where c: "c = (j, n)" by (cases c)
  obtain s db1 where cl: "claim_pull_request_event j n db = (s, db1)" by fastforce
  show ?case
  proof (cases "s = Some Observed")
    case False
    with claim_refused [OF Cons.prems(1) cl] Cons c cl show ?thesis by auto
  next
    case True
    with cl have cl: "claim_pull_request_event j n db = (Some Observed, db1)" by simp
    note g = claim_granted [OF Cons.prems(1) cl]
    obtain e where "query_event j db1 = Some e" "pv_state e = Claimed" "pv_claimed_at e = Some n"
      using g(1) by blast
    from claim_all_after_lease [OF g(4) this, of cs] Cons.prems(2)
    have "n + PULL_REQUEST_CLAIM_LEASE_MILLIS \<le> now" if "(j, now) \<in> set (claim_all cs db1)" for now
      using that by auto
    with Cons.IH [OF g(4)] Cons.prems(2) c cl show ?thesis by auto
  qed
qed simp

text \<open>
  A release needs no ownership: the row does not say who claimed the event, so a release by
  any caller ends a live lease at once and the next claim, at any time, is granted.
\<close>

theorem release_ends_any_lease:
  assumes "events_unique db" and "claim_pull_request_event k now db = (Some Observed, db1)"
    and "release_pull_request_event_claim k db1 = Inr db2"
  shows "fst (claim_pull_request_event k now' db2) = Some Observed"
proof -
  obtain e where e: "query_event k db1 = Some e" "pv_state e = Claimed"
    using claim_granted(1) [OF assms(1,2)] by blast
  have u: "events_unique db2" and q: "query_event k db2 = Some (e\<lparr>pv_state := Observed, pv_claimed_at := None\<rparr>)"
    using assms(3) claim_granted(4) [OF assms(1,2)] e query_event_key [OF e(1)]
    by (auto simp: release_pull_request_event_claim_def query_event_update split: if_splits)
  show ?thesis using q by (simp add: claim_event_cases [OF u])
qed

subsection \<open>The life cycle\<close>

inductive pr_event_step :: "ledger \<Rightarrow> ledger \<Rightarrow> bool" where
  step_observe: "observe_pull_request_event k now db = Inr (new, db') \<Longrightarrow> pr_event_step db db'"
| step_claim: "claim_pull_request_event k now db = (s, db') \<Longrightarrow> pr_event_step db db'"
| step_recover: "recover_expired_pull_request_event_claims now db = (n, db') \<Longrightarrow> pr_event_step db db'"
| step_release: "release_pull_request_event_claim k db = Inr db' \<Longrightarrow> pr_event_step db db'"
| step_mark: "pr_event_step db (mark_pull_request_event_asana_applied k now db)"
| step_consume: "consume_pull_request_event k now db = Inr db' \<Longrightarrow> pr_event_step db db'"
| step_continue: "request_continuation parse k now1 now2 db = Inr (c, db') \<Longrightarrow> pr_event_step db db'"

inductive_cases pr_event_stepE: "pr_event_step db db'"

text \<open>Each step inserts one observed event, or updates rows without lowering a finished one.\<close>

definition raises_event :: "(pr_event \<Rightarrow> bool) \<Rightarrow> (pr_event \<Rightarrow> pr_event) \<Rightarrow> bool" where
  "raises_event P f \<longleftrightarrow> keeps_event f \<and> (\<forall>e. P e \<and> AsanaApplied \<le> pv_state e \<longrightarrow> pv_state e \<le> pv_state (f e))"

lemma pr_state_le_simps [simp]:
  "(AsanaApplied \<le> s) = (s = AsanaApplied \<or> s = Consumed)" "s \<le> Consumed"
  "(Consumed \<le> s) = (s = Consumed)"
  by (cases s; simp add: less_eq_pr_event_state_def)+

lemma claim_event_shape:
  assumes "claim_pull_request_event k now db = (s, db')"
  shows "db' = db
    \<or> db' = update_events (\<lambda>e. event_key e = k \<and> pv_state e = Observed)
        (\<lambda>e. e\<lparr>pv_state := Claimed, pv_claimed_at := Some now\<rparr>) db
    \<or> (\<exists>b. db' = update_events (\<lambda>e. event_key e = k \<and> stale_claim b e)
        (\<lambda>e. e\<lparr>pv_claimed_at := Some now\<rparr>) db)"
  using assms
  by (auto simp: claim_pull_request_event_def Let_def split: option.splits if_split_asm prod.splits)

definition event_step_shape :: "ledger \<Rightarrow> ledger \<Rightarrow> bool" where
  "event_step_shape db db' \<longleftrightarrow> (\<exists>k now. autonomous_pull_request_events db'
        = autonomous_pull_request_events (snd (insert_event_or_ignore k now db)))
    \<or> (\<exists>P f. raises_event P f
        \<and> autonomous_pull_request_events db' = update_where P f (autonomous_pull_request_events db))"

lemma raise_shapeI: "raises_event P f \<Longrightarrow> event_step_shape db (update_events P f db)"
  by (auto simp: event_step_shape_def update_events_def)

lemma same_shapeI:
  assumes "autonomous_pull_request_events db' = autonomous_pull_request_events db"
  shows "event_step_shape db db'"
proof -
  have "raises_event (\<lambda>_. False) id" by (simp add: raises_event_def keeps_event_def)
  moreover have "update_where (\<lambda>_. False) id t = t" for t :: "pr_event list" by (simp add: update_where_def)
  ultimately show ?thesis unfolding event_step_shape_def using assms by metis
qed

lemma insert_shapeI: "event_step_shape db (snd (insert_event_or_ignore k now db))"
  unfolding event_step_shape_def by blast

lemma pr_event_step_shape:
  assumes "pr_event_step db db'"
  shows "event_step_shape db db'"
  using assms
proof (cases rule: pr_event_step.cases)
  case (step_observe k now new)
  then have "db' = snd (insert_event_or_ignore k now db)"
    by (auto simp: observe_pull_request_event_def split: if_splits)
  then show ?thesis using insert_shapeI by simp
next
  case (step_claim k now s)
  have "event_step_shape db db" by (rule same_shapeI) simp
  moreover have "event_step_shape db (update_events (\<lambda>e. event_key e = k \<and> pv_state e = Observed)
      (\<lambda>e. e\<lparr>pv_state := Claimed, pv_claimed_at := Some now\<rparr>) db)"
    by (rule raise_shapeI) (auto simp: raises_event_def)
  moreover have "event_step_shape db (update_events (\<lambda>e. event_key e = k \<and> stale_claim b e)
      (\<lambda>e. e\<lparr>pv_claimed_at := Some now\<rparr>) db)" for b
    by (rule raise_shapeI) (auto simp: raises_event_def)
  ultimately show ?thesis using claim_event_shape [OF step_claim] by blast
next
  case (step_recover now n)
  then show ?thesis
    by (auto simp: recover_expired_pull_request_event_claims_def Let_def raises_event_def stale_claim_def
        intro!: raise_shapeI)
next
  case (step_release k)
  then show ?thesis
    by (auto simp: release_pull_request_event_claim_def raises_event_def intro!: raise_shapeI split: if_splits)
next
  case (step_mark k now)
  then show ?thesis
    by (auto simp: mark_pull_request_event_asana_applied_def raises_event_def intro!: raise_shapeI)
next
  case (step_consume k now)
  then show ?thesis
    by (auto simp: consume_pull_request_event_def raises_event_def intro!: raise_shapeI split: if_splits)
next
  case (step_continue parse k now1 now2 c)
  then show ?thesis
    by (auto simp: request_continuation_def Let_def intro!: same_shapeI split: prod.splits if_splits option.splits)
qed

definition event_reached :: "event_key \<Rightarrow> pr_event_state \<Rightarrow> ledger \<Rightarrow> bool" where
  "event_reached k s db \<longleftrightarrow> AsanaApplied \<le> s
     \<and> (\<exists>s'. pull_request_event_state k db = Some s' \<and> s \<le> s')"

lemma event_reached_step:
  assumes "event_reached k s db" and "pr_event_step db db'"
  shows "event_reached k s db'"
proof -
  obtain e where e: "query_event k db = Some e" "s \<le> pv_state e" "AsanaApplied \<le> s"
    using assms(1) by (auto simp: event_reached_def pull_request_event_state_def)
  have far: "AsanaApplied \<le> pv_state e" using e(2,3) by (rule order_trans [rotated])
  from pr_event_step_shape [OF assms(2), unfolded event_step_shape_def] show ?thesis
  proof (elim disjE exE conjE)
    fix j now
    assume ev: "autonomous_pull_request_events db'
        = autonomous_pull_request_events (snd (insert_event_or_ignore j now db))"
    have "query_event k db' = Some e"
      using e(1) by (simp add: query_event_def ev insert_event_or_ignore_def find_where_append)
    with e show ?thesis by (auto simp: event_reached_def pull_request_event_state_def)
  next
    fix P f
    assume r: "raises_event P f"
      and ev: "autonomous_pull_request_events db' = update_where P f (autonomous_pull_request_events db)"
    have "query_event k db' = Some (if P e then f e else e)"
      using e(1) r by (simp add: query_event_def ev raises_event_def keeps_event_def find_where_update)
    moreover have "pv_state e \<le> pv_state (if P e then f e else e)"
      using r far by (simp add: raises_event_def del: pr_state_le_simps)
    ultimately show ?thesis
      using e(2,3) unfolding event_reached_def pull_request_event_state_def
      by (auto intro: order_trans simp del: pr_state_le_simps)
  qed
qed

interpretation event_done: state_invariant
  "\<lambda>db. AsanaApplied \<le> s \<and> pull_request_event_state k db = Some s" pr_event_step "event_reached k s"
  for k s
  by unfold_locales (simp add: event_reached_def, rule event_reached_step)

text \<open>
  Applied work is never undone: once an event has been applied to the ticket system or
  consumed, no sequence of operations on any events (observing, claiming, recovering, releasing,
  marking, consuming or continuing, by any daemon at any time) takes it back to an earlier state,
  so the ticket system is not updated a second time for it.
\<close>

theorem event_never_undone:
  assumes "pr_event_step\<^sup>*\<^sup>* db db'" and "pull_request_event_state k db = Some s" and "AsanaApplied \<le> s"
  shows "\<exists>s'. pull_request_event_state k db' = Some s' \<and> s \<le> s'"
  using event_done.inv_reachable [of s k db db'] assms by (simp add: event_reached_def)

subsection \<open>Continuations\<close>

lemma request_continuation_queued:
  assumes "request_continuation parse k now1 now2 db = Inr (ContQueued, db')"
  obtains repository task_gid fingerprint t w where "k = (repository, task_gid, fingerprint)"
    and "\<not> exists_where (\<lambda>c. continuation_key c = k) (autonomous_continuations db)"
    and "delivery_candidate repository task_gid db = Some (t, w)" and "continuable parse t w"
    and "continuations_of repository task_gid db < 3"
    and "db' = db\<lparr>autonomous_continuations := autonomous_continuations db @
          [\<lparr>cn_repository = repository, cn_task_gid = task_gid, cn_fingerprint = fingerprint,
            cn_task_id = t_id t, cn_requested_at = now1\<rparr>],
        tasks := update_where (\<lambda>u. t_id u = t_id t \<and> t_state u = task_state.Succeeded)
          (move_task now2 task_state.Queued) (tasks db)\<rparr>"
proof -
  obtain repository task_gid fingerprint where k: "k = (repository, task_gid, fingerprint)" by (cases k)
  obtain t w where tw: "delivery_candidate repository task_gid db = Some (t, w)"
    using assms k by (auto simp: request_continuation_def split: if_splits option.splits)
  show ?thesis
    by (rule that [OF k _ tw])
      (use assms k tw in \<open>auto simp: request_continuation_def Let_def continuations_of_def
        count_where_append split: if_splits\<close>, auto simp: count_where_def)
qed

lemma request_continuation_other:
  assumes "request_continuation parse k now1 now2 db = Inr (c, db')" and "c \<noteq> ContQueued"
  shows "db' = db"
proof -
  obtain repository task_gid fingerprint where k: "k = (repository, task_gid, fingerprint)" by (cases k)
  have del: "delete_where (\<lambda>c. continuation_key c = k) (cs @ [x]) = cs"
    if "\<not> exists_where (\<lambda>c. continuation_key c = k) cs" "continuation_key x = k" for cs x
    using that by (auto simp: delete_where_def exists_where_iff intro!: filter_True)
  have key: "continuation_key \<lparr>cn_repository = repository, cn_task_gid = task_gid,
      cn_fingerprint = fingerprint, cn_task_id = i, cn_requested_at = when'\<rparr> = k" for i when'
    by (simp add: continuation_key_def k)
  show ?thesis
    using assms del [OF _ key] k unfolding request_continuation_def
    by (auto simp: Let_def split: if_splits option.splits)
qed

lemma last_opt_sort_key:
  assumes "last_opt (sort_key k xs) = Some x"
  shows "x \<in> set xs" and "y \<in> set xs \<Longrightarrow> k y \<le> k x"
proof -
  have ne: "sort_key k xs \<noteq> []" and x: "x = last (sort_key k xs)"
    using assms by (auto simp: last_opt_def split: if_splits)
  then show "x \<in> set xs" using last_in_set [OF ne] by simp
  assume "y \<in> set xs"
  then obtain i where i: "i < length (sort_key k xs)" "sort_key k xs ! i = y"
    by (metis in_set_conv_nth set_sort)
  have "sorted (map k (sort_key k xs))" by simp
  then have "map k (sort_key k xs) ! i \<le> map k (sort_key k xs) ! (length (sort_key k xs) - 1)"
    using i(1) by (intro sorted_nth_mono) auto
  then show "k y \<le> k x" using i ne by (simp add: x last_conv_nth)
qed

text \<open>
  A continuation only resumes trusted, finished delivery work: it is granted for a fingerprint
  at most once and at most three times per task, only for the newest implementation task with a
  workspace of that ticket, which must have succeeded, be labelled autonomous and not manual, and
  still own a delivery workspace with a branch; granting puts exactly that task back in the queue
  and touches no other task or run; every other answer changes nothing.
\<close>

theorem request_continuation_spec:
  assumes "request_continuation parse (repository, task_gid, fingerprint) now1 now2 db = Inr (c, db')"
  shows "(c \<noteq> ContQueued \<longrightarrow> db' = db)
    \<and> (c = ContQueued \<longrightarrow>
        \<not> exists_where (\<lambda>c. continuation_key c = (repository, task_gid, fingerprint)) (autonomous_continuations db)
        \<and> continuations_of repository task_gid db' = Suc (continuations_of repository task_gid db)
        \<and> continuations_of repository task_gid db' \<le> 3 \<and> runs db' = runs db
        \<and> (\<exists>t\<in>set (tasks db). \<exists>w\<in>set (task_workspaces db). continuable parse t w
            \<and> w_task_id w = t_id t \<and> t_repository t = repository \<and> t_workflow t = ''implement''
            \<and> t_source_item t = Some task_gid
            \<and> (\<forall>u\<in>set (tasks db). t_repository u = repository \<and> t_workflow u = ''implement''
                \<and> t_source_item u = Some task_gid
                \<and> exists_where (\<lambda>w. w_task_id w = t_id u) (task_workspaces db) \<longrightarrow> t_id u \<le> t_id t)
            \<and> move_task now2 task_state.Queued t \<in> set (tasks db')
            \<and> (\<forall>u\<in>set (tasks db). t_id u \<noteq> t_id t \<longrightarrow> u \<in> set (tasks db'))))"
proof (cases "c = ContQueued")
  case False
  with request_continuation_other [OF assms] show ?thesis by simp
next
  case True
  obtain r g f t w where k: "(repository, task_gid, fingerprint) = (r, g, f)"
    and new: "\<not> exists_where (\<lambda>c. continuation_key c = (repository, task_gid, fingerprint)) (autonomous_continuations db)"
    and cand: "delivery_candidate r g db = Some (t, w)" and ok: "continuable parse t w"
    and lt: "continuations_of r g db < 3"
    and db': "db' = db\<lparr>autonomous_continuations := autonomous_continuations db @
          [\<lparr>cn_repository = r, cn_task_gid = g, cn_fingerprint = f, cn_task_id = t_id t, cn_requested_at = now1\<rparr>],
        tasks := update_where (\<lambda>u. t_id u = t_id t \<and> t_state u = task_state.Succeeded)
          (move_task now2 task_state.Queued) (tasks db)\<rparr>"
    by (rule request_continuation_queued [OF assms [unfolded True]])
  let ?c = "filter (\<lambda>t. t_repository t = r \<and> t_workflow t = ''implement'' \<and> t_source_item t = Some g
         \<and> exists_where (\<lambda>w. w_task_id w = t_id t) (task_workspaces db)) (tasks db)"
  have last: "last_opt (sort_key t_id ?c) = Some t"
    and w: "w \<in> set (task_workspaces db)" "w_task_id w = t_id t"
    using cand by (auto simp: delivery_candidate_def bind_eq_Some_conv dest: find_where_SomeD)
  note newest = last_opt_sort_key [OF last]
  have count: "continuations_of r g db' = Suc (continuations_of r g db)"
    by (simp add: continuations_of_def db' count_where_def)
  have "t_state t = task_state.Succeeded" using ok by (simp add: continuable_def)
  then have moved: "move_task now2 task_state.Queued t \<in> set (tasks db')"
    using newest(1) by (auto simp: db' intro!: update_where_hit)
  have other: "u \<in> set (tasks db')" if "u \<in> set (tasks db)" "t_id u \<noteq> t_id t" for u
    using that by (simp add: db' update_where_miss)
  show ?thesis
    using True new count lt newest w ok moved other k
    by (auto simp: db' intro!: bexI [of _ t] bexI [of _ w])
qed

lemma move_queued_inv:
  assumes "queue_inv db"
  shows "queue_inv (db\<lparr>tasks := update_where (\<lambda>u. t_id u = i \<and> t_state u = task_state.Succeeded)
    (move_task now task_state.Queued) (tasks db)\<rparr>)"
  using assms unfolding queue_inv_def
  by (auto intro!: queue_ok_update_tasks simp: move_task_def dest: running_run_state)

lemma request_continuation_inv [queue_step]:
  assumes "request_continuation parse k now1 now2 db = Inr (c, db')" and "queue_inv db"
  shows "queue_inv db'"
proof (cases "c = ContQueued")
  case False
  with request_continuation_other [OF assms(1)] assms(2) show ?thesis by simp
next
  case True
  then have "request_continuation parse k now1 now2 db = Inr (ContQueued, db')" using assms(1) by simp
  then obtain i where i: "tasks db' = update_where (\<lambda>u. t_id u = i \<and> t_state u = task_state.Succeeded)
      (move_task now2 task_state.Queued) (tasks db)" "runs db' = runs db"
    by (rule request_continuation_queued) simp
  from move_queued_inv [OF assms(2), of i now2] show ?thesis by (simp add: queue_inv_def i)
qed

lemma pr_event_inv [queue_step]:
  "observe_pull_request_event k now db = Inr (b, db') \<Longrightarrow> queue_inv db \<Longrightarrow> queue_inv db'"
  "claim_pull_request_event k now db = (s, db') \<Longrightarrow> queue_inv db \<Longrightarrow> queue_inv db'"
  "recover_expired_pull_request_event_claims now db = (n, db') \<Longrightarrow> queue_inv db \<Longrightarrow> queue_inv db'"
  "release_pull_request_event_claim k db = Inr db' \<Longrightarrow> queue_inv db \<Longrightarrow> queue_inv db'"
  "queue_inv (mark_pull_request_event_asana_applied k now db) = queue_inv db"
  "consume_pull_request_event k now db = Inr db' \<Longrightarrow> queue_inv db \<Longrightarrow> queue_inv db'"
  "record_pull_request_association provider repository task_gid url now db = Inr db' \<Longrightarrow> queue_inv db \<Longrightarrow> queue_inv db'"
  by (auto simp: observe_pull_request_event_def insert_event_or_ignore_def claim_pull_request_event_def
      recover_expired_pull_request_event_claims_def release_pull_request_event_claim_def
      mark_pull_request_event_asana_applied_def consume_pull_request_event_def
      record_pull_request_association_def Let_def split: if_splits option.splits)

definition continuations_bounded :: "ledger \<Rightarrow> bool" where
  "continuations_bounded db \<longleftrightarrow> (\<forall>repository task_gid. continuations_of repository task_gid db \<le> 3)"


lemma continuations_bounded_cong:
  "autonomous_continuations db' = autonomous_continuations db \<Longrightarrow>
     continuations_bounded db \<Longrightarrow> continuations_bounded db'"
  by (simp add: continuations_bounded_def continuations_of_def)

lemma event_ops_continuations:
  "observe_pull_request_event k now db = Inr (b, db') \<Longrightarrow> autonomous_continuations db' = autonomous_continuations db"
  "claim_pull_request_event k now db = (s, db') \<Longrightarrow> autonomous_continuations db' = autonomous_continuations db"
  "recover_expired_pull_request_event_claims now db = (n, db') \<Longrightarrow>
     autonomous_continuations db' = autonomous_continuations db"
  "release_pull_request_event_claim k db = Inr db' \<Longrightarrow> autonomous_continuations db' = autonomous_continuations db"
  "autonomous_continuations (mark_pull_request_event_asana_applied k now db) = autonomous_continuations db"
  "consume_pull_request_event k now db = Inr db' \<Longrightarrow> autonomous_continuations db' = autonomous_continuations db"
  by (auto simp: observe_pull_request_event_def insert_event_or_ignore_def
    recover_expired_pull_request_event_claims_def release_pull_request_event_claim_def
    mark_pull_request_event_asana_applied_def consume_pull_request_event_def Let_def
    dest!: claim_event_shape split: if_splits)

lemma continuations_bounded_step:
  assumes "continuations_bounded db" and "pr_event_step db db'"
  shows "continuations_bounded db'"
  using assms(2)
proof (cases rule: pr_event_step.cases)
  case (step_continue parse k now1 now2 c)
  show ?thesis
  proof (cases "c = ContQueued")
    case False
    with request_continuation_other [OF step_continue] assms(1) show ?thesis by simp
  next
    case True
    obtain r g f where k: "k = (r, g, f)" by (cases k)
    have this_ticket: "continuations_of r g db' \<le> 3"
      by (rule request_continuation_queued [OF step_continue [unfolded True]])
        (auto simp: k continuations_of_def count_where_def)
    have others: "continuations_of r' g' db' \<le> continuations_of r' g' db" if "(r', g') \<noteq> (r, g)" for r' g'
      by (rule request_continuation_queued [OF step_continue [unfolded True]])
        (use that k in \<open>auto simp: continuations_of_def count_where_def\<close>)
    have "continuations_of r' g' db' \<le> 3" for r' g'
    proof (cases "(r', g') = (r, g)")
      case False
      have "continuations_of r' g' db \<le> 3" using assms(1) by (simp add: continuations_bounded_def)
      with others [OF False] show ?thesis by linarith
    qed (use this_ticket in simp)
    then show ?thesis by (simp add: continuations_bounded_def)
  qed
next
  case (step_observe k now new)
  show ?thesis by (rule continuations_bounded_cong [OF event_ops_continuations(1) [OF step_observe] assms(1)])
next
  case (step_claim k now s)
  show ?thesis by (rule continuations_bounded_cong [OF event_ops_continuations(2) [OF step_claim] assms(1)])
next
  case (step_recover now n)
  show ?thesis by (rule continuations_bounded_cong [OF event_ops_continuations(3) [OF step_recover] assms(1)])
next
  case (step_release k)
  show ?thesis by (rule continuations_bounded_cong [OF event_ops_continuations(4) [OF step_release] assms(1)])
next
  case (step_mark k now)
  then show ?thesis
    using continuations_bounded_cong [OF event_ops_continuations(5) assms(1)] by simp
next
  case (step_consume k now)
  show ?thesis by (rule continuations_bounded_cong [OF event_ops_continuations(6) [OF step_consume] assms(1)])
qed

interpretation bounded: state_invariant continuations_bounded pr_event_step continuations_bounded
  by unfold_locales (simp, rule continuations_bounded_step)

text \<open>
  C19. Continuations stay bounded: starting from a ledger where no ticket has more than three, no
  sequence of event operations ever gives a ticket a fourth.
\<close>

theorem continuations_stay_bounded:
  assumes "continuations_bounded db" and "pr_event_step\<^sup>*\<^sup>* db db'"
  shows "continuations_of repository task_gid db' \<le> 3"
  using bounded.inv_reachable [OF assms] by (simp add: continuations_bounded_def)

end
