(* ===== verification/Ledger_Approvals.thy ===== *)
theory Ledger_Approvals
  imports Ledger_Queue_Proofs
begin

text \<open>
  Approvals and project claims in the ledger (\<open>src/storage.rs\<close>): the consumption of an approval by
  the one task it was given for, the short reservation that protects an approval while it is
  replaced, and the durable claim of a project item.
\<close>

subsection \<open>Project claims\<close>

definition project_claim_matches :: "int \<Rightarrow> project_claim_evidence \<Rightarrow> ledger \<Rightarrow> bool" where
  "project_claim_matches task_id evidence db =
     exists_where (\<lambda>c. pc_task_id c = task_id \<and> pc_evidence c = evidence) (project_claims db)"

definition record_project_claim ::
  "int \<Rightarrow> project_claim_evidence \<Rightarrow> int \<Rightarrow> ledger \<Rightarrow> ledger_error + ledger" where
  "record_project_claim task_id evidence now db =
     (if \<not> task_is_running task_id db then Inl (TaskNotRunning task_id)
      else
       (let db' = (if exists_where (\<lambda>c. pc_task_id c = task_id) (project_claims db) then db
              else db\<lparr>project_claims := project_claims db @
                [\<lparr>pc_task_id = task_id, pc_evidence = evidence, pc_claimed_at = now\<rparr>]\<rparr>)
        in if \<not> project_claim_matches task_id evidence db' then Inl (ClaimDiffers task_id)
           else Inr db'))"

subsection \<open>Reservations\<close>

definition active_issue_task :: "string \<Rightarrow> nat \<Rightarrow> task \<Rightarrow> bool" where
  "active_issue_task repository issue t \<longleftrightarrow> t_repository t = repository
     \<and> t_source_item t = Some (nat_dec issue) \<and> t_kind t = ''ticket''
     \<and> (t_state t = task_state.Queued \<or> t_state t = task_state.Running)"

definition has_active_ticket_task :: "string \<Rightarrow> nat \<Rightarrow> ledger \<Rightarrow> bool" where
  "has_active_ticket_task repository issue db = exists_where (active_issue_task repository issue) (tasks db)"

definition reserve_issue_approval ::
  "string \<Rightarrow> nat \<Rightarrow> string \<Rightarrow> int \<Rightarrow> int \<Rightarrow> ledger \<Rightarrow> ledger_error + ledger" where
  "reserve_issue_approval repository issue reservation_id now1 now2 db =
     (let db1 = db\<lparr>approval_reservations := delete_where
            (\<lambda>r. ar_created_at r < now1 - APPROVAL_RESERVATION_TTL_MILLIS) (approval_reservations db)\<rparr>
      in if has_active_ticket_task repository issue db1 then Inl (IssueActive issue)
         else if exists_where (\<lambda>r. (ar_repository r = repository \<and> ar_issue r = issue)
                  \<or> ar_reservation_id r = reservation_id) (approval_reservations db1)
         then Inl (ReservationExists issue)
         else Inr (db1\<lparr>approval_reservations := approval_reservations db1 @
           [\<lparr>ar_repository = repository, ar_issue = issue, ar_reservation_id = reservation_id,
             ar_created_at = now2\<rparr>]\<rparr>))"

definition release_issue_approval ::
  "string \<Rightarrow> nat \<Rightarrow> string \<Rightarrow> ledger \<Rightarrow> ledger_error + ledger" where
  "release_issue_approval repository issue reservation_id db =
     (let mine = (\<lambda>r. ar_repository r = repository \<and> ar_issue r = issue
            \<and> ar_reservation_id r = reservation_id)
      in if count_where mine (approval_reservations db) \<noteq> 1 then Inl (ReservationLost issue)
         else Inr (db\<lparr>approval_reservations := delete_where mine (approval_reservations db)\<rparr>))"

definition issue_approval_is_reserved :: "string \<Rightarrow> nat \<Rightarrow> int \<Rightarrow> ledger \<Rightarrow> bool" where
  "issue_approval_is_reserved repository issue now db =
     exists_where (\<lambda>r. ar_repository r = repository \<and> ar_issue r = issue
       \<and> now - APPROVAL_RESERVATION_TTL_MILLIS \<le> ar_created_at r) (approval_reservations db)"

subsection \<open>Consumption\<close>

definition approval_is_consumed :: "nat \<Rightarrow> ledger \<Rightarrow> bool" where
  "approval_is_consumed artifact_id db =
     exists_where (\<lambda>c. ac_artifact_id c = artifact_id) (approval_consumptions db)"

definition task_has_consumed_approval :: "int \<Rightarrow> ledger \<Rightarrow> bool" where
  "task_has_consumed_approval task_id db =
     exists_where (\<lambda>c. ac_task_id c = task_id) (approval_consumptions db)"

definition task_consumed_exact_approval :: "int \<Rightarrow> approval_evidence \<Rightarrow> ledger \<Rightarrow> bool" where
  "task_consumed_exact_approval task_id ev db =
     exists_where (\<lambda>c. ac_task_id c = task_id \<and> ac_artifact_id c = ev_artifact_id ev
       \<and> ac_label_event_id c = ev_label_event_id ev \<and> ac_approver_id c = ev_approver_id ev
       \<and> ac_content_hash c = ev_content_hash ev \<and> ac_workflow_hash c = ev_workflow_hash ev)
       (approval_consumptions db)"

text \<open>The schema keeps artifact, label event and task unique; \<open>OR IGNORE\<close> turns a clash into no insertion.\<close>

definition consume_task_approval ::
  "int \<Rightarrow> approval_evidence \<Rightarrow> int \<Rightarrow> ledger \<Rightarrow> ledger_error + ledger" where
  "consume_task_approval task_id ev now db =
     (if \<not> task_is_running task_id db then Inl (TaskNotRunning task_id)
      else if exists_where (\<lambda>c. ac_artifact_id c = ev_artifact_id ev
            \<or> ac_label_event_id c = ev_label_event_id ev \<or> ac_task_id c = task_id) (approval_consumptions db)
      then Inl (ApprovalConsumed (ev_artifact_id ev) (ev_label_event_id ev))
      else Inr (db\<lparr>approval_consumptions := approval_consumptions db @
        [\<lparr>ac_artifact_id = ev_artifact_id ev, ac_label_event_id = ev_label_event_id ev,
          ac_task_id = task_id, ac_approver_id = ev_approver_id ev,
          ac_content_hash = ev_content_hash ev, ac_workflow_hash = ev_workflow_hash ev,
          ac_source_revision = ev_source_revision ev, ac_consumed_at = now\<rparr>]\<rparr>))"

subsection \<open>Consumption as a register\<close>

text \<open>The register has three keys at once: the artifact, the label event and the task.\<close>

definition consume_put :: "int \<times> approval_evidence \<times> int \<Rightarrow> ledger \<Rightarrow> bool \<times> ledger" where
  "consume_put = (\<lambda>(task_id, ev, now) db.
     case consume_task_approval task_id ev now db of Inl _ \<Rightarrow> (False, db) | Inr db' \<Rightarrow> (True, db'))"

definition label_event_held :: "ledger \<Rightarrow> nat \<Rightarrow> bool" where
  "label_event_held db i = exists_where (\<lambda>c. ac_label_event_id c = i) (approval_consumptions db)"

lemmas consumption_defs = consume_put_def consume_task_approval_def approval_is_consumed_def
  label_event_held_def task_has_consumed_approval_def exists_where_iff

interpretation artifact: at_most_once "\<lambda>(task_id, ev, now). ev_artifact_id ev"
  "\<lambda>db i. approval_is_consumed i db" consume_put
  by unfold_locales (auto simp: consumption_defs split: if_splits)

interpretation label_event: at_most_once "\<lambda>(task_id, ev, now). ev_label_event_id ev"
  label_event_held consume_put
  by unfold_locales (auto simp: consumption_defs split: if_splits)

interpretation approved_task: at_most_once "\<lambda>(task_id, ev, now). task_id"
  "\<lambda>db i. task_has_consumed_approval i db" consume_put
  by unfold_locales (auto simp: consumption_defs split: if_splits)

text \<open>
  An approval is spent once: over any sequence of consumptions by any tasks, no approval
  artifact, no label event and no task is ever accepted a second time.
\<close>

theorem approval_spent_once:
  "length (filter (\<lambda>((task_id, ev, now), ok). ok \<and> ev_artifact_id ev = artifact)
       (fst (put_all consume_put calls db))) \<le> 1
   \<and> length (filter (\<lambda>((task_id, ev, now), ok). ok \<and> ev_label_event_id ev = event)
       (fst (put_all consume_put calls db))) \<le> 1
   \<and> length (filter (\<lambda>((task_id, ev, now), ok). ok \<and> task_id = task)
       (fst (put_all consume_put calls db))) \<le> 1"
  using artifact.accepted_at_most_once [of artifact calls db]
    label_event.accepted_at_most_once [of event calls db]
    approved_task.accepted_at_most_once [of task calls db]
  by (simp add: case_prod_unfold)

text \<open>
  Consumption records exactly the evidence: it succeeds precisely for a running task when
  neither the artifact, the label event nor the task was consumed before, and afterwards the
  ledger confirms that the task consumed this exact evidence.
\<close>

theorem consume_task_approval_spec:
  "case consume_task_approval task_id ev now db of
     Inl e \<Rightarrow> \<not> task_is_running task_id db \<or> approval_is_consumed (ev_artifact_id ev) db
       \<or> label_event_held db (ev_label_event_id ev) \<or> task_has_consumed_approval task_id db
   | Inr db' \<Rightarrow> task_is_running task_id db \<and> \<not> approval_is_consumed (ev_artifact_id ev) db
       \<and> \<not> label_event_held db (ev_label_event_id ev) \<and> \<not> task_has_consumed_approval task_id db
       \<and> task_consumed_exact_approval task_id ev db' \<and> approval_is_consumed (ev_artifact_id ev) db'
       \<and> (\<forall>i. approval_is_consumed i db \<longrightarrow> approval_is_consumed i db')
       \<and> tasks db' = tasks db \<and> runs db' = runs db"
  by (auto simp: consumption_defs task_consumed_exact_approval_def)

subsection \<open>Reservations exclude each other\<close>

text \<open>
  Approval operations exclude each other: after a reservation of an issue, every further
  reservation of that issue, under any id, is refused until it is released or ten minutes have
  passed since the reservation was written; and no reservation is granted while the issue has
  queued or running work.
\<close>

theorem reservation_exclusive:
  assumes "reserve_issue_approval repository issue reservation_id now1 now2 db = Inr db'"
  shows "\<not> has_active_ticket_task repository issue db
    \<and> issue_approval_is_reserved repository issue now2 db'
    \<and> (\<forall>other t1 t2. t1 - APPROVAL_RESERVATION_TTL_MILLIS \<le> now2 \<longrightarrow>
         (\<exists>e. reserve_issue_approval repository issue other t1 t2 db' = Inl e))
    \<and> (\<exists>db''. release_issue_approval repository issue reservation_id db' = Inr db''
         \<and> \<not> issue_approval_is_reserved repository issue now2 db'')"
proof -
  obtain kept where kept: "approval_reservations db' = kept @ [\<lparr>ar_repository = repository, ar_issue = issue,
        ar_reservation_id = reservation_id, ar_created_at = now2\<rparr>]"
      "\<forall>r\<in>set kept. \<not> (ar_repository r = repository \<and> ar_issue r = issue)"
    and idle: "\<not> has_active_ticket_task repository issue db"
    using assms by (auto simp: reserve_issue_approval_def has_active_ticket_task_def exists_where_iff
        Let_def split: if_splits)
  have "\<exists>e. reserve_issue_approval repository issue other t1 t2 db' = Inl e"
    if "t1 - APPROVAL_RESERVATION_TTL_MILLIS \<le> now2" for other t1 t2
    using that kept(1) by (auto simp: reserve_issue_approval_def exists_where_iff set_delete_where Let_def)
  moreover have "release_issue_approval repository issue reservation_id db'
      = Inr (db'\<lparr>approval_reservations := kept\<rparr>)"
  proof -
    let ?mine = "\<lambda>r. ar_repository r = repository \<and> ar_issue r = issue \<and> ar_reservation_id r = reservation_id"
    have "filter ?mine kept = []" "filter (\<lambda>r. \<not> ?mine r) kept = kept"
      using kept(2) by (auto simp: filter_empty_conv filter_id_conv)
    then show ?thesis by (simp add: release_issue_approval_def kept(1) count_where_def delete_where_def)
  qed
  moreover have "\<not> issue_approval_is_reserved repository issue now2 (db'\<lparr>approval_reservations := kept\<rparr>)"
    using kept(2) by (auto simp: issue_approval_is_reserved_def exists_where_iff)
  moreover have "issue_approval_is_reserved repository issue now2 db'"
    by (simp add: issue_approval_is_reserved_def exists_where_iff kept(1) APPROVAL_RESERVATION_TTL_MILLIS_def)
  ultimately show ?thesis using idle by blast
qed

text \<open>
  A task's project claim is durable: recording a claim for a running task either leaves exactly
  that evidence in the ledger or fails because the task already claimed another item, and an
  earlier claim is never replaced.
\<close>

theorem record_project_claim_spec:
  assumes "unique_key pc_task_id (project_claims db)"
  shows "case record_project_claim task_id evidence now db of
      Inl e \<Rightarrow> \<not> task_is_running task_id db
        \<or> (exists_where (\<lambda>c. pc_task_id c = task_id \<and> pc_evidence c \<noteq> evidence) (project_claims db))
    | Inr db' \<Rightarrow> task_is_running task_id db \<and> project_claim_matches task_id evidence db'
        \<and> (\<forall>other. project_claim_matches task_id other db' \<longrightarrow> other = evidence)
        \<and> (\<forall>i ev. project_claim_matches i ev db \<longrightarrow> project_claim_matches i ev db')
        \<and> unique_key pc_task_id (project_claims db')"
proof (cases "exists_where (\<lambda>c. pc_task_id c = task_id) (project_claims db)")
  case True
  then have "other = evidence" if "project_claim_matches task_id other db"
      "project_claim_matches task_id evidence db" for other
    using that unique_key_inj [OF assms] by (auto simp: project_claim_matches_def exists_where_iff)
  with True assms show ?thesis
    by (auto simp: record_project_claim_def project_claim_matches_def exists_where_iff)
next
  case False
  with assms show ?thesis
    by (auto simp: record_project_claim_def project_claim_matches_def exists_where_iff unique_key_append1)
qed

lemma approval_inv [queue_step]:
  "record_project_claim task_id evidence now db = Inr db' \<Longrightarrow> queue_inv db \<Longrightarrow> queue_inv db'"
  "reserve_issue_approval repository issue rid now1 now2 db = Inr db' \<Longrightarrow> queue_inv db \<Longrightarrow> queue_inv db'"
  "release_issue_approval repository issue rid db = Inr db' \<Longrightarrow> queue_inv db \<Longrightarrow> queue_inv db'"
  "consume_task_approval task_id ev now db = Inr db' \<Longrightarrow> queue_inv db \<Longrightarrow> queue_inv db'"
  by (auto simp: record_project_claim_def reserve_issue_approval_def release_issue_approval_def
      consume_task_approval_def Let_def split: if_splits)

end
