(* ===== verification/Ledger_Workspaces.thy ===== *)
theory Ledger_Workspaces
  imports Ledger_Queue_Proofs
begin

text \<open>
  Workspaces, containers and sandboxes in the ledger (\<open>src/storage.rs\<close>): the durable ownership of a
  Git worktree by a task, its states, the bound on retained deliveries, and the records of the
  containers and sandboxes the runs use. The schema's constraints on the workspace table are the
  predicate \<open>workspace_rows_ok\<close>: a statement that would break one fails and changes nothing.
\<close>

subsection \<open>Workspaces\<close>

definition workspace_states :: "string list" where
  "workspace_states = [''preparing'', ''ready'', ''retained'', ''cleanup_pending'', ''cleaned'']"

definition live_workspace :: "task_workspace \<Rightarrow> bool" where
  "live_workspace w \<longleftrightarrow> w_state w \<noteq> ''cleaned''"

definition retained_delivery :: "task_workspace \<Rightarrow> bool" where
  "retained_delivery w \<longleftrightarrow> w_kind w = ''delivery'' \<and> w_state w \<noteq> ''cleaned''"

definition workspace_rows_ok :: "task_workspace list \<Rightarrow> bool" where
  "workspace_rows_ok ws \<longleftrightarrow> unique_key w_task_id ws
     \<and> unique_key w_factory_branch (filter (\<lambda>w. live_workspace w \<and> w_factory_branch w \<noteq> None) ws)
     \<and> unique_key w_path (filter live_workspace ws)
     \<and> list_all (\<lambda>w. w_kind w \<in> {''delivery'', ''proposal''} \<and> w_backend w \<in> {''worktree'', ''clone''}
          \<and> w_state w \<in> set workspace_states) ws"

definition query_task_workspace :: "int \<Rightarrow> ledger \<Rightarrow> task_workspace option" where
  "query_task_workspace task_id db = find_where (\<lambda>w. w_task_id w = task_id) (task_workspaces db)"

definition same_workspace :: "task_workspace \<Rightarrow> task_workspace \<Rightarrow> bool" where
  "same_workspace existing requested \<longleftrightarrow> w_kind existing = w_kind requested
     \<and> w_backend existing = w_backend requested \<and> w_repository existing = w_repository requested
     \<and> w_base_branch existing = w_base_branch requested \<and> w_base_sha existing = w_base_sha requested
     \<and> w_factory_branch existing = w_factory_branch requested \<and> w_path existing = w_path requested"

definition retained_delivery_workspace_count :: "ledger \<Rightarrow> nat" where
  "retained_delivery_workspace_count db = count_where retained_delivery (task_workspaces db)"

text \<open>The newest run of each retained delivery (0 when it has none), oldest workspace first.\<close>

definition retained_delivery_run_ids :: "ledger \<Rightarrow> int list" where
  "retained_delivery_run_ids db =
     map (\<lambda>w. max_key r_id (filter (\<lambda>r. r_task_id r = w_task_id w) (runs db)))
       (sort_key (\<lambda>w. (w_created_at w, w_task_id w)) (filter retained_delivery (task_workspaces db)))"

definition insert_workspace :: "task_workspace \<Rightarrow> ledger \<Rightarrow> ledger_error + ledger" where
  "insert_workspace w db =
     (if \<not> exists_where (\<lambda>t. t_id t = w_task_id w) (tasks db)
        \<or> \<not> workspace_rows_ok (task_workspaces db @ [w]) then Inl ConstraintViolation
      else Inr (db\<lparr>task_workspaces := task_workspaces db @ [w]\<rparr>))"

definition reserve_task_workspace ::
  "task_workspace \<Rightarrow> int \<Rightarrow> ledger \<Rightarrow> ledger_error + (task_workspace \<times> ledger)" where
  "reserve_task_workspace workspace now db =
     (case query_task_workspace (w_task_id workspace) db of
        Some existing \<Rightarrow>
          if \<not> same_workspace existing workspace then Inl (WorkspaceConflict (w_task_id workspace))
          else Inr (existing, db)
      | None \<Rightarrow>
          if w_kind workspace = ''delivery'' \<and> 10 \<le> retained_delivery_workspace_count db
          then Inl (WorkspaceLimit (filter (\<lambda>i. 0 < i) (retained_delivery_run_ids db)))
          else
           (case insert_workspace (workspace\<lparr>w_state := ''preparing'', w_status_summary := None,
                   w_created_at := now, w_updated_at := now, w_cleaned_at := None\<rparr>) db of
              Inl e \<Rightarrow> Inl e
            | Inr db' \<Rightarrow> (case query_task_workspace (w_task_id workspace) db' of
                  None \<Rightarrow> Inl RowDisappeared
                | Some reserved \<Rightarrow> Inr (reserved, db'))))"

definition set_workspace_state :: "string \<Rightarrow> string option \<Rightarrow> int \<Rightarrow> task_workspace \<Rightarrow> task_workspace" where
  "set_workspace_state state summary now w = w\<lparr>w_state := state, w_status_summary := summary,
     w_updated_at := now, w_cleaned_at := (if state = ''cleaned'' then Some now else w_cleaned_at w)\<rparr>"

definition update_task_workspace_state ::
  "int \<Rightarrow> string \<Rightarrow> string option \<Rightarrow> int \<Rightarrow> ledger \<Rightarrow> ledger_error + ledger" where
  "update_task_workspace_state task_id state summary now db =
     (if state \<notin> set workspace_states then Inl (WorkspaceStateInvalid state)
      else let ws = update_where (\<lambda>w. w_task_id w = task_id) (set_workspace_state state summary now)
                      (task_workspaces db)
           in if \<not> workspace_rows_ok ws then Inl ConstraintViolation
              else if count_where (\<lambda>w. w_task_id w = task_id) (task_workspaces db) \<noteq> 1
              then Inl (WorkspaceMissing task_id)
              else Inr (db\<lparr>task_workspaces := ws\<rparr>))"

subsection \<open>Containers and sandboxes\<close>

definition record_run_container :: "run_container \<Rightarrow> ledger \<Rightarrow> ledger_error + ledger" where
  "record_run_container c db =
     (if \<not> run_is_running (rc_run_id c) db then Inl (RunMissingOrTerminal (rc_run_id c))
      else if exists_where (\<lambda>x. rc_run_id x = rc_run_id c \<or> rc_container_id x = rc_container_id c)
                (run_containers db) then Inl ConstraintViolation
      else Inr (db\<lparr>run_containers := run_containers db @ [c\<lparr>rc_updated_at := rc_created_at c\<rparr>]\<rparr>))"

definition finish_run_container ::
  "int \<Rightarrow> string \<Rightarrow> int option \<Rightarrow> string option \<Rightarrow> bool \<Rightarrow> int \<Rightarrow> ledger \<Rightarrow> ledger_error + ledger" where
  "finish_run_container run_id state exit_code logs removed now db =
     (let logs = map_option (\<lambda>v. truncate_tail_utf8 v MAX_ACTIVITY_BYTES) logs in
      if count_where (\<lambda>c. rc_run_id c = run_id) (run_containers db) \<noteq> 1 then Inl (ContainerMissing run_id)
      else Inr (db\<lparr>run_containers := update_where (\<lambda>c. rc_run_id c = run_id)
        (\<lambda>c. c\<lparr>rc_state := state, rc_exit_code := exit_code, rc_logs := coalesce logs (rc_logs c),
               rc_updated_at := now,
               rc_removed_at := (if removed then Some now else rc_removed_at c)\<rparr>) (run_containers db)\<rparr>))"

definition record_run_sandbox :: "run_sandbox \<Rightarrow> ledger \<Rightarrow> ledger_error + ledger" where
  "record_run_sandbox s db =
     (if \<not> run_is_running (rs_run_id s) db then Inl (RunMissingOrTerminal (rs_run_id s))
      else if exists_where (\<lambda>x. rs_run_id x = rs_run_id s \<or> rs_sandbox_name x = rs_sandbox_name s)
                (run_sandboxes db) then Inl ConstraintViolation
      else Inr (db\<lparr>run_sandboxes := run_sandboxes db @ [s\<lparr>rs_updated_at := rs_created_at s\<rparr>]\<rparr>))"

definition finish_run_sandbox ::
  "int \<Rightarrow> string \<Rightarrow> int option \<Rightarrow> string option \<Rightarrow> bool \<Rightarrow> int \<Rightarrow> ledger \<Rightarrow> ledger_error + ledger" where
  "finish_run_sandbox run_id state exit_code logs removed now db =
     (let logs = map_option (\<lambda>v. truncate_tail_utf8 v MAX_ACTIVITY_BYTES) logs in
      if count_where (\<lambda>s. rs_run_id s = run_id) (run_sandboxes db) \<noteq> 1 then Inl (ContainerMissing run_id)
      else Inr (db\<lparr>run_sandboxes := update_where (\<lambda>s. rs_run_id s = run_id)
        (\<lambda>s. s\<lparr>rs_state := state, rs_exit_code := exit_code, rs_logs := coalesce logs (rs_logs s),
               rs_updated_at := now,
               rs_removed_at := (if removed then Some now else rs_removed_at s)\<rparr>) (run_sandboxes db)\<rparr>))"

definition query_run_container :: "int \<Rightarrow> ledger \<Rightarrow> run_container option" where
  "query_run_container run_id db = find_where (\<lambda>c. rc_run_id c = run_id) (run_containers db)"

definition query_run_sandbox :: "int \<Rightarrow> ledger \<Rightarrow> run_sandbox option" where
  "query_run_sandbox run_id db = find_where (\<lambda>s. rs_run_id s = run_id) (run_sandboxes db)"

definition unremoved_run_sandboxes :: "string \<Rightarrow> ledger \<Rightarrow> run_sandbox list" where
  "unremoved_run_sandboxes instance_id db = sort_key rs_run_id
     (filter (\<lambda>s. rs_instance_id s = instance_id \<and> rs_removed_at s = None) (run_sandboxes db))"

subsection \<open>Exclusive ownership and the bound on deliveries\<close>

text \<open>
  Steps of the workspace table: reservations, and state changes that do not revive a cleaned
  workspace (the daemon refuses to start a task whose workspace was cleaned).
\<close>

inductive workspace_step :: "ledger \<Rightarrow> ledger \<Rightarrow> bool" where
  reserve: "reserve_task_workspace w now db = Inr (x, db') \<Longrightarrow> workspace_step db db'"
| change: "update_task_workspace_state task_id state summary now db = Inr db' \<Longrightarrow>
     (\<forall>w\<in>set (task_workspaces db). w_task_id w = task_id \<longrightarrow> live_workspace w \<or> state = ''cleaned'') \<Longrightarrow>
     workspace_step db db'"

inductive_cases workspace_stepE: "workspace_step db db'"

definition workspaces_inv :: "ledger \<Rightarrow> bool" where
  "workspaces_inv db \<longleftrightarrow> workspace_rows_ok (task_workspaces db) \<and> retained_delivery_workspace_count db \<le> 10"

lemma reserve_cases:
  assumes "reserve_task_workspace w now db = Inr (x, db')"
  obtains (existing) "query_task_workspace (w_task_id w) db = Some x" "same_workspace x w" "db' = db"
  | (new) "query_task_workspace (w_task_id w) db = None"
      "w_kind w = ''delivery'' \<longrightarrow> retained_delivery_workspace_count db < 10"
      "x = w\<lparr>w_state := ''preparing'', w_status_summary := None, w_created_at := now, w_updated_at := now,
         w_cleaned_at := None\<rparr>"
      "db' = db\<lparr>task_workspaces := task_workspaces db @ [x]\<rparr>" "workspace_rows_ok (task_workspaces db @ [x])"
proof (cases "query_task_workspace (w_task_id w) db")
  case (Some y)
  with assms existing show ?thesis by (auto simp: reserve_task_workspace_def split: if_splits)
next
  case None
  let ?n = "w\<lparr>w_state := ''preparing'', w_status_summary := None, w_created_at := now, w_updated_at := now,
         w_cleaned_at := None\<rparr>"
  have "insert_workspace ?n db = Inr db'" and q: "query_task_workspace (w_task_id w) db' = Some x"
    and "w_kind w = ''delivery'' \<longrightarrow> retained_delivery_workspace_count db < 10"
    using assms None by (auto simp: reserve_task_workspace_def split: if_splits sum.splits option.splits)
  moreover from this have "db' = db\<lparr>task_workspaces := task_workspaces db @ [?n]\<rparr>"
      "workspace_rows_ok (task_workspaces db @ [?n])"
    by (auto simp: insert_workspace_def split: if_splits)
  moreover from this None q have "x = ?n"
    by (auto simp: query_task_workspace_def find_where_append)
  ultimately show ?thesis using new None by simp
qed

lemma count_where_mono_update:
  assumes "\<And>r. r \<in> set t \<Longrightarrow> P r \<Longrightarrow> Q (f r) \<Longrightarrow> Q r"
  shows "count_where Q (update_where P f t) \<le> count_where Q t"
  using assms by (induction t) (auto simp: count_where_def update_where_def)

lemma workspaces_inv_step:
  assumes "workspaces_inv db" and "workspace_step db db'"
  shows "workspaces_inv db'"
  using assms(2)
proof (cases rule: workspace_step.cases)
  case (reserve w now x)
  from reserve show ?thesis
  proof (cases rule: reserve_cases)
    case existing
    with assms(1) show ?thesis by simp
  next
    case new
    with assms(1) show ?thesis
      by (auto simp: workspaces_inv_def retained_delivery_workspace_count_def count_where_def retained_delivery_def)
  qed
next
  case (change task_id state summary now)
  from change(1) have ws: "task_workspaces db' = update_where (\<lambda>w. w_task_id w = task_id)
      (set_workspace_state state summary now) (task_workspaces db)" "workspace_rows_ok (task_workspaces db')"
    by (auto simp: update_task_workspace_state_def Let_def split: if_splits)
  have "count_where retained_delivery (task_workspaces db') \<le> count_where retained_delivery (task_workspaces db)"
    unfolding ws(1) using change(2)
    by (intro count_where_mono_update)
      (auto simp: retained_delivery_def set_workspace_state_def live_workspace_def)
  with assms(1) ws(2) show ?thesis by (simp add: workspaces_inv_def retained_delivery_workspace_count_def)
qed

interpretation ws: state_invariant workspaces_inv workspace_step workspaces_inv
  by unfold_locales (simp, rule workspaces_inv_step)


text \<open>
  A reservation is durable ownership: it answers with the stored workspace; for a task that
  already has one it changes nothing and insists that the request is for the same kind, backend,
  repository, base, branch and path; a new delivery is refused when ten are retained; otherwise
  exactly one row in state preparing is added.
\<close>

theorem reserve_task_workspace_spec:
  "case reserve_task_workspace w now db of
     Inl e \<Rightarrow> (case query_task_workspace (w_task_id w) db of
         Some existing \<Rightarrow> e = WorkspaceConflict (w_task_id w) \<and> \<not> same_workspace existing w
       | None \<Rightarrow> (e = WorkspaceLimit (filter (\<lambda>i. 0 < i) (retained_delivery_run_ids db))
             \<and> w_kind w = ''delivery'' \<and> 10 \<le> retained_delivery_workspace_count db)
           \<or> e = ConstraintViolation)
   | Inr (x, db') \<Rightarrow> query_task_workspace (w_task_id w) db' = Some x \<and> same_workspace x w
       \<and> tasks db' = tasks db \<and> runs db' = runs db
       \<and> (case query_task_workspace (w_task_id w) db of
            Some existing \<Rightarrow> x = existing \<and> db' = db
          | None \<Rightarrow> task_workspaces db' = task_workspaces db @ [x] \<and> w_state x = ''preparing''
              \<and> (w_kind w = ''delivery'' \<longrightarrow> retained_delivery_workspace_count db' \<le> 10))"
proof (cases "reserve_task_workspace w now db")
  case (Inl e)
  have "query_task_workspace (w_task_id w) db' \<noteq> None"
    if "insert_workspace (w\<lparr>w_state := ''preparing'', w_status_summary := None, w_created_at := now,
         w_updated_at := now, w_cleaned_at := None\<rparr>) db = Inr db'" for db'
    using that by (auto simp: insert_workspace_def query_task_workspace_def find_where_None_iff split: if_splits)
  with Inl show ?thesis
    by (auto simp: reserve_task_workspace_def insert_workspace_def split: if_splits option.splits sum.splits)
next
  case (Inr p)
  obtain x db' where p: "p = (x, db')" by (cases p)
  from Inr [unfolded p] show ?thesis
  proof (cases rule: reserve_cases)
    case existing
    with Inr p show ?thesis by (simp add: query_task_workspace_def)
  next
    case new
    have "query_task_workspace (w_task_id w) db' = Some x"
      using new(1,3,4) by (simp add: query_task_workspace_def find_where_append)
    moreover have "same_workspace x w" by (simp add: new(3) same_workspace_def)
    moreover have "w_kind w = ''delivery'' \<longrightarrow> retained_delivery_workspace_count db' \<le> 10"
      using new(2,4) by (auto simp: retained_delivery_workspace_count_def count_where_def)
    ultimately show ?thesis using Inr p new by simp
  qed
qed

subsection \<open>Containers and sandboxes\<close>

lemma map_insort_key: "map k (insort_key k x xs) = insort (k x) (map k xs)"
  by (induction xs) auto

lemma map_sort_key: "map k (sort_key k xs) = sort (map k xs)"
  by (induction xs) (simp_all add: map_insort_key)

lemma unremoved_ids:
  "map rs_run_id (unremoved_run_sandboxes instance_id db) = sort (map rs_run_id
     (filter (\<lambda>s. rs_instance_id s = instance_id \<and> rs_removed_at s = None) (run_sandboxes db)))"
  by (simp add: unremoved_run_sandboxes_def map_sort_key)

text \<open>
  A sandbox is accounted for until it is removed: the sandboxes an instance still has to remove
  are, in run order, exactly its rows without removal time; reporting the removal of a run's
  sandbox takes exactly that run off every list and reporting anything else changes no list; the
  reported state and exit code are stored, and logs are kept only up to the activity limit.
\<close>

theorem sandbox_accounting:
  assumes "finish_run_sandbox run_id state exit_code logs removed now db = Inr db'"
  shows "map rs_run_id (unremoved_run_sandboxes instance_id db')
        = filter (\<lambda>i. removed \<longrightarrow> i \<noteq> run_id) (map rs_run_id (unremoved_run_sandboxes instance_id db))
    \<and> (\<exists>s. query_run_sandbox run_id db' = Some s \<and> rs_state s = state \<and> rs_exit_code s = exit_code
         \<and> (logs \<noteq> None \<longrightarrow> (\<exists>kept. rs_logs s = Some kept \<and> length kept \<le> MAX_ACTIVITY_BYTES)))"
proof -
  let ?P = "\<lambda>s. rs_run_id s = run_id"
  obtain f :: "run_sandbox \<Rightarrow> run_sandbox" where f: "f = (\<lambda>s. s\<lparr>rs_state := state, rs_exit_code := exit_code,
      rs_logs := coalesce (map_option (\<lambda>v. truncate_tail_utf8 v MAX_ACTIVITY_BYTES) logs) (rs_logs s),
      rs_updated_at := now, rs_removed_at := (if removed then Some now else rs_removed_at s)\<rparr>)" by blast
  have one: "count_where ?P (run_sandboxes db) = 1"
    and db': "run_sandboxes db' = update_where ?P f (run_sandboxes db)"
    using assms by (auto simp: finish_run_sandbox_def Let_def f split: if_splits)
  have "map rs_run_id (filter (\<lambda>s. rs_instance_id s = instance_id \<and> rs_removed_at s = None) (update_where ?P f t))
      = filter (\<lambda>i. removed \<longrightarrow> i \<noteq> run_id) (map rs_run_id
          (filter (\<lambda>s. rs_instance_id s = instance_id \<and> rs_removed_at s = None) t))" for t
    by (induction t) (auto simp: update_where_def f)
  then have ids: "map rs_run_id (unremoved_run_sandboxes instance_id db')
      = filter (\<lambda>i. removed \<longrightarrow> i \<noteq> run_id) (map rs_run_id (unremoved_run_sandboxes instance_id db))"
    by (simp add: unremoved_ids db' filter_sort)
  have "exists_where ?P (run_sandboxes db)" using one count_where_pos [of ?P "run_sandboxes db"] by simp
  then obtain s where s: "find_where ?P (run_sandboxes db) = Some s"
    by (cases "find_where ?P (run_sandboxes db)") (auto simp: find_where_first)
  have "query_run_sandbox run_id db' = Some (f s)"
    using s find_where_SomeD [OF s] by (simp add: query_run_sandbox_def db' find_where_update f)
  moreover have "logs \<noteq> None \<longrightarrow> (\<exists>kept. rs_logs (f s) = Some kept \<and> length kept \<le> MAX_ACTIVITY_BYTES)"
    by (auto simp: f length_truncate_tail_utf8)
  ultimately show ?thesis using ids by (auto simp: f)
qed

lemma workspace_inv [queue_step]:
  "reserve_task_workspace w now db = Inr (x, db') \<Longrightarrow> queue_inv db \<Longrightarrow> queue_inv db'"
  "update_task_workspace_state i state summary now db = Inr db' \<Longrightarrow> queue_inv db \<Longrightarrow> queue_inv db'"
  "record_run_container c db = Inr db' \<Longrightarrow> queue_inv db \<Longrightarrow> queue_inv db'"
  "finish_run_container i state exit_code logs removed now db = Inr db' \<Longrightarrow> queue_inv db \<Longrightarrow> queue_inv db'"
  "record_run_sandbox s db = Inr db' \<Longrightarrow> queue_inv db \<Longrightarrow> queue_inv db'"
  "finish_run_sandbox i state exit_code logs removed now db = Inr db' \<Longrightarrow> queue_inv db \<Longrightarrow> queue_inv db'"
  by (auto simp: update_task_workspace_state_def record_run_container_def finish_run_container_def
      record_run_sandbox_def finish_run_sandbox_def Let_def elim: reserve_cases split: if_splits)

end
