(* ===== verification/Ledger_Status.thy ===== *)
theory Ledger_Status
  imports Ledger_Queue_Proofs
begin

text \<open>
  What the ledger tells an operator (\<open>src/storage.rs\<close>): the health of each repository, the outcome
  of the last poll of each workflow, and the summary shown before the state is reset.
\<close>

subsection \<open>Repository health\<close>

definition health_states :: "string list" where
  "health_states = [''loading'', ''healthy'', ''backing_off'', ''rate_limited'', ''invalid_config'',
     ''unavailable'', ''disabled'']"

definition record_repository_health ::
  "(string \<Rightarrow> string) \<Rightarrow> string \<Rightarrow> string \<Rightarrow> string option \<Rightarrow> nat \<Rightarrow> int option \<Rightarrow> int \<Rightarrow> ledger \<Rightarrow>
     ledger_error + ledger" where
  "record_repository_health sanitize repository state validation_error failures next_retry_at now db =
     (if blank repository then Inl EmptyField
      else if state \<notin> set health_states then Inl ConstraintViolation
      else let validation_error = map_option (\<lambda>v. truncate_utf8 (sanitize v) MAX_ERROR_BYTES) validation_error
           in Inr (db\<lparr>repository_health := upsert_where (\<lambda>h. rh_repository h = repository)
             (\<lambda>h. h\<lparr>rh_state := state, rh_validation_error := validation_error,
                    rh_consecutive_failures := failures, rh_next_retry_at := next_retry_at,
                    rh_updated_at := now\<rparr>)
             \<lparr>rh_repository = repository, rh_state = state, rh_validation_error = validation_error,
              rh_consecutive_failures = failures, rh_next_retry_at = next_retry_at, rh_updated_at = now\<rparr>
             (repository_health db)\<rparr>))"

definition query_repository_health :: "string \<Rightarrow> ledger \<Rightarrow> repository_health_snapshot option" where
  "query_repository_health repository db =
     find_where (\<lambda>h. rh_repository h = repository) (repository_health db)"

subsection \<open>Poll status\<close>

definition clear_superseded :: "string \<Rightarrow> string \<Rightarrow> poll_status list \<Rightarrow> poll_status list" where
  "clear_superseded repository workflow ps =
     (if workflow = ''all'' then delete_where (\<lambda>p. ps_repository p = repository) ps
      else delete_where (\<lambda>p. ps_repository p = repository \<and> ps_workflow p = ''all'') ps)"

definition record_poll_status ::
  "(string \<Rightarrow> string) \<Rightarrow> string \<Rightarrow> string \<Rightarrow> string \<Rightarrow> nat \<Rightarrow> nat \<Rightarrow> string option \<Rightarrow> int \<Rightarrow> ledger \<Rightarrow>
     ledger_error + ledger" where
  "record_poll_status sanitize repository workflow outcome issues_seen tasks_created err now db =
     (if blank repository \<or> blank workflow then Inl EmptyField
      else if outcome \<noteq> ''succeeded'' \<and> outcome \<noteq> ''failed'' then Inl PollOutcomeInvalid
      else let err = map_option (\<lambda>v. truncate_utf8 (sanitize v) MAX_ERROR_BYTES) err
           in Inr (db\<lparr>poll_statuses := upsert_where
             (\<lambda>p. ps_repository p = repository \<and> ps_workflow p = workflow)
             (\<lambda>p. p\<lparr>ps_outcome := outcome, ps_issues_seen := issues_seen,
                    ps_tasks_created := tasks_created, ps_error := err, ps_polled_at := now\<rparr>)
             \<lparr>ps_repository = repository, ps_workflow = workflow, ps_outcome = outcome,
              ps_issues_seen = issues_seen, ps_tasks_created = tasks_created, ps_error = err,
              ps_polled_at = now\<rparr>
             (clear_superseded repository workflow (poll_statuses db))\<rparr>))"

definition list_poll_statuses :: "ledger \<Rightarrow> poll_status list" where
  "list_poll_statuses db = sort_key (\<lambda>p. (ps_repository p, ps_workflow p)) (poll_statuses db)"

subsection \<open>Reset summary\<close>

record reset_summary =
  su_tasks :: nat
  su_runs :: nat
  su_active_tasks :: nat
  su_active_runs :: nat
  su_managed_containers :: nat
  su_managed_sandboxes :: nat
  su_live_daemons :: nat
  su_repositories :: "string list"
  su_retained_workspaces :: "string list"

definition inspect_reset_state :: "os_env \<Rightarrow> int \<Rightarrow> ledger \<Rightarrow> reset_summary" where
  "inspect_reset_state os now db =
     (let cutoff = saturating_sub now DAEMON_OWNER_LEASE_MILLIS in
      \<lparr>su_tasks = length (tasks db),
       su_runs = length (runs db),
       su_active_tasks = count_where (\<lambda>t. t_state t = task_state.Queued \<or> t_state t = task_state.Running) (tasks db),
       su_active_runs = count_where (\<lambda>r. r_outcome r = run_outcome.Running) (runs db),
       su_managed_containers = count_where (\<lambda>c. rc_removed_at c = None) (run_containers db),
       su_managed_sandboxes = count_where (\<lambda>s. rs_removed_at s = None) (run_sandboxes db),
       su_live_daemons = count_where (\<lambda>d. cutoff \<le> do_heartbeat_at d \<or> process_is_alive os (do_pid d))
         (daemon_owners db),
       su_repositories = remdups_adj (sort (map t_repository (tasks db) @ map r_repository (runs db)
         @ map to_repository (trigger_observations db) @ map sc_repository (schedule_cursors db)
         @ map w_repository (task_workspaces db))),
       su_retained_workspaces = map w_path (sort_key (\<lambda>w. (w_created_at w, w_task_id w))
         (filter (\<lambda>w. w_state w \<noteq> ''cleaned'') (task_workspaces db)))\<rparr>)"

subsection \<open>Properties\<close>

definition status_shape :: "ledger \<Rightarrow> bool" where
  "status_shape db \<longleftrightarrow> unique_key (\<lambda>p. (ps_repository p, ps_workflow p)) (poll_statuses db)
     \<and> (\<forall>p\<in>set (poll_statuses db). \<forall>q\<in>set (poll_statuses db).
          ps_repository p = ps_repository q \<and> ps_workflow p = ''all'' \<longrightarrow> ps_workflow q = ''all'')"

text \<open>
  A repository's poll status never contradicts itself: recording a status makes it the
  workflow's latest, an aggregate status replaces all workflow statuses of the repository, a
  workflow status replaces its aggregate, and no repository ever shows both; statuses of other
  repositories are untouched.
\<close>

theorem record_poll_status_spec:
  assumes "status_shape db"
    and "record_poll_status sanitize repository workflow outcome issues_seen tasks_created err now db = Inr db'"
  shows "status_shape db'
    \<and> (\<exists>p\<in>set (poll_statuses db'). ps_repository p = repository \<and> ps_workflow p = workflow
         \<and> ps_outcome p = outcome \<and> ps_polled_at p = now \<and> ps_issues_seen p = issues_seen
         \<and> ps_tasks_created p = tasks_created)
    \<and> (\<forall>p. ps_repository p \<noteq> repository \<longrightarrow> (p \<in> set (poll_statuses db') \<longleftrightarrow> p \<in> set (poll_statuses db)))"
proof -
  obtain f :: "poll_status \<Rightarrow> poll_status" where fd: "f = (\<lambda>p. p\<lparr>ps_outcome := outcome, ps_issues_seen := issues_seen,
      ps_tasks_created := tasks_created, ps_error := map_option (\<lambda>v. truncate_utf8 (sanitize v) MAX_ERROR_BYTES) err,
      ps_polled_at := now\<rparr>)" by blast
  obtain new where nd: "new = \<lparr>ps_repository = repository, ps_workflow = workflow, ps_outcome = outcome,
      ps_issues_seen = issues_seen, ps_tasks_created = tasks_created,
      ps_error = map_option (\<lambda>v. truncate_utf8 (sanitize v) MAX_ERROR_BYTES) err, ps_polled_at = now\<rparr>" by blast
  have f: "\<forall>p. ps_repository (f p) = ps_repository p \<and> ps_workflow (f p) = ps_workflow p
        \<and> ps_outcome (f p) = outcome \<and> ps_polled_at (f p) = now \<and> ps_issues_seen (f p) = issues_seen
        \<and> ps_tasks_created (f p) = tasks_created"
    and new: "ps_repository new = repository" "ps_workflow new = workflow" "ps_outcome new = outcome"
        "ps_polled_at new = now" "ps_issues_seen new = issues_seen" "ps_tasks_created new = tasks_created"
    by (simp_all add: fd nd)
  have db': "poll_statuses db' = upsert_where (\<lambda>p. ps_repository p = repository \<and> ps_workflow p = workflow)
        f new (clear_superseded repository workflow (poll_statuses db))"
    using assms(2) unfolding record_poll_status_def Let_def fd nd by (auto split: if_splits)
  obtain cleared where cl: "cleared = clear_superseded repository workflow (poll_statuses db)" by blast
  let ?k = "\<lambda>p. (ps_repository p, ps_workflow p)"
  have sub: "set cleared \<subseteq> set (poll_statuses db)" and uc: "unique_key ?k cleared"
    using assms(1) by (auto simp: cl clear_superseded_def set_delete_where status_shape_def unique_key_delete_where)
  have gone: "ps_workflow p \<noteq> ''all'' \<and> workflow \<noteq> ''all''" if "p \<in> set cleared" "ps_repository p = repository" for p
    using that by (auto simp: cl clear_superseded_def set_delete_where split: if_splits)
  have rows: "p \<in> set (poll_statuses db') \<longleftrightarrow>
      (p \<in> set cleared \<and> \<not> (ps_repository p = repository \<and> ps_workflow p = workflow))
      \<or> (\<exists>q\<in>set cleared. ps_repository q = repository \<and> ps_workflow q = workflow \<and> p = f q)
      \<or> (p = new \<and> \<not> (\<exists>q\<in>set cleared. ps_repository q = repository \<and> ps_workflow q = workflow))" for p
    unfolding db' cl [symmetric] by (auto simp: upsert_where_def exists_where_iff set_update_where)
  have uk: "unique_key ?k (poll_statuses db')"
    unfolding db' cl [symmetric] by (rule unique_key_upsert_where [OF uc]) (use f new in auto)
  have row: "x \<in> set cleared \<or> (ps_repository x = repository \<and> ps_workflow x = workflow)"
    if "x \<in> set (poll_statuses db')" for x
    using that [unfolded rows] f new by (elim disjE bexE conjE) simp_all
  have shape: "ps_workflow q = ''all''" if pq: "p \<in> set (poll_statuses db')" "q \<in> set (poll_statuses db')"
      "ps_repository p = ps_repository q" "ps_workflow p = ''all''" for p q
  proof (cases "ps_repository q = repository")
    case True
    with row [OF pq(1)] row [OF pq(2)] gone [of p] gone [of q] pq(3,4) show ?thesis by metis
  next
    case False
    with row [OF pq(1)] row [OF pq(2)] pq(3) sub have "p \<in> set (poll_statuses db)" "q \<in> set (poll_statuses db)"
      by auto
    with pq(3,4) assms(1) show ?thesis unfolding status_shape_def by blast
  qed
  have other: "p \<in> set (poll_statuses db') \<longleftrightarrow> p \<in> set (poll_statuses db)" if "ps_repository p \<noteq> repository" for p
  proof -
    have "p \<in> set (poll_statuses db') \<longleftrightarrow> p \<in> set cleared"
      unfolding rows using that f new by metis
    also have "\<dots> \<longleftrightarrow> p \<in> set (poll_statuses db)"
      using that by (simp add: cl clear_superseded_def set_delete_where)
    finally show ?thesis .
  qed
  have "\<exists>p\<in>set (poll_statuses db'). ps_repository p = repository \<and> ps_workflow p = workflow
         \<and> ps_outcome p = outcome \<and> ps_polled_at p = now \<and> ps_issues_seen p = issues_seen
         \<and> ps_tasks_created p = tasks_created"
  proof (cases "\<exists>q\<in>set cleared. ps_repository q = repository \<and> ps_workflow q = workflow")
    case True
    then obtain q where q: "q \<in> set cleared" "ps_repository q = repository" "ps_workflow q = workflow" by blast
    then have "f q \<in> set (poll_statuses db')" unfolding rows by blast
    then show ?thesis using f q by (intro bexI [of _ "f q"]) simp_all
  next
    case False
    then have "new \<in> set (poll_statuses db')" unfolding rows by blast
    then show ?thesis using new by (intro bexI [of _ new]) simp_all
  qed
  moreover have "status_shape db'" unfolding status_shape_def using uk shape by blast
  ultimately show ?thesis using other by blast
qed

text \<open>
  Recorded health is what is reported: for one of the seven states the recorded state, failure
  count and retry time are what a query returns, with the error redacted and cut to the limit;
  the health of other repositories is unchanged.
\<close>

theorem record_repository_health_spec:
  assumes "record_repository_health sanitize repository state err failures retry now db = Inr db'"
  shows "query_repository_health repository db' = Some \<lparr>rh_repository = repository, rh_state = state,
      rh_validation_error = map_option (\<lambda>v. truncate_utf8 (sanitize v) MAX_ERROR_BYTES) err,
      rh_consecutive_failures = failures, rh_next_retry_at = retry, rh_updated_at = now\<rparr>
    \<and> state \<in> set health_states
    \<and> (\<forall>other. other \<noteq> repository \<longrightarrow> query_repository_health other db' = query_repository_health other db)"
proof -
  let ?new = "\<lparr>rh_repository = repository, rh_state = state,
      rh_validation_error = map_option (\<lambda>v. truncate_utf8 (sanitize v) MAX_ERROR_BYTES) err,
      rh_consecutive_failures = failures, rh_next_retry_at = retry, rh_updated_at = now\<rparr>"
  obtain f :: "repository_health_snapshot \<Rightarrow> repository_health_snapshot" where
      fd: "f = (\<lambda>h. h\<lparr>rh_state := state,
        rh_validation_error := map_option (\<lambda>v. truncate_utf8 (sanitize v) MAX_ERROR_BYTES) err,
        rh_consecutive_failures := failures, rh_next_retry_at := retry, rh_updated_at := now\<rparr>)" by blast
  have f: "\<forall>h. rh_repository h = repository \<longrightarrow> f h = ?new" by (auto simp: fd)
  have db': "repository_health db' = upsert_where (\<lambda>h. rh_repository h = repository) f ?new (repository_health db)"
    and st: "state \<in> set health_states"
    using assms unfolding record_repository_health_def Let_def fd by (auto split: if_splits)
  have "query_repository_health repository db' = Some ?new"
    unfolding query_repository_health_def db'
    by (subst find_where_upsert_same) (use f in \<open>auto split: option.split dest: find_where_SomeD(2)\<close>)
  moreover have "query_repository_health other db' = query_repository_health other db" if "other \<noteq> repository" for other
    unfolding query_repository_health_def db' by (rule find_where_upsert_other) (use f that in auto)
  ultimately show ?thesis using st by blast
qed

lemma status_inv [queue_step]:
  "record_repository_health sanitize repository state err failures retry now db = Inr db' \<Longrightarrow> queue_inv db \<Longrightarrow> queue_inv db'"
  "record_poll_status sanitize repository workflow outcome issues created err now db = Inr db' \<Longrightarrow> queue_inv db \<Longrightarrow> queue_inv db'"
  by (auto simp: record_repository_health_def record_poll_status_def Let_def split: if_splits)

end
