(* ===== verification/Run_Evolution.thy ===== *)
theory Run_Evolution
  imports Ledger_Recovery Ledger_Poll Ledger_Schedule Ledger_PullRequests Ledger_Approvals
    Ledger_Workspaces Ledger_Status
begin

text \<open>
  What the operations of the ledger (\<open>src/storage.rs\<close>) may do to a run. No operation deletes a run,
  reopens a finished one or forgets a requested cancellation; and every operation but the failed
  launch keeps a run whose cancellation was requested on its way to \<open>Cancelled\<close>. The lemmas of the
  collection \<open>run_step\<close> say so for each operation; \<open>Ledger_System\<close> puts them together.
\<close>

definition run_grows :: "run \<Rightarrow> run \<Rightarrow> bool" where
  "run_grows r r' \<longleftrightarrow> r_id r' = r_id r \<and> r_task_id r' = r_task_id r
     \<and> (r_outcome r \<noteq> run_outcome.Running \<longrightarrow> r_outcome r' = r_outcome r)
     \<and> (r_cancellation_requested_at r \<noteq> None \<longrightarrow> r_cancellation_requested_at r' \<noteq> None)"

definition heeds_cancellation :: "run \<Rightarrow> run \<Rightarrow> bool" where
  "heeds_cancellation r r' \<longleftrightarrow> (r_cancellation_requested_at r \<noteq> None \<and> r_outcome r = run_outcome.Running
     \<longrightarrow> r_outcome r' = run_outcome.Running \<or> r_outcome r' = run_outcome.Cancelled)"

definition run_evolves :: "run \<Rightarrow> run \<Rightarrow> bool" where
  "run_evolves r r' \<longleftrightarrow> run_grows r r' \<and> heeds_cancellation r r'"

definition all_runs :: "(run \<Rightarrow> run \<Rightarrow> bool) \<Rightarrow> ledger \<Rightarrow> ledger \<Rightarrow> bool" where
  "all_runs R db db' \<longleftrightarrow> (\<forall>r\<in>set (runs db). \<exists>r'\<in>set (runs db'). R r r')"

named_theorems run_step "what each operation does to the runs of the ledger"

lemmas evolution_defs = run_evolves_def run_grows_def heeds_cancellation_def

lemma run_evolves_refl [simp]: "run_evolves r r"
  by (simp add: evolution_defs)

lemma run_grows_refl [simp]: "run_grows r r"
  by (simp add: run_grows_def)

lemma run_grows_trans: "run_grows r s \<Longrightarrow> run_grows s t \<Longrightarrow> run_grows r t"
  by (auto simp: run_grows_def)

lemma run_evolves_trans: "run_evolves r s \<Longrightarrow> run_evolves s t \<Longrightarrow> run_evolves r t"
  by (auto simp: evolution_defs)

lemma all_runs_grow: "all_runs run_evolves db db' \<Longrightarrow> all_runs run_grows db db'"
  by (auto simp: all_runs_def run_evolves_def)

lemma all_runs_same: "runs db' = runs db \<Longrightarrow> all_runs run_evolves db db'"
  by (auto simp: all_runs_def intro: run_evolves_refl)

lemma all_runs_append: "runs db' = runs db @ rs \<Longrightarrow> all_runs run_evolves db db'"
  by (auto simp: all_runs_def intro: run_evolves_refl)

lemma all_runs_update:
  assumes "runs db' = update_where P f (runs db)"
    and "\<And>r. r \<in> set (runs db) \<Longrightarrow> P r \<Longrightarrow> R r (f r)" and refl: "\<And>r. R r r"
  shows "all_runs R db db'"
  unfolding all_runs_def
proof
  fix r assume r: "r \<in> set (runs db)"
  show "\<exists>r'\<in>set (runs db'). R r r'"
  proof (cases "P r")
    case True
    with r assms show ?thesis by (auto intro!: bexI [OF _ update_where_hit])
  next
    case False
    with r assms(1) refl show ?thesis by (auto intro!: bexI [OF _ update_where_miss])
  qed
qed

lemma all_runs_trans:
  "(\<And>r s t. R r s \<Longrightarrow> R s t \<Longrightarrow> R r t) \<Longrightarrow> all_runs R db1 db2 \<Longrightarrow> all_runs R db2 db3 \<Longrightarrow> all_runs R db1 db3"
  unfolding all_runs_def by blast

lemma all_runs_evolve_trans:
  "all_runs run_evolves db1 db2 \<Longrightarrow> all_runs run_evolves db2 db3 \<Longrightarrow> all_runs run_evolves db1 db3"
  by (erule all_runs_trans [rotated]) (auto intro: run_evolves_trans)

lemma all_runs_grow_trans:
  "all_runs run_grows db1 db2 \<Longrightarrow> all_runs run_grows db2 db3 \<Longrightarrow> all_runs run_grows db1 db3"
  by (erule all_runs_trans [rotated]) (auto intro: run_grows_trans)

subsection \<open>Operations on one running run\<close>

lemma update_running_run_step:
  assumes "update_running_run i f db = Inr db'" and "\<And>r. run_evolves r (f r)"
  shows "all_runs run_evolves db db'"
  by (rule all_runs_update [where P = "\<lambda>r. r_id r = i \<and> r_outcome r = run_outcome.Running" and f = f])
    (use assms in \<open>simp_all add: update_running_run_def split: if_split_asm\<close>,
     use assms(1) in \<open>auto simp: update_running_run_def split: if_split_asm\<close>)


lemma observation_step [run_step]:
  "set_run_agent_profile i p m e t db = Inr db' \<Longrightarrow> all_runs run_evolves db db'"
  "record_run_workspace i wd bb bs fb wk db = Inr db' \<Longrightarrow> all_runs run_evolves db db'"
  "observe_run sanitize i pid ident sess pr act now db = Inr db' \<Longrightarrow> all_runs run_evolves db db'"
  "reset_run_runtime_observation i now db = Inr db' \<Longrightarrow> all_runs run_evolves db db'"
  by (auto simp: set_run_agent_profile_def record_run_workspace_def observe_run_def
      reset_run_runtime_observation_def Let_def evolution_defs
      split: if_split_asm elim!: update_running_run_step)

subsection \<open>Operations that leave the runs alone or add one\<close>

lemma enqueue_step [run_step]:
  "enqueue_with_payload identity payload now db = Inr (x, db') \<Longrightarrow> all_runs run_evolves db db'"
  by (rule all_runs_same)
    (auto simp: enqueue_with_payload_def insert_task_or_ignore_def Let_def simp del: identity_key.simps
      split: sum.split_asm if_split_asm option.split_asm)

lemma claim_next_step [run_step]:
  "claim_next_matching repos now db = Inr (t, db') \<Longrightarrow> all_runs run_evolves db db'"
  by (rule all_runs_same)
    (auto simp: claim_next_matching_def Let_def split: list.split_asm if_split_asm option.split_asm)

lemma occurrence_step [run_step]:
  assumes "enqueue_scheduled_occurrence parse print identity body fp due due' now db = Inr (z, db')"
  shows "all_runs run_evolves db db'"
proof (cases z)
  case None
  with assms show ?thesis
    by (intro all_runs_same) (auto simp: enqueue_scheduled_occurrence_def Let_def simp del: identity_key.simps
      split: task_identity.split_asm sum.split_asm if_split_asm option.split_asm prod.split_asm)
next
  case (Some e)
  show ?thesis
    by (rule occurrence_fired [OF assms [unfolded Some]])
      (auto intro!: all_runs_same dest: insert_task_cursors)
qed

lemma initialize_schedule_step [run_step]:
  assumes "initialize_schedule_cursor os repository workflow fp due startup owner now1 now2 db = Inr (d, db')"
  shows "all_runs run_evolves db db'"
  using assms
proof (cases rule: initialize_schedule_cases)
  case kept
  then show ?thesis by (auto intro!: all_runs_same simp: put_schedule_owner_def split: if_split_asm)
next
  case reset
  then show ?thesis
    by (auto intro!: all_runs_same simp: put_schedule_owner_def put_cursor_def split: if_split_asm)
qed

lemma enqueue_visit_runs:
  assumes "enqueue_visit repository workflow previous now obs (enqueued, db) = Inr (enqueued', db')"
  shows "runs db' = runs db"
proof (cases "\<not> opens_visit previous obs \<or> ticket_active repository workflow obs db")
  case True
  then show ?thesis using enqueue_visit_skip [OF assms] by simp
next
  case False
  then have go: "opens_visit previous obs" "\<not> ticket_active repository workflow obs db" by auto
  show ?thesis
    by (rule enqueue_visit_insert [OF assms go refl]) (metis fst_conv insert_task_runs)
qed

lemma observe_each_runs:
  "observe_each repository workflow previous clk i obs (enqueued, db) = Inr (enqueued', db') \<Longrightarrow>
     runs db' = runs db"
proof (induction obs arbitrary: i enqueued db)
  case (Cons x xs)
  then obtain e1 db1 where
      v: "enqueue_visit repository workflow (previous (ot_source_item x)) (clk (2 * i)) x (enqueued, db)
        = Inr (e1, db1)"
      and rest: "observe_each repository workflow previous clk (Suc i) xs
        (e1, record_observation repository workflow (clk (2 * i + 1)) x db1) = Inr (enqueued', db')"
    by (auto split: if_splits sum.splits)
  show ?case using Cons.IH [OF rest] enqueue_visit_runs [OF v] by simp
qed simp

lemma poll_step [run_step]:
  "reconcile_ticket_poll repository workflow observations clk db = Inr (y, db') \<Longrightarrow> all_runs run_evolves db db'"
  by (cases y; rule all_runs_same) (auto simp: reconcile_ticket_poll_def split: if_splits dest!: observe_each_runs)

lemma insert_run_step: "insert_run r db = Inr db' \<Longrightarrow> all_runs run_evolves db db'"
  by (rule all_runs_append [of _ _ "[r]"]) (auto simp: insert_run_def split: if_split_asm)

lemma start_run_step [run_step]:
  "start_run task_id runtime now db = Inr (r, db') \<Longrightarrow> all_runs run_evolves db db'"
  by (auto simp: start_run_def Let_def split: if_split_asm option.split_asm sum.split_asm
      dest!: insert_run_step)

lemma start_claimed_run_step:
  assumes "start_claimed_run cc c now db = Inr (x, db')"
  shows "all_runs run_evolves db db'"
proof -
  from assms obtain r db2 where "insert_run r (db\<lparr>tasks := set_task_running now (t_id c) (tasks db)\<rparr>) = Inr db2"
      and "db' = clear_recovery_source (t_id c) db2"
    by (auto simp: start_claimed_run_def Let_def split: if_split_asm option.split_asm sum.split_asm)
  then show ?thesis
    by (intro all_runs_append [of _ _ "[r]"])
      (auto simp: insert_run_def clear_recovery_source_def split: if_split_asm)
qed

lemma claim_and_start_step [run_step]:
  "claim_and_start_run parse cc now db = Inr (c, db') \<Longrightarrow> all_runs run_evolves db db'"
  by (auto simp: claim_and_start_run_def split: if_split_asm option.split_asm sum.split_asm
      dest: start_claimed_run_step intro: all_runs_same)

lemma other_table_step [run_step]:
  "register_daemon_owner owner pid now db = Inr db' \<Longrightarrow> all_runs run_evolves db db'"
  "heartbeat_daemon_owner owner now db = Inr db' \<Longrightarrow> all_runs run_evolves db db'"
  "all_runs run_evolves db (remove_daemon_owner owner db)"
  "record_project_claim task_id evidence now db = Inr db' \<Longrightarrow> all_runs run_evolves db db'"
  "reserve_issue_approval repository issue rid now now2 db = Inr db' \<Longrightarrow> all_runs run_evolves db db'"
  "release_issue_approval repository issue rid db = Inr db' \<Longrightarrow> all_runs run_evolves db db'"
  "consume_task_approval task_id ev now db = Inr db' \<Longrightarrow> all_runs run_evolves db db'"
  "update_task_workspace_state task_id state summary now db = Inr db' \<Longrightarrow> all_runs run_evolves db db'"
  "record_run_container rc db = Inr db' \<Longrightarrow> all_runs run_evolves db db'"
  "finish_run_container i state exit_code logs removed now db = Inr db' \<Longrightarrow> all_runs run_evolves db db'"
  "record_run_sandbox rs db = Inr db' \<Longrightarrow> all_runs run_evolves db db'"
  "finish_run_sandbox i state exit_code logs removed now db = Inr db' \<Longrightarrow> all_runs run_evolves db db'"
  "record_repository_health sanitize repository health err n retry now db = Inr db' \<Longrightarrow>
    all_runs run_evolves db db'"
  "record_poll_status sanitize repository workflow res seen created err now db = Inr db' \<Longrightarrow>
    all_runs run_evolves db db'"
  by (rule all_runs_same, auto simp: register_daemon_owner_def heartbeat_daemon_owner_def
      remove_daemon_owner_def record_project_claim_def reserve_issue_approval_def
      release_issue_approval_def consume_task_approval_def update_task_workspace_state_def
      record_run_container_def finish_run_container_def record_run_sandbox_def finish_run_sandbox_def
      record_repository_health_def record_poll_status_def Let_def split: if_split_asm)+

lemma reserve_workspace_step [run_step]:
  "reserve_task_workspace w now db = Inr (w', db') \<Longrightarrow> all_runs run_evolves db db'"
  by (rule all_runs_same) (auto elim: reserve_cases)

lemma association_step [run_step]:
  "record_pull_request_association provider repository gid url now db = Inr db' \<Longrightarrow> all_runs run_evolves db db'"
  by (rule all_runs_same) (auto simp: record_pull_request_association_def split: if_split_asm option.split_asm)

lemma pull_request_step [run_step]:
  assumes "pr_event_step db db'"
  shows "all_runs run_evolves db db'"
proof (rule all_runs_same)
  show "runs db' = runs db"
    using assms
  proof (cases rule: pr_event_step.cases)
    case (step_continue parse k now1 now2 c)
    show ?thesis
    proof (cases "c = ContQueued")
      case True
      with step_continue show ?thesis by (auto elim: request_continuation_queued)
    next
      case False
      with step_continue show ?thesis by (auto dest: request_continuation_other)
    qed
  qed (auto simp: observe_pull_request_event_def insert_event_or_ignore_def claim_pull_request_event_def
      recover_expired_pull_request_event_claims_def release_pull_request_event_claim_def
      mark_pull_request_event_asana_applied_def consume_pull_request_event_def update_events_def
      Let_def split: if_split_asm option.split_asm)
qed

subsection \<open>Operations that end runs\<close>

lemma cancellation_step [run_step]:
  assumes "request_run_cancellation os i now1 now2 db = Inr (answer, db')"
  shows "all_runs run_evolves db db'"
proof -
  have "db' = db \<or> runs db' = update_where (\<lambda>r. r_id r = i \<and> r_outcome r = run_outcome.Running
      \<and> r_cancellation_requested_at r = None) (\<lambda>r. r\<lparr>r_cancellation_requested_at := Some now2\<rparr>) (runs db)"
    using assms by (auto simp: request_run_cancellation_def Let_def split: if_split_asm option.split_asm)
  then show ?thesis
  proof
    assume "db' = db"
    then show ?thesis by (intro all_runs_same) simp
  next
    assume "runs db' = update_where (\<lambda>r. r_id r = i \<and> r_outcome r = run_outcome.Running
      \<and> r_cancellation_requested_at r = None) (\<lambda>r. r\<lparr>r_cancellation_requested_at := Some now2\<rparr>) (runs db)"
    then show ?thesis by (rule all_runs_update) (auto simp: evolution_defs)
  qed
qed

text \<open>Closing an attempt: the update hits only the running run it was decided for.\<close>

lemma close_attempt_step:
  assumes "queue_inv db" and "r \<in> set (runs db)" and "r_outcome r = run_outcome.Running"
    and "R r (f r)" and "\<And>x. R x x"
  shows "all_runs R db (close_attempt r f g db)"
proof (rule all_runs_update)
  show "runs (close_attempt r f g db)
      = update_where (\<lambda>x. r_id x = r_id r \<and> r_outcome x = run_outcome.Running) f (runs db)"
    by (simp add: close_attempt_def)
  fix x assume "x \<in> set (runs db)" "r_id x = r_id r \<and> r_outcome x = run_outcome.Running"
  then have "x = r" using queue_inv_keys(3) [OF assms(1)] assms(2) by (auto dest: unique_key_inj)
  with assms(4) show "R x (f x)" by simp
qed (rule assms(5))

lemma finish_step [run_step]:
  assumes "finish_run_and_task_with_recovery sanitize i outcome result err session_id allow now1 now2 db
      = Inr (x, db')" and "queue_inv db"
  shows "all_runs run_evolves db db'"
proof -
  from assms(1) obtain r result err session_id g where
      r: "find_where (\<lambda>r. r_id r = i \<and> r_outcome r = run_outcome.Running) (runs db) = Some r"
      and db': "db' = close_attempt r (record_terminal now1 (final_outcome r outcome) result err session_id) g db"
    by (auto simp: finish_run_and_task_with_recovery_def Let_def split: if_split_asm option.split_asm)
  note rin = find_where_SomeD [OF r]
  show ?thesis
    unfolding db' by (rule close_attempt_step [OF assms(2)])
      (use rin in \<open>auto simp: evolution_defs record_terminal_def final_outcome_def\<close>)
qed

lemma fail_prelaunch_step:
  assumes "fail_prelaunch_and_requeue sanitize i err now db = Inr (x, db')" and "queue_inv db"
  shows "all_runs run_grows db db'"
proof -
  from assms(1) obtain r g err where
      r: "find_where (\<lambda>r. r_id r = i \<and> r_outcome r = run_outcome.Running \<and> r_process_id r = None)
            (runs db) = Some r"
      and db': "db' = close_attempt r (\<lambda>x. x\<lparr>r_outcome := run_outcome.Failed, r_finished_at := Some now,
           r_error := Some err\<rparr>) g db"
    by (auto simp: fail_prelaunch_and_requeue_def Let_def split: if_split_asm option.split_asm)
  note rin = find_where_SomeD [OF r]
  show ?thesis
    unfolding db' by (rule close_attempt_step [OF assms(2)]) (use rin in \<open>auto simp: run_grows_def\<close>)
qed

lemma recover_run_step:
  assumes inv: "queue_inv db" and r: "r \<in> set (runs db)" "r_outcome r = run_outcome.Running"
    and step: "recover_run os repository now0 clk r (acc, db) = Inr (acc', db')"
  shows "all_runs run_evolves db db'"
proof -
  note step' = step [unfolded recover_run_cases [OF inv r(1)]]
  consider (live) "run_owner_is_live os r now0 db" | (foreign) "\<not> run_owner_is_live os r now0 db"
      "foreign_run repository r"
    | (orphan) "\<not> run_owner_is_live os r now0 db" "\<not> foreign_run repository r" by blast
  then show ?thesis
  proof cases
    case live
    with step' show ?thesis by (intro all_runs_same) simp
  next
    case foreign
    obtain d where "runs db' = update_where (\<lambda>x. r_id x = r_id r \<and> r_outcome x = run_outcome.Running)
        (\<lambda>x. x\<lparr>r_error := Some d, r_activity := Some d, r_last_activity_at := clk (r_id r)\<rparr>) (runs db)"
      using step' foreign by (auto simp: record_unresolved_def)
    then show ?thesis by (rule all_runs_update) (auto simp: evolution_defs)
  next
    case orphan
    with step' have "close_orphan os clk r (acc, db) = Inr (acc', db')" by simp
    then have db': "db' = close_attempt r (close_orphan_run r (clk (r_id r)))
        (settle_orphan_task r (clk (r_id r))) db" by (rule close_orphan_db)
    show ?thesis
      unfolding db' by (rule close_attempt_step [OF inv r])
        (use r(2) in \<open>auto simp: evolution_defs close_orphan_run_def orphan_outcome_def\<close>)
  qed
qed

lemma recover_each_step:
  "pass_ready rs db \<Longrightarrow> recover_each os repository now0 clk rs (acc, db) = Inr (acc', db') \<Longrightarrow>
     all_runs run_evolves db db'"
proof (induction rs arbitrary: acc db)
  case (Cons r rs)
  from Cons.prems(2) obtain acc1 db1 where
      step: "recover_run os repository now0 clk r (acc, db) = Inr (acc1, db1)"
      and rest: "recover_each os repository now0 clk rs (acc1, db1) = Inr (acc', db')"
    by (auto split: sum.splits)
  from Cons.prems(1) have inv: "queue_inv db" and r: "r \<in> set (runs db)" "r_outcome r = run_outcome.Running"
    and fresh: "r_id r \<notin> r_id ` set rs" by (auto simp: pass_ready_def)
  have "pass_ready rs db1"
    using Cons.prems(1) recover_run_frame(1,3) [OF inv r step] fresh by (auto simp: pass_ready_def image_iff)
  then have "all_runs run_evolves db1 db'" using Cons.IH rest by blast
  with recover_run_step [OF inv r step] show ?case by (rule all_runs_evolve_trans)
qed (simp add: all_runs_same)

lemma recovery_step [run_step]:
  "recover_orphaned_runs_matching os owning now clk db = Inr (acc, db') \<Longrightarrow> queue_inv db \<Longrightarrow>
     all_runs run_evolves db db'"
  using recover_each_step [OF pass_ready_active] by (auto simp: recover_orphaned_runs_matching_def)

end
