(* ===== verification/Ledger_System.thy ===== *)
theory Ledger_System
  imports Run_Evolution
begin

text \<open>
  The ledger as one transition system: a step is one operation of any caller, with any arguments
  and clock readings, and operations interleave freely because each is one transaction. The
  theorems here are about every reachable ledger. Failed launches are kept apart as
  \<open>prelaunch_step\<close>, because they are the one operation that forgets a requested cancellation.
\<close>

inductive work_step :: "ledger \<Rightarrow> ledger \<Rightarrow> bool" where
  enqueue: "enqueue_with_payload identity payload now db = Inr (x, db') \<Longrightarrow> work_step db db'"
| poll: "reconcile_ticket_poll repository workflow observations clk db = Inr (y, db') \<Longrightarrow> work_step db db'"
| init_schedule: "initialize_schedule_cursor os repository workflow fp due startup owner now1 now2 db
    = Inr (due', db') \<Longrightarrow> work_step db db'"
| occurrence: "enqueue_scheduled_occurrence parse print identity body fp due due' now db = Inr (z, db') \<Longrightarrow>
    work_step db db'"
| claim_task: "claim_next_matching repos now db = Inr (t, db') \<Longrightarrow> work_step db db'"
| claim: "claim_and_start_run parse cc now db = Inr (c, db') \<Longrightarrow> work_step db db'"
| start: "start_run task_id runtime now db = Inr (r, db') \<Longrightarrow> work_step db db'"
| profile: "set_run_agent_profile i p m e tier db = Inr db' \<Longrightarrow> work_step db db'"
| run_workspace: "record_run_workspace i wd branch sha fb kind db = Inr db' \<Longrightarrow> work_step db db'"
| observe: "observe_run sanitize i pid ident session pr act now db = Inr db' \<Longrightarrow> work_step db db'"
| reset_observation: "reset_run_runtime_observation i now db = Inr db' \<Longrightarrow> work_step db db'"
| finish: "finish_run_and_task_with_recovery sanitize i outcome result err session allow now1 now2 db
    = Inr (r, db') \<Longrightarrow> work_step db db'"
| cancel: "request_run_cancellation os i now1 now2 db = Inr (answer, db') \<Longrightarrow> work_step db db'"
| register: "register_daemon_owner owner pid' now db = Inr db' \<Longrightarrow> work_step db db'"
| heartbeat: "heartbeat_daemon_owner owner now db = Inr db' \<Longrightarrow> work_step db db'"
| remove_owner: "work_step db (remove_daemon_owner owner db)"
| recover: "recover_orphaned_runs_matching os owning now clk' db = Inr (acc, db') \<Longrightarrow> work_step db db'"
| pull_request: "pr_event_step db db' \<Longrightarrow> work_step db db'"
| associate: "record_pull_request_association provider repository gid url now db = Inr db' \<Longrightarrow> work_step db db'"
| project_claim: "record_project_claim task_id evidence now db = Inr db' \<Longrightarrow> work_step db db'"
| reserve: "reserve_issue_approval repository issue rid now1 now2 db = Inr db' \<Longrightarrow> work_step db db'"
| release: "release_issue_approval repository issue rid db = Inr db' \<Longrightarrow> work_step db db'"
| consume: "consume_task_approval task_id ev now db = Inr db' \<Longrightarrow> work_step db db'"
| reserve_workspace: "reserve_task_workspace w now db = Inr (w', db') \<Longrightarrow> work_step db db'"
| workspace_state: "update_task_workspace_state task_id state summary now db = Inr db' \<Longrightarrow> work_step db db'"
| container: "record_run_container rc db = Inr db' \<Longrightarrow> work_step db db'"
| finish_container: "finish_run_container i state exit_code logs removed now db = Inr db' \<Longrightarrow> work_step db db'"
| sandbox: "record_run_sandbox rs db = Inr db' \<Longrightarrow> work_step db db'"
| finish_sandbox: "finish_run_sandbox i state exit_code logs removed now db = Inr db' \<Longrightarrow> work_step db db'"
| health: "record_repository_health sanitize repository state err n retry now db = Inr db' \<Longrightarrow> work_step db db'"
| poll_status: "record_poll_status sanitize repository workflow res seen created err now db = Inr db' \<Longrightarrow>
    work_step db db'"

inductive ledger_step :: "ledger \<Rightarrow> ledger \<Rightarrow> bool" where
  work_step: "work_step db db' \<Longrightarrow> ledger_step db db'"
| prelaunch_step: "fail_prelaunch_and_requeue sanitize i err now db = Inr (r, db') \<Longrightarrow> ledger_step db db'"

inductive_cases ledger_stepE: "ledger_step db db'"

subsection \<open>The queue invariant holds in every reachable ledger\<close>

lemma pr_event_step_inv: "pr_event_step db db' \<Longrightarrow> queue_inv db \<Longrightarrow> queue_inv db'"
  by (induction rule: pr_event_step.induct) (auto intro: queue_step simp: pr_event_inv(5))

lemma recover_matching_inv:
  "recover_orphaned_runs_matching os owning now clk db = Inr (acc, db') \<Longrightarrow> queue_inv db \<Longrightarrow> queue_inv db'"
  using recover_each_spec [OF pass_ready_active] by (auto simp: recover_orphaned_runs_matching_def)

lemma work_step_inv: "work_step db db' \<Longrightarrow> queue_inv db \<Longrightarrow> queue_inv db'"
  by (induction rule: work_step.induct)
    (auto intro: queue_step dest: pr_event_step_inv recover_matching_inv)

lemma ledger_step_inv: "ledger_step db db' \<Longrightarrow> queue_inv db \<Longrightarrow> queue_inv db'"
  by (induction rule: ledger_step.induct) (auto intro: queue_step work_step_inv)

interpretation sys: state_invariant "\<lambda>db. db = empty_ledger" ledger_step queue_inv
  by unfold_locales (auto simp: queue_inv_empty intro: ledger_step_inv)

subsection \<open>Runs over any history\<close>

lemma work_step_runs:
  assumes "work_step db db'" and inv: "queue_inv db"
  shows "all_runs run_evolves db db'"
  using assms(1) by cases (auto intro: run_step recovery_step [OF _ inv] finish_step [OF _ inv])

lemma work_steps_runs:
  "work_step\<^sup>*\<^sup>* db db' \<Longrightarrow> queue_inv db \<Longrightarrow> queue_inv db' \<and> all_runs run_evolves db db'"
proof (induction rule: rtranclp_induct)
  case base
  then show ?case by (simp add: all_runs_same)
next
  case (step y z)
  then have "queue_inv y" "all_runs run_evolves db y" by auto
  moreover have "all_runs run_evolves y z" using step.hyps(2) calculation(1) by (rule work_step_runs)
  ultimately show ?case
    using work_step_inv [OF step.hyps(2)] all_runs_evolve_trans by blast
qed

lemma ledger_step_runs:
  assumes "ledger_step db db'" and inv: "queue_inv db"
  shows "all_runs run_grows db db'"
  using assms(1) by (cases rule: ledger_stepE)
    (auto intro: all_runs_grow work_step_runs [OF _ inv] fail_prelaunch_step [OF _ inv])

lemma ledger_steps_runs:
  "ledger_step\<^sup>*\<^sup>* db db' \<Longrightarrow> queue_inv db \<Longrightarrow> queue_inv db' \<and> all_runs run_grows db db'"
proof (induction rule: rtranclp_induct)
  case base
  then show ?case by (auto simp: all_runs_def intro: run_grows_refl)
next
  case (step y z)
  then have "queue_inv y" "all_runs run_grows db y" by auto
  moreover have "all_runs run_grows y z" using step.hyps(2) calculation(1) by (rule ledger_step_runs)
  ultimately show ?case
    using ledger_step_inv [OF step.hyps(2)] all_runs_grow_trans by blast
qed

text \<open>
  C1. In every ledger any interleaving of operations can produce from the empty one: task
  identities and ids are unique, a task has at most one running run, a running run belongs to a
  task in the running state of the same repository and workflow, and a recovery run continues an
  older finished run of its own task and is at most the second recovery.
\<close>

theorem reachable_ledger_sound:
  assumes "ledger_step\<^sup>*\<^sup>* empty_ledger db"
  shows "distinct (map t_identity_key (tasks db)) \<and> distinct (map t_id (tasks db))
    \<and> distinct (map r_id (runs db))
    \<and> (\<forall>r\<in>set (runs db). \<forall>x\<in>set (runs db). r_outcome r = run_outcome.Running
         \<and> r_outcome x = run_outcome.Running \<and> r_task_id r = r_task_id x \<longrightarrow> r = x)
    \<and> (\<forall>r\<in>set (runs db). \<exists>t\<in>set (tasks db). t_id t = r_task_id r \<and> t_repository t = r_repository r
         \<and> t_workflow t = r_workflow r
         \<and> (r_outcome r = run_outcome.Running \<longrightarrow> t_state t = task_state.Running))
    \<and> (\<forall>r\<in>set (runs db). \<forall>i. r_recovery_of r = Some i \<longrightarrow>
         (\<exists>p\<in>set (runs db). r_id p = i \<and> r_id p < r_id r \<and> r_task_id p = r_task_id r
            \<and> r_outcome p \<noteq> run_outcome.Running \<and> r_recovery_attempt r = Suc (r_recovery_attempt p)
            \<and> r_recovery_attempt r \<le> 2))"
proof -
  have inv: "queue_inv db" using sys.inv_reachable [OF refl assms] .
  note keys = queue_inv_keys [OF inv]
  have ok: "one_active (runs db)" "runs_fit (tasks db) (runs db)" "chains_ok (runs db)"
    using inv by (auto simp: queue_inv_def queue_ok_def)
  have one: "r = x" if "r \<in> set (runs db)" "x \<in> set (runs db)" "r_outcome r = run_outcome.Running"
      "r_outcome x = run_outcome.Running" "r_task_id r = r_task_id x" for r x
    using one_active_same [OF ok(1)] that by blast
  have task: "\<exists>t\<in>set (tasks db). t_id t = r_task_id r \<and> t_repository t = r_repository r
         \<and> t_workflow t = r_workflow r
         \<and> (r_outcome r = run_outcome.Running \<longrightarrow> t_state t = task_state.Running)"
    if "r \<in> set (runs db)" for r
    using ok(2) that by (auto simp: runs_fit_def run_of_task_def)
  have chain: "\<exists>p\<in>set (runs db). r_id p = i \<and> r_id p < r_id r \<and> r_task_id p = r_task_id r
            \<and> r_outcome p \<noteq> run_outcome.Running \<and> r_recovery_attempt r = Suc (r_recovery_attempt p)
            \<and> r_recovery_attempt r \<le> 2"
    if "r \<in> set (runs db)" "r_recovery_of r = Some i" for r i
    using ok(3) that by (fastforce simp: chains_ok_def continues_run_def MAX_RECOVERY_ATTEMPTS_def)
  show ?thesis using keys one task chain unfolding unique_key_def by blast
qed

text \<open>
  History is kept: over any sequence of operations, failed launches included, no run is
  deleted or changes its task, a finished run keeps its outcome, and a requested cancellation
  stays requested.
\<close>

theorem run_history_monotone:
  assumes "queue_inv db" and "ledger_step\<^sup>*\<^sup>* db db'" and "r \<in> set (runs db)"
  shows "\<exists>r'\<in>set (runs db'). r_id r' = r_id r \<and> r_task_id r' = r_task_id r
    \<and> (r_outcome r \<noteq> run_outcome.Running \<longrightarrow> r_outcome r' = r_outcome r)
    \<and> (r_cancellation_requested_at r \<noteq> None \<longrightarrow> r_cancellation_requested_at r' \<noteq> None)"
  using ledger_steps_runs [OF assms(2,1)] assms(3) unfolding all_runs_def run_grows_def by blast

text \<open>
  C2. Cancellation wins: once the cancellation of a running run has been accepted, every later
  history of operations other than a failed launch leaves the run running or cancelled, never
  succeeded or failed, whatever outcome its worker reports or recovery finds.
\<close>

theorem cancellation_wins:
  assumes "queue_inv db" and "request_run_cancellation os i now1 now2 db = Inr (Requested run, db1)"
    and "work_step\<^sup>*\<^sup>* db1 db2"
  shows "\<exists>r\<in>set (runs db2). r_id r = i \<and> r_cancellation_requested_at r \<noteq> None
    \<and> (r_outcome r = run_outcome.Running \<or> r_outcome r = run_outcome.Cancelled)"
proof -
  have inv: "queue_inv db1" using assms(1,2) by (blast intro: queue_step)
  obtain r where r: "r \<in> set (runs db1)" "r_id r = i" "r_outcome r = run_outcome.Running"
      "r_cancellation_requested_at r \<noteq> None"
  proof -
    from assms(2) obtain x where x: "query_run i db = Some x" "r_outcome x = run_outcome.Running"
        "r_cancellation_requested_at x = None"
        and runs: "runs db1 = update_where (\<lambda>r. r_id r = i \<and> r_outcome r = run_outcome.Running
          \<and> r_cancellation_requested_at r = None) (\<lambda>r. r\<lparr>r_cancellation_requested_at := Some now2\<rparr>) (runs db)"
      by (auto simp: request_run_cancellation_def Let_def split: if_split_asm option.split_asm)
    from x(1) have "x \<in> set (runs db)" "r_id x = i" by (auto simp: query_run_def dest: find_where_SomeD)
    with x(2,3) have "x\<lparr>r_cancellation_requested_at := Some now2\<rparr> \<in> set (runs db1)"
      unfolding runs by (intro update_where_hit) auto
    with \<open>r_id x = i\<close> x(2) show ?thesis
      by (intro that [of "x\<lparr>r_cancellation_requested_at := Some now2\<rparr>"]) simp_all
  qed
  from work_steps_runs [OF assms(3) inv] r obtain r' where "r' \<in> set (runs db2)" "run_evolves r r'"
    by (auto simp: all_runs_def)
  with r(2-4) show ?thesis by (intro bexI [of _ r']) (auto simp: evolution_defs)
qed

end
