(* ===== verification/Ledger_Examples.thy ===== *)
theory Ledger_Examples
  imports Ledger_System
begin

text \<open>
  Worked examples: a small ledger driven through the operations of \<open>src/storage.rs\<close>, each step a
  run of the model, and the theorems of the ledger applied to it. Every hypothesis of a theorem is
  discharged by evaluating the definitions.
\<close>

subsection \<open>A ledger with one delivery in flight\<close>

definition ex_os :: os_env where
  "ex_os = \<lparr>os_signal0 = (\<lambda>pid. pid = 7), os_killpg = (\<lambda>_. True),
     os_identity = (\<lambda>pid. if pid = 900 then Some ''i'' else None), os_debug = (\<lambda>s. s)\<rparr>"

definition ex_context :: claim_context where
  "ex_context = \<lparr>cc_repositories = [''a/b''], cc_runtimes = (\<lambda>_. Some ''codex''),
     cc_owner_id = ''d'', cc_owner_pid = 7, cc_workdirs = (\<lambda>_. Some ''/s''),
     cc_allow_new_tickets = True\<rparr>"

definition ex_identity :: task_identity where
  "ex_identity = Ticket ''a/b'' ''w'' ''42'' ''r''"

definition ex_no_json :: "string \<Rightarrow> json option" where
  "ex_no_json _ = None"

text \<open>The rows: a ticket task and the run of the daemon that claimed it.\<close>

definition ex_task :: "task_state \<Rightarrow> int \<Rightarrow> task" where
  "ex_task s now = \<lparr>t_id = 1, t_identity_key = ''ticket:3:a/b:1:w:2:42:1:r'', t_kind = ''ticket'',
     t_repository = ''a/b'', t_workflow = ''w'', t_source_item = Some ''42'', t_payload = None,
     t_state = s, t_created_at = 1001, t_updated_at = now, t_recovery_source_run_id = None\<rparr>"

definition ex_new_run :: run where
  "ex_new_run = \<lparr>r_id = 1, r_task_id = 1, r_workflow = ''w'', r_repository = ''a/b'',
     r_source_item = Some ''42'', r_runtime = ''codex'', r_started_at = 1002, r_finished_at = None,
     r_outcome = run_outcome.Running, r_result = None, r_error = None, r_session_id = None,
     r_cancellation_requested_at = None, r_owner_pid = Some 7, r_owner_id = Some ''d'',
     r_process_id = None, r_process_identity = None, r_pull_request = None, r_last_activity_at = 1002,
     r_activity = None, r_working_directory = Some ''/s'', r_recovery_of = None, r_recovery_attempt = 0,
     r_base_branch = None, r_base_sha = None, r_factory_branch = None, r_workspace_kind = None,
     r_agent_profile = None, r_model = None, r_reasoning_effort = None, r_service_tier = None\<rparr>"

definition ex_run :: run where
  "ex_run = ex_new_run\<lparr>r_process_id := Some 900, r_process_identity := Some ''i'', r_last_activity_at := 1003\<rparr>"

definition ex_ledger :: "task list \<Rightarrow> run list \<Rightarrow> ledger" where
  "ex_ledger ts rs = empty_ledger\<lparr>tasks := ts, runs := rs,
     daemon_owners := [\<lparr>do_owner_id = ''d'', do_pid = 7, do_heartbeat_at = 1000\<rparr>]\<rparr>"

text \<open>A daemon registers, a ticket is enqueued, the daemon claims it and its agent starts.\<close>

definition ex_registered :: ledger where "ex_registered = ex_ledger [] []"
definition ex_queued :: ledger where "ex_queued = ex_ledger [ex_task task_state.Queued 1001] []"
definition ex_claimed :: ledger where
  "ex_claimed = ex_ledger [ex_task task_state.Running 1002] [ex_new_run]"
definition ex_running :: ledger where
  "ex_running = ex_ledger [ex_task task_state.Running 1002] [ex_run]"

lemmas ex_rows = ex_registered_def ex_queued_def ex_claimed_def ex_running_def ex_ledger_def
  empty_ledger_def ex_task_def ex_run_def ex_new_run_def

lemma ex_register_step: "register_daemon_owner ''d'' 7 1000 empty_ledger = Inr ex_registered"
  by code_simp

lemma ex_enqueue_step:
  "enqueue_with_payload ex_identity None 1001 ex_registered =
     Inr (\<lparr>enq_task = ex_task task_state.Queued 1001, enq_created = True\<rparr>, ex_queued)"
  by code_simp

lemma ex_claim_step:
  "claim_and_start_run ex_no_json ex_context 1002 ex_queued
     = Inr (Some (ex_task task_state.Running 1002, ex_new_run), ex_claimed)"
  by code_simp

lemma ex_observe_step:
  "observe_run (\<lambda>s. s) 1 (Some 900) (Some ''i'') None None None 1003 ex_claimed = Inr ex_running"
  by (simp add: observe_run_def update_running_run_def count_where_def update_where_def ex_rows)

lemma ex_reach_queued: "ledger_step\<^sup>*\<^sup>* empty_ledger ex_queued"
  using ledger_step.work_step [OF work_step.register [OF ex_register_step]]
    ledger_step.work_step [OF work_step.enqueue [OF ex_enqueue_step]]
  by (meson converse_rtranclp_into_rtranclp rtranclp.rtrancl_refl)

lemma ex_reach_claimed: "ledger_step\<^sup>*\<^sup>* empty_ledger ex_claimed"
  using ex_reach_queued ledger_step.work_step [OF work_step.claim [OF ex_claim_step]]
  by (rule rtranclp.rtrancl_into_rtrancl)

lemma ex_start_step: "ledger_step ex_claimed ex_running"
  by (rule ledger_step.work_step) (rule work_step.observe [where sanitize = "\<lambda>s. s", OF ex_observe_step])

lemma ex_reach: "ledger_step\<^sup>*\<^sup>* empty_ledger ex_running"
  using ex_reach_claimed ex_start_step by (rule rtranclp.rtrancl_into_rtrancl)

lemmas ex_queued_inv = sys.inv_reachable [OF refl ex_reach_queued]
lemmas ex_running_inv = sys.inv_reachable [OF refl ex_reach]

lemma ex_run_in: "ex_run \<in> set (runs ex_running)" "r_outcome ex_run = run_outcome.Running"
  by code_simp+

subsection \<open>The theorems applied\<close>

theorem reachable_ledger_sound_witness:
  "\<exists>t\<in>set (tasks ex_running). t_id t = r_task_id ex_run \<and> t_state t = task_state.Running"
  using reachable_ledger_sound [OF ex_reach] ex_run_in by blast

theorem run_history_monotone_witness:
  "\<exists>r\<in>set (runs ex_running). r_id r = 1"
proof -
  have steps: "ledger_step\<^sup>*\<^sup>* ex_claimed ex_running"
    using rtranclp.rtrancl_refl ex_start_step by (rule rtranclp.rtrancl_into_rtrancl)
  have "ex_new_run \<in> set (runs ex_claimed)" "r_id ex_new_run = 1" by code_simp+
  with run_history_monotone [OF sys.inv_reachable [OF refl ex_reach_claimed] steps] show ?thesis by metis
qed

definition ex_cancelling :: ledger where
  "ex_cancelling = ex_ledger [ex_task task_state.Running 1002]
     [ex_run\<lparr>r_cancellation_requested_at := Some 1005\<rparr>]"

definition ex_finished_run :: run where
  "ex_finished_run = ex_run\<lparr>r_cancellation_requested_at := Some 1005, r_finished_at := Some 1006,
     r_outcome := run_outcome.Cancelled, r_error := Some cancellation_error\<rparr>"

definition ex_finished :: ledger where
  "ex_finished = ex_ledger [ex_task task_state.Cancelled 1007] [ex_finished_run]"

text \<open>The worker reports success after the operator cancelled: the run ends cancelled.\<close>

theorem cancellation_wins_witness:
  "\<exists>r\<in>set (runs ex_finished). r_id r = 1
    \<and> (r_outcome r = run_outcome.Running \<or> r_outcome r = run_outcome.Cancelled)"
proof -
  have req: "request_run_cancellation ex_os 1 1004 1005 ex_running
      = Inr (Requested (ex_run\<lparr>r_cancellation_requested_at := Some 1005\<rparr>), ex_cancelling)"
    by (simp add: request_run_cancellation_def query_run_def find_where_def run_owner_is_live_def
        owner_lease_live_def exists_where_def process_is_alive_def saturating_sub_def i64_min_def
        i64_max_def DAEMON_OWNER_LEASE_MILLIS_def update_where_def ex_os_def ex_cancelling_def ex_rows)
  have "finish_run_and_task_with_recovery (\<lambda>s. s) 1 run_outcome.Succeeded None None None True
      1006 1007 ex_cancelling = Inr (ex_finished_run, ex_finished)"
    by (simp add: finish_run_and_task_with_recovery_def find_where_def final_outcome_def final_error_def
        retry_recovery_def close_attempt_def update_where_def record_terminal_def move_task_def
        count_where_def query_run_def ex_cancelling_def ex_finished_def ex_finished_run_def ex_rows)
  then have "work_step\<^sup>*\<^sup>* ex_cancelling ex_finished" by (blast intro: work_step.finish)
  from cancellation_wins [OF ex_running_inv req this] show ?thesis by blast
qed

theorem claim_takes_oldest_witness:
  "\<exists>c\<in>set (tasks ex_queued). t_state c = task_state.Queued
     \<and> claimable ex_no_json ex_context ex_queued c"
  using claim_takes_oldest [OF ex_queued_inv ex_claim_step] by blast


theorem claim_one_worker_per_ticket_witness:
  "\<not> (\<exists>t\<in>set (tasks ex_queued). t_kind t = ''ticket'' \<and> t_state t = task_state.Running
     \<and> t_repository t = t_repository (ex_task task_state.Running 1002) \<and> t_source_item t = Some ''42'')"
proof -
  have "t_kind (ex_task task_state.Running 1002) = ''ticket''" "t_source_item (ex_task task_state.Running 1002) = Some ''42''"
    by code_simp+
  from claim_one_worker_per_ticket [OF ex_claim_step this ex_queued_inv] show ?thesis .
qed

theorem finish_run_spec_witness:
  "\<exists>run db'. finish_run_and_task_with_recovery (\<lambda>s. s) (r_id ex_run) run_outcome.Failed None None None
      True 1004 1005 ex_running = Inr (run, db') \<and> r_outcome run = run_outcome.Failed
      \<and> (\<exists>t\<in>set (tasks db'). t_state t = task_state.Queued)"
proof -
  have "r_cancellation_requested_at ex_run = None" "r_process_id ex_run \<noteq> None"
      "r_recovery_attempt ex_run < MAX_RECOVERY_ATTEMPTS" by code_simp+
  with finish_run_spec [OF ex_running_inv ex_run_in, of run_outcome.Failed "\<lambda>s. s" None None None True 1004 1005]
  show ?thesis by (force simp: requeue_task_def)
qed

subsection \<open>Recovery\<close>

text \<open>Sixty seconds later the daemon is gone; another one recovers its run.\<close>

definition ex_recovered :: ledger where
  "ex_recovered = ex_ledger [(ex_task task_state.Queued 61001)\<lparr>t_recovery_source_run_id := Some 1\<rparr>]
     [ex_run\<lparr>r_outcome := run_outcome.Failed, r_finished_at := Some 61001, r_error := Some interrupted_error\<rparr>]"

lemma ex_recover_step:
  "recover_orphaned_runs_matching ex_os (Some ''a/b'') 61000 (\<lambda>_. 61001) ex_running
     = Inr (\<lparr>ra_recovered = [1], ra_exhausted = [], ra_unresolved = [], ra_signalled = [900]\<rparr>, ex_recovered)"
  by (simp add: recover_orphaned_runs_matching_def active_runs_def recover_run_def run_owner_is_live_def
      owner_lease_live_def exists_where_def saturating_sub_def i64_min_def i64_max_def query_task_def
      find_where_def DAEMON_OWNER_LEASE_MILLIS_def close_orphan_def orphan_process_def
      terminate_orphaned_process_group_def close_attempt_def update_where_def close_orphan_run_def
      settle_orphan_task_def report_orphan_def empty_recovery_def requeue_task_def orphan_outcome_def
      MAX_RECOVERY_ATTEMPTS_def ex_os_def ex_recovered_def ex_rows)

theorem recovery_pass_spec_witness:
  "\<exists>x\<in>set (runs ex_recovered). r_id x = 1 \<and> r_outcome x = run_outcome.Failed"
proof -
  have s: "orphan_settled ex_os (Some ''a/b'') 61000 ex_running ex_run ex_recovered"
    using recovery_pass_spec [OF ex_running_inv ex_recover_step] ex_run_in by blast
  have "\<not> run_owner_is_live ex_os ex_run 61000 ex_running" "\<not> foreign_run (Some ''a/b'') ex_run"
      "r_id ex_run = 1" "orphan_outcome ex_run = run_outcome.Failed" by code_simp+
  with s show ?thesis by (auto simp: orphan_settled_def)
qed

theorem recovery_signals_only_owned_processes_witness:
  "\<exists>r\<in>set (runs ex_running). r_process_id r = Some 900 \<and> os_identity ex_os 900 = r_process_identity r"
proof -
  have "900 \<in> set (ra_signalled \<lparr>ra_recovered = [1], ra_exhausted = [], ra_unresolved = [], ra_signalled = [900]\<rparr>)"
    by simp
  from recovery_signals_only_owned_processes [OF ex_recover_step this] show ?thesis by blast
qed

theorem recovery_completes_witness:
  "\<exists>acc db'. recover_orphaned_runs_matching ex_os None 61000 (\<lambda>_. 61001) ex_running = Inr (acc, db')"
proof (rule recovery_completes)
  show "\<forall>r\<in>set (runs ex_running). \<forall>pid. r_outcome r = run_outcome.Running
      \<and> orphan_process ex_os r = Some pid \<longrightarrow> terminate_orphaned_process_group ex_os pid"
    by (auto simp: orphan_process_def terminate_orphaned_process_group_def ex_os_def
        split: option.splits if_splits)
qed

subsection \<open>A failed launch forgets a cancellation\<close>

text \<open>
  An accepted cancellation is lost when the launch then fails: the operation that records the
  failed launch ends the run as failed and puts its task back in the queue, where the same daemon
  may claim it at once, although the operator was told that the cancellation was requested.
  Completion and recovery both honour the request; this operation does not read it.
\<close>

theorem prelaunch_failure_drops_cancellation:
  "\<exists>db1 run db2. request_run_cancellation ex_os 1 1004 1005 ex_claimed
       = Inr (Requested (ex_new_run\<lparr>r_cancellation_requested_at := Some 1005\<rparr>), db1)
     \<and> fail_prelaunch_and_requeue (\<lambda>s. s) 1 [] 1006 db1 = Inr (run, db2)
     \<and> r_cancellation_requested_at run = Some 1005 \<and> r_outcome run = run_outcome.Failed
     \<and> map t_state (tasks db2) = [task_state.Queued]
     \<and> list_all (claimable ex_no_json ex_context db2) (queued_tasks db2)"
proof -
  obtain r where r: "r = ex_new_run\<lparr>r_cancellation_requested_at := Some 1005\<rparr>" by blast
  obtain db1 where db1: "db1 = ex_ledger [ex_task task_state.Running 1002] [r]" by blast
  obtain r2 where r2: "r2 = r\<lparr>r_outcome := run_outcome.Failed, r_finished_at := Some 1006, r_error := Some []\<rparr>"
    by blast
  obtain db2 where db2: "db2 = ex_ledger
      [(ex_task task_state.Queued 1006)\<lparr>t_recovery_source_run_id := Some 1\<rparr>] [r2]" by blast
  have "request_run_cancellation ex_os 1 1004 1005 ex_claimed = Inr (Requested r, db1)"
    by (simp add: request_run_cancellation_def query_run_def find_where_def run_owner_is_live_def
        owner_lease_live_def exists_where_def process_is_alive_def saturating_sub_def i64_min_def
        i64_max_def DAEMON_OWNER_LEASE_MILLIS_def update_where_def ex_os_def r db1 ex_rows)
  moreover have "fail_prelaunch_and_requeue (\<lambda>s. s) 1 [] 1006 db1 = Inr (r2, db2)"
    by (simp add: fail_prelaunch_and_requeue_def truncate_utf8_def find_where_def close_attempt_def
        update_where_def requeue_task_def count_where_def query_run_def MAX_RECOVERY_ATTEMPTS_def
        db1 r r2 db2 ex_rows)
  moreover have "list_all (claimable ex_no_json ex_context db2) (queued_tasks db2)"
    by (simp add: db2 queued_tasks_def claim_order_def claimable_def running_ticket_source_def
        exists_where_def ex_context_def ex_rows)
  ultimately show ?thesis unfolding r [symmetric] by (intro exI [of _ db1] exI [of _ r2] exI [of _ db2])
      (simp add: r2 r db2 ex_rows)
qed

end
