(* ===== verification/Register_Examples.thy ===== *)
theory Register_Examples
  imports Ledger_System
begin

text \<open>
  Worked examples for the other tables of the ledger: schedules, change-request events and
  continuations, approval reservations, workspaces, poll status. Each applies a theorem at a
  concrete ledger where its hypotheses hold.
\<close>

lemma ex_not_blank: "\<not> blank ''a''" "\<not> blank ''s''" "\<not> blank ''w''" "\<not> blank ''100''"
  by code_simp+

subsection \<open>Schedules\<close>

definition ex_scheduled :: ledger where
  "ex_scheduled = empty_ledger\<lparr>schedule_cursors :=
     [\<lparr>sc_repository = ''a'', sc_workflow = ''s'', sc_fingerprint = ''f'', sc_next_due_at = 100,
       sc_updated_at = 1\<rparr>]\<rparr>"

definition ex_fire :: "int \<Rightarrow> ledger \<Rightarrow> ledger_error + (enqueued_task option \<times> ledger)" where
  "ex_fire next_due db = enqueue_scheduled_occurrence (\<lambda>_. Some (JObject [])) (\<lambda>_. ''{}'')
     (Scheduled ''a'' ''s'' ''100'') ''{}'' ''f'' 100 next_due 101 db"

lemma ex_fires: "\<exists>e db'. ex_fire 200 ex_scheduled = Inr (Some e, db')"
  by (simp add: ex_fire_def enqueue_scheduled_occurrence_def identity_validate_def ex_not_blank
      occurrence_payload_def query_cursor_def find_where_def cursor_of_def ex_scheduled_def
      empty_ledger_def insert_task_or_ignore_def exists_where_def query_task_by_key_def
      count_where_def del: identity_key.simps)

theorem occurrence_fires_once_witness:
  "\<exists>e db'. ex_fire 200 ex_scheduled = Inr (Some e, db') \<and> query_cursor ''a'' ''s'' db' = Some (''f'', 200)"
proof -
  obtain e db' where fire: "ex_fire 200 ex_scheduled = Inr (Some e, db')" using ex_fires by blast
  from occurrence_fires_once [OF fire [unfolded ex_fire_def]] fire show ?thesis by blast
qed

subsection \<open>Change-request events\<close>

definition ex_key :: event_key where
  "ex_key = (''a'', ''t'', replicate 64 (CHR ''0''))"

definition ex_event :: pr_event where
  "ex_event = \<lparr>pv_repository = ''a'', pv_task_gid = ''t'', pv_fingerprint = replicate 64 (CHR ''0''),
     pv_state = AsanaApplied, pv_observed_at = 1, pv_claimed_at = Some 2, pv_applied_at = Some 3,
     pv_consumed_at = None\<rparr>"

definition ex_events :: "pr_event_state \<Rightarrow> ledger" where
  "ex_events s = empty_ledger\<lparr>autonomous_pull_request_events := [ex_event\<lparr>pv_state := s\<rparr>]\<rparr>"

lemma ex_event_key: "event_key (ex_event\<lparr>pv_state := s\<rparr>) = ex_key"
  by (simp add: event_key_def ex_event_def ex_key_def)

theorem claims_respect_lease_witness:
  "sorted_wrt (\<lambda>a b. a + PULL_REQUEST_CLAIM_LEASE_MILLIS \<le> b)
     (map snd (filter (\<lambda>c. fst c = ex_key) (claim_all [(ex_key, 10), (ex_key, 20), (ex_key, 60010)]
       (ex_events Observed))))"
  by (rule claims_respect_lease) (simp_all add: events_unique_def ex_events_def empty_ledger_def
      unique_key_def clock_ok_def i64_max_def)

theorem event_never_undone_witness:
  "\<exists>s'. pull_request_event_state ex_key
     (mark_pull_request_event_asana_applied ex_key 5 (ex_events AsanaApplied)) = Some s' \<and> AsanaApplied \<le> s'"
proof (rule event_never_undone)
  show "pr_event_step\<^sup>*\<^sup>* (ex_events AsanaApplied)
      (mark_pull_request_event_asana_applied ex_key 5 (ex_events AsanaApplied))"
    by (blast intro: pr_event_step.step_mark)
  show "pull_request_event_state ex_key (ex_events AsanaApplied) = Some AsanaApplied"
    by (simp add: pull_request_event_state_def query_event_def find_where_def ex_events_def
        empty_ledger_def ex_event_key)
qed simp

theorem continuations_stay_bounded_witness:
  "continuations_of ''a'' ''t'' (mark_pull_request_event_asana_applied ex_key 5 (ex_events Claimed)) \<le> 3"
proof (rule continuations_stay_bounded)
  show "continuations_bounded (ex_events Claimed)"
    by (simp add: continuations_bounded_def continuations_of_def count_where_def ex_events_def empty_ledger_def)
  show "pr_event_step\<^sup>*\<^sup>* (ex_events Claimed) (mark_pull_request_event_asana_applied ex_key 5 (ex_events Claimed))"
    by (blast intro: pr_event_step.step_mark)
qed

subsection \<open>Approvals and workspaces\<close>

theorem reservation_exclusive_witness:
  "\<exists>db'. reserve_issue_approval ''a'' 4 ''x'' 100 101 empty_ledger = Inr db'
     \<and> issue_approval_is_reserved ''a'' 4 101 db'"
proof -
  have "\<exists>db'. reserve_issue_approval ''a'' 4 ''x'' 100 101 empty_ledger = Inr db'"
    by (simp add: reserve_issue_approval_def has_active_ticket_task_def exists_where_def delete_where_def
        empty_ledger_def)
  then obtain db' where r: "reserve_issue_approval ''a'' 4 ''x'' 100 101 empty_ledger = Inr db'" by blast
  from reservation_exclusive [OF r] r show ?thesis by blast
qed

definition ex_workspace :: task_workspace where
  "ex_workspace = \<lparr>w_task_id = 1, w_kind = ''delivery'', w_backend = ''worktree'', w_repository = ''a'',
     w_base_branch = ''main'', w_base_sha = ''0'', w_factory_branch = Some ''b'', w_path = ''/w'',
     w_state = ''ready'', w_status_summary = None, w_created_at = 1, w_updated_at = 1, w_cleaned_at = None\<rparr>"

definition ex_workspaces :: ledger where
  "ex_workspaces = empty_ledger\<lparr>task_workspaces := [ex_workspace]\<rparr>"


theorem record_poll_status_spec_witness:
  "\<exists>db'. record_poll_status (\<lambda>s. s) ''a'' ''w'' ''succeeded'' 1 1 None 5 empty_ledger = Inr db'
     \<and> status_shape db'"
proof -
  have "\<exists>db'. record_poll_status (\<lambda>s. s) ''a'' ''w'' ''succeeded'' 1 1 None 5 empty_ledger = Inr db'"
    by (simp add: record_poll_status_def ex_not_blank)
  then obtain db' where r: "record_poll_status (\<lambda>s. s) ''a'' ''w'' ''succeeded'' 1 1 None 5 empty_ledger = Inr db'"
    by blast
  have "status_shape empty_ledger" by (simp add: status_shape_def empty_ledger_def unique_key_def)
  from record_poll_status_spec [OF this r] r show ?thesis by blast
qed

end
