(* ===== verification/Ledger_Schema.thy ===== *)
theory Ledger_Schema
  imports Ledger_Data
begin

text \<open>
  The schema of the ledger database (\<open>src/storage.rs\<close>): the fifteen migrations as data, statement by
  statement, the schema a statement list builds, and the migration of an existing database. The
  constraints written here are the ones the table operations of the other ledger theories
  enforce; the last section ties the two together. \<open>configure_wal\<close> is the retry loop that puts
  the database in write-ahead mode before it is migrated; the answers of SQLite are its argument.
\<close>

subsection \<open>Statements\<close>

datatype column_type = Integer | Text

datatype column_constraint =
    NotNull | PrimaryKey | UniqueColumn
  | OneOf "string list"          \<comment> \<open>\<open>CHECK (column IN \<dots>)\<close>\<close>
  | DefaultText string | DefaultInt nat
  | References string string | ReferencesCascade string string

datatype column = Column string column_type "column_constraint list"

datatype table_constraint = TablePrimaryKey "string list" | TableUnique "string list"

datatype row_condition = IsNotNull string | Differs string string | Among string "string list"

datatype statement =
    CreateTable bool string "column list" "table_constraint list"  \<comment> \<open>flag: \<open>IF NOT EXISTS\<close>\<close>
  | AddColumn string column
  | CreateIndex bool bool string string "string list" "row_condition list"
      \<comment> \<open>unique, \<open>IF NOT EXISTS\<close>, index, table, columns, \<open>WHERE\<close> conjuncts\<close>
  | Backfill string string string  \<comment> \<open>fill a column from another where it is \<open>NULL\<close>\<close>
  | RecordMigration bool nat       \<comment> \<open>flag: \<open>OR IGNORE\<close>\<close>
  | SetVersion nat

definition SCHEMA_VERSION :: nat where "SCHEMA_VERSION = 15"

definition migrate_v1 :: "statement list" where
  "migrate_v1 =
    [CreateTable True ''schema_migrations''
       [Column ''version'' Integer [PrimaryKey],
        Column ''applied_at'' Integer [NotNull]]
       [],
     CreateTable True ''tasks''
       [Column ''id'' Integer [PrimaryKey],
        Column ''identity_key'' Text [NotNull, UniqueColumn],
        Column ''kind'' Text [NotNull, OneOf [''ticket'', ''scheduled'']],
        Column ''repository'' Text [NotNull],
        Column ''workflow'' Text [NotNull],
        Column ''source_item'' Text [],
        Column ''state'' Text [NotNull, OneOf [''queued'', ''running'', ''succeeded'', ''failed'', ''cancelled'']],
        Column ''created_at'' Integer [NotNull],
        Column ''updated_at'' Integer [NotNull]]
       [],
     CreateIndex False True ''tasks_state_created_idx'' ''tasks''
       [''state'', ''created_at'', ''id''] [],
     CreateTable True ''runs''
       [Column ''id'' Integer [PrimaryKey],
        Column ''task_id'' Integer [NotNull, References ''tasks'' ''id''],
        Column ''workflow'' Text [NotNull],
        Column ''repository'' Text [NotNull],
        Column ''source_item'' Text [],
        Column ''runtime'' Text [NotNull],
        Column ''started_at'' Integer [NotNull],
        Column ''finished_at'' Integer [],
        Column ''outcome'' Text [NotNull, OneOf [''running'', ''succeeded'', ''failed'', ''cancelled'']],
        Column ''result'' Text [],
        Column ''error'' Text [],
        Column ''session_id'' Text []]
       [],
     CreateIndex False True ''runs_task_idx'' ''runs''
       [''task_id'', ''id''] [],
     CreateIndex True True ''runs_one_active_per_task_idx'' ''runs''
       [''task_id''] [Among ''outcome'' [''running'']],
     RecordMigration True 1,
     SetVersion 1]"

definition migrate_v2 :: "statement list" where
  "migrate_v2 =
    [AddColumn ''tasks'' (Column ''payload'' Text []),
     CreateTable False ''trigger_observations''
       [Column ''repository'' Text [NotNull],
        Column ''workflow'' Text [NotNull],
        Column ''source_item'' Text [NotNull],
        Column ''revision'' Text [NotNull],
        Column ''eligible'' Integer [NotNull, OneOf [''0'', ''1'']],
        Column ''payload'' Text [NotNull],
        Column ''observed_at'' Integer [NotNull]]
       [TablePrimaryKey [''repository'', ''workflow'', ''source_item'']],
     RecordMigration False 2,
     SetVersion 2]"

definition migrate_v3 :: "statement list" where
  "migrate_v3 =
    [AddColumn ''runs'' (Column ''cancellation_requested_at'' Integer []),
     AddColumn ''runs'' (Column ''owner_pid'' Integer []),
     AddColumn ''runs'' (Column ''owner_id'' Text []),
     CreateTable False ''daemon_owners''
       [Column ''owner_id'' Text [PrimaryKey],
        Column ''pid'' Integer [NotNull],
        Column ''heartbeat_at'' Integer [NotNull]]
       [],
     RecordMigration False 3,
     SetVersion 3]"

definition migrate_v4 :: "statement list" where
  "migrate_v4 =
    [AddColumn ''tasks'' (Column ''recovery_source_run_id'' Integer [References ''runs'' ''id'']),
     AddColumn ''runs'' (Column ''process_id'' Integer []),
     AddColumn ''runs'' (Column ''process_identity'' Text []),
     AddColumn ''runs'' (Column ''pull_request'' Text []),
     AddColumn ''runs'' (Column ''last_activity_at'' Integer []),
     AddColumn ''runs'' (Column ''activity'' Text []),
     AddColumn ''runs'' (Column ''working_directory'' Text []),
     AddColumn ''runs'' (Column ''recovery_of'' Integer [References ''runs'' ''id'']),
     AddColumn ''runs'' (Column ''recovery_attempt'' Integer [NotNull, DefaultInt 0]),
     Backfill ''runs'' ''last_activity_at'' ''started_at'',
     RecordMigration False 4,
     SetVersion 4]"

definition migrate_v5 :: "statement list" where
  "migrate_v5 =
    [CreateTable False ''schedule_cursors''
       [Column ''repository'' Text [NotNull],
        Column ''workflow'' Text [NotNull],
        Column ''fingerprint'' Text [NotNull],
        Column ''next_due_at'' Integer [NotNull],
        Column ''updated_at'' Integer [NotNull]]
       [TablePrimaryKey [''repository'', ''workflow'']],
     CreateTable False ''schedule_owners''
       [Column ''repository'' Text [NotNull],
        Column ''workflow'' Text [NotNull],
        Column ''owner_id'' Text [NotNull, ReferencesCascade ''daemon_owners'' ''owner_id''],
        Column ''fingerprint'' Text [NotNull]]
       [TablePrimaryKey [''repository'', ''workflow'', ''owner_id'']],
     RecordMigration False 5,
     SetVersion 5]"

definition migrate_v6 :: "statement list" where
  "migrate_v6 =
    [CreateTable False ''approval_consumptions''
       [Column ''artifact_id'' Integer [PrimaryKey],
        Column ''label_event_id'' Integer [NotNull, UniqueColumn],
        Column ''task_id'' Integer [NotNull, UniqueColumn, References ''tasks'' ''id''],
        Column ''approver_id'' Integer [NotNull],
        Column ''content_hash'' Text [NotNull],
        Column ''workflow_hash'' Text [NotNull],
        Column ''source_revision'' Text [NotNull],
        Column ''consumed_at'' Integer [NotNull]]
       [],
     CreateTable False ''approval_reservations''
       [Column ''repository'' Text [NotNull],
        Column ''issue'' Integer [NotNull],
        Column ''reservation_id'' Text [NotNull],
        Column ''created_at'' Integer [NotNull]]
       [TablePrimaryKey [''repository'', ''issue''], TableUnique [''reservation_id'']],
     RecordMigration False 6,
     SetVersion 6]"

definition migrate_v7 :: "statement list" where
  "migrate_v7 =
    [AddColumn ''runs'' (Column ''base_branch'' Text []),
     AddColumn ''runs'' (Column ''base_sha'' Text []),
     AddColumn ''runs'' (Column ''factory_branch'' Text []),
     AddColumn ''runs'' (Column ''workspace_kind'' Text []),
     CreateTable False ''task_workspaces''
       [Column ''task_id'' Integer [PrimaryKey, References ''tasks'' ''id''],
        Column ''kind'' Text [NotNull, OneOf [''delivery'', ''proposal'']],
        Column ''repository'' Text [NotNull],
        Column ''base_branch'' Text [NotNull],
        Column ''base_sha'' Text [NotNull],
        Column ''factory_branch'' Text [],
        Column ''path'' Text [NotNull],
        Column ''state'' Text [NotNull, OneOf [''preparing'', ''ready'', ''retained'', ''cleanup_pending'', ''cleaned'']],
        Column ''status_summary'' Text [],
        Column ''created_at'' Integer [NotNull],
        Column ''updated_at'' Integer [NotNull],
        Column ''cleaned_at'' Integer []]
       [],
     CreateIndex True False ''task_workspaces_active_branch_idx'' ''task_workspaces''
       [''factory_branch''] [IsNotNull ''factory_branch'', Differs ''state'' ''cleaned''],
     CreateIndex True False ''task_workspaces_active_path_idx'' ''task_workspaces''
       [''path''] [Differs ''state'' ''cleaned''],
     RecordMigration False 7,
     SetVersion 7]"

definition migrate_v8 :: "statement list" where
  "migrate_v8 =
    [AddColumn ''runs'' (Column ''effect'' Text []),
     AddColumn ''runs'' (Column ''workflow_hash'' Text []),
     AddColumn ''runs'' (Column ''policy_json'' Text []),
     AddColumn ''runs'' (Column ''context_token_hash'' Text []),
     AddColumn ''runs'' (Column ''disposition'' Text []),
     AddColumn ''runs'' (Column ''handoff_json'' Text []),
     CreateTable False ''run_effects''
       [Column ''id'' Integer [PrimaryKey],
        Column ''requested_run_id'' Integer [],
        Column ''run_id'' Integer [References ''runs'' ''id''],
        Column ''action'' Text [NotNull],
        Column ''effect'' Text [],
        Column ''idempotency_key'' Text [],
        Column ''payload_version'' Integer [],
        Column ''payload_hash'' Text [],
        Column ''outcome'' Text [NotNull, OneOf [''pending'', ''applied'', ''rejected'', ''failed'']],
        Column ''external_ref'' Text [],
        Column ''detail'' Text [NotNull],
        Column ''created_at'' Integer [NotNull],
        Column ''updated_at'' Integer [NotNull]]
       [],
     CreateIndex False False ''run_effects_run_idx'' ''run_effects''
       [''run_id'', ''id''] [],
     CreateIndex True False ''run_effects_idempotency_idx'' ''run_effects''
       [''run_id'', ''action'', ''idempotency_key''] [IsNotNull ''run_id'', IsNotNull ''idempotency_key'', Among ''outcome'' [''pending'', ''applied'']],
     RecordMigration False 8,
     SetVersion 8]"

definition migrate_v9 :: "statement list" where
  "migrate_v9 =
    [CreateTable False ''project_claims''
       [Column ''task_id'' Integer [PrimaryKey, References ''tasks'' ''id''],
        Column ''project_id'' Text [NotNull],
        Column ''project_item_id'' Text [NotNull],
        Column ''status_field_id'' Text [NotNull],
        Column ''expected_option_id'' Text [NotNull],
        Column ''active_option_id'' Text [NotNull],
        Column ''claimed_at'' Integer [NotNull]]
       [],
     RecordMigration False 9,
     SetVersion 9]"

definition migrate_v10 :: "statement list" where
  "migrate_v10 =
    [AddColumn ''task_workspaces'' (Column ''backend'' Text [NotNull, DefaultText ''worktree'', OneOf [''worktree'', ''clone'']]),
     CreateTable False ''run_containers''
       [Column ''run_id'' Integer [PrimaryKey, References ''runs'' ''id''],
        Column ''container_id'' Text [NotNull, UniqueColumn],
        Column ''instance_id'' Text [NotNull],
        Column ''image_ref'' Text [NotNull],
        Column ''image_id'' Text [NotNull],
        Column ''limits_json'' Text [NotNull],
        Column ''state'' Text [NotNull],
        Column ''exit_code'' Integer [],
        Column ''logs'' Text [],
        Column ''created_at'' Integer [NotNull],
        Column ''updated_at'' Integer [NotNull],
        Column ''removed_at'' Integer []]
       [],
     CreateIndex False False ''run_containers_instance_state_idx'' ''run_containers''
       [''instance_id'', ''state'', ''run_id''] [],
     RecordMigration False 10,
     SetVersion 10]"

definition migrate_v11 :: "statement list" where
  "migrate_v11 =
    [CreateTable False ''run_sandboxes''
       [Column ''run_id'' Integer [PrimaryKey, References ''runs'' ''id''],
        Column ''sandbox_name'' Text [NotNull, UniqueColumn],
        Column ''instance_id'' Text [NotNull],
        Column ''template_ref'' Text [NotNull],
        Column ''sbx_version'' Text [NotNull],
        Column ''limits_json'' Text [NotNull],
        Column ''state'' Text [NotNull],
        Column ''exit_code'' Integer [],
        Column ''logs'' Text [],
        Column ''created_at'' Integer [NotNull],
        Column ''updated_at'' Integer [NotNull],
        Column ''removed_at'' Integer []]
       [],
     CreateIndex False False ''run_sandboxes_instance_state_idx'' ''run_sandboxes''
       [''instance_id'', ''state'', ''run_id''] [],
     RecordMigration False 11,
     SetVersion 11]"

definition migrate_v12 :: "statement list" where
  "migrate_v12 =
    [CreateTable False ''repository_health''
       [Column ''repository'' Text [PrimaryKey],
        Column ''state'' Text [NotNull, OneOf [''loading'', ''healthy'', ''backing_off'', ''rate_limited'', ''invalid_config'', ''unavailable'', ''disabled'']],
        Column ''validation_error'' Text [],
        Column ''consecutive_failures'' Integer [NotNull],
        Column ''next_retry_at'' Integer [],
        Column ''updated_at'' Integer [NotNull]]
       [],
     CreateTable False ''poll_status''
       [Column ''repository'' Text [NotNull],
        Column ''workflow'' Text [NotNull],
        Column ''outcome'' Text [NotNull, OneOf [''succeeded'', ''failed'']],
        Column ''issues_seen'' Integer [NotNull],
        Column ''tasks_created'' Integer [NotNull],
        Column ''error'' Text [],
        Column ''polled_at'' Integer [NotNull]]
       [TablePrimaryKey [''repository'', ''workflow'']],
     RecordMigration False 12,
     SetVersion 12]"

definition migrate_v13 :: "statement list" where
  "migrate_v13 =
    [CreateTable False ''autonomous_pull_requests''
       [Column ''repository'' Text [NotNull],
        Column ''task_gid'' Text [NotNull],
        Column ''pull_request'' Text [NotNull],
        Column ''associated_at'' Integer [NotNull]]
       [TablePrimaryKey [''repository'', ''task_gid''], TableUnique [''repository'', ''pull_request'']],
     CreateTable False ''autonomous_pull_request_events''
       [Column ''repository'' Text [NotNull],
        Column ''task_gid'' Text [NotNull],
        Column ''fingerprint'' Text [NotNull],
        Column ''state'' Text [NotNull, OneOf [''observed'', ''claimed'', ''asana_applied'', ''consumed'']],
        Column ''observed_at'' Integer [NotNull],
        Column ''claimed_at'' Integer [],
        Column ''applied_at'' Integer [],
        Column ''consumed_at'' Integer []]
       [TablePrimaryKey [''repository'', ''task_gid'', ''fingerprint'']],
     RecordMigration False 13,
     SetVersion 13]"

definition migrate_v14 :: "statement list" where
  "migrate_v14 =
    [CreateTable False ''autonomous_continuations''
       [Column ''repository'' Text [NotNull],
        Column ''task_gid'' Text [NotNull],
        Column ''fingerprint'' Text [NotNull],
        Column ''task_id'' Integer [NotNull, References ''tasks'' ''id''],
        Column ''requested_at'' Integer [NotNull]]
       [TablePrimaryKey [''repository'', ''task_gid'', ''fingerprint'']],
     CreateIndex False False ''autonomous_continuations_task_idx'' ''autonomous_continuations''
       [''repository'', ''task_gid'', ''requested_at''] [],
     RecordMigration False 14,
     SetVersion 14]"

definition migrate_v15 :: "statement list" where
  "migrate_v15 =
    [AddColumn ''runs'' (Column ''agent_profile'' Text []),
     AddColumn ''runs'' (Column ''model'' Text []),
     AddColumn ''runs'' (Column ''reasoning_effort'' Text []),
     AddColumn ''runs'' (Column ''service_tier'' Text []),
     RecordMigration False 15,
     SetVersion 15]"

definition migrations :: "(nat \<times> statement list) list" where
  "migrations = [(1, migrate_v1), (2, migrate_v2), (3, migrate_v3), (4, migrate_v4), (5, migrate_v5),
     (6, migrate_v6), (7, migrate_v7), (8, migrate_v8), (9, migrate_v9), (10, migrate_v10),
     (11, migrate_v11), (12, migrate_v12), (13, migrate_v13), (14, migrate_v14), (15, migrate_v15)]"

subsection \<open>Applying statements\<close>

record index_def =
  ix_name :: string
  ix_table :: string
  ix_unique :: bool
  ix_columns :: "string list"
  ix_where :: "row_condition list"

record schema =
  sch_version :: nat
  sch_tables :: "(string \<times> column list \<times> table_constraint list) list"
  sch_indexes :: "index_def list"
  sch_recorded :: "nat list"

definition empty_schema :: schema where
  "empty_schema = \<lparr>sch_version = 0, sch_tables = [], sch_indexes = [], sch_recorded = []\<rparr>"

fun column_name :: "column \<Rightarrow> string" where "column_name (Column n _ _) = n"
fun column_checks :: "column \<Rightarrow> column_constraint list" where "column_checks (Column _ _ cs) = cs"

definition table_columns :: "string \<Rightarrow> schema \<Rightarrow> column list option" where
  "table_columns t s = map_option fst (map_of (sch_tables s) t)"

definition has_column :: "string \<Rightarrow> string \<Rightarrow> schema \<Rightarrow> bool" where
  "has_column t c s = (case table_columns t s of None \<Rightarrow> False | Some cs \<Rightarrow> c \<in> set (map column_name cs))"

text \<open>A statement either changes the schema or fails, which aborts the migration.\<close>

fun apply_statement :: "statement \<Rightarrow> schema \<Rightarrow> schema option" where
  "apply_statement (CreateTable if_not_exists t cols tcs) s =
     (if map_of (sch_tables s) t \<noteq> None then (if if_not_exists then Some s else None)
      else Some (s\<lparr>sch_tables := sch_tables s @ [(t, cols, tcs)]\<rparr>))"
| "apply_statement (AddColumn t c) s =
     (if map_of (sch_tables s) t = None \<or> has_column t (column_name c) s then None
      else Some (s\<lparr>sch_tables := map (\<lambda>(n, cols, tcs). (n, if n = t then cols @ [c] else cols, tcs))
             (sch_tables s)\<rparr>))"
| "apply_statement (CreateIndex unique if_not_exists i t cols conds) s =
     (if i \<in> set (map ix_name (sch_indexes s)) then (if if_not_exists then Some s else None)
      else if \<not> list_all (\<lambda>c. has_column t c s) cols then None
      else Some (s\<lparr>sch_indexes := sch_indexes s @ [\<lparr>ix_name = i, ix_table = t, ix_unique = unique,
             ix_columns = cols, ix_where = conds\<rparr>]\<rparr>))"
| "apply_statement (Backfill t c source) s =
     (if has_column t c s \<and> has_column t source s then Some s else None)"
| "apply_statement (RecordMigration or_ignore n) s =
     (if n \<in> set (sch_recorded s) then (if or_ignore then Some s else None)
      else Some (s\<lparr>sch_recorded := sch_recorded s @ [n]\<rparr>))"
| "apply_statement (SetVersion n) s = Some (s\<lparr>sch_version := n\<rparr>)"

fun apply_statements :: "statement list \<Rightarrow> schema \<Rightarrow> schema option" where
  "apply_statements [] s = Some s"
| "apply_statements (st # sts) s = Option.bind (apply_statement st s) (apply_statements sts)"

datatype migration_error = NewerSchema nat | MigrationFailed

text \<open>The version is read once; every migration above it runs, and a failure rolls all of them back.\<close>

definition migrate :: "schema \<Rightarrow> migration_error + schema" where
  "migrate s =
     (if SCHEMA_VERSION < sch_version s then Inl (NewerSchema (sch_version s))
      else case apply_statements (concat (map snd (filter (\<lambda>(n, _). sch_version s < n) migrations))) s of
        None \<Rightarrow> Inl MigrationFailed
      | Some s' \<Rightarrow> Inr s')"

text \<open>The schema of each released version, starting from the empty database.\<close>

definition schema_at :: "nat \<Rightarrow> schema option" where
  "schema_at n = apply_statements (concat (map snd (take n migrations))) empty_schema"

subsection \<open>Write-ahead mode\<close>

datatype wal_answer = WalMode string | WalBusy | WalFailed

datatype wal_error = WalRefused string | WalNotConfigured

fun configure_wal_loop :: "nat \<Rightarrow> wal_answer list \<Rightarrow> wal_error + unit" where
  "configure_wal_loop 0 answers = Inl WalNotConfigured"
| "configure_wal_loop (Suc n) [] = Inl WalNotConfigured"
| "configure_wal_loop (Suc n) (a # answers) = (case a of
      WalMode mode \<Rightarrow> if eq_ignore_ascii_case mode ''wal'' then Inr () else Inl (WalRefused mode)
    | WalBusy \<Rightarrow> configure_wal_loop n answers
    | WalFailed \<Rightarrow> Inl WalNotConfigured)"

definition configure_wal :: "wal_answer list \<Rightarrow> wal_error + unit" where
  "configure_wal answers = configure_wal_loop 100 answers"

subsection \<open>Upgrading\<close>

lemma apply_statements_append:
  "apply_statements (as @ bs) s = Option.bind (apply_statements as s) (apply_statements bs)"
  by (induction as arbitrary: s) (simp_all add: bind_assoc split: Option.bind_split)

lemma apply_statements_version:
  "apply_statements (sts @ [SetVersion n]) s = Some s' \<Longrightarrow> sch_version s' = n"
  by (auto simp: apply_statements_append bind_eq_Some_conv)

lemma upto_15:
  fixes v :: nat
  assumes "v \<le> 15"
  shows "v = 0 \<or> v = 1 \<or> v = 2 \<or> v = 3 \<or> v = 4 \<or> v = 5 \<or> v = 6 \<or> v = 7 \<or> v = 8 \<or> v = 9 \<or> v = 10 \<or> v = 11 \<or> v = 12 \<or> v = 13 \<or> v = 14 \<or> v = 15"
  using assms by presburger

lemma length_migrations [simp]: "length migrations = 15"
  by (simp add: migrations_def)

lemma pending_migrations: "v \<le> 15 \<Longrightarrow> filter (\<lambda>(n, _). v < n) migrations = drop v migrations"
  by (drule upto_15, elim disjE; hypsubst) (simp_all add: migrations_def)

lemma migration_sets_version:
  assumes "v < 15"
  shows "\<exists>sts. snd (migrations ! v) = sts @ [SetVersion (Suc v)]"
proof -
  have "snd (migrations ! v) \<noteq> [] \<and> last (snd (migrations ! v)) = SetVersion (Suc v)"
    using upto_15 [OF less_imp_le [OF assms]] assms
    by (elim disjE; hypsubst) (simp_all add: migrations_def migrate_v1_def migrate_v2_def migrate_v3_def
        migrate_v4_def migrate_v5_def migrate_v6_def migrate_v7_def migrate_v8_def migrate_v9_def
        migrate_v10_def migrate_v11_def migrate_v12_def migrate_v13_def migrate_v14_def migrate_v15_def)
  then show ?thesis by (metis append_butlast_last_id)
qed

lemma statements_upto:
  assumes "v < 15"
  shows "\<exists>sts. concat (map snd (take (Suc v) migrations)) = sts @ [SetVersion (Suc v)]"
  using migration_sets_version [OF assms] assms by (auto simp: take_Suc_conv_app_nth)

lemma statements_from:
  assumes "v < 15"
  shows "\<exists>sts. concat (map snd (drop v migrations)) = sts @ [SetVersion 15]"
proof -
  have ne: "drop v migrations \<noteq> []" using assms by simp
  have "last (drop v migrations) = migrations ! 14"
    using assms by (simp add: last_drop) (simp add: migrations_def)
  with append_butlast_last_id [OF ne]
  have d: "drop v migrations = butlast (drop v migrations) @ [migrations ! 14]" by simp
  have "concat (map snd (drop v migrations))
      = concat (map snd (butlast (drop v migrations))) @ snd (migrations ! 14)"
    by (subst d) simp
  moreover obtain sts where "snd (migrations ! 14) = sts @ [SetVersion 15]"
    using migration_sets_version [of 14] by auto
  ultimately show ?thesis by simp
qed

lemma schema_at_append: "schema_at 15 = Option.bind (schema_at v)
    (apply_statements (concat (map snd (drop v migrations))))"
proof -
  have "concat (map snd (take 15 migrations)) = concat (map snd (take v migrations)) @ concat (map snd (drop v migrations))"
    by (metis append_take_drop_id concat_append length_migrations map_append order_refl take_all)
  then show ?thesis by (simp add: schema_at_def apply_statements_append)
qed

lemma schema_at_version:
  assumes "schema_at v = Some s" and "v \<le> 15"
  shows "sch_version s = v"
proof (cases v)
  case 0
  with assms(1) show ?thesis by (auto simp: schema_at_def empty_schema_def)
next
  case (Suc n)
  with assms statements_upto [of n] show ?thesis
    by (auto simp: schema_at_def dest: apply_statements_version)
qed

lemma migrate_version: "migrate s = Inr s' \<Longrightarrow> sch_version s' = 15"
proof -
  assume m: "migrate s = Inr s'"
  show "sch_version s' = 15"
  proof (cases "sch_version s < 15")
    case True
    with m statements_from [of "sch_version s"] pending_migrations [of "sch_version s"] show ?thesis
      by (auto simp: migrate_def SCHEMA_VERSION_def split: if_splits option.splits dest: apply_statements_version)
  next
    case False
    with m pending_migrations [of "sch_version s"] show ?thesis
      by (auto simp: migrate_def SCHEMA_VERSION_def split: if_splits)
  qed
qed

subsection \<open>What the current schema guarantees\<close>

definition column_check :: "schema \<Rightarrow> string \<Rightarrow> string \<Rightarrow> column_constraint list" where
  "column_check s t c = (case table_columns t s of None \<Rightarrow> []
     | Some cols \<Rightarrow> concat (map column_checks (filter (\<lambda>x. column_name x = c) cols)))"

definition table_keys :: "schema \<Rightarrow> string \<Rightarrow> table_constraint list" where
  "table_keys s t = (case map_of (sch_tables s) t of None \<Rightarrow> [] | Some (_, tcs) \<Rightarrow> tcs)"

definition unique_index :: "schema \<Rightarrow> string \<Rightarrow> string list \<Rightarrow> row_condition list \<Rightarrow> bool" where
  "unique_index s t cols conds =
     list_ex (\<lambda>i. ix_table i = t \<and> ix_unique i \<and> ix_columns i = cols \<and> ix_where i = conds) (sch_indexes s)"

text \<open>The constraints the operations of the ledger rely on.\<close>

definition schema_guarantees :: "schema \<Rightarrow> bool" where
  "schema_guarantees s \<longleftrightarrow>
     column_check s ''tasks'' ''state'' = [NotNull, OneOf (map task_state_as_str
       [task_state.Queued, task_state.Running, task_state.Succeeded, task_state.Failed, task_state.Cancelled])]
     \<and> column_check s ''tasks'' ''identity_key'' = [NotNull, UniqueColumn]
     \<and> column_check s ''runs'' ''outcome'' = [NotNull, OneOf (map run_outcome_as_str
       [run_outcome.Running, run_outcome.Succeeded, run_outcome.Failed, run_outcome.Cancelled])]
     \<and> column_check s ''runs'' ''task_id'' = [NotNull, References ''tasks'' ''id'']
     \<and> unique_index s ''runs'' [''task_id''] [Among ''outcome'' [run_outcome_as_str run_outcome.Running]]
     \<and> column_check s ''approval_consumptions'' ''artifact_id'' = [PrimaryKey]
     \<and> column_check s ''approval_consumptions'' ''label_event_id'' = [NotNull, UniqueColumn]
     \<and> column_check s ''approval_consumptions'' ''task_id'' = [NotNull, UniqueColumn, References ''tasks'' ''id'']
     \<and> table_keys s ''approval_reservations''
         = [TablePrimaryKey [''repository'', ''issue''], TableUnique [''reservation_id'']]
     \<and> table_keys s ''trigger_observations'' = [TablePrimaryKey [''repository'', ''workflow'', ''source_item'']]
     \<and> table_keys s ''schedule_cursors'' = [TablePrimaryKey [''repository'', ''workflow'']]
     \<and> column_check s ''schedule_owners'' ''owner_id'' = [NotNull, ReferencesCascade ''daemon_owners'' ''owner_id'']
     \<and> unique_index s ''task_workspaces'' [''factory_branch''] [IsNotNull ''factory_branch'', Differs ''state'' ''cleaned'']
     \<and> unique_index s ''task_workspaces'' [''path''] [Differs ''state'' ''cleaned'']
     \<and> table_keys s ''autonomous_pull_requests''
         = [TablePrimaryKey [''repository'', ''task_gid''], TableUnique [''repository'', ''pull_request'']]
     \<and> table_keys s ''autonomous_pull_request_events'' = [TablePrimaryKey [''repository'', ''task_gid'', ''fingerprint'']]
     \<and> column_check s ''autonomous_pull_request_events'' ''state''
         = [NotNull, OneOf [''observed'', ''claimed'', ''asana_applied'', ''consumed'']]
     \<and> table_keys s ''autonomous_continuations'' = [TablePrimaryKey [''repository'', ''task_gid'', ''fingerprint'']]"

lemma final_schema:
  "(case schema_at 15 of None \<Rightarrow> False | Some s \<Rightarrow> schema_guarantees s)"
  by code_simp

text \<open>
  The constraints of the current schema are the ones the operations rely on: applying all
  migrations to an empty database succeeds, and the result restricts task states, run outcomes
  and event states to exactly their encodings, makes task identities unique, allows one running
  run per task, one live workspace per branch and path, one consumption per artifact, label event
  and task, and keys the other tables as the model does.
\<close>

theorem current_schema_constraints:
  "\<exists>s. schema_at SCHEMA_VERSION = Some s \<and> sch_version s = SCHEMA_VERSION \<and> schema_guarantees s"
proof -
  obtain s where s: "schema_at 15 = Some s" "schema_guarantees s"
    using final_schema by (auto split: option.splits)
  with schema_at_version [OF s(1)] show ?thesis by (simp add: SCHEMA_VERSION_def)
qed



text \<open>
  Migration never leaves a database in between: a newer database is refused, a failing
  migration changes nothing, and success means the current version, where migrating again
  changes nothing.
\<close>

theorem migrate_spec:
  "case migrate s of
     Inl (NewerSchema n) \<Rightarrow> n = sch_version s \<and> SCHEMA_VERSION < n
   | Inl MigrationFailed \<Rightarrow> sch_version s < SCHEMA_VERSION
   | Inr s' \<Rightarrow> sch_version s' = SCHEMA_VERSION \<and> migrate s' = Inr s'
       \<and> (sch_version s = SCHEMA_VERSION \<longrightarrow> s' = s)"
proof (cases "migrate s")
  case (Inl e)
  have "sch_version s < 15" if "e = MigrationFailed"
  proof (rule ccontr)
    assume "\<not> sch_version s < 15"
    with Inl that pending_migrations [of 15] show False
      by (cases "sch_version s = 15") (auto simp: migrate_def SCHEMA_VERSION_def)
  qed
  with Inl show ?thesis
    by (auto simp: migrate_def SCHEMA_VERSION_def split: migration_error.splits if_splits option.splits)
next
  case (Inr s')
  have idem: "migrate x = Inr x" if "sch_version x = 15" for x
    using that pending_migrations [of 15] by (simp add: migrate_def SCHEMA_VERSION_def)
  from migrate_version [OF Inr] idem [of s'] idem [of s] Inr show ?thesis
    by (simp add: SCHEMA_VERSION_def)
qed

end
