(* ===== verification/Rust_Result.thy ===== *)
theory Rust_Result
  imports Rust_Text
begin

text \<open>
  Fallible code and the remaining text helpers shared by the configuration, the fleet and the
  daemon. \<open>Result\<close> is a sum with the error on the left; \<open>and_then\<close> is the \<open>?\<close> operator and
  \<open>collect_results\<close> the collection of an iterator of results, which stops at the first error.
\<close>

named_theorems result_simps "fallible computations that succeed"

subsection \<open>Results\<close>

definition and_then :: "'e + 'a \<Rightarrow> ('a \<Rightarrow> 'e + 'b) \<Rightarrow> 'e + 'b" where
  "and_then x f = (case x of Inl e \<Rightarrow> Inl e | Inr v \<Rightarrow> f v)"

definition ok_or :: "'e \<Rightarrow> 'a option \<Rightarrow> 'e + 'a" where
  "ok_or e x = (case x of None \<Rightarrow> Inl e | Some v \<Rightarrow> Inr v)"

definition map_err :: "('e \<Rightarrow> 'f) \<Rightarrow> 'e + 'a \<Rightarrow> 'f + 'a" where
  "map_err g x = (case x of Inl e \<Rightarrow> Inl (g e) | Inr v \<Rightarrow> Inr v)"

fun is_ok :: "'e + 'a \<Rightarrow> bool" where
  "is_ok (Inl e) = False"
| "is_ok (Inr v) = True"

primrec collect_results :: "('e + 'a) list \<Rightarrow> 'e + 'a list" where
  "collect_results [] = Inr []"
| "collect_results (r # rs) = and_then r (\<lambda>v. and_then (collect_results rs) (\<lambda>vs. Inr (v # vs)))"

lemma and_then_simps [simp]: "and_then (Inl e) f = Inl e" "and_then (Inr v) f = f v"
  by (simp_all add: and_then_def)

lemma ok_or_simps [simp]: "ok_or e None = Inl e" "ok_or e (Some v) = Inr v"
  by (simp_all add: ok_or_def)

lemma map_err_simps [simp]: "map_err g (Inl e) = Inl (g e)" "map_err g (Inr v) = Inr v"
  by (simp_all add: map_err_def)

lemma and_then_Inr_iff [result_simps]: "and_then x f = Inr b \<longleftrightarrow> (\<exists>a. x = Inr a \<and> f a = Inr b)"
  by (cases x) auto

lemma ok_or_Inr_iff [result_simps]: "ok_or e x = Inr v \<longleftrightarrow> x = Some v"
  by (cases x) auto

lemma map_err_Inr_iff [result_simps]: "map_err g x = Inr v \<longleftrightarrow> x = Inr v"
  by (cases x) auto

lemma guard_Inr_iff [result_simps]: "(if c then Inl e else x) = Inr v \<longleftrightarrow> \<not> c \<and> x = Inr v"
  by simp

lemma is_ok_iff: "is_ok x \<longleftrightarrow> (\<exists>v. x = Inr v)"
  by (cases x) auto

lemma collect_results_Inr_iff [result_simps]: "collect_results rs = Inr vs \<longleftrightarrow> rs = map Inr vs"
  by (induction rs arbitrary: vs) (auto simp: and_then_Inr_iff Cons_eq_map_conv)

lemma collect_map_Inr_iff:
  "collect_results (map f xs) = Inr ys \<longleftrightarrow> list_all2 (\<lambda>x y. f x = Inr y) xs ys"
  by (simp add: collect_results_Inr_iff list_eq_iff_nth_eq list_all2_conv_all_nth) auto

lemma collect_map_member:
  assumes "collect_results (map f xs) = Inr ys" and "y \<in> set ys"
  obtains x where "x \<in> set xs" and "f x = Inr y"
  using assms by (auto simp: collect_map_Inr_iff list_all2_conv_all_nth in_set_conv_nth) blast

lemma collect_results_ok: "(\<And>x. x \<in> set xs \<Longrightarrow> is_ok (f x)) \<Longrightarrow> is_ok (collect_results (map f xs))"
proof (induction xs)
  case (Cons x xs)
  from Cons.prems [of x] obtain v where v: "f x = Inr v" by (auto simp: is_ok_iff)
  from Cons.IH Cons.prems obtain vs where "collect_results (map f xs) = Inr vs" by (auto simp: is_ok_iff)
  with v show ?case by simp
qed simp

subsection \<open>Words of a text\<close>

fun char_words :: "string list \<Rightarrow> string list \<Rightarrow> string list" where
  "char_words current [] = (if current = [] then [] else [concat (rev current)])"
| "char_words current (c # cs) =
     (if is_whitespace c
      then (if current = [] then char_words [] cs else concat (rev current) # char_words [] cs)
      else char_words (c # current) cs)"

definition split_whitespace :: "string \<Rightarrow> string list" where
  "split_whitespace s = char_words [] (chars s)"

text \<open>\<open>split_whitespace().collect().join(" ")\<close>, which puts an error message on one line.\<close>

definition one_line :: "string \<Rightarrow> string" where
  "one_line s = join '' '' (split_whitespace s)"

fun contains_text :: "string \<Rightarrow> string \<Rightarrow> bool" where
  "contains_text p [] \<longleftrightarrow> p = []"
| "contains_text p (c # s) \<longleftrightarrow> strip_prefix p (c # s) \<noteq> None \<or> contains_text p s"

definition text_starts :: "string \<Rightarrow> string \<Rightarrow> bool" where
  "text_starts s p \<longleftrightarrow> strip_prefix p s \<noteq> None"

definition is_ascii_alphabetic :: "char \<Rightarrow> bool" where
  "is_ascii_alphabetic c \<longleftrightarrow> is_ascii_lower c \<or> is_ascii_upper c"

end
