(* ===== verification/Rust_Path.thy ===== *)
theory Rust_Path
  imports Rust_Result
begin

text \<open>
  Unix paths as \<open>std::path\<close> reads them: a path is its list of components, which is what
  comparison, \<open>starts_with\<close>, \<open>join\<close>, \<open>parent\<close> and \<open>file_name\<close> work on. Repeated separators and
  \<open>.\<close> after the first component are dropped when a text is read as a path.
\<close>

datatype component = RootDir | CurDir | ParentDir | Normal string

type_synonym path = "component list"

definition component_of :: "string \<Rightarrow> component" where
  "component_of s = (if s = ''.'' then CurDir else if s = ''..'' then ParentDir else Normal s)"

definition path_body :: "string \<Rightarrow> path" where
  "path_body s = map component_of (filter (\<lambda>w. w \<noteq> []) (split (CHR ''/'') s))"

definition path_of :: "string \<Rightarrow> path" where
  "path_of s =
     (if text_starts s ''/'' then RootDir # filter (\<lambda>c. c \<noteq> CurDir) (path_body s)
      else case path_body s of
          [] \<Rightarrow> []
        | c # cs \<Rightarrow> c # filter (\<lambda>c. c \<noteq> CurDir) cs)"

fun component_text :: "component \<Rightarrow> string" where
  "component_text RootDir = []"
| "component_text CurDir = ''.''"
| "component_text ParentDir = ''..''"
| "component_text (Normal s) = s"

definition path_text :: "path \<Rightarrow> string" where
  "path_text p = (if p = [RootDir] then ''/'' else join ''/'' (map component_text p))"

definition is_absolute :: "path \<Rightarrow> bool" where
  "is_absolute p \<longleftrightarrow> (case p of RootDir # _ \<Rightarrow> True | _ \<Rightarrow> False)"

definition path_join :: "path \<Rightarrow> path \<Rightarrow> path" where
  "path_join base p = (if is_absolute p \<or> base = [] then p else base @ filter (\<lambda>c. c \<noteq> CurDir) p)"

definition file_name :: "path \<Rightarrow> string option" where
  "file_name p = (case rev p of Normal n # _ \<Rightarrow> Some n | _ \<Rightarrow> None)"

definition parent :: "path \<Rightarrow> path option" where
  "parent p = (case rev p of [] \<Rightarrow> None | RootDir # _ \<Rightarrow> None | _ \<Rightarrow> Some (butlast p))"

fun path_starts_with :: "path \<Rightarrow> path \<Rightarrow> bool" where
  "path_starts_with p [] = True"
| "path_starts_with [] (c # q) = False"
| "path_starts_with (d # p) (c # q) = (d = c \<and> path_starts_with p q)"

definition extension :: "path \<Rightarrow> string option" where
  "extension p = Option.bind (file_name p) (\<lambda>n. case rsplit_once (CHR ''.'') n of
      None \<Rightarrow> None
    | Some (before, after) \<Rightarrow> if before = [] then None else Some after)"

definition is_normal :: "component \<Rightarrow> bool" where
  "is_normal c \<longleftrightarrow> (case c of Normal _ \<Rightarrow> True | _ \<Rightarrow> False)"

lemma path_starts_with_iff: "path_starts_with p q \<longleftrightarrow> (\<exists>r. p = q @ r)"
  by (induction p q rule: path_starts_with.induct) auto

lemma path_starts_with_refl [simp]: "path_starts_with p p"
  by (simp add: path_starts_with_iff)

lemma path_starts_with_append [simp]: "path_starts_with (p @ r) p"
  by (simp add: path_starts_with_iff)

lemma path_starts_with_trans: "path_starts_with p q \<Longrightarrow> path_starts_with q r \<Longrightarrow> path_starts_with p r"
  by (auto simp: path_starts_with_iff)

lemma path_join_normal:
  assumes "base \<noteq> []" and "list_all is_normal p"
  shows "path_join base p = base @ p"
proof -
  have "\<not> is_absolute p" using assms(2) 
    by (cases p) (auto simp: is_absolute_def is_normal_def split: component.splits)
  moreover have "filter (\<lambda>c. c \<noteq> CurDir) p = p"
    using assms(2) by (auto simp: filter_id_conv list_all_iff is_normal_def)
  ultimately show ?thesis using assms(1) by (simp add: path_join_def)
qed

lemma length_parent: "parent p = Some q \<Longrightarrow> length q < length p"
  by (cases p rule: rev_cases) (auto simp: parent_def split: component.splits)

text \<open>Reading back the text of an absolute path without detours gives the path.\<close>

definition plain_name :: "string \<Rightarrow> bool" where
  "plain_name n \<longleftrightarrow> n \<noteq> [] \<and> CHR ''/'' \<notin> set n \<and> n \<noteq> ''.'' \<and> n \<noteq> ''..''"

definition plain_path :: "path \<Rightarrow> bool" where
  "plain_path p \<longleftrightarrow> (\<exists>ns. p = RootDir # map Normal ns \<and> ns \<noteq> [] \<and> list_all plain_name ns)"

lemma plain_path_child: "plain_path p \<Longrightarrow> plain_name n \<Longrightarrow> plain_path (p @ [Normal n])"
  unfolding plain_path_def by (elim exE) (rule_tac x = "ns @ [n]" in exI, auto)

lemma path_text_plain:
  assumes "ns \<noteq> []"
  shows "path_text (RootDir # map Normal ns) = CHR ''/'' # join ''/'' ns"
proof -
  have "map component_text (map Normal ns) = ns" by (simp add: comp_def)
  with assms show ?thesis by (cases ns) (simp_all add: path_text_def comp_def)
qed

lemma path_of_text:
  assumes "plain_path p"
  shows "path_of (path_text p) = p"
proof -
  obtain ns where p: "p = RootDir # map Normal ns" and ne: "ns \<noteq> []" and names: "list_all plain_name ns"
    using assms by (auto simp: plain_path_def)
  have "split (CHR ''/'') (join ''/'' ns) = ns"
    using names ne by (intro split_join) (auto simp: list_all_iff plain_name_def)
  then have "path_body (path_text p) = map component_of ns"
    using names ne by (auto simp: path_body_def p path_text_plain list_all_iff plain_name_def filter_id_conv)
  moreover have "map component_of ns = map Normal ns"
    using names by (auto simp: list_all_iff plain_name_def component_of_def)
  moreover have "text_starts (path_text p) ''/''" using ne by (simp add: p path_text_plain text_starts_def)
  ultimately show ?thesis by (auto simp: path_of_def p filter_id_conv)
qed

lemma parent_snoc: "parent (p @ [Normal n]) = Some p"
  by (simp add: parent_def)

lemma file_name_snoc: "file_name (p @ [Normal n]) = Some n"
  by (simp add: file_name_def)

lemma plain_path_nonempty: "plain_path p \<Longrightarrow> p \<noteq> []"
  by (auto simp: plain_path_def)

end
