(* ===== verification/Config_Data.thy ===== *)
theory Config_Data
  imports Rust_Path Repository_Ref
begin

text \<open>
  The data of the repository configuration (\<open>src/config.rs\<close>): the file as decoded from TOML
  (\<open>raw_config\<close>), the checked configuration the program runs with (\<open>config\<close>), and how paths in it
  are expanded and resolved. Durations are nanoseconds. The operating system, git and the parsers of
  other crates (cron expressions, time zones, durations, SHA-256) are the fields of \<open>host\<close>.
\<close>

subsection \<open>The program's surroundings\<close>

datatype io_error = NotFound | OtherIo

datatype file_kind = RegularFile | SymbolicLink | OtherKind

record host =
  h_symlink_metadata :: "path \<Rightarrow> io_error + file_kind"
  h_canonicalize :: "path \<Rightarrow> io_error + path"
  h_is_dir :: "path \<Rightarrow> bool"
  h_exists :: "path \<Rightarrow> bool"
  h_read_to_string :: "path \<Rightarrow> string option"
  h_open_nofollow :: "path \<Rightarrow> bool"
  h_writable :: "path \<Rightarrow> bool"
  h_env_var :: "string \<Rightarrow> string option"
  h_home_dir :: "path option"
  h_data_local_dir :: "path option"
  h_current_dir :: "path option"
  h_git :: "path \<Rightarrow> string list \<Rightarrow> string option"
  h_parse_duration :: "string \<Rightarrow> nat option"
  h_cron_valid :: "string \<Rightarrow> bool"
  h_timezone :: "string \<Rightarrow> string option"
  h_sha256 :: "string \<Rightarrow> 8 word list"

subsection \<open>The file and the configuration\<close>

datatype execution_mode = Worktree | DockerSandbox

record raw_worker =
  rw_runtime :: string
  rw_sandbox :: execution_mode
  rw_timeout :: string
  rw_maximum_timeout :: "string option"
  rw_max_concurrent :: nat
  rw_template :: "string option"
  rw_memory :: "string option"
  rw_cpus :: "nat option"
  rw_github_token_env :: "string option"
  rw_gitlab_token_env :: "string option"

record raw_source =
  rs_command :: "string list option"
  rs_provider :: "string option"
  rs_project_owner :: "string option"
  rs_project_number :: "nat option"
  rs_status_field :: "string option"
  rs_trusted_users :: "string list option"

datatype raw_trigger_kind =
    RawSource string "string list"
  | RawStatus string
  | RawLabel string
  | RawSchedule string string

text \<open>Every variant of \<open>RawTriggerConfig\<close> carries the last three fields.\<close>

record raw_trigger =
  rt_kind :: raw_trigger_kind
  rt_workflow :: string
  rt_timeout :: "string option"
  rt_agent_profile :: string

record agent_profile =
  ap_model :: string
  ap_reasoning_effort :: string
  ap_service_tier :: string

record repository_config =
  rc_provider :: repository_provider
  rc_identity :: string

text \<open>The \<open>BTreeMap\<close>s are lists of entries in key order, with distinct keys.\<close>

record raw_config =
  raw_version :: nat
  raw_poll_every :: string
  raw_pull_request_reconcile_every :: string
  raw_repository :: "repository_config option"
  raw_worker_section :: raw_worker
  raw_source_section :: raw_source
  raw_agent_profiles :: "(string \<times> agent_profile) list"
  raw_triggers :: "(string \<times> raw_trigger) list"

datatype trigger_kind =
    KSource string "string list"
  | KStatus string
  | KLabel string
  | KSchedule string string

record trigger_config =
  tc_id :: string
  tc_workflow :: path
  tc_timeout :: nat
  tc_kind :: trigger_kind
  tc_agent_profile :: string

record worker_config =
  wc_template :: string
  wc_memory :: string
  wc_cpus :: nat
  wc_repository_provider :: repository_provider
  wc_repository_token_env :: string

record source_config =
  sc_command :: "string list"
  sc_owner :: string
  sc_project_number :: nat
  sc_status_field :: string
  sc_trusted_users :: "string list"

record config =
  cfg_repositories :: "path list"
  cfg_repository :: repository_config
  cfg_poll_every :: nat
  cfg_pull_request_reconcile_every :: nat
  cfg_default_runtime :: string
  cfg_default_timeout :: nat
  cfg_maximum_timeout :: nat
  cfg_max_concurrent_runs :: nat
  cfg_max_concurrent_runs_per_repository :: nat
  cfg_workspace_root :: path
  cfg_data_directory :: path
  cfg_execution_mode :: execution_mode
  cfg_worker :: "worker_config option"
  cfg_agent_profiles :: "(string \<times> agent_profile) list"
  cfg_triggers :: "trigger_config list"
  cfg_source :: "source_config option"

datatype path_error =
    UnsetVariable string | NoHomeDirectory | NoCurrentDirectory | DirectoryMissing string
  | NotADirectory string | AncestorUnresolved string | ParentTraversal string
  | NoExistingAncestor string | InspectFailed string

datatype field_error = Empty | Zero | Malformed | Unknown | Missing | AboveMaximum | NotAllowed

text \<open>\<open>Field\<close> names the setting that is at fault, as the messages do.\<close>

datatype config_error =
    PathError path_error | Field string field_error
  | UnreadableConfig | UnparsableConfig | NoParentDirectory | NotRepositoryLocal | WrongConfigPath
  | AmbiguousConfig | GitFailed | LinkedWorktree | UnsupportedOrigin remote_error
  | IdentityMismatch string string | MissingRepositoryTable string | CommandWithLegacyFields
  | DataHomesDiffer | TwoLedgers path path | PreviousLedger path
  | WorkspaceIsRoot | WorkspaceIsHome | WorkspaceOverlaps | WorkspaceNotWritable

subsection \<open>Paths in the configuration\<close>

definition is_env_name_char :: "char \<Rightarrow> bool" where
  "is_env_name_char c \<longleftrightarrow> is_ascii_alphanumeric c \<or> c = CHR ''_''"

function expand_environment :: "host \<Rightarrow> string \<Rightarrow> path_error + string" where
  "expand_environment h [] = Inr []"
| "expand_environment h (c # cs) =
     (if c \<noteq> CHR ''$'' then and_then (expand_environment h cs) (\<lambda>rest. Inr (c # rest))
      else let name = takeWhile is_env_name_char cs
           in if name = [] then and_then (expand_environment h cs) (\<lambda>rest. Inr (c # rest))
              else and_then (ok_or (UnsetVariable name) (h_env_var h name)) (\<lambda>replacement.
                   and_then (expand_environment h (dropWhile is_env_name_char cs))
                     (\<lambda>rest. Inr (replacement @ rest))))"
  by pat_completeness auto
termination
  by (relation "measure (\<lambda>(h, s). length s)") (auto simp: less_Suc_eq_le length_dropWhile_le)

definition home_dir :: "host \<Rightarrow> path_error + path" where
  "home_dir h = ok_or NoHomeDirectory (h_home_dir h)"

definition expand_path :: "host \<Rightarrow> string \<Rightarrow> path \<Rightarrow> path_error + path" where
  "expand_path h text base =
     and_then (expand_environment h text) (\<lambda>expanded.
     and_then (if expanded = ''~'' then home_dir h
               else case strip_prefix ''~/'' expanded of
                   Some rest \<Rightarrow> and_then (home_dir h) (\<lambda>home. Inr (path_join home (path_of rest)))
                 | None \<Rightarrow> Inr (path_of expanded)) (\<lambda>expanded.
     Inr (if is_absolute expanded then expanded else path_join base expanded)))"

definition canonical_directory :: "host \<Rightarrow> string \<Rightarrow> path \<Rightarrow> path \<Rightarrow> path_error + path" where
  "canonical_directory h name p base =
     and_then (expand_path h (path_text p) base) (\<lambda>expanded.
     and_then (map_err (\<lambda>_. DirectoryMissing name) (h_canonicalize h expanded)) (\<lambda>canonical.
     if \<not> h_is_dir h canonical then Inl (NotADirectory name) else Inr canonical))"

text \<open>The loop of \<open>canonical_directory_or_missing\<close>: the nearest ancestor that exists, resolved, and the missing
  names below it.\<close>

function resolve_ancestor :: "host \<Rightarrow> string \<Rightarrow> path \<Rightarrow> string list \<Rightarrow> path_error + path" where
  "resolve_ancestor h name ancestor missing =
     (case h_symlink_metadata h ancestor of
        Inr _ \<Rightarrow>
          and_then (map_err (\<lambda>_. AncestorUnresolved name) (h_canonicalize h ancestor)) (\<lambda>resolved.
          if \<not> h_is_dir h resolved then Inl (NotADirectory name)
          else Inr (resolved @ map Normal (rev missing)))
      | Inl NotFound \<Rightarrow>
          (if ancestor \<noteq> [] \<and> last ancestor = ParentDir then Inl (ParentTraversal name)
           else case file_name ancestor of
               None \<Rightarrow> Inl (NoExistingAncestor name)
             | Some component \<Rightarrow>
                 (case parent ancestor of
                    None \<Rightarrow> Inl (NoExistingAncestor name)
                  | Some p \<Rightarrow> resolve_ancestor h name p (missing @ [component])))
      | Inl OtherIo \<Rightarrow> Inl (InspectFailed name))"
  by pat_completeness auto
termination
  by (relation "measure (\<lambda>(h, name, ancestor, missing). length ancestor)") (simp_all add: length_parent)

declare resolve_ancestor.simps [simp del]

definition canonical_directory_or_missing :: "host \<Rightarrow> string \<Rightarrow> path \<Rightarrow> path \<Rightarrow> path_error + path" where
  "canonical_directory_or_missing h name p base =
     and_then (expand_path h (path_text p) base) (\<lambda>expanded. resolve_ancestor h name expanded [])"

end
