(* ===== verification/Factory_Config.thy ===== *)
theory Factory_Config
  imports Config_Data
begin

text \<open>
  The checks that turn a decoded configuration file into a \<open>config\<close> (\<open>src/config.rs\<close>), in the order
  of the source, and what a configuration that passes them guarantees the daemon: workflow files
  inside the repository's workflow directory, positive timeouts below the maximum, known profiles, a worktree
  directory that overlaps neither the repository nor the home directory, and one ledger.
\<close>

subsection \<open>Single values\<close>

definition validate_label :: "string \<Rightarrow> string \<Rightarrow> config_error + string" where
  "validate_label name value =
     (let value = trim value
      in if value = [] \<or> char_count value > 50 \<or> has_control value then Inl (Field name Malformed)
         else Inr value)"

definition validate_github_login :: "string \<Rightarrow> string \<Rightarrow> config_error + string" where
  "validate_github_login name value =
     (let value = trim value
      in if value = [] \<or> length value > 39 \<or> hd value = CHR ''-'' \<or> last value = CHR ''-''
           \<or> contains_text ''--'' value
           \<or> \<not> list_all (\<lambda>c. is_ascii_alphanumeric c \<or> c = CHR ''-'') value
         then Inl (Field name Malformed) else Inr value)"

definition validate_display_name :: "string \<Rightarrow> string \<Rightarrow> config_error + string" where
  "validate_display_name name value =
     (let value = trim value
      in if value = [] \<or> char_count value > 100 \<or> has_control value then Inl (Field name Malformed)
         else Inr value)"

definition validate_trigger_id :: "string \<Rightarrow> config_error + unit" where
  "validate_trigger_id tid =
     (if tid = [] \<or> \<not> list_all (\<lambda>part. part \<noteq> [] \<and> list_all (\<lambda>c. is_ascii_lower c \<or> is_ascii_digit c) part)
           (split (CHR ''-'') tid)
      then Inl (Field ''trigger'' Malformed) else Inr ())"

definition validate_agent_profile_name :: "string \<Rightarrow> config_error + unit" where
  "validate_agent_profile_name name = map_err (\<lambda>_. Field ''agent_profile'' Malformed) (validate_trigger_id name)"

definition validate_agent_profile_value :: "string \<Rightarrow> string \<Rightarrow> config_error + string" where
  "validate_agent_profile_value field value =
     (let value = trim value
      in if value = [] \<or> length value > 128
           \<or> \<not> list_all (\<lambda>c. is_ascii_alphanumeric c \<or> c \<in> set ''-_.'') value
         then Inl (Field field Malformed) else Inr value)"

definition validate_agent_profile_reference ::
  "string \<Rightarrow> string \<Rightarrow> (string \<times> agent_profile) list \<Rightarrow> config_error + string" where
  "validate_agent_profile_reference tid name profiles =
     (let name = trim name; field = ''trigger.'' @ tid @ ''.agent_profile''
      in if name = [] then Inl (Field field Empty)
         else if map_of profiles name = None then Inl (Field field Unknown)
         else Inr name)"

definition parse_positive_duration :: "host \<Rightarrow> string \<Rightarrow> string \<Rightarrow> config_error + nat" where
  "parse_positive_duration h name value =
     and_then (ok_or (Field name Malformed) (h_parse_duration h value)) (\<lambda>duration.
     if duration = 0 then Inl (Field name Zero) else Inr duration)"

definition workflow_directory :: "string \<Rightarrow> path" where
  "workflow_directory config_directory = [Normal config_directory, Normal ''workflows'']"

definition resolve_workflow_path :: "string \<Rightarrow> string \<Rightarrow> path \<Rightarrow> config_error + path" where
  "resolve_workflow_path name value repository =
     (let value = trim value
      in if value = [] then Inl (Field name Empty)
         else let relative = path_of value
              in if is_absolute relative \<or> \<not> list_all is_normal relative then Inl (Field name NotAllowed)
                 else if \<not> path_starts_with relative (workflow_directory ''.flashy-factory'')
                   \<and> \<not> path_starts_with relative (workflow_directory ''.factory'')
                 then Inl (Field name NotAllowed)
                 else if extension relative \<noteq> Some ''md'' then Inl (Field name Malformed)
                 else Inr (path_join repository relative))"

subsection \<open>Agent profiles and triggers\<close>

definition resolve_agent_profile :: "string \<times> agent_profile \<Rightarrow> config_error + (string \<times> agent_profile)" where
  "resolve_agent_profile entry =
     (let name = fst entry; profile = snd entry; field = ''agent_profile.'' @ name
      in and_then (validate_agent_profile_name name) (\<lambda>_.
         and_then (validate_agent_profile_value (field @ ''.model'') (ap_model profile)) (\<lambda>model.
         let reasoning_effort = to_ascii_lowercase (trim (ap_reasoning_effort profile))
         in if reasoning_effort \<notin> set [''low'', ''medium'', ''high'', ''xhigh'']
            then Inl (Field (field @ ''.reasoning_effort'') Unknown)
            else let service_tier = to_ascii_lowercase (trim (ap_service_tier profile))
                 in if service_tier \<notin> set [''default'', ''flex'', ''priority'']
                    then Inl (Field (field @ ''.service_tier'') Unknown)
                    else Inr (name, \<lparr>ap_model = model, ap_reasoning_effort = reasoning_effort,
                           ap_service_tier = service_tier\<rparr>))))"

definition resolve_agent_profiles ::
  "(string \<times> agent_profile) list \<Rightarrow> config_error + (string \<times> agent_profile) list" where
  "resolve_agent_profiles raw =
     (if raw = [] then Inl (Field ''agent_profile'' Missing)
      else collect_results (map resolve_agent_profile raw))"

text \<open>Labels are validated one by one; a repeated label is kept once.\<close>

fun resolve_labels :: "string \<Rightarrow> string list \<Rightarrow> string list \<Rightarrow> config_error + string list" where
  "resolve_labels field resolved [] = Inr resolved"
| "resolve_labels field resolved (label # labels) =
     and_then (validate_label field label) (\<lambda>label.
     resolve_labels field (if label \<in> set resolved then resolved else resolved @ [label]) labels)"

fun resolve_trigger_kind :: "host \<Rightarrow> string \<Rightarrow> raw_trigger_kind \<Rightarrow> config_error + trigger_kind" where
  "resolve_trigger_kind h tid (RawSource state labels) =
     and_then (validate_display_name (''trigger.'' @ tid @ ''.state'') state) (\<lambda>state.
     and_then (resolve_labels (''trigger.'' @ tid @ ''.labels'') [] labels) (\<lambda>labels.
     Inr (KSource state labels)))"
| "resolve_trigger_kind h tid (RawStatus status) =
     and_then (validate_display_name (''trigger.'' @ tid @ ''.status'') status) (\<lambda>status. Inr (KStatus status))"
| "resolve_trigger_kind h tid (RawLabel label) =
     and_then (validate_label (''trigger.'' @ tid @ ''.label'') label) (\<lambda>label. Inr (KLabel label))"
| "resolve_trigger_kind h tid (RawSchedule schedule timezone) =
     (let schedule = trim schedule
      in if length (split_whitespace schedule) \<noteq> 5 \<or> \<not> h_cron_valid h (''0 '' @ schedule)
         then Inl (Field (''trigger.'' @ tid @ ''.schedule'') Malformed)
         else let timezone = trim timezone
              in if h_timezone h timezone = None
                 then Inl (Field (''trigger.'' @ tid @ ''.timezone'') Malformed)
                 else Inr (KSchedule schedule timezone))"

definition resolve_trigger ::
  "host \<Rightarrow> path \<Rightarrow> nat \<Rightarrow> nat \<Rightarrow> (string \<times> agent_profile) list \<Rightarrow> string \<times> raw_trigger \<Rightarrow>
     config_error + trigger_config" where
  "resolve_trigger h repository default_timeout maximum_timeout profiles entry =
     (let tid = fst entry; trigger = snd entry; field = ''trigger.'' @ tid
      in and_then (validate_trigger_id tid) (\<lambda>_.
         and_then (resolve_trigger_kind h tid (rt_kind trigger)) (\<lambda>kind.
         and_then (validate_agent_profile_reference tid (rt_agent_profile trigger) profiles) (\<lambda>profile.
         and_then (case rt_timeout trigger of None \<Rightarrow> Inr default_timeout
                   | Some value \<Rightarrow> parse_positive_duration h (field @ ''.timeout'') value) (\<lambda>timeout.
         if timeout > maximum_timeout then Inl (Field (field @ ''.timeout'') AboveMaximum)
         else and_then (resolve_workflow_path (field @ ''.workflow'') (rt_workflow trigger) repository) (\<lambda>workflow.
              Inr \<lparr>tc_id = tid, tc_workflow = workflow, tc_timeout = timeout, tc_kind = kind,
                tc_agent_profile = profile\<rparr>))))))"

definition resolve_triggers ::
  "host \<Rightarrow> (string \<times> raw_trigger) list \<Rightarrow> path \<Rightarrow> nat \<Rightarrow> nat \<Rightarrow> (string \<times> agent_profile) list \<Rightarrow>
     config_error + trigger_config list" where
  "resolve_triggers h raw repository default_timeout maximum_timeout profiles =
     (if raw = [] then Inl (Field ''trigger'' Missing)
      else collect_results (map (resolve_trigger h repository default_timeout maximum_timeout profiles) raw))"

subsection \<open>Worker and source\<close>

definition reject_sandbox_options :: "raw_worker \<Rightarrow> config_error + unit" where
  "reject_sandbox_options raw =
     (if rw_template raw \<noteq> None \<or> rw_memory raw \<noteq> None \<or> rw_cpus raw \<noteq> None
        \<or> rw_github_token_env raw \<noteq> None \<or> rw_gitlab_token_env raw \<noteq> None
      then Inl (Field ''worker.sandbox'' NotAllowed) else Inr ())"

definition template_ok :: "string \<Rightarrow> bool" where
  "template_ok template \<longleftrightarrow> template \<noteq> [] \<and> char_count template \<le> 255
     \<and> list_all (\<lambda>c. is_ascii_alphanumeric c \<or> c \<in> set ''._/:@-'') template
     \<and> is_ascii_alphanumeric (hd template)
     \<and> (CHR '':'' \<in> set (last (split (CHR ''/'') template)) \<or> CHR ''@'' \<in> set template)"

definition memory_ok :: "string \<Rightarrow> bool" where
  "memory_ok memory \<longleftrightarrow>
     (let amount = takeWhile is_ascii_digit memory; suffix = dropWhile is_ascii_digit memory
      in amount \<noteq> [] \<and> hd amount \<noteq> CHR ''0'' \<and> list_all is_ascii_digit amount
         \<and> suffix \<in> set [[], ''b'', ''k'', ''kb'', ''m'', ''mb'', ''g'', ''gb'', ''t'', ''tb''])"

definition worker_token_env :: "raw_worker \<Rightarrow> repository_provider \<Rightarrow> config_error + string" where
  "worker_token_env raw provider =
     (case provider of
        GitHub \<Rightarrow> (if rw_gitlab_token_env raw \<noteq> None then Inl (Field ''worker.gitlab_token_env'' NotAllowed)
          else Inr (case rw_github_token_env raw of None \<Rightarrow> ''FACTORY_GITHUB_TOKEN'' | Some e \<Rightarrow> e))
      | GitLab \<Rightarrow> (if rw_github_token_env raw \<noteq> None then Inl (Field ''worker.github_token_env'' NotAllowed)
          else Inr (case rw_gitlab_token_env raw of None \<Rightarrow> ''FACTORY_GITLAB_TOKEN'' | Some e \<Rightarrow> e)))"

definition env_name_ok :: "string \<Rightarrow> bool" where
  "env_name_ok e \<longleftrightarrow> e \<noteq> [] \<and> (is_ascii_alphabetic (hd e) \<or> hd e = CHR ''_'') \<and> list_all is_env_name_char e"

definition resolve_worker :: "raw_worker \<Rightarrow> repository_provider \<Rightarrow> config_error + worker_config" where
  "resolve_worker raw provider =
     (let template = trim (case rw_template raw of
            None \<Rightarrow> ''docker/sandbox-templates:codex-docker'' | Some t \<Rightarrow> t)
      in if \<not> template_ok template then Inl (Field ''worker.template'' Malformed)
         else let memory = to_ascii_lowercase (trim (case rw_memory raw of None \<Rightarrow> ''8g'' | Some m \<Rightarrow> m))
              in if \<not> memory_ok memory then Inl (Field ''worker.memory'' Malformed)
                 else let cpus = (case rw_cpus raw of None \<Rightarrow> 4 | Some n \<Rightarrow> n)
                      in if cpus = 0 then Inl (Field ''worker.cpus'' Zero)
                         else and_then (worker_token_env raw provider) (\<lambda>token_env.
                              let token_env = trim token_env
                              in if \<not> env_name_ok token_env
                                 then Inl (Field ''worker.repository_token_env'' Malformed)
                                 else Inr \<lparr>wc_template = template, wc_memory = memory, wc_cpus = cpus,
                                   wc_repository_provider = provider, wc_repository_token_env = token_env\<rparr>))"

fun check_arguments :: "nat \<Rightarrow> string list \<Rightarrow> config_error + string list" where
  "check_arguments index [] = Inr []"
| "check_arguments index (argument # arguments) =
     (if argument = [] \<or> has_control argument then Inl (Field (''source.command.'' @ nat_dec index) Malformed)
      else and_then (check_arguments (index + 1) arguments) (\<lambda>rest. Inr (argument # rest)))"

fun resolve_users :: "string list \<Rightarrow> string list \<Rightarrow> config_error + string list" where
  "resolve_users trusted [] = Inr trusted"
| "resolve_users trusted (user # users) =
     and_then (validate_github_login ''source.trusted_users'' user) (\<lambda>user.
     resolve_users (if list_ex (eq_ignore_ascii_case user) trusted then trusted else trusted @ [user]) users)"

definition resolve_command :: "raw_source \<Rightarrow> string list \<Rightarrow> config_error + source_config" where
  "resolve_command raw command =
     (if rs_provider raw \<noteq> None \<or> rs_project_owner raw \<noteq> None \<or> rs_project_number raw \<noteq> None
        \<or> rs_status_field raw \<noteq> None \<or> rs_trusted_users raw \<noteq> None then Inl CommandWithLegacyFields
      else if command = [] then Inl (Field ''source.command'' Empty)
      else if length command > 64 then Inl (Field ''source.command'' AboveMaximum)
      else and_then (check_arguments 0 command) (\<lambda>command.
           Inr \<lparr>sc_command = command, sc_owner = [], sc_project_number = 0, sc_status_field = [],
             sc_trusted_users = []\<rparr>))"

definition resolve_source :: "raw_source \<Rightarrow> config_error + source_config" where
  "resolve_source raw =
     (case rs_command raw of
        Some command \<Rightarrow> resolve_command raw command
      | None \<Rightarrow>
          (case rs_provider raw of
             None \<Rightarrow> Inl (Field ''source.command'' Missing)
           | Some provider \<Rightarrow>
               if provider \<noteq> ''github'' then Inl (Field ''source.type'' Unknown)
               else
                 and_then (ok_or (Field ''source.project_owner'' Missing) (rs_project_owner raw)) (\<lambda>owner.
                 and_then (validate_github_login ''source.project_owner'' owner) (\<lambda>owner.
                 and_then (ok_or (Field ''source.project_number'' Missing) (rs_project_number raw)) (\<lambda>number.
                 if number = 0 then Inl (Field ''source.project_number'' Zero)
                 else
                 and_then (ok_or (Field ''source.status_field'' Missing) (rs_status_field raw)) (\<lambda>status.
                 and_then (validate_display_name ''source.status_field'' status) (\<lambda>status.
                 and_then (ok_or (Field ''source.trusted_users'' Missing) (rs_trusted_users raw)) (\<lambda>users.
                 if users = [] then Inl (Field ''source.trusted_users'' Empty)
                 else and_then (resolve_users [] users) (\<lambda>trusted.
                      Inr \<lparr>sc_command = [], sc_owner = owner, sc_project_number = number,
                        sc_status_field = status, sc_trusted_users = trusted\<rparr>)))))))))"

subsection \<open>Repository, remote and checkout\<close>

definition validate_configured_repository_identity :: "repository_provider \<Rightarrow> string \<Rightarrow> config_error + string" where
  "validate_configured_repository_identity provider identity =
     (let segments = split (CHR ''/'') identity;
          valid_segments = list_all (\<lambda>segment. segment \<noteq> [] \<and>
             list_all (\<lambda>c. is_ascii_alphanumeric c \<or> c \<in> set ''-_.'') segment) segments;
          valid_shape = (case provider of
              GitHub \<Rightarrow> length segments = 2
            | GitLab \<Rightarrow> 3 \<le> length segments \<and> eq_ignore_ascii_case (segments ! 0) ''gitlab.com'')
      in if identity = [] \<or> identity \<noteq> to_ascii_lowercase identity \<or> \<not> valid_segments \<or> \<not> valid_shape
         then Inl (Field ''repository.identity'' Malformed) else Inr identity)"

definition git_output :: "host \<Rightarrow> path \<Rightarrow> string list \<Rightarrow> config_error + string" where
  "git_output h repository arguments = ok_or GitFailed (h_git h repository arguments)"

definition repository_remote_ref :: "host \<Rightarrow> path \<Rightarrow> config_error + repository_ref" where
  "repository_remote_ref h repository =
     and_then (git_output h repository [''config'', ''--get'', ''remote.origin.url'']) (\<lambda>origin.
     map_err UnsupportedOrigin (parse_repository_ref (trim origin)))"

definition repository_remote_identity :: "host \<Rightarrow> path \<Rightarrow> config_error + string" where
  "repository_remote_identity h repository =
     and_then (repository_remote_ref h repository) (\<lambda>r. Inr (repository_identity r))"

definition safe_repository_identity_for_error :: "repository_provider \<Rightarrow> string \<Rightarrow> string" where
  "safe_repository_identity_for_error provider identity =
     (case validate_configured_repository_identity provider identity of
        Inl _ \<Rightarrow> ''<invalid>'' | Inr identity \<Rightarrow> identity)"

definition resolve_repository_config ::
  "host \<Rightarrow> repository_config option \<Rightarrow> path \<Rightarrow> config_error + repository_config" where
  "resolve_repository_config h configured repository =
     and_then (repository_remote_ref h repository) (\<lambda>actual.
     let actual_identity = repository_identity actual;
         shown = safe_repository_identity_for_error (rr_provider actual) actual_identity
     in case configured of
          Some configured \<Rightarrow>
            and_then (validate_configured_repository_identity (rc_provider configured) (rc_identity configured))
              (\<lambda>expected_identity.
               if rc_provider configured \<noteq> rr_provider actual \<or> expected_identity \<noteq> actual_identity
               then Inl (IdentityMismatch expected_identity shown)
               else Inr \<lparr>rc_provider = rc_provider configured, rc_identity = expected_identity\<rparr>)
        | None \<Rightarrow>
            if rr_provider actual \<noteq> GitHub then Inl (MissingRepositoryTable shown)
            else Inr \<lparr>rc_provider = GitHub, rc_identity = actual_identity\<rparr>)"

definition ensure_primary_checkout :: "host \<Rightarrow> path \<Rightarrow> config_error + unit" where
  "ensure_primary_checkout h repository =
     and_then (git_output h repository [''rev-parse'', ''--path-format=absolute'', ''--git-dir'']) (\<lambda>git_dir.
     and_then (git_output h repository [''rev-parse'', ''--path-format=absolute'', ''--git-common-dir'']) (\<lambda>common_dir.
     and_then (map_err (\<lambda>_. GitFailed) (h_canonicalize h (path_of (trim git_dir)))) (\<lambda>git_dir.
     and_then (map_err (\<lambda>_. GitFailed) (h_canonicalize h (path_of (trim common_dir)))) (\<lambda>common_dir.
     if git_dir \<noteq> common_dir then Inl LinkedWorktree else Inr ()))))"

subsection \<open>The data directory\<close>

definition CONFIG_DIRECTORY :: string where "CONFIG_DIRECTORY = ''.flashy-factory''"
definition LEGACY_CONFIG_DIRECTORY :: string where "LEGACY_CONFIG_DIRECTORY = ''.factory''"
definition DATA_HOME_ENV :: string where "DATA_HOME_ENV = ''FLASHY_FACTORY_DATA_HOME''"
definition LEGACY_DATA_HOME_ENV :: string where "LEGACY_DATA_HOME_ENV = ''FACTORY_DATA_HOME''"
definition DATABASE_NAME :: string where "DATABASE_NAME = ''factory.sqlite3''"

definition resolve_data_base :: "host \<Rightarrow> path \<Rightarrow> config_error + path" where
  "resolve_data_base h base =
     (if is_absolute base then Inr base
      else and_then (ok_or (PathError NoCurrentDirectory) (h_current_dir h)) (\<lambda>cwd. Inr (path_join cwd base)))"

definition configured_data_home :: "host \<Rightarrow> config_error + path option" where
  "configured_data_home h =
     (case (map_option path_of (h_env_var h DATA_HOME_ENV), map_option path_of (h_env_var h LEGACY_DATA_HOME_ENV)) of
        (Some preferred, Some legacy) \<Rightarrow>
          and_then (resolve_data_base h preferred) (\<lambda>preferred.
          and_then (resolve_data_base h legacy) (\<lambda>legacy.
          if preferred \<noteq> legacy then Inl DataHomesDiffer else Inr (Some preferred)))
      | (Some base, None) \<Rightarrow> and_then (resolve_data_base h base) (\<lambda>base. Inr (Some base))
      | (None, Some base) \<Rightarrow> and_then (resolve_data_base h base) (\<lambda>base. Inr (Some base))
      | (None, None) \<Rightarrow> Inr None)"

definition child :: "path \<Rightarrow> string \<Rightarrow> path" where
  "child p name = path_join p [Normal name]"

definition data_digest :: "host \<Rightarrow> string \<Rightarrow> path \<Rightarrow> string" where
  "data_digest h identity repository =
     take 20 (encode_lower (h_sha256 h (identity @ [char_of (0::nat)] @ path_text repository)))"

definition repository_data_directory_for_resolved_identity ::
  "host \<Rightarrow> path \<Rightarrow> string \<Rightarrow> path option \<Rightarrow> config_error + path" where
  "repository_data_directory_for_resolved_identity h repository identity configured_base =
     (let digest = data_digest h identity repository;
          holds_ledger = (\<lambda>d. h_exists h (child d DATABASE_NAME))
      in case configured_base of
           Some base \<Rightarrow> and_then (resolve_data_base h base) (\<lambda>base. Inr (child base digest))
         | None \<Rightarrow>
             and_then (ok_or (Field ''data_directory'' Missing) (h_home_dir h)) (\<lambda>home.
             let data_directory = child (child home CONFIG_DIRECTORY) digest;
                 legacy_directory = child (child home LEGACY_CONFIG_DIRECTORY) digest
             in if holds_ledger data_directory \<and> holds_ledger legacy_directory
                then Inl (TwoLedgers data_directory legacy_directory)
                else let selected = (if holds_ledger legacy_directory then legacy_directory else data_directory)
                     in case h_data_local_dir h of
                          None \<Rightarrow> Inr selected
                        | Some local \<Rightarrow>
                            let previous = child (child local ''factory'') digest
                            in if holds_ledger previous then Inl (PreviousLedger previous) else Inr selected))"

definition repository_data_directory :: "host \<Rightarrow> path \<Rightarrow> config_error + path" where
  "repository_data_directory h repository =
     and_then (configured_data_home h) (\<lambda>base.
     and_then (map_err (\<lambda>_. PathError (DirectoryMissing ''repository'')) (h_canonicalize h repository)) (\<lambda>repository.
     and_then (ensure_primary_checkout h repository) (\<lambda>_.
     and_then (repository_remote_identity h repository) (\<lambda>identity.
     repository_data_directory_for_resolved_identity h repository identity base))))"

subsection \<open>The worktree directory\<close>

definition canonical_home_dir :: "host \<Rightarrow> config_error + path option" where
  "canonical_home_dir h =
     (case h_home_dir h of
        None \<Rightarrow> Inr None
      | Some home \<Rightarrow> and_then (map_err (\<lambda>_. PathError NoHomeDirectory) (h_canonicalize h home)) (\<lambda>p. Inr (Some p)))"

definition validate_workspace :: "path \<Rightarrow> path list \<Rightarrow> path option \<Rightarrow> config_error + unit" where
  "validate_workspace workspace repositories canonical_home =
     (if filter (\<lambda>c. c \<noteq> RootDir) workspace = [] then Inl WorkspaceIsRoot
      else if (case canonical_home of None \<Rightarrow> False | Some home \<Rightarrow> workspace = home) then Inl WorkspaceIsHome
      else if list_ex (\<lambda>repository. workspace = repository \<or> path_starts_with workspace repository
             \<or> path_starts_with repository workspace) repositories then Inl WorkspaceOverlaps
      else Inr ())"

definition ensure_workspace_writable :: "host \<Rightarrow> path \<Rightarrow> config_error + unit" where
  "ensure_workspace_writable h workspace = (if h_writable h workspace then Inr () else Inl WorkspaceNotWritable)"

subsection \<open>The whole configuration\<close>

definition known_runtime :: "string \<Rightarrow> bool" where
  "known_runtime name \<longleftrightarrow> name \<in> set [''codex'', ''codex-minimal'', ''claude-code'']"

definition resolve_config ::
  "host \<Rightarrow> raw_config \<Rightarrow> path \<Rightarrow> (path \<Rightarrow> config_error + unit) \<Rightarrow> bool \<Rightarrow> path option \<Rightarrow> config_error + config" where
  "resolve_config h raw repository workspace_probe allow_missing_workspace data_home =
     (let worker_raw = raw_worker_section raw in
      if raw_version raw \<noteq> 1 then Inl (Field ''version'' Malformed)
      else if rw_max_concurrent worker_raw = 0 then Inl (Field ''worker.max_concurrent'' Zero)
      else
      and_then (resolve_source (raw_source_section raw)) (\<lambda>source.
      let default_runtime = trim (rw_runtime worker_raw) in
      if \<not> known_runtime default_runtime then Inl (Field ''worker.runtime'' Unknown)
      else if rw_sandbox worker_raw = DockerSandbox \<and> default_runtime \<noteq> ''codex''
      then Inl (Field ''worker.runtime'' NotAllowed)
      else
      and_then (parse_positive_duration h ''poll_every'' (raw_poll_every raw)) (\<lambda>poll_every.
      and_then (parse_positive_duration h ''pull_request_reconcile_every'' (raw_pull_request_reconcile_every raw))
        (\<lambda>reconcile_every.
      and_then (parse_positive_duration h ''worker.timeout'' (rw_timeout worker_raw)) (\<lambda>default_timeout.
      and_then (parse_positive_duration h ''worker.maximum_timeout''
          (case rw_maximum_timeout worker_raw of None \<Rightarrow> ''8h'' | Some v \<Rightarrow> v)) (\<lambda>maximum_timeout.
      if default_timeout > maximum_timeout then Inl (Field ''worker.timeout'' AboveMaximum)
      else
      and_then (map_err PathError (canonical_directory h ''repository'' repository repository)) (\<lambda>repository.
      and_then (ensure_primary_checkout h repository) (\<lambda>_.
      and_then (resolve_repository_config h (raw_repository raw) repository) (\<lambda>repository_cfg.
      and_then (resolve_agent_profiles (raw_agent_profiles raw)) (\<lambda>profiles.
      and_then (resolve_triggers h (raw_triggers raw) repository default_timeout maximum_timeout profiles) (\<lambda>triggers.
      and_then (case data_home of Some home \<Rightarrow> Inr (Some home) | None \<Rightarrow> configured_data_home h) (\<lambda>data_home.
      and_then (repository_data_directory_for_resolved_identity h repository (rc_identity repository_cfg) data_home)
        (\<lambda>data_directory.
      and_then (case rw_sandbox worker_raw of
          Worktree \<Rightarrow> and_then (reject_sandbox_options worker_raw) (\<lambda>_. Inr None)
        | DockerSandbox \<Rightarrow> and_then (resolve_worker worker_raw (rc_provider repository_cfg)) (\<lambda>w. Inr (Some w)))
        (\<lambda>worker.
      let workspace_candidate = child data_directory ''worktrees'' in
      and_then (map_err PathError (if allow_missing_workspace
          then canonical_directory_or_missing h ''workspace_root'' workspace_candidate repository
          else canonical_directory h ''workspace_root'' workspace_candidate repository)) (\<lambda>workspace_root.
      and_then (canonical_home_dir h) (\<lambda>home.
      and_then (validate_workspace workspace_root [repository] home) (\<lambda>_.
      and_then (workspace_probe workspace_root) (\<lambda>_.
      Inr \<lparr>cfg_repositories = [repository], cfg_repository = repository_cfg, cfg_poll_every = poll_every,
        cfg_pull_request_reconcile_every = reconcile_every, cfg_default_runtime = default_runtime,
        cfg_default_timeout = default_timeout, cfg_maximum_timeout = maximum_timeout,
        cfg_max_concurrent_runs = rw_max_concurrent worker_raw,
        cfg_max_concurrent_runs_per_repository = rw_max_concurrent worker_raw,
        cfg_workspace_root = workspace_root, cfg_data_directory = data_directory,
        cfg_execution_mode = rw_sandbox worker_raw, cfg_worker = worker, cfg_agent_profiles = profiles,
        cfg_triggers = triggers, cfg_source = Some source\<rparr>))))))))))))))))))"

text \<open>\<open>parse_toml\<close> is the TOML parser with the derived decoding.\<close>

definition repository_config_path :: "path \<Rightarrow> path" where
  "repository_config_path repository = child (child repository CONFIG_DIRECTORY) ''config.toml''"

definition legacy_repository_config_path :: "path \<Rightarrow> path" where
  "legacy_repository_config_path repository = child (child repository LEGACY_CONFIG_DIRECTORY) ''config.toml''"

definition resolve_repository_config_path :: "host \<Rightarrow> path \<Rightarrow> config_error + path" where
  "resolve_repository_config_path h repository =
     (let preferred = repository_config_path repository; legacy = legacy_repository_config_path repository
      in case (h_exists h preferred, h_exists h legacy) of
           (True, True) \<Rightarrow> Inl AmbiguousConfig
         | (True, False) \<Rightarrow> Inr preferred
         | (False, True) \<Rightarrow> Inr legacy
         | (False, False) \<Rightarrow> Inr preferred)"

definition load_with_workspace_probe ::
  "(string \<Rightarrow> raw_config option) \<Rightarrow> host \<Rightarrow> path \<Rightarrow> (path \<Rightarrow> config_error + unit) \<Rightarrow> bool \<Rightarrow> path option \<Rightarrow>
     config_error + config" where
  "load_with_workspace_probe parse_toml h path_arg workspace_probe allow_missing_workspace data_home =
     and_then (ok_or (PathError NoCurrentDirectory) (h_current_dir h)) (\<lambda>current_dir.
     and_then (map_err PathError (expand_path h (path_text path_arg) current_dir)) (\<lambda>path.
     and_then (ok_or UnreadableConfig (h_read_to_string h path)) (\<lambda>contents.
     and_then (ok_or UnparsableConfig (parse_toml contents)) (\<lambda>raw.
     and_then (ok_or NoParentDirectory (parent path)) (\<lambda>config_dir.
     if file_name config_dir \<notin> {Some CONFIG_DIRECTORY, Some LEGACY_CONFIG_DIRECTORY} then Inl NotRepositoryLocal
     else
     and_then (ok_or NoParentDirectory (parent config_dir)) (\<lambda>repository.
     and_then (resolve_repository_config_path h repository) (\<lambda>expected.
     if path \<noteq> expected then Inl WrongConfigPath
     else resolve_config h raw repository workspace_probe allow_missing_workspace data_home)))))))"

definition load_config :: "(string \<Rightarrow> raw_config option) \<Rightarrow> host \<Rightarrow> path \<Rightarrow> config_error + config" where
  "load_config parse_toml h p = load_with_workspace_probe parse_toml h p (ensure_workspace_writable h) False None"

definition load_for_inspection :: "(string \<Rightarrow> raw_config option) \<Rightarrow> host \<Rightarrow> path \<Rightarrow> config_error + config" where
  "load_for_inspection parse_toml h p = load_with_workspace_probe parse_toml h p (\<lambda>_. Inr ()) True None"

definition validate_candidate ::
  "(string \<Rightarrow> raw_config option) \<Rightarrow> host \<Rightarrow> string \<Rightarrow> path \<Rightarrow> config_error + config" where
  "validate_candidate parse_toml h contents repository =
     and_then (ok_or UnparsableConfig (parse_toml contents)) (\<lambda>raw.
     resolve_config h raw repository (\<lambda>_. Inr ()) True None)"

subsection \<open>What a configuration guarantees\<close>

definition profile_ok :: "string \<times> agent_profile \<Rightarrow> bool" where
  "profile_ok entry \<longleftrightarrow> ap_model (snd entry) \<noteq> [] \<and> length (ap_model (snd entry)) \<le> 128
     \<and> ap_reasoning_effort (snd entry) \<in> set [''low'', ''medium'', ''high'', ''xhigh'']
     \<and> ap_service_tier (snd entry) \<in> set [''default'', ''flex'', ''priority'']"

text \<open>A workflow file: below the workflow directory of the repository, without any detour.\<close>

definition workflow_file_of :: "path \<Rightarrow> path \<Rightarrow> bool" where
  "workflow_file_of repository p \<longleftrightarrow> path_starts_with p repository
     \<and> (let relative = drop (length repository) p
        in list_all is_normal relative \<and> 3 \<le> length relative \<and> extension relative = Some ''md''
           \<and> (path_starts_with relative (workflow_directory CONFIG_DIRECTORY)
              \<or> path_starts_with relative (workflow_directory LEGACY_CONFIG_DIRECTORY)))"

definition trigger_ok :: "config \<Rightarrow> trigger_config \<Rightarrow> bool" where
  "trigger_ok cfg t \<longleftrightarrow> is_ok (validate_trigger_id (tc_id t))
     \<and> 0 < tc_timeout t \<and> tc_timeout t \<le> cfg_maximum_timeout cfg
     \<and> tc_agent_profile t \<in> set (map fst (cfg_agent_profiles cfg))
     \<and> list_all (\<lambda>repository. workflow_file_of repository (tc_workflow t)) (cfg_repositories cfg)"

definition worker_ok :: "worker_config \<Rightarrow> bool" where
  "worker_ok w \<longleftrightarrow> template_ok (wc_template w) \<and> memory_ok (wc_memory w) \<and> 0 < wc_cpus w
     \<and> env_name_ok (wc_repository_token_env w)"

definition source_ok :: "source_config \<Rightarrow> bool" where
  "source_ok s \<longleftrightarrow>
     (if sc_command s \<noteq> [] then length (sc_command s) \<le> 64
        \<and> list_all (\<lambda>a. a \<noteq> [] \<and> \<not> has_control a) (sc_command s)
      else sc_owner s \<noteq> [] \<and> 0 < sc_project_number s \<and> sc_status_field s \<noteq> [] \<and> sc_trusted_users s \<noteq> [])"

definition config_ok :: "config \<Rightarrow> bool" where
  "config_ok cfg \<longleftrightarrow>
     length (cfg_repositories cfg) = 1
     \<and> 0 < cfg_poll_every cfg \<and> 0 < cfg_pull_request_reconcile_every cfg
     \<and> 0 < cfg_default_timeout cfg \<and> cfg_default_timeout cfg \<le> cfg_maximum_timeout cfg
     \<and> 0 < cfg_max_concurrent_runs cfg
     \<and> cfg_max_concurrent_runs_per_repository cfg = cfg_max_concurrent_runs cfg
     \<and> known_runtime (cfg_default_runtime cfg)
     \<and> (case cfg_execution_mode cfg of
          Worktree \<Rightarrow> cfg_worker cfg = None
        | DockerSandbox \<Rightarrow> cfg_default_runtime cfg = ''codex'' \<and> list_all worker_ok (case cfg_worker cfg of Some w \<Rightarrow> [w] | None \<Rightarrow> [])
            \<and> cfg_worker cfg \<noteq> None)
     \<and> cfg_agent_profiles cfg \<noteq> [] \<and> list_all profile_ok (cfg_agent_profiles cfg)
     \<and> cfg_triggers cfg \<noteq> [] \<and> list_all (trigger_ok cfg) (cfg_triggers cfg)
     \<and> distinct (map tc_id (cfg_triggers cfg))
     \<and> list_all (\<lambda>repository. \<not> path_starts_with (cfg_workspace_root cfg) repository
          \<and> \<not> path_starts_with repository (cfg_workspace_root cfg)) (cfg_repositories cfg)
     \<and> list_all source_ok (case cfg_source cfg of Some s \<Rightarrow> [s] | None \<Rightarrow> [])
     \<and> cfg_source cfg \<noteq> None"

lemma resolve_agent_profile_ok:
  "resolve_agent_profile e = Inr p \<Longrightarrow> profile_ok p \<and> fst p = fst e"
  by (auto simp: resolve_agent_profile_def validate_agent_profile_value_def profile_ok_def Let_def result_simps
      split: if_splits)

lemma resolve_agent_profiles_ok:
  assumes "resolve_agent_profiles raw = Inr ps"
  shows "ps \<noteq> [] \<and> list_all profile_ok ps"
  using assms collect_map_member [of resolve_agent_profile raw ps]
  by (auto simp: resolve_agent_profiles_def list_all_iff dest: resolve_agent_profile_ok split: if_splits)
     (auto simp: result_simps)

lemma parse_positive_duration_pos: "parse_positive_duration h n v = Inr d \<Longrightarrow> 0 < d"
  by (auto simp: parse_positive_duration_def result_simps)

lemma workflow_directories:
  "workflow_directory ''.flashy-factory'' = workflow_directory CONFIG_DIRECTORY"
  "workflow_directory ''.factory'' = workflow_directory LEGACY_CONFIG_DIRECTORY"
  by (simp_all add: CONFIG_DIRECTORY_def LEGACY_CONFIG_DIRECTORY_def)

text \<open>The workflow directory itself is no Markdown file, so a workflow lies strictly below it.\<close>

lemma markdown_below:
  assumes "path_starts_with p (workflow_directory d)" and "extension p = Some ''md''"
  shows "3 \<le> length p"
proof -
  from assms(1) obtain r where r: "p = workflow_directory d @ r" by (auto simp: path_starts_with_iff)
  have "r \<noteq> []"
  proof
    assume "r = []"
    then have "extension p = None" using r by (simp add: workflow_directory_def extension_def file_name_def rsplit_once_def)
    with assms(2) show False by simp
  qed
  then show ?thesis using r by (cases r) (simp_all add: workflow_directory_def)
qed

lemma resolve_workflow_path_ok:
  assumes "resolve_workflow_path name value repository = Inr p" and "repository \<noteq> []"
  shows "workflow_file_of repository p"
proof -
  define r where "r = path_of (trim value)"
  from assms(1) have normal: "list_all is_normal r" and ext: "extension r = Some ''md''"
    and inside: "path_starts_with r (workflow_directory CONFIG_DIRECTORY)
      \<or> path_starts_with r (workflow_directory LEGACY_CONFIG_DIRECTORY)"
    and p: "p = path_join repository r"
    by (auto simp: resolve_workflow_path_def Let_def r_def workflow_directories result_simps split: if_splits)
  from p normal assms(2) have "p = repository @ r" by (simp add: path_join_normal)
  moreover have "3 \<le> length r" using inside ext by (auto dest: markdown_below)
  ultimately show ?thesis using normal ext inside by (simp add: workflow_file_of_def)
qed

lemma resolve_trigger_ok:
  assumes "resolve_trigger h repository dt mt profiles e = Inr t" and "repository \<noteq> []" and "0 < dt"
  shows "is_ok (validate_trigger_id (tc_id t)) \<and> 0 < tc_timeout t \<and> tc_timeout t \<le> mt
     \<and> tc_agent_profile t \<in> set (map fst profiles) \<and> workflow_file_of repository (tc_workflow t) \<and> tc_id t = fst e"
proof -
  have "a \<in> set (map fst profiles)" if "validate_agent_profile_reference i n profiles = Inr a" for i n a
    using that by (auto simp: validate_agent_profile_reference_def Let_def map_of_eq_None_iff split: if_splits)
  with assms show ?thesis
    by (auto simp: resolve_trigger_def Let_def result_simps is_ok_iff
        dest: parse_positive_duration_pos resolve_workflow_path_ok split: option.splits)
qed

lemma resolve_triggers_ok:
  assumes "resolve_triggers h raw repository dt mt profiles = Inr ts" and "repository \<noteq> []" and "0 < dt"
  shows "ts \<noteq> []" and "\<And>t. t \<in> set ts \<Longrightarrow> is_ok (validate_trigger_id (tc_id t)) \<and> 0 < tc_timeout t \<and> tc_timeout t \<le> mt
       \<and> tc_agent_profile t \<in> set (map fst profiles) \<and> workflow_file_of repository (tc_workflow t)"
    and "map tc_id ts = map fst raw"
proof -
  from assms(1) have raw: "raw \<noteq> []"
    and "collect_results (map (resolve_trigger h repository dt mt profiles) raw) = Inr ts"
    by (auto simp: resolve_triggers_def split: if_splits)
  then have all: "list_all2 (\<lambda>e t. resolve_trigger h repository dt mt profiles e = Inr t) raw ts"
    by (simp add: collect_map_Inr_iff)
  then show "ts \<noteq> []" using raw by auto
  have ok: "is_ok (validate_trigger_id (tc_id t)) \<and> 0 < tc_timeout t \<and> tc_timeout t \<le> mt
       \<and> tc_agent_profile t \<in> set (map fst profiles) \<and> workflow_file_of repository (tc_workflow t) \<and> tc_id t = fst e"
    if "resolve_trigger h repository dt mt profiles e = Inr t" for e t
    using resolve_trigger_ok [OF that assms(2,3)] .
  show "map tc_id ts = map fst raw"
    using all by (induction rule: list_all2_induct) (auto dest: ok)
  show "is_ok (validate_trigger_id (tc_id t)) \<and> 0 < tc_timeout t \<and> tc_timeout t \<le> mt
       \<and> tc_agent_profile t \<in> set (map fst profiles) \<and> workflow_file_of repository (tc_workflow t)"
    if "t \<in> set ts" for t
  proof -
    from that all obtain i where "resolve_trigger h repository dt mt profiles (raw ! i) = Inr t"
      by (auto simp: list_all2_conv_all_nth in_set_conv_nth)
    from ok [OF this] show ?thesis by blast
  qed
qed

lemma check_arguments_ok:
  "check_arguments i xs = Inr ys \<Longrightarrow> ys = xs \<and> list_all (\<lambda>a. a \<noteq> [] \<and> \<not> has_control a) xs"
  by (induction xs arbitrary: i ys) (auto simp: result_simps split: if_splits)

lemma resolve_users_grows: "resolve_users trusted us = Inr r \<Longrightarrow> set trusted \<subseteq> set r \<and> (us \<noteq> [] \<longrightarrow> r \<noteq> [])"
proof (induction us arbitrary: trusted r)
  case (Cons u us)
  from Cons.prems obtain v where "resolve_users (if list_ex (eq_ignore_ascii_case v) trusted then trusted else trusted @ [v]) us = Inr r"
    by (auto simp: result_simps)
  from Cons.IH [OF this] show ?case by (auto simp: list_ex_iff split: if_splits)
qed simp

lemma validated_text_nonempty:
  "validate_github_login n v = Inr a \<Longrightarrow> a \<noteq> []" "validate_display_name n v = Inr a \<Longrightarrow> a \<noteq> []"
  by (auto simp: validate_github_login_def validate_display_name_def Let_def split: if_splits)

lemma resolve_source_ok:
  assumes "resolve_source raw = Inr s"
  shows "source_ok s"
proof (cases "rs_command raw")
  case (Some command)
  with assms show ?thesis
    by (auto simp: resolve_source_def resolve_command_def source_ok_def result_simps dest: check_arguments_ok)
next
  case None
  with assms show ?thesis
    by (auto simp: resolve_source_def source_ok_def result_simps
        dest: validated_text_nonempty resolve_users_grows split: option.splits)
qed

lemma resolve_worker_ok: "resolve_worker raw p = Inr w \<Longrightarrow> worker_ok w"
  by (auto simp: resolve_worker_def worker_ok_def Let_def result_simps)

lemma canonical_directory_Inr:
  "canonical_directory h n p b = Inr c \<longleftrightarrow>
     (\<exists>e. expand_path h (path_text p) b = Inr e \<and> h_canonicalize h e = Inr c \<and> h_is_dir h c)"
  by (auto simp: canonical_directory_def result_simps)

text \<open>The parts of a configuration that was accepted.\<close>

lemma resolve_config_parts:
  assumes "resolve_config h raw repo probe allow_missing home_arg = Inr cfg"
  obtains repository and rcfg :: repository_config and home where
    "rw_max_concurrent (raw_worker_section raw) \<noteq> 0"
    and "resolve_source (raw_source_section raw) = Inr (the (cfg_source cfg))" and "cfg_source cfg \<noteq> None"
    and "known_runtime (cfg_default_runtime cfg)"
    and "\<not> (cfg_execution_mode cfg = DockerSandbox \<and> cfg_default_runtime cfg \<noteq> ''codex'')"
    and "parse_positive_duration h ''poll_every'' (raw_poll_every raw) = Inr (cfg_poll_every cfg)"
    and "parse_positive_duration h ''pull_request_reconcile_every'' (raw_pull_request_reconcile_every raw)
           = Inr (cfg_pull_request_reconcile_every cfg)"
    and "parse_positive_duration h ''worker.timeout'' (rw_timeout (raw_worker_section raw)) = Inr (cfg_default_timeout cfg)"
    and "cfg_default_timeout cfg \<le> cfg_maximum_timeout cfg"
    and "canonical_directory h ''repository'' repo repo = Inr repository"
    and "cfg_repositories cfg = [repository]"
    and "resolve_agent_profiles (raw_agent_profiles raw) = Inr (cfg_agent_profiles cfg)"
    and "resolve_triggers h (raw_triggers raw) repository (cfg_default_timeout cfg) (cfg_maximum_timeout cfg)
           (cfg_agent_profiles cfg) = Inr (cfg_triggers cfg)"
    and "cfg_max_concurrent_runs cfg = rw_max_concurrent (raw_worker_section raw)"
    and "cfg_max_concurrent_runs_per_repository cfg = rw_max_concurrent (raw_worker_section raw)"
    and "(case cfg_execution_mode cfg of
          Worktree \<Rightarrow> and_then (reject_sandbox_options (raw_worker_section raw)) (\<lambda>_. Inr None)
        | DockerSandbox \<Rightarrow> and_then (resolve_worker (raw_worker_section raw) (rc_provider rcfg)) (\<lambda>w. Inr (Some w)))
         = Inr (cfg_worker cfg)"
    and "validate_workspace (cfg_workspace_root cfg) [repository] home = Inr ()"
    and "resolve_repository_config h (raw_repository raw) repository = Inr rcfg" and "cfg_repository cfg = rcfg"
  using assms unfolding resolve_config_def Let_def result_simps
proof (elim exE conjE, goal_cases)
  case (1 source poll reconcile dt mt repository u rcfg profiles triggers data_home data worker ws home u1 u2)
  note cfg = 1(24) [THEN Inr_inject, symmetric]
  show ?case
    by (rule 1(1) [of repository rcfg home]) (simp_all add: cfg 1(2-23) [unfolded not_not not_less])
qed

lemma validate_workspaceD:
  "validate_workspace w [repository] home = Inr () \<Longrightarrow>
     \<not> path_starts_with w repository \<and> \<not> path_starts_with repository w \<and> filter (\<lambda>c. c \<noteq> RootDir) w \<noteq> []"
  by (auto simp: validate_workspace_def split: if_splits)

text \<open>
  C38. A configuration that loads is one the daemon can run: positive intervals and timeouts within the
  maximum, a known runtime that fits the sandbox, worker settings exactly in sandbox mode, valid
  profiles, triggers with distinct identifiers that name a configured profile and a Markdown file
  inside the repository's workflow directory, a valid source, and a worktree directory that
  overlaps neither way with the repository.
\<close>

theorem resolved_config_ok:
  assumes "resolve_config h raw repo probe allow_missing home_arg = Inr cfg"
    and "distinct (map fst (raw_triggers raw))"
    and "\<And>p q. h_canonicalize h p = Inr q \<Longrightarrow> q \<noteq> []"
  shows "config_ok cfg"
  using assms(1)
proof (rule resolve_config_parts, goal_cases)
  case (1 repository rcfg home)
  have "repository \<noteq> []" using 1(10) assms(3) by (auto simp: canonical_directory_Inr)
  note ok = resolve_triggers_ok [OF 1(13) this parse_positive_duration_pos [OF 1(8)]]
  have "list_all (trigger_ok cfg) (cfg_triggers cfg)"
    using ok(2) by (simp add: list_all_iff trigger_ok_def 1(11))
  moreover have "distinct (map tc_id (cfg_triggers cfg))" using ok(3) assms(2) by simp
  moreover have "list_all source_ok (case cfg_source cfg of Some s \<Rightarrow> [s] | None \<Rightarrow> [])"
    using 1(2,3) by (auto dest: resolve_source_ok)
  moreover have "case cfg_execution_mode cfg of Worktree \<Rightarrow> cfg_worker cfg = None
      | DockerSandbox \<Rightarrow> cfg_default_runtime cfg = ''codex''
          \<and> list_all worker_ok (case cfg_worker cfg of Some w \<Rightarrow> [w] | None \<Rightarrow> []) \<and> cfg_worker cfg \<noteq> None"
    using 1(5,16) 
    by (cases "cfg_execution_mode cfg"; cases "cfg_worker cfg") (auto simp: result_simps dest: resolve_worker_ok)
  ultimately show ?case
    using 1 resolve_agent_profiles_ok [OF 1(12)] ok(1) validate_workspaceD [OF 1(17)]
      parse_positive_duration_pos [OF 1(6)] parse_positive_duration_pos [OF 1(7)] parse_positive_duration_pos [OF 1(8)]
    by (simp add: config_ok_def)
qed

lemma resolve_ancestor_existing:
  assumes "is_ok (h_symlink_metadata h p)" and "h_canonicalize h p = Inr c" and "h_is_dir h c"
  shows "resolve_ancestor h name p [] = Inr c"
  using assms by (subst resolve_ancestor.simps) (auto simp: is_ok_iff)

lemma canonical_directory_existing:
  assumes "canonical_directory h name p base = Inr c"
    and "\<And>q r. h_canonicalize h q = Inr r \<Longrightarrow> is_ok (h_symlink_metadata h q)"
  shows "canonical_directory_or_missing h name p base = Inr c"
  using assms(1) by (auto simp: canonical_directory_Inr canonical_directory_or_missing_def
      intro!: resolve_ancestor_existing assms(2))

text \<open>
  The configuration an operator inspects is the one the daemon runs: whenever the full load
  succeeds, the load for inspection, which tolerates a missing worktree directory and probes
  nothing, returns the same configuration.
\<close>

theorem inspection_agrees:
  assumes "load_config parse_toml h p = Inr cfg"
    and "\<And>q r. h_canonicalize h q = Inr r \<Longrightarrow> is_ok (h_symlink_metadata h q)"
  shows "load_for_inspection parse_toml h p = Inr cfg"
proof -
  have "resolve_config h raw repo (\<lambda>_. Inr ()) True home = Inr cfg"
    if "resolve_config h raw repo (ensure_workspace_writable h) False home = Inr cfg" for raw repo home
    using that canonical_directory_existing [OF _ assms(2)]
    unfolding resolve_config_def Let_def result_simps
    by (elim exE conjE) (intro exI conjI; (assumption | simp add: result_simps)?)
  then show ?thesis using assms(1)
    by (auto simp: load_config_def load_for_inspection_def load_with_workspace_probe_def result_simps)
qed

text \<open>Where a ledger of the repository may lie when no data home is configured.\<close>

definition ledger_locations :: "host \<Rightarrow> string \<Rightarrow> path list" where
  "ledger_locations h digest =
     (case h_home_dir h of None \<Rightarrow> []
      | Some home \<Rightarrow> [child (child home CONFIG_DIRECTORY) digest, child (child home LEGACY_CONFIG_DIRECTORY) digest])
     @ (case h_data_local_dir h of None \<Rightarrow> [] | Some local \<Rightarrow> [child (child local ''factory'') digest])"

text \<open>
  No ledger is abandoned: with the default data directories, an accepted choice is the
  directory of the ledger that exists, be it the current or the older location, and no ledger is
  left in the location of earlier releases.
\<close>

theorem data_directory_keeps_ledger:
  assumes "repository_data_directory_for_resolved_identity h repository identity None = Inr d"
  shows "set (filter (\<lambda>l. h_exists h (child l DATABASE_NAME)) (ledger_locations h (data_digest h identity repository)))
     \<subseteq> {d}"
  using assms
  by (auto simp: repository_data_directory_for_resolved_identity_def ledger_locations_def Let_def result_simps
      split: if_splits option.splits)

subsection \<open>The configured identity\<close>

lemma byte_inject: "byte c = byte d \<longleftrightarrow> c = d"
  by (simp add: byte_def of_char_eq_iff)

lemma ascii_lower_char_slash: "ascii_lower_char c = CHR ''/'' \<longleftrightarrow> c = CHR ''/''"
proof -
  have slash: "byte (CHR ''/'') = 47" by (simp add: byte_def)
  have "byte (ascii_lower_char c) = byte c + 32" if "is_ascii_upper c"
    using that by (simp add: ascii_lower_char_def byte_char_of is_ascii_upper_def)
  then show ?thesis
    using slash by (cases "is_ascii_upper c") (auto simp: ascii_lower_char_def is_ascii_upper_def byte_inject [symmetric])
qed

lemma split_lowercase: "split (CHR ''/'') (to_ascii_lowercase s) = map to_ascii_lowercase (split (CHR ''/'') s)"
proof (induction s)
  case (Cons c s)
  obtain w ws where "split (CHR ''/'') s = w # ws" by (cases "split (CHR ''/'') s") auto
  with Cons show ?case by (simp add: to_ascii_lowercase_def ascii_lower_char_slash)
qed (simp add: to_ascii_lowercase_def)

definition identity_char :: "char \<Rightarrow> bool" where
  "identity_char c \<longleftrightarrow> is_ascii_alphanumeric c \<or> c \<in> set ''-_.''"

lemma identity_char_lower: "identity_char c \<Longrightarrow> identity_char (ascii_lower_char c)"
  by (auto simp: identity_char_def ascii_lower_char_def is_ascii_alphanumeric_def is_ascii_lower_def
      is_ascii_upper_def is_ascii_digit_def byte_char_of)

lemma identity_segments:
  assumes "wf_ref r"
  shows "split (CHR ''/'') (repository_identity r) =
    map to_ascii_lowercase ((case rr_provider r of GitHub \<Rightarrow> [] | GitLab \<Rightarrow> [''gitlab.com''])
      @ split (CHR ''/'') (rr_namespace r) @ [rr_name r])"
proof -
  have name: "CHR ''/'' \<notin> set (rr_name r)" using assms by (simp add: wf_ref_def good_segment_def)
  have host: "CHR ''/'' \<notin> set ''gitlab.com''" by simp
  show ?thesis using assms
    by (cases "rr_provider r")
       (simp_all add: repository_identity_def split_lowercase split_append_last [OF name] split_append_sep [OF host]
         wf_ref_def Let_def)
qed

text \<open>
  The \<open>[repository]\<close> table pins the remote: for a remote whose names use the characters of a
  repository name, the table is accepted exactly when it states the remote's provider and its
  identity, so what \<open>init\<close> writes loads, and nothing else does.
\<close>

theorem configured_identity_pins_remote:
  assumes "h_git h repository [''config'', ''--get'', ''remote.origin.url''] = Some origin"
    and "parse_repository_ref (trim origin) = Inr r"
    and "list_all (\<lambda>c. identity_char c \<or> c = CHR ''/'') (rr_namespace r @ rr_name r)"
  shows "resolve_repository_config h (Some table) repository = Inr accepted \<longleftrightarrow>
    table = accepted \<and> accepted = \<lparr>rc_provider = rr_provider r, rc_identity = repository_identity r\<rparr>"
proof -
  have wf: "wf_ref r" by (rule wf_ref_parsed [OF assms(2)])
  let ?id = "repository_identity r"
  have lower: "?id = to_ascii_lowercase ?id"
    by (simp add: repository_identity_def split: repository_provider.split)
  have ne: "?id \<noteq> []" by (simp add: repository_identity_def to_ascii_lowercase_def split: repository_provider.split)
  let ?plain = "\<lambda>w. w \<noteq> [] \<and> list_all (\<lambda>c. is_ascii_alphanumeric c \<or> c \<in> set ''-_.'') w"
  have ident: "list_all (\<lambda>c. is_ascii_alphanumeric c \<or> c \<in> set ''-_.'') w \<longleftrightarrow> list_all identity_char w" for w
    by (simp add: identity_char_def list_all_iff)
  have seg: "?plain (to_ascii_lowercase w)" if "w \<in> set (split (CHR ''/'') (rr_namespace r) @ [rr_name r])" for w
  proof -
    have "good_segment w" using that wf by (auto simp: wf_ref_def Let_def list_all_iff)
    then have "w \<noteq> []" "CHR ''/'' \<notin> set w" by (auto simp: good_segment_def bad_segment_def)
    moreover have "set w \<subseteq> set (rr_namespace r @ rr_name r)" using that set_split by auto
    ultimately have "list_all identity_char w" using assms(3) by (fastforce simp: list_all_iff)
    then show ?thesis unfolding ident using \<open>w \<noteq> []\<close>
      by (auto simp: to_ascii_lowercase_def list_all_iff identity_char_lower)
  qed
  have "?plain (to_ascii_lowercase ''gitlab.com'')" by code_simp
  with seg have "list_all ?plain (split (CHR ''/'') ?id)"
    unfolding identity_segments [OF wf] by (auto simp: list_all_iff split: repository_provider.splits)
  moreover have "case rr_provider r of GitHub \<Rightarrow> length (split (CHR ''/'') ?id) = 2
      | GitLab \<Rightarrow> 3 \<le> length (split (CHR ''/'') ?id) \<and> eq_ignore_ascii_case (split (CHR ''/'') ?id ! 0) ''gitlab.com''"
    using wf by (auto simp: identity_segments wf_ref_def Let_def eq_ignore_ascii_case_def Suc_le_eq
        split: repository_provider.split)
  ultimately have ok: "validate_configured_repository_identity (rr_provider r) ?id = Inr ?id"
    using lower ne by (simp add: validate_configured_repository_identity_def Let_def)
  have "repository_remote_ref h repository = Inr r"
    using assms(1,2) by (simp add: repository_remote_ref_def git_output_def)
  moreover have "validate_configured_repository_identity p i = Inr j \<Longrightarrow> j = i" for p i j
    by (auto simp: validate_configured_repository_identity_def Let_def split: if_splits)
  ultimately show ?thesis using ok
    by (cases table) (auto simp: resolve_repository_config_def Let_def result_simps)
qed

end
