(* ===== verification/Workflow_Catalog.thy ===== *)
theory Workflow_Catalog
  imports Factory_Config
begin

text \<open>
  The workflow catalog (\<open>src/workflow.rs\<close>): each configured trigger becomes an entry that carries
  either the prompt read from its Markdown file or the reason it is invalid, and the fingerprints
  that tell the scheduler and the ticket source whether a workflow changed. The targets the daemon
  dispatches to (\<open>src/daemon.rs\<close>) are built from the valid entries.
\<close>

subsection \<open>Entries\<close>

text \<open>A time zone is represented by its name.\<close>

datatype trigger =
    TSchedule string string
  | TSource string "string list"
  | TLabel string
  | TStatus string

datatype entry_error =
    CouldNotInspect | NotRegularFile | OutsideRepository | CouldNotResolve | CouldNotOpen
  | NotUtf8 | EmptyPrompt | NotPlainMarkdown

record workflow_entry =
  we_repository :: path
  we_path :: path
  we_id :: string
  we_trigger :: "trigger option"
  we_runtime :: "string option"
  we_timeout :: "nat option"
  we_agent_profile :: "(string \<times> agent_profile) option"
  we_prompt :: "string option"
  we_errors :: "entry_error list"

fun crlf_to_lf :: "string \<Rightarrow> string" where
  "crlf_to_lf [] = []"
| "crlf_to_lf [c] = [c]"
| "crlf_to_lf (c # d # s) =
     (if c = char_of (13::nat) \<and> d = char_of (10::nat) then d # crlf_to_lf s else c # crlf_to_lf (d # s))"

definition front_matter :: string where
  "front_matter = ''+++'' @ [char_of (10::nat)]"

definition push_error :: "entry_error \<Rightarrow> workflow_entry \<Rightarrow> workflow_entry" where
  "push_error e entry = entry\<lparr>we_errors := we_errors entry @ [e]\<rparr>"

definition read_plain_prompt :: "host \<Rightarrow> path \<Rightarrow> workflow_entry \<Rightarrow> workflow_entry" where
  "read_plain_prompt h repository entry =
     (case h_symlink_metadata h (we_path entry) of
        Inl _ \<Rightarrow> push_error CouldNotInspect entry
      | Inr kind \<Rightarrow>
          if kind \<noteq> RegularFile then push_error NotRegularFile entry
          else case h_canonicalize h (we_path entry) of
              Inl _ \<Rightarrow> push_error CouldNotResolve entry
            | Inr canonical \<Rightarrow>
                if \<not> path_starts_with canonical repository then push_error OutsideRepository entry
                else if \<not> h_open_nofollow h (we_path entry) then push_error CouldNotOpen entry
                else case h_read_to_string h (we_path entry) of
                    None \<Rightarrow> push_error NotUtf8 entry
                  | Some contents \<Rightarrow>
                      if trim contents = [] then push_error EmptyPrompt entry
                      else if text_starts (crlf_to_lf contents) front_matter then push_error NotPlainMarkdown entry
                      else entry\<lparr>we_prompt := Some contents\<rparr>)"

definition configured_entry :: "host \<Rightarrow> path \<Rightarrow> config \<Rightarrow> trigger_config \<Rightarrow> workflow_entry" where
  "configured_entry h repository cfg configured =
     \<lparr>we_repository = repository, we_path = tc_workflow configured, we_id = tc_id configured,
      we_trigger = (case tc_kind configured of
          KSource state labels \<Rightarrow> Some (TSource state labels)
        | KStatus status \<Rightarrow> Some (TStatus status)
        | KLabel label \<Rightarrow> Some (TLabel label)
        | KSchedule expression timezone \<Rightarrow> map_option (TSchedule expression) (h_timezone h timezone)),
      we_runtime = Some (cfg_default_runtime cfg), we_timeout = Some (tc_timeout configured),
      we_agent_profile = map_option (\<lambda>profile. (tc_agent_profile configured, profile))
        (map_of (cfg_agent_profiles cfg) (tc_agent_profile configured)),
      we_prompt = None, we_errors = []\<rparr>"

definition load_trigger :: "host \<Rightarrow> path \<Rightarrow> config \<Rightarrow> trigger_config \<Rightarrow> workflow_entry" where
  "load_trigger h repository cfg configured =
     read_plain_prompt h repository (configured_entry h repository cfg configured)"

definition load_catalog :: "host \<Rightarrow> config \<Rightarrow> workflow_entry list" where
  "load_catalog h cfg = sort_key we_id (map (load_trigger h (hd (cfg_repositories cfg)) cfg) (cfg_triggers cfg))"

definition is_schedule :: "workflow_entry \<Rightarrow> bool" where
  "is_schedule entry \<longleftrightarrow> (case we_trigger entry of Some (TSchedule _ _) \<Rightarrow> True | _ \<Rightarrow> False)"

definition invalid_count :: "workflow_entry list \<Rightarrow> nat" where
  "invalid_count entries = length (filter (\<lambda>entry. we_errors entry \<noteq> []) entries)"

definition invalid_scheduled_entries :: "workflow_entry list \<Rightarrow> workflow_entry list" where
  "invalid_scheduled_entries entries = filter (\<lambda>entry. we_errors entry \<noteq> [] \<and> is_schedule entry) entries"

definition validate_ticket_workflows :: "workflow_entry list \<Rightarrow> (path \<times> entry_error list) list + unit" where
  "validate_ticket_workflows entries =
     (let errors = map (\<lambda>entry. (we_path entry, we_errors entry))
            (filter (\<lambda>entry. we_errors entry \<noteq> [] \<and> \<not> is_schedule entry) entries)
      in if errors \<noteq> [] then Inl errors else Inr ())"

definition validate_all :: "workflow_entry list \<Rightarrow> (path \<times> entry_error list) list + unit" where
  "validate_all entries =
     (let errors = map (\<lambda>entry. (we_path entry, we_errors entry))
            (filter (\<lambda>entry. we_errors entry \<noteq> []) entries)
      in if errors \<noteq> [] then Inl errors else Inr ())"

subsection \<open>Dispatch targets\<close>

record workflow_target =
  wt_prompt :: string
  wt_runtime :: string
  wt_timeout :: nat
  wt_trigger :: trigger
  wt_agent_profile :: "string \<times> agent_profile"

definition resolve_workflow_target :: "workflow_entry \<Rightarrow> (string \<times> workflow_target) option" where
  "resolve_workflow_target entry =
     Option.bind (we_prompt entry) (\<lambda>prompt.
     Option.bind (we_runtime entry) (\<lambda>runtime.
     Option.bind (we_timeout entry) (\<lambda>timeout.
     Option.bind (we_trigger entry) (\<lambda>trigger.
     Option.bind (we_agent_profile entry) (\<lambda>profile.
     Some (we_id entry, \<lparr>wt_prompt = prompt, wt_runtime = runtime, wt_timeout = timeout,
       wt_trigger = trigger, wt_agent_profile = profile\<rparr>))))))"

text \<open>The workflows of a repository's target in \<open>resolve_targets\<close>; a \<open>HashMap\<close>, in which a later entry wins.\<close>

definition target_workflows :: "path \<Rightarrow> workflow_entry list \<Rightarrow> (string \<rightharpoonup> workflow_target)" where
  "target_workflows repository entries =
     map_of (rev (List.map_filter resolve_workflow_target
       (filter (\<lambda>entry. we_repository entry = repository \<and> we_errors entry = []) entries)))"

lemma push_error_fields [simp]:
  "we_errors (push_error e entry) = we_errors entry @ [e]" "we_prompt (push_error e entry) = we_prompt entry"
  "we_repository (push_error e entry) = we_repository entry" "we_path (push_error e entry) = we_path entry"
  "we_id (push_error e entry) = we_id entry" "we_trigger (push_error e entry) = we_trigger entry"
  "we_runtime (push_error e entry) = we_runtime entry" "we_timeout (push_error e entry) = we_timeout entry"
  "we_agent_profile (push_error e entry) = we_agent_profile entry"
  by (simp_all add: push_error_def)

lemma read_plain_prompt_fields [simp]:
  "we_repository (read_plain_prompt h r e) = we_repository e" "we_path (read_plain_prompt h r e) = we_path e"
  "we_id (read_plain_prompt h r e) = we_id e" "we_trigger (read_plain_prompt h r e) = we_trigger e"
  "we_runtime (read_plain_prompt h r e) = we_runtime e" "we_timeout (read_plain_prompt h r e) = we_timeout e"
  "we_agent_profile (read_plain_prompt h r e) = we_agent_profile e"
  by (simp_all add: read_plain_prompt_def split: sum.split option.split)

text \<open>A prompt that is safe to hand to an agent, and where it was read.\<close>

definition prompt_ok :: "host \<Rightarrow> path \<Rightarrow> path \<Rightarrow> string \<Rightarrow> bool" where
  "prompt_ok h repository p prompt \<longleftrightarrow> h_symlink_metadata h p = Inr RegularFile
     \<and> (case h_canonicalize h p of Inl _ \<Rightarrow> False | Inr canonical \<Rightarrow> path_starts_with canonical repository)
     \<and> h_open_nofollow h p \<and> h_read_to_string h p = Some prompt \<and> \<not> blank prompt
     \<and> \<not> text_starts (crlf_to_lf prompt) front_matter"

lemma read_plain_prompt_outcome:
  assumes "we_prompt e = None" and "we_errors e = []"
  shows "(we_errors (read_plain_prompt h r e) = [] \<and> (\<exists>p. we_prompt (read_plain_prompt h r e) = Some p \<and> prompt_ok h r (we_path e) p))
     \<or> (length (we_errors (read_plain_prompt h r e)) = 1 \<and> we_prompt (read_plain_prompt h r e) = None
        \<and> (\<forall>p. \<not> prompt_ok h r (we_path e) p))"
  using assms by (auto simp: read_plain_prompt_def prompt_ok_def blank_def split: sum.split option.split)

text \<open>
  A workflow is valid exactly when its file can be read safely: an entry carries a prompt iff the
  file is regular, lies inside the repository after links are resolved, and holds non-empty plain
  Markdown, and the prompt is then the text of that file; otherwise the entry is reported invalid.
\<close>

theorem entry_valid_iff_prompt_safe:
  "(we_prompt (load_trigger h repository cfg t) = Some p \<longleftrightarrow> prompt_ok h repository (tc_workflow t) p)
   \<and> (we_errors (load_trigger h repository cfg t) = [] \<longleftrightarrow> we_prompt (load_trigger h repository cfg t) \<noteq> None)"
proof -
  have "p = q" if "prompt_ok h repository x p" "prompt_ok h repository x q" for x q
    using that by (simp add: prompt_ok_def)
  then show ?thesis
    using read_plain_prompt_outcome [of "configured_entry h repository cfg t" h repository]
    by (auto simp: load_trigger_def configured_entry_def)
qed

subsection \<open>What the dispatcher serves\<close>

lemma resolved_trigger_kind:
  assumes "resolve_trigger h repository dt mt profiles e = Inr t" and "tc_kind t = KSchedule expression timezone"
  shows "h_timezone h timezone \<noteq> None"
proof -
  from assms obtain kind where "resolve_trigger_kind h (fst e) kind = Inr (KSchedule expression timezone)"
    by (auto simp: resolve_trigger_def Let_def result_simps)
  then show ?thesis
    by (cases kind) (auto simp: result_simps Let_def split: if_splits)
qed

lemma resolved_entry_complete:
  assumes "resolve_config h raw repo probe allow_missing home_arg = Inr cfg" and "t \<in> set (cfg_triggers cfg)"
  shows "we_trigger (configured_entry h repository cfg t) \<noteq> None"
    and "we_agent_profile (configured_entry h repository cfg t) \<noteq> None"
    and "we_timeout (configured_entry h repository cfg t) = Some (tc_timeout t)"
    and "we_runtime (configured_entry h repository cfg t) = Some (cfg_default_runtime cfg)"
proof -
  from assms(1) obtain r where triggers: "resolve_triggers h (raw_triggers raw) r (cfg_default_timeout cfg)
      (cfg_maximum_timeout cfg) (cfg_agent_profiles cfg) = Inr (cfg_triggers cfg)"
    by (rule resolve_config_parts) blast
  then have collected: "collect_results (map (resolve_trigger h r (cfg_default_timeout cfg) (cfg_maximum_timeout cfg)
      (cfg_agent_profiles cfg)) (raw_triggers raw)) = Inr (cfg_triggers cfg)"
    by (auto simp: resolve_triggers_def split: if_splits)
  from collect_map_member [OF collected assms(2)] obtain e where
    e: "resolve_trigger h r (cfg_default_timeout cfg) (cfg_maximum_timeout cfg) (cfg_agent_profiles cfg) e = Inr t" .
  show "we_trigger (configured_entry h repository cfg t) \<noteq> None"
    using resolved_trigger_kind [OF e] by (auto simp: configured_entry_def split: trigger_kind.split)
  have "map_of (cfg_agent_profiles cfg) (tc_agent_profile t) \<noteq> None"
    using e by (auto simp: resolve_trigger_def validate_agent_profile_reference_def Let_def result_simps)
  then show "we_agent_profile (configured_entry h repository cfg t) \<noteq> None" by (simp add: configured_entry_def)
qed (simp_all add: configured_entry_def)

lemma entry_target:
  assumes "resolve_config h raw repo probe allow_missing home_arg = Inr cfg" and "t \<in> set (cfg_triggers cfg)"
  shows "(\<exists>w. resolve_workflow_target (load_trigger h repository cfg t) = Some (tc_id t, w)) \<longleftrightarrow>
      (\<exists>p. prompt_ok h repository (tc_workflow t) p)"
    and "resolve_workflow_target (load_trigger h repository cfg t) = Some x \<Longrightarrow> fst x = tc_id t"
proof -
  let ?e = "load_trigger h repository cfg t"
  have "we_trigger ?e \<noteq> None" "we_agent_profile ?e \<noteq> None" "we_timeout ?e \<noteq> None" "we_runtime ?e \<noteq> None"
    using resolved_entry_complete [OF assms, of repository] by (simp_all add: load_trigger_def)
  then obtain trg profile timeout runtime where
    "we_trigger ?e = Some trg" "we_agent_profile ?e = Some profile" "we_timeout ?e = Some timeout" "we_runtime ?e = Some runtime"
    by blast
  moreover have "we_id ?e = tc_id t" by (simp add: load_trigger_def configured_entry_def)
  ultimately have target: "resolve_workflow_target ?e = map_option (\<lambda>p. (tc_id t, \<lparr>wt_prompt = p, wt_runtime = runtime,
      wt_timeout = timeout, wt_trigger = trg, wt_agent_profile = profile\<rparr>)) (we_prompt ?e)"
    by (cases "we_prompt ?e") (simp_all add: resolve_workflow_target_def)
  have prompt: "(\<exists>p. prompt_ok h repository (tc_workflow t) p) \<longleftrightarrow> we_prompt ?e \<noteq> None"
    using entry_valid_iff_prompt_safe [of h repository cfg t] by auto
  show "(\<exists>w. resolve_workflow_target ?e = Some (tc_id t, w)) \<longleftrightarrow> (\<exists>p. prompt_ok h repository (tc_workflow t) p)"
    unfolding target prompt by auto
  show "resolve_workflow_target ?e = Some x \<Longrightarrow> fst x = tc_id t"
    unfolding target by auto
qed

text \<open>
  The daemon serves exactly the workflows whose prompt can be read safely: from an accepted configuration,
  the targets it dispatches to are those triggers, none is dropped for another reason, and no
  invalid one is kept.
\<close>

theorem targets_are_valid_workflows:
  assumes "resolve_config h raw repo probe allow_missing home_arg = Inr cfg"
    and "cfg_repositories cfg = [repository]"
  shows "dom (target_workflows repository (load_catalog h cfg)) =
    tc_id ` {t \<in> set (cfg_triggers cfg). \<exists>p. prompt_ok h repository (tc_workflow t) p}"
proof -
  let ?load = "load_trigger h repository cfg" and ?T = "set (cfg_triggers cfg)"
  let ?valid = "\<lambda>e. we_repository e = repository \<and> we_errors e = []"
  have "dom (target_workflows repository (load_catalog h cfg)) =
      fst ` set (List.map_filter resolve_workflow_target (filter ?valid (load_catalog h cfg)))"
    by (simp add: target_workflows_def dom_map_of_conv_image_fst)
  also have "\<dots> = {fst x |x t. t \<in> ?T \<and> ?valid (?load t) \<and> resolve_workflow_target (?load t) = Some x}"
    by (auto simp: map_filter_def load_catalog_def assms(2) image_iff) force+
  also have "\<dots> = tc_id ` {t \<in> ?T. \<exists>p. prompt_ok h repository (tc_workflow t) p}"
  proof -
    have "?valid (?load t) \<longleftrightarrow> (\<exists>p. prompt_ok h repository (tc_workflow t) p)" for t
      using entry_valid_iff_prompt_safe [of h repository cfg t]
      by (auto simp: load_trigger_def configured_entry_def)
    then show ?thesis
      using entry_target [OF assms(1), of _ repository] by (auto simp: image_iff) (metis fst_conv)+
  qed
  finally show ?thesis .
qed

end
