(* ===== verification/Workflow_Fingerprint.thy ===== *)
theory Workflow_Fingerprint
  imports Workflow_Catalog
begin

text \<open>
  The digests that identify a workflow definition (\<open>scheduled_workflow_fingerprint\<close> and
  \<open>workflow_content_hash\<close> of \<open>src/workflow.rs\<close>): the SHA-256 digest of a JSON array. The JSON text of
  strings, numbers and arrays is written out as \<open>serde_json\<close> prints it, so that two definitions with the
  same text are shown to be the same definition.
\<close>

subsection \<open>JSON text\<close>

definition json_short_escape :: "nat \<Rightarrow> char option" where
  "json_short_escape n =
     map_of [(8, CHR ''b''), (9, CHR ''t''), (10, CHR ''n''), (12, CHR ''f''), (13, CHR ''r''),
       (34, CHR 0x22), (92, CHR 0x5C)] n"

definition json_escape_char :: "char \<Rightarrow> string" where
  "json_escape_char c =
     (case json_short_escape (byte c) of
        Some e \<Rightarrow> [CHR 0x5C, e]
      | None \<Rightarrow> if byte c < 32
          then CHR 0x5C # ''u00'' @ [lower_hex ! (byte c div 16), lower_hex ! (byte c mod 16)]
          else [c])"

definition json_string :: "string \<Rightarrow> string" where
  "json_string s = CHR 0x22 # concat (map json_escape_char s) @ [CHR 0x22]"

fun json_items :: "string list \<Rightarrow> string" where
  "json_items [] = '']''"
| "json_items [v] = v @ '']''"
| "json_items (v # w # vs) = v @ '','' @ json_items (w # vs)"

definition json_tuple :: "string list \<Rightarrow> string" where
  "json_tuple vs = ''['' @ json_items vs"

fun json_option :: "string option \<Rightarrow> string" where
  "json_option None = ''null''"
| "json_option (Some v) = v"

subsection \<open>The definitions that are hashed\<close>

definition as_secs :: "nat \<Rightarrow> nat" where "as_secs d = d div 1000000000"
definition subsec_nanos :: "nat \<Rightarrow> nat" where "subsec_nanos d = d mod 1000000000"

definition scheduled_definition :: "string \<Rightarrow> string \<Rightarrow> string \<Rightarrow> nat \<Rightarrow> string \<Rightarrow> string" where
  "scheduled_definition expression timezone runtime timeout prompt =
     json_tuple [json_string expression, json_string timezone, json_string runtime,
       nat_dec (as_secs timeout), nat_dec (subsec_nanos timeout), json_string prompt]"

definition sha256_hex :: "(string \<Rightarrow> 8 word list) \<Rightarrow> string \<Rightarrow> string" where
  "sha256_hex sha256 data = encode_lower (sha256 data)"

definition scheduled_workflow_fingerprint ::
  "(string \<Rightarrow> 8 word list) \<Rightarrow> string \<Rightarrow> string \<Rightarrow> string \<Rightarrow> nat \<Rightarrow> string \<Rightarrow> string" where
  "scheduled_workflow_fingerprint sha256 expression timezone runtime timeout prompt =
     ''v2:'' @ sha256_hex sha256 (scheduled_definition expression timezone runtime timeout prompt)"

text \<open>\<open>debug\<close> is the \<open>Debug\<close> rendering of a text and \<open>debug_list\<close> that of a list of texts.\<close>

fun trigger_text :: "(string \<Rightarrow> string) \<Rightarrow> (string list \<Rightarrow> string) \<Rightarrow> trigger \<Rightarrow> string" where
  "trigger_text debug debug_list (TSchedule expression timezone) =
     ''schedule '' @ debug expression @ '' ('' @ timezone @ '')''"
| "trigger_text debug debug_list (TSource state labels) =
     ''source state '' @ debug state @ (if labels = [] then [] else '' labels '' @ debug_list labels)"
| "trigger_text debug debug_list (TLabel label) = ''label '' @ debug label"
| "trigger_text debug debug_list (TStatus status) = ''status '' @ debug status"

definition content_definition :: "(string \<Rightarrow> string) \<Rightarrow> (string list \<Rightarrow> string) \<Rightarrow> workflow_entry \<Rightarrow> string" where
  "content_definition debug debug_list entry =
     json_tuple [json_string (we_id entry),
       json_option (map_option (\<lambda>t. json_string (trigger_text debug debug_list t)) (we_trigger entry)),
       json_option (map_option json_string (we_runtime entry)),
       json_option (map_option (\<lambda>t. json_tuple [nat_dec (as_secs t), nat_dec (subsec_nanos t)]) (we_timeout entry)),
       json_option (map_option json_string (we_prompt entry))]"

definition workflow_content_hash ::
  "(string \<Rightarrow> 8 word list) \<Rightarrow> (string \<Rightarrow> string) \<Rightarrow> (string list \<Rightarrow> string) \<Rightarrow> workflow_entry \<Rightarrow> string" where
  "workflow_content_hash sha256 debug debug_list entry =
     ''v1:'' @ sha256_hex sha256 (content_definition debug debug_list entry)"

subsection \<open>The text determines the definition\<close>

lemma lower_hex_nth: "i < 16 \<Longrightarrow> j < 16 \<Longrightarrow> lower_hex ! i = lower_hex ! j \<longleftrightarrow> i = j"
  by (rule nth_eq_iff_index_eq) (simp_all add: lower_hex_def)

lemma byte_inj: "byte c = byte d \<Longrightarrow> c = d"
  by (simp add: byte_inject)

lemma json_short_escape_cases:
  "json_short_escape n = Some e \<longleftrightarrow>
     (n, e) \<in> {(8, CHR ''b''), (9, CHR ''t''), (10, CHR ''n''), (12, CHR ''f''), (13, CHR ''r''),
       (34, CHR 0x22), (92, CHR 0x5C)}"
  by (auto simp: json_short_escape_def)

lemma json_short_escape_inj: "json_short_escape m = Some e \<Longrightarrow> json_short_escape n = Some e \<Longrightarrow> m = n"
  by (auto simp: json_short_escape_cases)

lemma json_short_escape_not_u: "json_short_escape n \<noteq> Some (CHR ''u'')"
  by (simp add: json_short_escape_cases)

lemma control_escape_inj:
  assumes "m < 32" and "n < 32" and "lower_hex ! (m div 16) = lower_hex ! (n div 16)"
    and "lower_hex ! (m mod 16) = lower_hex ! (n mod 16)"
  shows "m = (n::nat)"
proof -
  have "m div 16 < 16" "n div 16 < 16" using assms(1,2) by simp_all
  with assms(3,4) have "m div 16 = n div 16" "m mod 16 = n mod 16" by (simp_all add: lower_hex_nth)
  then show ?thesis by (metis div_mult_mod_eq)
qed

lemma plain_not_special:
  assumes "json_short_escape (byte c) = None"
  shows "c \<noteq> CHR 0x5C" and "c \<noteq> CHR 0x22"
  using assms by (auto simp: json_short_escape_def byte_def)

lemma json_escape_char_unique:
  assumes "json_escape_char c @ x = json_escape_char d @ y"
  shows "c = d \<and> x = y"
proof (cases "json_short_escape (byte c)")
  case None
  show ?thesis
  proof (cases "json_short_escape (byte d)")
    case d: None
    show ?thesis using assms None d plain_not_special [OF None] plain_not_special [OF d]
      by (auto simp: json_escape_char_def dest: control_escape_inj byte_inj split: if_splits)
  next
    case (Some e)
    then show ?thesis using assms None plain_not_special [OF None] json_short_escape_not_u
      by (auto simp: json_escape_char_def split: if_splits)
  qed
next
  case (Some e)
  show ?thesis
  proof (cases "json_short_escape (byte d)")
    case None
    then show ?thesis using assms Some plain_not_special [OF None] json_short_escape_not_u
      by (auto simp: json_escape_char_def split: if_splits)
  next
    case d: (Some f)
    then show ?thesis using assms Some json_short_escape_inj [of "byte c" e "byte d"]
      by (auto simp: json_escape_char_def dest: byte_inj)
  qed
qed

lemma json_escape_char_no_quote: "json_escape_char c @ x \<noteq> CHR 0x22 # y"
  using plain_not_special [of c] by (auto simp: json_escape_char_def split: option.splits if_splits)

lemma json_string_unique:
  assumes "json_string s @ x = json_string t @ y"
  shows "s = t \<and> x = y"
proof -
  have "concat (map json_escape_char s) @ CHR 0x22 # x = concat (map json_escape_char t) @ CHR 0x22 # y
      \<Longrightarrow> s = t \<and> x = y"
  proof (induction s arbitrary: t)
    case Nil
    then show ?case using json_escape_char_no_quote by (cases t) (auto dest: sym)
  next
    case (Cons c s)
    show ?case
    proof (cases t)
      case Nil
      with Cons.prems json_escape_char_no_quote show ?thesis by auto
    next
      case (Cons d t')
      with Cons.prems have "json_escape_char c @ (concat (map json_escape_char s) @ CHR 0x22 # x)
          = json_escape_char d @ (concat (map json_escape_char t') @ CHR 0x22 # y)" by simp
      from json_escape_char_unique [OF this] Cons.IH show ?thesis by (simp add: Cons)
    qed
  qed
  then show ?thesis using assms by (simp add: json_string_def)
qed

lemma json_string_inject [simp]: "json_string s = json_string t \<longleftrightarrow> s = t"
  using json_string_unique [of s "[]" t "[]"] by auto

lemma nat_dec_unique:
  assumes "nat_dec m @ c # x = nat_dec n @ d # y" and "\<not> is_ascii_digit c" and "\<not> is_ascii_digit d"
  shows "m = n \<and> c # x = d # y"
proof -
  have take: "takeWhile is_ascii_digit (nat_dec k @ e # z) = nat_dec k" if "\<not> is_ascii_digit e" for k e z
    using that nat_dec_digits [of _ k] by (subst takeWhile_append2) auto
  from take [OF assms(2), of m x] take [OF assms(3), of n y] assms(1) have "nat_dec m = nat_dec n" by simp
  with assms(1) show ?thesis by simp
qed

lemma comma_no_digit [simp]: "\<not> is_ascii_digit (CHR '','')" "\<not> is_ascii_digit (CHR '']'')"
  by (simp_all add: is_ascii_digit_def byte_def)

lemma duration_parts: "as_secs s = as_secs t \<Longrightarrow> subsec_nanos s = subsec_nanos t \<Longrightarrow> s = t"
  unfolding as_secs_def subsec_nanos_def by (metis div_mult_mod_eq)

text \<open>
  A scheduled workflow's fingerprint identifies its definition: two workflows have the same hashed text
  only when expression, time zone, runtime, timeout and prompt all agree, whatever characters they
  contain, so only a collision of SHA-256 could hide a change from the scheduler.
\<close>

theorem scheduled_definition_injective:
  "scheduled_definition e z r t p = scheduled_definition e' z' r' t' p' \<longleftrightarrow>
     e = e' \<and> z = z' \<and> r = r' \<and> t = t' \<and> p = p'"
  by (auto simp: scheduled_definition_def json_tuple_def
      dest!: json_string_unique [of e _ e'] json_string_unique [of z _ z'] json_string_unique [of r _ r']
        json_string_unique [of p _ p'] nat_dec_unique duration_parts)

lemma json_string_not_null [simp]: "json_string s @ x \<noteq> CHR ''n'' # y" "CHR ''n'' # y \<noteq> json_string s @ x"
  by (simp_all add: json_string_def)

lemma json_option_unique:
  assumes "json_option (map_option json_string a) @ x = json_option (map_option json_string b) @ y"
  shows "a = b \<and> x = y"
  using assms by (cases a; cases b) (auto dest: json_string_unique)

lemma json_option_inject [simp]:
  "json_option (map_option json_string a) = json_option (map_option json_string b) \<longleftrightarrow> a = b"
  using json_option_unique [of a "[]" b "[]"] by auto

definition duration_json :: "nat \<Rightarrow> string" where
  "duration_json t = json_tuple [nat_dec (as_secs t), nat_dec (subsec_nanos t)]"

lemma duration_json_unique:
  "json_option (map_option duration_json a) @ x = json_option (map_option duration_json b) @ y \<Longrightarrow> a = b \<and> x = y"
  by (cases a; cases b) (auto simp: duration_json_def json_tuple_def dest!: nat_dec_unique dest: duration_parts)

lemma content_definition_injective:
  "content_definition debug debug_list entry = content_definition debug debug_list entry' \<longleftrightarrow>
     we_id entry = we_id entry' \<and> we_runtime entry = we_runtime entry' \<and> we_timeout entry = we_timeout entry'
     \<and> we_prompt entry = we_prompt entry'
     \<and> map_option (trigger_text debug debug_list) (we_trigger entry) = map_option (trigger_text debug debug_list) (we_trigger entry')"
proof -
  have comp: "map_option (\<lambda>t. json_string (trigger_text debug debug_list t)) = map_option json_string \<circ> map_option (trigger_text debug debug_list)"
    by (auto simp: option.map_comp fun_eq_iff comp_def)
  show ?thesis
    unfolding content_definition_def json_tuple_def [of "[_, _, _, _, _]"] comp duration_json_def [symmetric, abs_def]
    by (auto dest!: json_string_unique [of "we_id entry"] json_option_unique duration_json_unique)
qed

end
