(* ===== verification/Config_Examples.thy ===== *)
theory Config_Examples
  imports Workflow_Fingerprint
begin

text \<open>
  A repository with one scheduled and one ticket workflow, on a machine where its configuration
  loads, and the properties of \<open>Factory_Config\<close> applied to it.
\<close>

definition acme_repository :: path where
  "acme_repository = [RootDir, Normal ''work'', Normal ''widgets'']"

definition acme_host :: host where
  "acme_host = \<lparr>h_symlink_metadata = \<lambda>p. if p = [] then Inl NotFound
       else if extension p = Some ''md'' then Inr RegularFile else Inr OtherKind,
     h_canonicalize = \<lambda>p. if p = [] then Inl NotFound else Inr p,
     h_is_dir = \<lambda>p. True,
     h_exists = \<lambda>p. p = child (child acme_repository ''.flashy-factory'') ''config.toml'',
     h_read_to_string = \<lambda>p. Some ''toml'', h_open_nofollow = \<lambda>p. True, h_writable = \<lambda>p. True, h_env_var = \<lambda>v. None,
     h_home_dir = Some [RootDir, Normal ''home'', Normal ''op''], h_data_local_dir = None,
     h_current_dir = Some acme_repository,
     h_git = \<lambda>p arguments.
       if arguments = [''config'', ''--get'', ''remote.origin.url''] then Some ''git@github.com:Acme/Widgets.git''
       else if arguments = [''rev-parse'', ''--is-bare-repository''] then Some ''false''
       else if arguments = [''rev-parse'', ''--show-toplevel''] then Some ''/work/widgets''
       else Some ''/work/widgets/.git'',
     h_parse_duration = \<lambda>s. if s = ''60ns'' then Some 60 else if s = ''90ns'' then Some 90
       else if s = ''200ns'' then Some 200 else None,
     h_cron_valid = \<lambda>s. s = ''0 0 3 * * *'', h_timezone = \<lambda>s. if s = ''UTC'' then Some s else None,
     h_sha256 = \<lambda>s. replicate 32 171\<rparr>"

definition acme_raw :: raw_config where
  "acme_raw = \<lparr>raw_version = 1, raw_poll_every = ''60ns'', raw_pull_request_reconcile_every = ''60ns'',
     raw_repository = Some \<lparr>rc_provider = GitHub, rc_identity = ''acme/widgets''\<rparr>,
     raw_worker_section = \<lparr>rw_runtime = '' codex'', rw_sandbox = DockerSandbox, rw_timeout = ''90ns'',
       rw_maximum_timeout = Some ''200ns'', rw_max_concurrent = 2, rw_template = None, rw_memory = Some ''16G'',
       rw_cpus = None, rw_github_token_env = None, rw_gitlab_token_env = None\<rparr>,
     raw_source_section = \<lparr>rs_command = Some [''tickets'', ''--json''], rs_provider = None,
       rs_project_owner = None, rs_project_number = None, rs_status_field = None, rs_trusted_users = None\<rparr>,
     raw_agent_profiles = [(''deep'', \<lparr>ap_model = ''gpt-5.1'', ap_reasoning_effort = ''High'',
       ap_service_tier = ''default''\<rparr>)],
     raw_triggers =
       [(''audit'', \<lparr>rt_kind = RawSchedule ''0 3 * * *'' ''UTC'', rt_workflow = ''.flashy-factory/workflows/audit.md'',
          rt_timeout = Some ''200ns'', rt_agent_profile = ''deep''\<rparr>),
        (''implement'', \<lparr>rt_kind = RawSource ''Ready'' [''bug'', '' bug ''],
          rt_workflow = ''.flashy-factory/workflows/implement.md'', rt_timeout = None, rt_agent_profile = ''deep''\<rparr>)]\<rparr>"

definition acme_config :: config where
  "acme_config = \<lparr>cfg_repositories = [acme_repository],
     cfg_repository = \<lparr>rc_provider = GitHub, rc_identity = ''acme/widgets''\<rparr>,
     cfg_poll_every = 60, cfg_pull_request_reconcile_every = 60,
     cfg_default_runtime = ''codex'', cfg_default_timeout = 90, cfg_maximum_timeout = 200,
     cfg_max_concurrent_runs = 2, cfg_max_concurrent_runs_per_repository = 2,
     cfg_workspace_root = path_of ''/home/op/.flashy-factory/abababababababababab/worktrees'',
     cfg_data_directory = path_of ''/home/op/.flashy-factory/abababababababababab'',
     cfg_execution_mode = DockerSandbox,
     cfg_worker = Some \<lparr>wc_template = ''docker/sandbox-templates:codex-docker'', wc_memory = ''16g'', wc_cpus = 4,
       wc_repository_provider = GitHub, wc_repository_token_env = ''FACTORY_GITHUB_TOKEN''\<rparr>,
     cfg_agent_profiles = [(''deep'', \<lparr>ap_model = ''gpt-5.1'', ap_reasoning_effort = ''high'',
       ap_service_tier = ''default''\<rparr>)],
     cfg_triggers =
       [\<lparr>tc_id = ''audit'', tc_workflow = acme_repository @ path_of ''.flashy-factory/workflows/audit.md'',
          tc_timeout = 200, tc_kind = KSchedule ''0 3 * * *'' ''UTC'', tc_agent_profile = ''deep''\<rparr>,
        \<lparr>tc_id = ''implement'', tc_workflow = acme_repository @ path_of ''.flashy-factory/workflows/implement.md'',
          tc_timeout = 90, tc_kind = KSource ''Ready'' [''bug''], tc_agent_profile = ''deep''\<rparr>],
     cfg_source = Some \<lparr>sc_command = [''tickets'', ''--json''], sc_owner = [], sc_project_number = 0,
       sc_status_field = [], sc_trusted_users = []\<rparr>\<rparr>"

lemma acme_resolves:
  "resolve_config acme_host acme_raw acme_repository (ensure_workspace_writable acme_host) False None = Inr acme_config"
  by code_simp

lemma acme_canonicalize: "h_canonicalize acme_host p = Inr q \<Longrightarrow> q \<noteq> [] \<and> is_ok (h_symlink_metadata acme_host p)"
  by (auto simp: acme_host_def split: if_splits)

theorem resolved_config_ok_witness: "config_ok acme_config \<and> map tc_id (cfg_triggers acme_config) = [''audit'', ''implement'']"
  using resolved_config_ok [OF acme_resolves] acme_canonicalize
  by (simp add: acme_raw_def) (simp add: acme_config_def)

definition acme_config_file :: path where
  "acme_config_file = child (child acme_repository ''.flashy-factory'') ''config.toml''"

theorem inspection_agrees_witness:
  "load_for_inspection (\<lambda>contents. Some acme_raw) acme_host acme_config_file = Inr acme_config"
proof -
  have "load_config (\<lambda>contents. Some acme_raw) acme_host acme_config_file = Inr acme_config" by code_simp
  then show ?thesis by (rule inspection_agrees) (simp add: acme_canonicalize)
qed

definition older_ledger_host :: host where
  "older_ledger_host = acme_host\<lparr>h_exists := \<lambda>p.
     p = path_of ''/home/op/.factory/abababababababababab/factory.sqlite3''\<rparr>"

theorem data_directory_keeps_ledger_witness:
  "filter (\<lambda>l. h_exists older_ledger_host (child l DATABASE_NAME))
     (ledger_locations older_ledger_host (data_digest older_ledger_host ''acme/widgets'' acme_repository))
     = [path_of ''/home/op/.factory/abababababababababab'']
   \<and> repository_data_directory_for_resolved_identity older_ledger_host acme_repository ''acme/widgets'' None
     = Inr (path_of ''/home/op/.factory/abababababababababab'')"
proof -
  have "repository_data_directory_for_resolved_identity older_ledger_host acme_repository ''acme/widgets'' None
     = Inr (path_of ''/home/op/.factory/abababababababababab'')" by code_simp
  moreover have "filter (\<lambda>l. h_exists older_ledger_host (child l DATABASE_NAME))
     (ledger_locations older_ledger_host (data_digest older_ledger_host ''acme/widgets'' acme_repository))
     = [path_of ''/home/op/.factory/abababababababababab'']" by code_simp
  ultimately show ?thesis using data_directory_keeps_ledger by blast
qed

theorem configured_identity_pins_remote_witness:
  "resolve_repository_config acme_host (Some \<lparr>rc_provider = GitHub, rc_identity = ''acme/widgets''\<rparr>) acme_repository
     = Inr \<lparr>rc_provider = GitHub, rc_identity = ''acme/widgets''\<rparr>"
proof -
  let ?r = "\<lparr>rr_provider = GitHub, rr_host = ''github.com'', rr_namespace = ''Acme'', rr_name = ''Widgets''\<rparr>"
  have "h_git acme_host acme_repository [''config'', ''--get'', ''remote.origin.url''] = Some ''git@github.com:Acme/Widgets.git''"
    by (simp add: acme_host_def)
  moreover have "parse_repository_ref (trim ''git@github.com:Acme/Widgets.git'') = Inr ?r" by code_simp
  moreover have "list_all (\<lambda>c. identity_char c \<or> c = CHR ''/'') (rr_namespace ?r @ rr_name ?r)" by code_simp
  moreover have "repository_identity ?r = ''acme/widgets''" by code_simp
  ultimately show ?thesis using configured_identity_pins_remote [of acme_host acme_repository _ ?r] by force
qed

lemma acme_prompts: "list_all (\<lambda>t. prompt_ok acme_host acme_repository (tc_workflow t) ''toml'') (cfg_triggers acme_config)"
  by code_simp

theorem targets_are_valid_workflows_witness:
  "dom (target_workflows acme_repository (load_catalog acme_host acme_config)) = {''audit'', ''implement''}"
proof -
  have "cfg_repositories acme_config = [acme_repository]" by (simp add: acme_config_def)
  note served = targets_are_valid_workflows [OF acme_resolves this]
  have "{t \<in> set (cfg_triggers acme_config). \<exists>p. prompt_ok acme_host acme_repository (tc_workflow t) p} = set (cfg_triggers acme_config)"
    using acme_prompts by (auto simp: list_all_iff)
  then show ?thesis unfolding served by (simp add: acme_config_def)
qed

text \<open>A checkout below a directory whose name holds a dollar sign, on a machine where that variable is set.\<close>

definition dollar_host :: host where
  "dollar_host = acme_host\<lparr>h_env_var := \<lambda>v. if v = ''team'' then Some ''other'' else None\<rparr>"

text \<open>
  A repository path is expanded a second time after it was resolved: for a checkout at
  \<open>/work/$team\<close> the configuration is taken from \<open>/work/other\<close> when a variable \<open>team\<close> exists,
  although the path exists and was already canonical.
\<close>

theorem resolved_path_expanded_again:
  "h_canonicalize dollar_host [RootDir, Normal ''work'', Normal ''$team''] = Inr [RootDir, Normal ''work'', Normal ''$team'']
   \<and> canonical_directory dollar_host ''repository''
        [RootDir, Normal ''work'', Normal ''$team''] [RootDir, Normal ''work'', Normal ''$team'']
     = Inr [RootDir, Normal ''work'', Normal ''other'']"
  by code_simp

end
