(* ===== verification/Fleet_Admission.thy ===== *)
theory Fleet_Admission
  imports Factory_Prelude
begin

text \<open>
  Admission of runs across a fleet (\<open>FleetAdmission\<close> of \<open>src/daemon.rs\<close>): a fixed number of permits,
  handed to the repositories that wait for one in round-robin order. The mutex makes every
  operation atomic, so a history of the fleet is a sequence of operations. The last section is
  about the two ways the fleet loops use it: a member that stops while it waits, and members
  with nothing to do.
\<close>

subsection \<open>State and operations\<close>

record admission =
  adm_repositories :: "string list"
  adm_available :: nat
  adm_cursor :: nat
  adm_waiting :: "bool list"

datatype admission_error = NoRepositories | ZeroLimit | DuplicateIdentity | NotRegistered string

definition admission_new :: "string list \<Rightarrow> nat \<Rightarrow> admission_error + admission" where
  "admission_new repositories limit =
     (if repositories = [] then Inl NoRepositories
      else if limit = 0 then Inl ZeroLimit
      else if \<not> distinct repositories then Inl DuplicateIdentity
      else Inr \<lparr>adm_repositories = repositories, adm_available = limit, adm_cursor = 0,
        adm_waiting = replicate (length repositories) False\<rparr>)"

fun position :: "'a \<Rightarrow> 'a list \<Rightarrow> nat option" where
  "position x [] = None"
| "position x (y # ys) = (if y = x then Some 0 else map_option Suc (position x ys))"

definition next_waiting_repository :: "admission \<Rightarrow> nat option" where
  "next_waiting_repository a =
     List.find (\<lambda>i. adm_waiting a ! i)
       (map (\<lambda>offset. (adm_cursor a + offset) mod length (adm_waiting a)) [0..<length (adm_waiting a)])"

definition start_waiting :: "nat \<Rightarrow> admission \<Rightarrow> admission" where
  "start_waiting i a = a\<lparr>adm_waiting := (adm_waiting a)[i := True]\<rparr>"

definition grant :: "nat \<Rightarrow> admission \<Rightarrow> admission" where
  "grant i a = a\<lparr>adm_waiting := (adm_waiting a)[i := False], adm_available := adm_available a - 1,
     adm_cursor := (i + 1) mod length (adm_waiting a)\<rparr>"

text \<open>\<open>try_acquire\<close>: \<open>True\<close> is a permit.\<close>

definition try_acquire :: "string \<Rightarrow> admission \<Rightarrow> admission_error + (bool \<times> admission)" where
  "try_acquire repository a =
     (case position repository (adm_repositories a) of
        None \<Rightarrow> Inl (NotRegistered repository)
      | Some index \<Rightarrow>
          (let a = start_waiting index a
           in if 0 < adm_available a \<and> next_waiting_repository a = Some index
              then Inr (True, grant index a) else Inr (False, a)))"

text \<open>Dropping a permit.\<close>

definition drop_permit :: "admission \<Rightarrow> admission" where
  "drop_permit a = a\<lparr>adm_available := adm_available a + 1\<rparr>"

definition cancel_wait :: "string \<Rightarrow> admission \<Rightarrow> admission" where
  "cancel_wait repository a =
     (case position repository (adm_repositories a) of
        None \<Rightarrow> a
      | Some index \<Rightarrow> a\<lparr>adm_waiting := (adm_waiting a)[index := False]\<rparr>)"

subsection \<open>The shape of the state\<close>

definition admission_ok :: "admission \<Rightarrow> bool" where
  "admission_ok a \<longleftrightarrow> adm_repositories a \<noteq> [] \<and> distinct (adm_repositories a)
     \<and> length (adm_waiting a) = length (adm_repositories a)
     \<and> adm_cursor a < length (adm_waiting a)"

lemma position_SomeD: "position x xs = Some i \<Longrightarrow> i < length xs \<and> xs ! i = x"
  by (induction xs arbitrary: i) (auto split: if_splits)

lemma position_None: "position x xs = None \<longleftrightarrow> x \<notin> set xs"
  by (induction xs) auto

lemma position_nth: "distinct xs \<Longrightarrow> i < length xs \<Longrightarrow> position (xs ! i) xs = Some i"
proof -
  assume d: "distinct xs" "i < length xs"
  then have "position (xs ! i) xs \<noteq> None" by (simp add: position_None)
  then obtain j where j: "position (xs ! i) xs = Some j" by blast
  with position_SomeD [OF j] d have "j = i" by (metis nth_eq_iff_index_eq)
  with j show ?thesis by simp
qed

lemma admission_fields [simp]:
  "adm_repositories (start_waiting i a) = adm_repositories a"
  "adm_available (start_waiting i a) = adm_available a"
  "adm_cursor (start_waiting i a) = adm_cursor a"
  "adm_waiting (start_waiting i a) = (adm_waiting a)[i := True]"
  "adm_repositories (grant i a) = adm_repositories a"
  "adm_available (grant i a) = adm_available a - 1"
  "adm_cursor (grant i a) = (i + 1) mod length (adm_waiting a)"
  "adm_waiting (grant i a) = (adm_waiting a)[i := False]"
  "adm_repositories (drop_permit a) = adm_repositories a"
  "adm_available (drop_permit a) = adm_available a + 1"
  "adm_cursor (drop_permit a) = adm_cursor a" "adm_waiting (drop_permit a) = adm_waiting a"
  by (simp_all add: start_waiting_def grant_def drop_permit_def)

lemma cancel_wait_fields [simp]:
  "adm_repositories (cancel_wait r a) = adm_repositories a"
  "adm_available (cancel_wait r a) = adm_available a" "adm_cursor (cancel_wait r a) = adm_cursor a"
  by (simp_all add: cancel_wait_def split: option.split)

lemma admission_ok_ops:
  assumes "admission_ok a"
  shows "admission_ok (start_waiting i a)" and "admission_ok (grant i a)" and "admission_ok (drop_permit a)"
    and "admission_ok (cancel_wait r a)"
  using assms by (auto simp: admission_ok_def cancel_wait_def split: option.split)

subsection \<open>Histories\<close>

text \<open>
  What the fleet members do with the admission: ask for a permit, drop one they hold, give up
  waiting. A history returns the repositories that were granted a permit, in order. \<open>held\<close> counts
  the permits in use; a drop without one does not happen.
\<close>

datatype admission_event = Try string | Drop | Cancel string

fun admission_step :: "admission_event \<Rightarrow> nat \<times> admission \<Rightarrow> string list \<times> nat \<times> admission" where
  "admission_step (Try r) (held, a) = (case try_acquire r a of
      Inl _ \<Rightarrow> ([], held, a)
    | Inr (granted, a') \<Rightarrow> if granted then ([r], held + 1, a') else ([], held, a'))"
| "admission_step Drop (held, a) = (if held = 0 then ([], held, a) else ([], held - 1, drop_permit a))"
| "admission_step (Cancel r) (held, a) = ([], held, cancel_wait r a)"

fun admission_run :: "admission_event list \<Rightarrow> nat \<times> admission \<Rightarrow> string list \<times> nat \<times> admission" where
  "admission_run [] s = ([], s)"
| "admission_run (e # es) s = (case admission_step e s of (granted, s') \<Rightarrow>
     (case admission_run es s' of (later, s'') \<Rightarrow> (granted @ later, s'')))"

definition permits_ok :: "nat \<Rightarrow> nat \<times> admission \<Rightarrow> bool" where
  "permits_ok limit s \<longleftrightarrow> admission_ok (snd s) \<and> fst s + adm_available (snd s) = limit"

lemma try_acquire_cases:
  assumes "try_acquire r a = Inr (granted, a')"
  obtains i where "position r (adm_repositories a) = Some i"
    and "granted = (0 < adm_available a \<and> next_waiting_repository (start_waiting i a) = Some i)"
    and "a' = (if granted then grant i (start_waiting i a) else start_waiting i a)"
  using assms by (auto simp: try_acquire_def Let_def split: option.splits if_splits)

lemma permits_ok_step:
  assumes "permits_ok limit s"
  shows "permits_ok limit (snd (admission_step e s))"
proof (cases e)
  case (Try r)
  obtain held a where s: "s = (held, a)" by (cases s)
  show ?thesis
  proof (cases "try_acquire r a")
    case (Inl err)
    with Try s assms show ?thesis by simp
  next
    case (Inr p)
    obtain granted a' where p: "p = (granted, a')" by (cases p)
    with Inr obtain i where "granted = (0 < adm_available a \<and> next_waiting_repository (start_waiting i a) = Some i)"
        "a' = (if granted then grant i (start_waiting i a) else start_waiting i a)"
      by (auto elim: try_acquire_cases)
    with Inr p Try s assms show ?thesis
      by (auto simp: permits_ok_def intro: admission_ok_ops)
  qed
next
  case Drop
  with assms show ?thesis by (cases s) (auto simp: permits_ok_def intro: admission_ok_ops)
next
  case (Cancel r)
  with assms show ?thesis by (cases s) (auto simp: permits_ok_def intro: admission_ok_ops)
qed

lemma permits_ok_run: "permits_ok limit s \<Longrightarrow> permits_ok limit (snd (admission_run es s))"
proof (induction es arbitrary: s)
  case (Cons e es)
  from Cons.IH [OF permits_ok_step [OF Cons.prems, of e]] show ?case by (simp add: case_prod_unfold)
qed simp

lemma permits_ok_new:
  "admission_new repositories limit = Inr a \<Longrightarrow> permits_ok limit (0, a)"
  by (auto simp: admission_new_def permits_ok_def admission_ok_def split: if_splits)

text \<open>
  The fleet never runs more work than its limit: after any history of requests, drops and
  cancellations the permits in use and the free ones add up to the limit.
\<close>

theorem admission_respects_limit:
  assumes "admission_new repositories limit = Inr a"
    and "admission_run events (0, a) = (granted, held, a')"
  shows "held \<le> limit \<and> held + adm_available a' = limit"
  using permits_ok_run [OF permits_ok_new [OF assms(1)], of events] assms(2) by (simp add: permits_ok_def)

subsection \<open>Round robin\<close>

text \<open>How many positions the cursor is away from repository \<open>i\<close>.\<close>

definition turns_before :: "nat \<Rightarrow> admission \<Rightarrow> nat" where
  "turns_before i a = (i + length (adm_waiting a) - adm_cursor a) mod length (adm_waiting a)"

lemma turns_unique:
  fixes c n x i :: nat
  assumes "c < n" and "x < n" and "(c + x) mod n = i"
  shows "x = (i + n - c) mod n"
proof (cases "c + x < n")
  case True
  with assms(3) have "i = c + x" by simp
  then have "(i + n - c) mod n = (x + n) mod n" by simp
  with assms(2) show ?thesis by simp
next
  case False
  have "(c + x) mod n = c + x - n" using False assms(1,2) by (subst mod_if) auto
  with False assms show ?thesis by simp
qed

lemma turns_reach:
  fixes c n i :: nat
  assumes "c < n" and "i < n"
  shows "(c + (i + n - c) mod n) mod n = i"
proof -
  have "(c + (i + n - c) mod n) mod n = (c + (i + n - c)) mod n" by (rule mod_add_right_eq)
  also have "\<dots> = i" using assms by simp
  finally show ?thesis .
qed

lemma find_map_upt:
  assumes "List.find P (map f [0..<n]) = Some j"
  obtains k where "k < n" and "j = f k" and "P (f k)" and "\<forall>l<k. \<not> P (f l)"
proof -
  from assms obtain k where "k < length (map f [0..<n])" "P (map f [0..<n] ! k)"
      "j = map f [0..<n] ! k" "\<forall>l<k. \<not> P (map f [0..<n] ! l)"
    by (auto simp: find_Some_iff)
  then show ?thesis by (intro that [of k]) auto
qed

text \<open>A grant to another repository brings the cursor closer to a waiting one.\<close>

lemma grant_approaches:
  assumes ok: "admission_ok a" and i: "i < length (adm_waiting a)" "adm_waiting a ! i"
    and nxt: "next_waiting_repository a = Some j" and ne: "j \<noteq> i"
  shows "turns_before i (grant j a) < turns_before i a"
proof -
  let ?n = "length (adm_waiting a)" and ?c = "adm_cursor a"
  have c: "?c < ?n" using ok by (simp add: admission_ok_def)
  from nxt obtain k where k: "k < ?n" "j = (?c + k) mod ?n"
      "\<forall>l<k. \<not> adm_waiting a ! ((?c + l) mod ?n)"
    unfolding next_waiting_repository_def by (rule find_map_upt) blast
  define d where "d = turns_before i a"
  have "0 < ?n" using c by (rule le_less_trans [OF le0])
  then have d: "d < ?n" "(?c + d) mod ?n = i"
    using turns_reach [OF c i(1)] by (simp_all add: d_def turns_before_def)
  have "k \<noteq> d" using k(2) d(2) ne by auto
  moreover have "\<not> d < k" using k(3) d(2) i(2) by auto
  ultimately have kd: "k < d" by simp
  let ?c' = "(j + 1) mod ?n"
  have "?c' < ?n" using \<open>0 < ?n\<close> by (rule mod_less_divisor)
  moreover have "(?c' + (d - k - 1)) mod ?n = i"
  proof -
    have "(?c' + (d - k - 1)) mod ?n = (?c + k + 1 + (d - k - 1)) mod ?n"
      unfolding k(2) by (metis (no_types, lifting) mod_add_left_eq)
    also have "\<dots> = i" using kd d(2) by simp
    finally show ?thesis .
  qed
  ultimately have "d - k - 1 = (i + ?n - ?c') mod ?n" using d(1) by (intro turns_unique) auto
  then have "turns_before i (grant j a) = d - k - 1" by (simp add: turns_before_def)
  with kd show ?thesis by (simp add: d_def)
qed

lemma bypass_step:
  assumes ok: "admission_ok a" and r: "position r (adm_repositories a) = Some i" and w: "adm_waiting a ! i"
    and step: "admission_step e (held, a) = (granted, held', a')" and "e \<noteq> Cancel r" and "r \<notin> set granted"
  shows "admission_ok a' \<and> position r (adm_repositories a') = Some i \<and> adm_waiting a' ! i
    \<and> length granted + turns_before i a' \<le> turns_before i a"
proof -
  have i: "i < length (adm_waiting a)"
    using position_SomeD [OF r] ok by (simp add: admission_ok_def)
  show ?thesis
  proof (cases e)
    case (Try q)
    show ?thesis
    proof (cases "try_acquire q a")
      case (Inl err)
      with Try step ok r w show ?thesis by simp
    next
      case (Inr p)
      obtain g b where p: "p = (g, b)" by (cases p)
      with Inr obtain j where j: "position q (adm_repositories a) = Some j"
          "g = (0 < adm_available a \<and> next_waiting_repository (start_waiting j a) = Some j)"
          "b = (if g then grant j (start_waiting j a) else start_waiting j a)"
        by (auto elim: try_acquire_cases)
      let ?a = "start_waiting j a"
      have same: "admission_ok ?a" "i < length (adm_waiting ?a)" "adm_waiting ?a ! i"
          "turns_before i ?a = turns_before i a"
        using admission_ok_ops(1) [OF ok, of j] i w by (cases "i = j"; simp add: turns_before_def)+
      show ?thesis
      proof (cases g)
        case False
        with Try Inr p step j(3) have "granted = []" "a' = ?a" by auto
        with same r show ?thesis by simp
      next
        case True
        with Try Inr p step have out: "granted = [q]" "a' = grant j ?a" using j(3) by auto
        have "q \<noteq> r" using out(1) assms(6) by auto
        then have ne: "j \<noteq> i" using position_SomeD [OF j(1)] position_SomeD [OF r] by auto
        have "next_waiting_repository ?a = Some j" using j(2) True by simp
        from grant_approaches [OF same(1-3) this ne] same(4)
        have "turns_before i a' < turns_before i a" using out(2) by simp
        with out same(1,3) ne r show ?thesis by (auto intro: admission_ok_ops simp: nth_list_update)
      qed
    qed
  next
    case Drop
    with step ok r w show ?thesis by (auto simp: turns_before_def intro: admission_ok_ops split: if_splits)
  next
    case (Cancel q)
    with assms(5) have "q \<noteq> r" by simp
    then have "position q (adm_repositories a) \<noteq> Some i" using position_SomeD [OF r] by (auto dest: position_SomeD)
    then have "adm_waiting (cancel_wait q a) ! i \<and> length (adm_waiting (cancel_wait q a)) = length (adm_waiting a)"
      using w by (auto simp: cancel_wait_def nth_list_update split: option.split)
    with Cancel step ok r show ?thesis by (auto simp: turns_before_def intro: admission_ok_ops)
  qed
qed

text \<open>
  C40. Round robin is fair: while a repository waits and neither gives up nor gets its permit, the
  other repositories together are granted fewer permits than there are repositories, so a
  repository that keeps asking is at most one round away from its permit.
\<close>

theorem admission_bounded_bypass:
  assumes "admission_ok a" and "position r (adm_repositories a) = Some i" and "adm_waiting a ! i"
    and "admission_run events (held, a) = (granted, held', a')"
    and "Cancel r \<notin> set events" and "r \<notin> set granted"
  shows "length granted < length (adm_repositories a)"
proof -
  have "length granted \<le> turns_before i a"
    using assms
  proof (induction events arbitrary: held a granted)
    case (Cons e es)
    obtain g1 held1 a1 where step: "admission_step e (held, a) = (g1, held1, a1)"
      by (cases "admission_step e (held, a)") auto
    obtain g2 s2 where rest: "admission_run es (held1, a1) = (g2, s2)"
      by (cases "admission_run es (held1, a1)")
    with Cons.prems(4) step have out: "granted = g1 @ g2" "s2 = (held', a')" by auto
    from bypass_step [OF Cons.prems(1-3) step] Cons.prems(5,6) out(1)
    have "admission_ok a1" "position r (adm_repositories a1) = Some i" "adm_waiting a1 ! i"
        "length g1 + turns_before i a1 \<le> turns_before i a" by auto
    moreover from this have "length g2 \<le> turns_before i a1"
      using Cons.IH [OF _ _ _ rest [unfolded out(2)]] Cons.prems(5,6) out(1) by auto
    ultimately show ?case by (simp add: out(1))
  qed simp
  also have "turns_before i a < length (adm_repositories a)"
    using assms(1) by (simp add: turns_before_def admission_ok_def)
  finally show ?thesis .
qed

subsection \<open>A member that stops while it waits\<close>

text \<open>Two repositories share one permit; \<open>b\<close> asks while \<open>a\<close> holds it.\<close>

definition two_members :: admission where
  "two_members = \<lparr>adm_repositories = [''a'', ''b''], adm_available = 1, adm_cursor = 0,
     adm_waiting = [False, False]\<rparr>"

definition stalled :: "nat \<times> admission" where
  "stalled = (0, \<lparr>adm_repositories = [''a'', ''b''], adm_available = 1, adm_cursor = 1,
     adm_waiting = [True, True]\<rparr>)"

text \<open>
  A member that stops while it waits stops the fleet: a permit is free, but as the stopped
  member keeps its place in the round (only the unused \<open>acquire\<close> withdraws it), the other
  member is refused for as long as the first one does not come back, however often it asks.
\<close>

theorem stopped_member_blocks_fleet:
  "admission_new [''a'', ''b''] 1 = Inr two_members
   \<and> snd (admission_run [Try ''a'', Try ''b'', Drop, Try ''a''] (0, two_members)) = stalled
   \<and> fst (admission_run (replicate k (Try ''a'')) stalled) = []
   \<and> adm_available (snd stalled) = 1"
proof -
  have fix_point: "admission_step (Try ''a'') stalled = ([], stalled)" by code_simp
  have "admission_run (replicate k (Try ''a'')) stalled = ([], stalled)"
    by (induction k) (simp_all add: fix_point)
  moreover have "admission_new [''a'', ''b''] 1 = Inr two_members" by code_simp
  moreover have "snd (admission_run [Try ''a'', Try ''b'', Drop, Try ''a''] (0, two_members)) = stalled"
    by code_simp
  ultimately show ?thesis by (simp add: stalled_def)
qed

end
