(* ===== verification/Fleet_Config.thy ===== *)
theory Fleet_Config
  imports Workflow_Catalog Fleet_Admission
begin

text \<open>
  The fleet inventory (\<open>src/fleet.rs\<close>): the repositories one supervisor runs, how each becomes a runtime
  with its own limits, and the manifest that tells other commands which inventory is being
  supervised. The TOML text is decoded by another crate (\<open>raw_fleet\<close>); the manifest file keeps
  what was written to it.
\<close>

subsection \<open>The inventory\<close>

definition MAX_ENABLED_REPOSITORIES :: nat where "MAX_ENABLED_REPOSITORIES = 20"
definition MAX_SOURCE_WORKFLOWS_PER_REPOSITORY :: nat where "MAX_SOURCE_WORKFLOWS_PER_REPOSITORY = 3"
definition MIN_POLL_SECONDS :: nat where "MIN_POLL_SECONDS = 60"

record fleet_repository =
  fr_identity :: string
  fr_display_name :: string
  fr_path :: path
  fr_enabled :: bool
  fr_max_concurrent :: "nat option"

record fleet_config =
  fc_max_concurrent :: nat
  fc_repositories :: "fleet_repository list"

record raw_fleet_repository =
  rf_name :: string
  rf_path :: string
  rf_enabled :: bool
  rf_max_concurrent :: "nat option"

record raw_fleet =
  rf_limit :: nat
  rf_repositories :: "raw_fleet_repository list"

datatype fleet_error =
    FleetPath path_error | UnreadableFleet | UnparsableFleet | LimitZero | NoEntries | NothingEnabled
  | TooManyEnabled nat | IdentityInvalid nat | DuplicateRepository string | RepositoryLimitZero string
  | DuplicatePath path | NotACheckout | BareRepository | NotCheckoutRoot | CheckoutConfig config_error
  | IdentityDiffers string string | PollTooFrequent | InvalidTicketWorkflows | TooManySourceWorkflows nat
  | SnapshotMismatch | StateDirectory | AlreadySupervised | NoProcessIdentity | StateUnwritable
  | StateUnreadable | TwoStates

definition valid_identity_segment :: "string \<Rightarrow> bool" where
  "valid_identity_segment value \<longleftrightarrow> value \<noteq> [] \<and> length value \<le> 100 \<and> hd value \<noteq> CHR ''.''
     \<and> last value \<noteq> CHR ''.'' \<and> list_all (\<lambda>c. is_ascii_alphanumeric c \<or> c \<in> set ''-_.'') value"

definition validate_identity :: "nat \<Rightarrow> string \<Rightarrow> fleet_error + string" where
  "validate_identity index value =
     (let value = trim value;
          parts = split (CHR ''/'') value;
          valid_github = (length parts = 2 \<and> \<not> eq_ignore_ascii_case (hd parts) ''gitlab.com''
            \<and> list_all valid_identity_segment parts);
          valid_gitlab = (3 \<le> length parts \<and> eq_ignore_ascii_case (hd parts) ''gitlab.com''
            \<and> list_all valid_identity_segment (tl parts))
      in if \<not> valid_github \<and> \<not> valid_gitlab then Inl (IdentityInvalid (index + 1)) else Inr value)"

definition resolve_repository_path :: "host \<Rightarrow> string \<Rightarrow> path \<Rightarrow> fleet_error + path" where
  "resolve_repository_path h p base =
     and_then (map_err FleetPath (expand_path h p base)) (\<lambda>expanded.
     case h_canonicalize h expanded of
       Inr canonical \<Rightarrow> Inr canonical
     | Inl NotFound \<Rightarrow> (case canonical_directory_or_missing h ''repository'' expanded base of
           Inr resolved \<Rightarrow> Inr resolved | Inl _ \<Rightarrow> Inr expanded)
     | Inl OtherIo \<Rightarrow> Inr expanded)"

text \<open>The loop over the entries, with the identities and paths seen so far.\<close>

fun load_entries ::
  "host \<Rightarrow> path \<Rightarrow> nat \<Rightarrow> string set \<Rightarrow> path set \<Rightarrow> raw_fleet_repository list \<Rightarrow> fleet_error + fleet_repository list" where
  "load_entries h base index identities paths [] = Inr []"
| "load_entries h base index identities paths (repository # rest) =
     and_then (validate_identity index (rf_name repository)) (\<lambda>display_name.
     let identity = to_ascii_lowercase display_name
     in if identity \<in> identities then Inl (DuplicateRepository identity)
        else if rf_max_concurrent repository = Some 0 then Inl (RepositoryLimitZero display_name)
        else and_then (resolve_repository_path h (rf_path repository) base) (\<lambda>p.
             if p \<in> paths then Inl (DuplicatePath p)
             else and_then (load_entries h base (index + 1) (insert identity identities) (insert p paths) rest) (\<lambda>loaded.
                  Inr (\<lparr>fr_identity = identity, fr_display_name = display_name, fr_path = p,
                    fr_enabled = rf_enabled repository, fr_max_concurrent = rf_max_concurrent repository\<rparr> # loaded))))"

definition resolve_fleet :: "host \<Rightarrow> path \<Rightarrow> raw_fleet \<Rightarrow> fleet_error + fleet_config" where
  "resolve_fleet h p raw =
     (if rf_limit raw = 0 then Inl LimitZero
      else if rf_repositories raw = [] then Inl NoEntries
      else let enabled_count = length (filter rf_enabled (rf_repositories raw))
           in if enabled_count = 0 then Inl NothingEnabled
              else if enabled_count > MAX_ENABLED_REPOSITORIES then Inl (TooManyEnabled enabled_count)
              else and_then (ok_or (FleetPath (NoExistingAncestor ''fleet'')) (parent p)) (\<lambda>base.
                   and_then (load_entries h base 0 {} {} (rf_repositories raw)) (\<lambda>repositories.
                   Inr \<lparr>fc_max_concurrent = rf_limit raw, fc_repositories = repositories\<rparr>)))"

definition load_fleet :: "(string \<Rightarrow> raw_fleet option) \<Rightarrow> host \<Rightarrow> string \<Rightarrow> fleet_error + fleet_config" where
  "load_fleet parse_toml h path_arg =
     and_then (ok_or (FleetPath NoCurrentDirectory) (h_current_dir h)) (\<lambda>current_dir.
     and_then (map_err FleetPath (expand_path h path_arg current_dir)) (\<lambda>p.
     and_then (ok_or UnreadableFleet (h_read_to_string h p)) (\<lambda>contents.
     and_then (ok_or UnparsableFleet (parse_toml contents)) (\<lambda>raw. resolve_fleet h p raw))))"

subsection \<open>Runtimes\<close>

datatype repository_health = Loading | Healthy | BackingOff | RateLimited | InvalidConfig | Unavailable | Disabled

record repository_runtime =
  ru_identity :: string
  ru_path :: path
  ru_enabled :: bool
  ru_config :: config
  ru_catalog :: "workflow_entry list"
  ru_ledger_path :: path
  ru_workspace_root :: path
  ru_health :: repository_health

definition validate_checkout :: "host \<Rightarrow> path \<Rightarrow> string \<Rightarrow> fleet_error + unit" where
  "validate_checkout h p expected_identity =
     and_then (ok_or NotACheckout (h_git h p [''rev-parse'', ''--is-bare-repository''])) (\<lambda>bare.
     if trim bare \<noteq> ''false'' then Inl BareRepository
     else
     and_then (ok_or NotACheckout (h_git h p [''rev-parse'', ''--show-toplevel''])) (\<lambda>root.
     and_then (map_err (\<lambda>_. NotACheckout) (h_canonicalize h (path_of (trim root)))) (\<lambda>root.
     if root \<noteq> p then Inl NotCheckoutRoot
     else
     and_then (map_err CheckoutConfig (ensure_primary_checkout h p)) (\<lambda>_.
     and_then (map_err CheckoutConfig (repository_remote_identity h p)) (\<lambda>actual.
     if actual \<noteq> expected_identity then Inl (IdentityDiffers actual expected_identity) else Inr ())))))"

definition pinned_ledger_path ::
  "(string \<Rightarrow> raw_config option) \<Rightarrow> host \<Rightarrow> fleet_repository \<Rightarrow> fleet_error + path" where
  "pinned_ledger_path parse_toml h repository =
     and_then (validate_checkout h (fr_path repository) (fr_identity repository)) (\<lambda>_.
     and_then (map_err CheckoutConfig (resolve_repository_config_path h (fr_path repository))) (\<lambda>config_path.
     and_then (map_err CheckoutConfig (load_for_inspection parse_toml h config_path)) (\<lambda>cfg.
     if rc_identity (cfg_repository cfg) \<noteq> fr_identity repository
     then Inl (IdentityDiffers (rc_identity (cfg_repository cfg)) (fr_identity repository))
     else Inr (child (cfg_data_directory cfg) DATABASE_NAME))))"

definition is_polled :: "workflow_entry \<Rightarrow> bool" where
  "is_polled entry \<longleftrightarrow> we_errors entry = [] \<and> (case we_trigger entry of
      Some (TSource _ _) \<Rightarrow> True | Some (TStatus _) \<Rightarrow> True | Some (TLabel _) \<Rightarrow> True | _ \<Rightarrow> False)"

definition check_enabled :: "config \<Rightarrow> workflow_entry list \<Rightarrow> fleet_error + unit" where
  "check_enabled cfg catalog =
     (if cfg_poll_every cfg div 1000000000 < MIN_POLL_SECONDS then Inl PollTooFrequent
      else and_then (map_err (\<lambda>_. InvalidTicketWorkflows) (validate_ticket_workflows catalog)) (\<lambda>_.
           let source_workflows = length (filter is_polled catalog)
           in if source_workflows > MAX_SOURCE_WORKFLOWS_PER_REPOSITORY
              then Inl (TooManySourceWorkflows source_workflows) else Inr ()))"

definition limit_concurrency :: "nat option \<Rightarrow> config \<Rightarrow> config" where
  "limit_concurrency max_concurrent cfg =
     (case max_concurrent of
        None \<Rightarrow> cfg
      | Some limit \<Rightarrow>
          let effective = min (cfg_max_concurrent_runs_per_repository cfg) limit
          in cfg\<lparr>cfg_max_concurrent_runs := effective, cfg_max_concurrent_runs_per_repository := effective\<rparr>)"

definition load_runtime ::
  "(string \<Rightarrow> raw_config option) \<Rightarrow> host \<Rightarrow> fleet_repository \<Rightarrow> fleet_error + repository_runtime" where
  "load_runtime parse_toml h repository =
     and_then (validate_checkout h (fr_path repository) (fr_identity repository)) (\<lambda>_.
     and_then (map_err CheckoutConfig (resolve_repository_config_path h (fr_path repository))) (\<lambda>config_path.
     and_then (map_err CheckoutConfig (if fr_enabled repository then load_config parse_toml h config_path
                                       else load_for_inspection parse_toml h config_path)) (\<lambda>cfg.
     let catalog = load_catalog h cfg
     in and_then (if fr_enabled repository then check_enabled cfg catalog else Inr ()) (\<lambda>_.
        let cfg = limit_concurrency (fr_max_concurrent repository) cfg
        in Inr \<lparr>ru_identity = fr_identity repository, ru_path = fr_path repository,
             ru_enabled = fr_enabled repository, ru_config = cfg, ru_catalog = catalog,
             ru_ledger_path = child (cfg_data_directory cfg) DATABASE_NAME,
             ru_workspace_root = cfg_workspace_root cfg,
             ru_health = (if fr_enabled repository then Healthy else Disabled)\<rparr>))))"

subsection \<open>What a loaded fleet guarantees\<close>

definition fleet_ok :: "fleet_config \<Rightarrow> bool" where
  "fleet_ok fc \<longleftrightarrow> 0 < fc_max_concurrent fc
     \<and> distinct (map fr_identity (fc_repositories fc)) \<and> distinct (map fr_path (fc_repositories fc))
     \<and> list_all (\<lambda>r. fr_identity r = to_ascii_lowercase (fr_display_name r) \<and> fr_max_concurrent r \<noteq> Some 0)
         (fc_repositories fc)
     \<and> 0 < length (filter fr_enabled (fc_repositories fc))
     \<and> length (filter fr_enabled (fc_repositories fc)) \<le> MAX_ENABLED_REPOSITORIES"

lemma load_entries_ok:
  assumes "load_entries h base i ids ps raw = Inr rs"
  shows "distinct (map fr_identity rs) \<and> distinct (map fr_path rs)
    \<and> set (map fr_identity rs) \<inter> ids = {} \<and> set (map fr_path rs) \<inter> ps = {}
    \<and> map fr_enabled rs = map rf_enabled raw
    \<and> list_all (\<lambda>r. fr_identity r = to_ascii_lowercase (fr_display_name r) \<and> fr_max_concurrent r \<noteq> Some 0
        \<and> (\<exists>i v. validate_identity i v = Inr (fr_display_name r))) rs"
  using assms
proof (induction h base i ids ps raw arbitrary: rs rule: load_entries.induct)
  case (2 h base i ids ps r rest)
  from "2.prems" obtain name p loaded where
    parts: "validate_identity i (rf_name r) = Inr name" "to_ascii_lowercase name \<notin> ids" "rf_max_concurrent r \<noteq> Some 0"
      "resolve_repository_path h (rf_path r) base = Inr p" "p \<notin> ps"
    and rest: "load_entries h base (i + 1) (insert (to_ascii_lowercase name) ids) (insert p ps) rest = Inr loaded"
    and rs: "rs = \<lparr>fr_identity = to_ascii_lowercase name, fr_display_name = name, fr_path = p,
       fr_enabled = rf_enabled r, fr_max_concurrent = rf_max_concurrent r\<rparr> # loaded"
    by (auto simp: result_simps Let_def)
  from "2.IH" [OF refl parts(2,3,5) rest] rs parts show ?case by auto
qed simp

lemma length_filter_enabled: "map fr_enabled rs = map rf_enabled raw \<Longrightarrow> length (filter fr_enabled rs) = length (filter rf_enabled raw)"
  by (drule arg_cong [where f = "\<lambda>bs. length (filter (\<lambda>b. b) bs)"]) (simp add: filter_map comp_def)

lemma resolve_fleet_ok: "resolve_fleet h p raw = Inr fc \<Longrightarrow> fleet_ok fc"
  by (auto simp: resolve_fleet_def fleet_ok_def Let_def result_simps list_all_iff
      dest!: load_entries_ok length_filter_enabled)

text \<open>
  A fleet that loads can be supervised: its repositories have distinct identities and distinct
  paths, between one and twenty are enabled, no limit is zero, and the admission of the enabled
  repositories can be set up with the fleet's limit.
\<close>

theorem loaded_fleet_ok:
  assumes "load_fleet parse_toml h path_arg = Inr fc"
  shows "fleet_ok fc \<and> is_ok (admission_new (map fr_identity (filter fr_enabled (fc_repositories fc))) (fc_max_concurrent fc))"
proof -
  from assms have ok: "fleet_ok fc" by (auto simp: load_fleet_def result_simps dest: resolve_fleet_ok)
  then have "distinct (map fr_identity (filter fr_enabled (fc_repositories fc)))"
    by (auto simp: fleet_ok_def intro: distinct_map_filter)
  with ok show ?thesis by (auto simp: admission_new_def fleet_ok_def)
qed

lemma validate_identity_trims: "validate_identity i v = Inr name \<Longrightarrow> name = trim v"
  by (auto simp: validate_identity_def Let_def split: if_splits)

definition provider_of_identity :: "string \<Rightarrow> repository_provider" where
  "provider_of_identity identity =
     (if eq_ignore_ascii_case (hd (split (CHR ''/'') identity)) ''gitlab.com'' then GitLab else GitHub)"

lemma lower_segment:
  assumes "valid_identity_segment w"
  shows "to_ascii_lowercase w \<noteq> [] \<and> list_all (\<lambda>c. is_ascii_alphanumeric c \<or> c \<in> set ''-_.'') (to_ascii_lowercase w)"
proof -
  have "list_all identity_char w"
    using assms by (auto simp: valid_identity_segment_def identity_char_def list_all_iff)
  then have "list_all identity_char (to_ascii_lowercase w)"
    by (simp add: to_ascii_lowercase_def list_all_iff identity_char_lower)
  then show ?thesis using assms
    by (simp add: valid_identity_segment_def identity_char_def list_all_iff to_ascii_lowercase_def)
qed

text \<open>
  The inventory and the repository configurations agree on names: the identity the fleet
  records for an accepted entry is one that a repository's own \<open>[repository]\<close> table may state.
\<close>

theorem fleet_identity_is_configurable:
  assumes "validate_identity i v = Inr name"
  shows "validate_configured_repository_identity (provider_of_identity name) (to_ascii_lowercase name)
    = Inr (to_ascii_lowercase name)"
proof -
  have name: "name = trim v" by (rule validate_identity_trims [OF assms])
  let ?parts = "split (CHR ''/'') name"
  have lower: "split (CHR ''/'') (to_ascii_lowercase name) = map to_ascii_lowercase ?parts" by (rule split_lowercase)
  obtain w ws where parts: "?parts = w # ws" by (cases ?parts) auto
  have ne: "to_ascii_lowercase name \<noteq> []"
    using assms name by (auto simp: validate_identity_def Let_def to_ascii_lowercase_def split: if_splits)
  have shape: "(length ?parts = 2 \<and> \<not> eq_ignore_ascii_case w ''gitlab.com'' \<and> list_all valid_identity_segment ?parts)
      \<or> (3 \<le> length ?parts \<and> eq_ignore_ascii_case w ''gitlab.com'' \<and> list_all valid_identity_segment ws)"
    using assms name parts by (auto simp: validate_identity_def Let_def split: if_splits)
  have domain: "to_ascii_lowercase w = ''gitlab.com''" if "eq_ignore_ascii_case w ''gitlab.com''"
  proof -
    have "to_ascii_lowercase ''gitlab.com'' = ''gitlab.com''" by code_simp
    with that show ?thesis by (simp add: eq_ignore_ascii_case_def)
  qed
  have "list_all (\<lambda>segment. segment \<noteq> [] \<and> list_all (\<lambda>c. is_ascii_alphanumeric c \<or> c \<in> set ''-_.'') segment)
      [''gitlab.com'']" by code_simp
  then have segments: "list_all (\<lambda>segment. segment \<noteq> [] \<and> list_all (\<lambda>c. is_ascii_alphanumeric c \<or> c \<in> set ''-_.'') segment)
      (map to_ascii_lowercase ?parts)"
    using shape lower_segment domain parts by (auto simp: list_all_iff)
  show ?thesis using shape segments ne
    by (auto simp: validate_configured_repository_identity_def provider_of_identity_def Let_def lower parts
        eq_ignore_ascii_case_def)
qed

subsection \<open>Pinned daemons\<close>

datatype pin_error = PinnedIdentityEmpty | PinnedPathDiffers | PinnedLedgerDiffers

text \<open>The checks of \<open>FactoryDaemon::new_pinned_for_repository\<close>, as \<open>daemon_for_runtime\<close> calls it.\<close>

definition new_pinned_for_repository :: "string \<Rightarrow> path \<Rightarrow> config \<Rightarrow> path \<Rightarrow> pin_error + unit" where
  "new_pinned_for_repository identity repository cfg ledger_path =
     (if trim identity = [] then Inl PinnedIdentityEmpty
      else if cfg_repositories cfg \<noteq> [repository] then Inl PinnedPathDiffers
      else if ledger_path \<noteq> child (cfg_data_directory cfg) DATABASE_NAME then Inl PinnedLedgerDiffers
      else Inr ())"

definition daemon_for_runtime :: "repository_runtime \<Rightarrow> pin_error + unit" where
  "daemon_for_runtime rt = new_pinned_for_repository (ru_identity rt) (ru_path rt) (ru_config rt) (ru_ledger_path rt)"

lemma expand_environment_plain: "CHR ''$'' \<notin> set s \<Longrightarrow> expand_environment h s = Inr s"
  by (induction s) auto

lemma expand_path_plain:
  assumes "plain_path p" and "CHR ''$'' \<notin> set (path_text p)"
  shows "expand_path h (path_text p) base = Inr p"
proof -
  obtain ns where p: "p = RootDir # map Normal ns" "ns \<noteq> []" using assms(1) by (auto simp: plain_path_def)
  then obtain rest where "path_text p = CHR ''/'' # rest" by (simp add: path_text_plain)
  moreover have "is_absolute p" by (simp add: p is_absolute_def)
  ultimately show ?thesis
    using assms by (simp add: expand_path_def expand_environment_plain path_of_text [symmetric])
       (metis path_of_text assms(1))
qed

lemma resolve_repository_config_remote:
  assumes "resolve_repository_config h configured repository = Inr rc"
  shows "repository_remote_identity h repository = Inr (rc_identity rc)"
  using assms
  by (auto simp: resolve_repository_config_def repository_remote_identity_def Let_def result_simps
      split: option.splits)

lemma resolve_config_identity:
  assumes "resolve_config h raw repository probe am home = Inr cfg"
    and "plain_path repository" and "CHR ''$'' \<notin> set (path_text repository)"
    and "h_canonicalize h repository = Inr repository"
  shows "cfg_repositories cfg = [repository] \<and> repository_remote_identity h repository = Inr (rc_identity (cfg_repository cfg))"
  using assms(1)
proof (rule resolve_config_parts, goal_cases)
  case (1 resolved rcfg home)
  have "resolved = repository"
    using 1(10) assms(4) by (auto simp: canonical_directory_Inr expand_path_plain [OF assms(2,3)])
  with 1(11,18,19) resolve_repository_config_remote [OF 1(18)] show ?case by simp
qed

lemma config_path_plain:
  assumes "plain_path p" and "CHR ''$'' \<notin> set (path_text p)" and "resolve_repository_config_path h p = Inr q"
  shows "plain_path q \<and> CHR ''$'' \<notin> set (path_text q) \<and> parent q = Some (butlast q) \<and> parent (butlast q) = Some p"
proof -
  obtain d where d: "q = (p @ [Normal d]) @ [Normal ''config.toml'']" "d = CONFIG_DIRECTORY \<or> d = LEGACY_CONFIG_DIRECTORY"
    using assms(3) plain_path_nonempty [OF assms(1)]
    by (auto simp: resolve_repository_config_path_def repository_config_path_def legacy_repository_config_path_def
        child_def Let_def path_join_normal is_normal_def split: bool.splits)
  have names: "plain_name d" "plain_name ''config.toml''" "CHR ''$'' \<notin> set d"
    using d(2) by (auto simp: plain_name_def CONFIG_DIRECTORY_def LEGACY_CONFIG_DIRECTORY_def)
  then have plain: "plain_path q"
    unfolding d(1) using assms(1) by (intro plain_path_child)
  obtain ns where ns: "p = RootDir # map Normal ns" "ns \<noteq> []" using assms(1) by (auto simp: plain_path_def)
  have "path_text q = path_text p @ ''/'' @ d @ ''/'' @ ''config.toml''"
  proof -
    have "q = RootDir # map Normal (ns @ [d, ''config.toml''])" using d(1) ns by simp
    then have "path_text q = CHR ''/'' # join ''/'' (ns @ [d, ''config.toml''])" 
      by (simp only:) (rule path_text_plain, simp)
    moreover have "join ''/'' (ns @ [d, ''config.toml'']) = join ''/'' ns @ ''/'' @ d @ ''/'' @ ''config.toml''"
      using ns(2) by (induction "''/''" ns rule: join.induct) auto
    ultimately show ?thesis using ns by (simp add: path_text_plain)
  qed
  with assms(2) names have "CHR ''$'' \<notin> set (path_text q)" by simp
  with plain d(1) show ?thesis by (simp add: parent_def butlast_append)
qed

lemma load_with_workspace_probe_resolves:
  assumes "load_with_workspace_probe parse_toml h q probe am home = Inr cfg"
    and "plain_path p" and "CHR ''$'' \<notin> set (path_text p)" and "resolve_repository_config_path h p = Inr q"
  shows "\<exists>raw. resolve_config h raw p probe am home = Inr cfg"
proof -
  note q = config_path_plain [OF assms(2-4)]
  from assms(1) obtain path raw config_dir repository where
      "expand_path h (path_text q) (the (h_current_dir h)) = Inr path" "parent path = Some config_dir"
      "parent config_dir = Some repository" "resolve_config h raw repository probe am home = Inr cfg"
    by (auto simp: load_with_workspace_probe_def result_simps)
  with q show ?thesis by (auto simp: expand_path_plain)
qed

lemma limit_concurrency_fields [simp]:
  "cfg_repositories (limit_concurrency m cfg) = cfg_repositories cfg"
  "cfg_repository (limit_concurrency m cfg) = cfg_repository cfg"
  "cfg_data_directory (limit_concurrency m cfg) = cfg_data_directory cfg"
  by (simp_all add: limit_concurrency_def Let_def split: option.split)

lemma validate_checkoutD:
  assumes "validate_checkout h p identity = Inr ()"
  shows "repository_remote_identity h p = Inr identity" and "\<exists>root. h_canonicalize h root = Inr p"
  using assms by (auto simp: validate_checkout_def result_simps)

text \<open>
  A repository that loads into the fleet always gets its daemon, and the right one: the
  checkout was pinned to the inventory's identity, the configuration that was loaded is the one of
  that checkout and names the same identity, and the pinning checks of the daemon then pass.
\<close>

theorem loaded_runtime_is_pinned:
  assumes "load_runtime parse_toml h r = Inr rt"
    and "plain_path (fr_path r)" and "CHR ''$'' \<notin> set (path_text (fr_path r))" and "\<not> blank (fr_identity r)"
    and "\<And>p q. h_canonicalize h p = Inr q \<Longrightarrow> h_canonicalize h q = Inr q"
  shows "rc_identity (cfg_repository (ru_config rt)) = fr_identity r \<and> daemon_for_runtime rt = Inr ()"
proof -
  from assms(1) obtain cfg config_path where
    checkout: "validate_checkout h (fr_path r) (fr_identity r) = Inr ()"
    and config_path: "resolve_repository_config_path h (fr_path r) = Inr config_path"
    and load: "(if fr_enabled r then load_config parse_toml h config_path
                else load_for_inspection parse_toml h config_path) = Inr cfg"
    and rt: "ru_identity rt = fr_identity r" "ru_path rt = fr_path r"
      "ru_config rt = limit_concurrency (fr_max_concurrent r) cfg"
      "ru_ledger_path rt = child (cfg_data_directory cfg) DATABASE_NAME"
    by (auto simp: load_runtime_def Let_def result_simps)
  note resolves = load_with_workspace_probe_resolves [OF _ assms(2,3) config_path, of parse_toml]
  have "\<exists>raw probe am. resolve_config h raw (fr_path r) probe am None = Inr cfg"
  proof (cases "fr_enabled r")
    case True
    with load have "load_config parse_toml h config_path = Inr cfg" by simp
    then show ?thesis unfolding load_config_def by (blast dest: resolves)
  next
    case False
    with load have "load_for_inspection parse_toml h config_path = Inr cfg" by simp
    then show ?thesis unfolding load_for_inspection_def by (blast dest: resolves)
  qed
  then obtain raw probe am where resolved: "resolve_config h raw (fr_path r) probe am None = Inr cfg" by blast
  have "h_canonicalize h (fr_path r) = Inr (fr_path r)"
    using validate_checkoutD(2) [OF checkout] assms(5) by auto
  from resolve_config_identity [OF resolved assms(2,3) this] validate_checkoutD(1) [OF checkout]
  show ?thesis using assms(4)
    by (auto simp: rt daemon_for_runtime_def new_pinned_for_repository_def blank_def)
qed

end
