(* ===== verification/Fleet_Manifest.thy ===== *)
theory Fleet_Manifest
  imports Fleet_Config Workflow_Fingerprint
begin

text \<open>
  The manifest of a running fleet (\<open>src/fleet.rs\<close>): a supervisor holds a lock on its inventory and
  publishes the inventory it started with, so that other commands act on the repositories that
  are being supervised and not on an edited file. The files and locks of the machine are a
  \<open>fleet_files\<close>; a file either holds the JSON of a manifest or something that does not decode.
\<close>

record operation_snapshot =
  op_identity :: string
  op_repository_path :: path
  op_ledger_path :: "path option"
  op_workspace_root :: "path option"
  op_validation_error :: "string option"

record active_manifest =
  am_process_id :: nat
  am_process_identity :: string
  am_fleet :: fleet_config
  am_repositories :: "operation_snapshot list"

datatype manifest_file = ManifestText active_manifest | OtherText

record fleet_files =
  ff_files :: "path \<rightharpoonup> manifest_file"
  ff_locks :: "path set"

text \<open>The outcome of the calls of one activation that the machine decides.\<close>

record activation_io =
  io_create_dir :: bool
  io_open_lock :: bool
  io_write :: bool
  io_rename :: bool

record fleet_guard =
  fg_state_path :: path
  fg_process_id :: nat
  fg_process_identity :: string
  fg_lock :: path

definition snapshot_from_runtime :: "repository_runtime \<Rightarrow> operation_snapshot" where
  "snapshot_from_runtime rt =
     \<lparr>op_identity = ru_identity rt, op_repository_path = ru_path rt, op_ledger_path = Some (ru_ledger_path rt),
      op_workspace_root = Some (ru_workspace_root rt), op_validation_error = None\<rparr>"

text \<open>\<open>message\<close> is the rendered error.\<close>

definition snapshot_from_error ::
  "(string \<Rightarrow> raw_config option) \<Rightarrow> host \<Rightarrow> fleet_repository \<Rightarrow> string \<Rightarrow> operation_snapshot" where
  "snapshot_from_error parse_toml h repository message =
     \<lparr>op_identity = fr_identity repository, op_repository_path = fr_path repository,
      op_ledger_path = (case pinned_ledger_path parse_toml h repository of Inl _ \<Rightarrow> None | Inr p \<Rightarrow> Some p),
      op_workspace_root = None, op_validation_error = Some (one_line message)\<rparr>"

definition with_extension :: "path \<Rightarrow> string \<Rightarrow> path" where
  "with_extension p ext =
     (case file_name p of
        None \<Rightarrow> p
      | Some n \<Rightarrow>
          let stem = (case rsplit_once (CHR ''.'') n of None \<Rightarrow> n | Some (before, _) \<Rightarrow> if before = [] then n else before)
          in butlast p @ [Normal (stem @ ''.'' @ ext)])"

text \<open>The preferred location of an inventory's manifest, and the older one if no data home is configured.\<close>

definition state_locations :: "host \<Rightarrow> string \<Rightarrow> fleet_error + (path \<times> path option)" where
  "state_locations h path_arg =
     and_then (ok_or (FleetPath NoCurrentDirectory) (h_current_dir h)) (\<lambda>current_dir.
     and_then (map_err FleetPath (expand_path h path_arg current_dir)) (\<lambda>expanded.
     let resolved = (case h_canonicalize h expanded of Inl _ \<Rightarrow> expanded | Inr c \<Rightarrow> c);
         name = take 20 (sha256_hex (h_sha256 h) (path_text resolved)) @ ''.json''
     in and_then (map_err CheckoutConfig (configured_data_home h)) (\<lambda>configured_base.
        case configured_base of
          Some base \<Rightarrow> Inr (child (child base ''fleets'') name, None)
        | None \<Rightarrow>
            and_then (ok_or (FleetPath NoHomeDirectory) (h_home_dir h)) (\<lambda>home.
            Inr (child (child (child home CONFIG_DIRECTORY) ''fleets'') name,
                 Some (child (child (child home LEGACY_CONFIG_DIRECTORY) ''fleets'') name)))))) "

definition choose_location :: "fleet_files \<Rightarrow> path \<times> path option \<Rightarrow> fleet_error + path" where
  "choose_location fs locations =
     (case locations of
        (preferred, None) \<Rightarrow> Inr preferred
      | (preferred, Some legacy) \<Rightarrow>
          (case (ff_files fs preferred \<noteq> None, ff_files fs legacy \<noteq> None) of
             (True, True) \<Rightarrow> Inl TwoStates
           | (False, True) \<Rightarrow> Inr legacy
           | _ \<Rightarrow> Inr preferred))"

definition active_fleet_state_path :: "host \<Rightarrow> fleet_files \<Rightarrow> string \<Rightarrow> fleet_error + path" where
  "active_fleet_state_path h fs path_arg = and_then (state_locations h path_arg) (choose_location fs)"

definition active_fleet_manifest ::
  "host \<Rightarrow> (nat \<Rightarrow> string option) \<Rightarrow> fleet_files \<Rightarrow> string \<Rightarrow> fleet_error + active_manifest option" where
  "active_fleet_manifest h process_identity fs path_arg =
     and_then (active_fleet_state_path h fs path_arg) (\<lambda>state_path.
     case ff_files fs state_path of
       None \<Rightarrow> Inr None
     | Some OtherText \<Rightarrow> Inl StateUnreadable
     | Some (ManifestText manifest) \<Rightarrow>
         Inr (if process_identity (am_process_id manifest) = Some (am_process_identity manifest)
              then Some manifest else None))"

definition load_for_operation ::
  "(string \<Rightarrow> raw_fleet option) \<Rightarrow> host \<Rightarrow> (nat \<Rightarrow> string option) \<Rightarrow> fleet_files \<Rightarrow> string \<Rightarrow> fleet_error + fleet_config" where
  "load_for_operation parse_toml h process_identity fs path_arg =
     and_then (active_fleet_manifest h process_identity fs path_arg) (\<lambda>manifest.
     case manifest of Some m \<Rightarrow> Inr (am_fleet m) | None \<Rightarrow> load_fleet parse_toml h path_arg)"

definition active_repository_operation ::
  "host \<Rightarrow> (nat \<Rightarrow> string option) \<Rightarrow> fleet_files \<Rightarrow> string \<Rightarrow> string \<Rightarrow> fleet_error + operation_snapshot option" where
  "active_repository_operation h process_identity fs path_arg identity =
     and_then (active_fleet_manifest h process_identity fs path_arg) (\<lambda>manifest.
     Inr (Option.bind manifest (\<lambda>m. List.find (\<lambda>r. op_identity r = identity) (am_repositories m))))"

definition snapshot_matches :: "fleet_config \<Rightarrow> operation_snapshot list \<Rightarrow> bool" where
  "snapshot_matches fleet repositories \<longleftrightarrow>
     (let snapshot_identities = set (map op_identity repositories)
      in \<not> (card snapshot_identities \<noteq> length repositories
         \<or> length repositories \<noteq> length (fc_repositories fleet)
         \<or> list_ex (\<lambda>r. fr_identity r \<notin> snapshot_identities) (fc_repositories fleet)))"

definition temporary_path :: "path \<Rightarrow> nat \<Rightarrow> path" where
  "temporary_path state_path pid =
     butlast state_path @ [Normal (''.'' @ (case file_name state_path of None \<Rightarrow> ''fleet'' | Some n \<Rightarrow> n) @ ''.''
       @ nat_dec pid @ ''.tmp'')]"

text \<open>
  An activation that fails after taking the lock releases it; a failed write may leave a broken
  temporary file.
\<close>

definition activate_fleet ::
  "host \<Rightarrow> (nat \<Rightarrow> string option) \<Rightarrow> nat \<Rightarrow> activation_io \<Rightarrow> string \<Rightarrow> fleet_config \<Rightarrow> operation_snapshot list \<Rightarrow>
     fleet_files \<Rightarrow> (fleet_error + fleet_guard) \<times> fleet_files" where
  "activate_fleet h process_identity pid io path_arg fleet repositories fs =
     (if \<not> snapshot_matches fleet repositories then (Inl SnapshotMismatch, fs)
      else case active_fleet_state_path h fs path_arg of
        Inl e \<Rightarrow> (Inl e, fs)
      | Inr state_path \<Rightarrow>
          if parent state_path = None \<or> \<not> io_create_dir io then (Inl StateDirectory, fs)
          else
            let lock_path = with_extension state_path ''lock''
            in if \<not> io_open_lock io then (Inl StateDirectory, fs)
               else if lock_path \<in> ff_locks fs then (Inl AlreadySupervised, fs)
               else
                 let fs = fs\<lparr>ff_files := (ff_files fs)(state_path := None)\<rparr>
                 in case process_identity pid of
                      None \<Rightarrow> (Inl NoProcessIdentity, fs)
                    | Some identity \<Rightarrow>
                        let manifest = ManifestText \<lparr>am_process_id = pid, am_process_identity = identity,
                              am_fleet = fleet, am_repositories = repositories\<rparr>;
                            temporary = temporary_path state_path pid
                        in if \<not> io_write io
                           then (Inl StateUnwritable, fs\<lparr>ff_files := (ff_files fs)(temporary \<mapsto> OtherText)\<rparr>)
                           else
                             let fs = fs\<lparr>ff_files := (ff_files fs)(temporary \<mapsto> manifest)\<rparr>
                             in if \<not> io_rename io then (Inl StateUnwritable, fs)
                                else (Inr \<lparr>fg_state_path = state_path, fg_process_id = pid,
                                        fg_process_identity = identity, fg_lock = lock_path\<rparr>,
                                      fs\<lparr>ff_files := (ff_files fs)(temporary := None, state_path \<mapsto> manifest),
                                         ff_locks := insert lock_path (ff_locks fs)\<rparr>))"

text \<open>Dropping the guard removes the manifest if it is still its own, and releases the lock.\<close>

definition drop_guard :: "fleet_guard \<Rightarrow> fleet_files \<Rightarrow> fleet_files" where
  "drop_guard g fs =
     (let fs = (case ff_files fs (fg_state_path g) of
            Some (ManifestText manifest) \<Rightarrow>
              if am_process_id manifest = fg_process_id g \<and> am_process_identity manifest = fg_process_identity g
              then fs\<lparr>ff_files := (ff_files fs)(fg_state_path g := None)\<rparr> else fs
          | _ \<Rightarrow> fs)
      in fs\<lparr>ff_locks := ff_locks fs - {fg_lock g}\<rparr>)"

subsection \<open>The life of a manifest\<close>

lemma activate_fleet_InrD:
  assumes "activate_fleet h process_identity pid io path_arg fleet repositories fs = (Inr g, fs')"
  shows "snapshot_matches fleet repositories"
    and "active_fleet_state_path h fs path_arg = Inr (fg_state_path g)"
    and "fg_lock g = with_extension (fg_state_path g) ''lock''" and "fg_lock g \<notin> ff_locks fs"
    and "fg_process_id g = pid" and "process_identity pid = Some (fg_process_identity g)"
    and "ff_files fs' = (ff_files fs)(fg_state_path g := None, temporary_path (fg_state_path g) pid := None,
           fg_state_path g \<mapsto> ManifestText \<lparr>am_process_id = pid, am_process_identity = fg_process_identity g,
             am_fleet = fleet, am_repositories = repositories\<rparr>)"
    and "ff_locks fs' = insert (fg_lock g) (ff_locks fs)"
  using assms by (auto simp: activate_fleet_def Let_def split: if_splits sum.splits option.splits)

definition locations_of :: "path \<times> path option \<Rightarrow> path set" where
  "locations_of locations = insert (fst locations) (set_option (snd locations))"

lemma choose_locationD: "choose_location fs locations = Inr p \<Longrightarrow> p \<in> locations_of locations"
  by (cases locations) (auto simp: choose_location_def locations_of_def split: option.splits bool.splits)

lemma choose_location_stable:
  assumes "choose_location fs locations = Inr p" and "ff_files fs' p \<noteq> None"
    and "snd locations \<noteq> Some (fst locations)"
    and "\<And>q. q \<in> locations_of locations \<Longrightarrow> q \<noteq> p \<Longrightarrow> ff_files fs' q = ff_files fs q"
  shows "choose_location fs' locations = Inr p"
proof (cases "snd locations")
  case None
  then show ?thesis using assms(1) by (cases locations) (simp add: choose_location_def)
next
  case (Some legacy)
  then obtain preferred where l: "locations = (preferred, Some legacy)" by (cases locations) auto
  show ?thesis
    using assms(1-3) assms(4) [of preferred] assms(4) [of legacy] unfolding l
    by (auto simp: choose_location_def locations_of_def split: bool.splits if_splits)
qed

lemma choose_location_removed:
  assumes "choose_location fs locations = Inr p"
  shows "\<exists>q. choose_location (fs\<lparr>ff_files := (ff_files fs)(p := None), ff_locks := ls\<rparr>) locations = Inr q
    \<and> ((ff_files fs)(p := None)) q = None"
proof (cases "snd locations")
  case None
  then show ?thesis using assms by (cases locations) (simp add: choose_location_def)
next
  case (Some legacy)
  then obtain preferred where l: "locations = (preferred, Some legacy)" by (cases locations) auto
  show ?thesis using assms unfolding l
    by (auto simp: choose_location_def split: bool.splits if_splits)
qed

text \<open>A temporary file has a longer name than any manifest.\<close>

lemma state_location_name:
  assumes "state_locations h path_arg = Inr locations"
  shows "\<exists>n. \<forall>p\<in>locations_of locations. file_name p = Some n" and "snd locations \<noteq> Some (fst locations)"
proof -
  have child: "child b n = b @ [Normal n]" for b n
    by (auto simp: child_def path_join_def is_absolute_def)
  then have "file_name (child b n) = Some n" for b n by (simp add: file_name_def)
  then show "\<exists>n. \<forall>p\<in>locations_of locations. file_name p = Some n" using assms
    by (auto simp: state_locations_def Let_def result_simps locations_of_def split: option.splits)
  show "snd locations \<noteq> Some (fst locations)" using assms
    by (auto simp: state_locations_def Let_def result_simps child CONFIG_DIRECTORY_def LEGACY_CONFIG_DIRECTORY_def
        split: option.splits)
qed

lemma temporary_path_longer:
  "file_name p = Some n \<Longrightarrow> file_name (temporary_path p pid) = Some (''.'' @ n @ ''.'' @ nat_dec pid @ ''.tmp'')"
  by (simp add: temporary_path_def file_name_def)

lemma activated_state_path:
  assumes "activate_fleet h process_identity pid io path_arg fleet repositories fs = (Inr g, fs')"
  obtains locations where "state_locations h path_arg = Inr locations"
    and "choose_location fs' locations = Inr (fg_state_path g)"
proof -
  note a = activate_fleet_InrD [OF assms]
  from a(2) obtain locations where l: "state_locations h path_arg = Inr locations"
      "choose_location fs locations = Inr (fg_state_path g)"
    by (auto simp: active_fleet_state_path_def result_simps)
  obtain n where n: "\<And>p. p \<in> locations_of locations \<Longrightarrow> file_name p = Some n"
    using state_location_name(1) [OF l(1)] by blast
  have "file_name (fg_state_path g) = Some n" by (rule n [OF choose_locationD [OF l(2)]])
  note temp = temporary_path_longer [OF this, of pid]
  have "temporary_path (fg_state_path g) pid \<notin> locations_of locations" using n temp by fastforce
  then have "choose_location fs' locations = Inr (fg_state_path g)"
    
    using choose_locationD [OF l(2)] state_location_name(2) [OF l(1)]
    by (intro choose_location_stable [OF l(2)]) (auto simp: a(7))
  with l(1) show ?thesis by (rule that)
qed

text \<open>
  One supervisor per inventory, and everybody sees it: after a successful activation commands load the
  fleet that was started, even when its file was edited since; no second activation of the inventory
  succeeds; and when the supervisor ends, nothing is left that claims to be active.
\<close>

theorem supervision_exclusive_and_visible:
  assumes "activate_fleet h process_identity pid io path_arg fleet repositories fs = (Inr g, fs')"
  shows "load_for_operation parse_toml h process_identity fs' path_arg = Inr fleet
    \<and> \<not> is_ok (fst (activate_fleet h process_identity pid' io' path_arg fleet' repositories' fs'))
    \<and> active_fleet_manifest h process_identity (drop_guard g fs') path_arg = Inr None"
proof -
  note a = activate_fleet_InrD [OF assms]
  obtain locations where l: "state_locations h path_arg = Inr locations"
      "choose_location fs' locations = Inr (fg_state_path g)"
    by (rule activated_state_path [OF assms])
  then have p: "active_fleet_state_path h fs' path_arg = Inr (fg_state_path g)" by (simp add: active_fleet_state_path_def)
  have "load_for_operation parse_toml h process_identity fs' path_arg = Inr fleet"
    by (simp add: load_for_operation_def active_fleet_manifest_def p a(6,7))
  moreover have "\<not> is_ok (fst (activate_fleet h process_identity pid' io' path_arg fleet' repositories' fs'))"
    using a(3,8) by (simp add: activate_fleet_def p Let_def)
  moreover have "active_fleet_manifest h process_identity (drop_guard g fs') path_arg = Inr None"
  proof -
    have "drop_guard g fs' = fs'\<lparr>ff_files := (ff_files fs')(fg_state_path g := None), ff_locks := ff_locks fs' - {fg_lock g}\<rparr>"
      by (simp add: drop_guard_def a(5,7))
    moreover obtain q where "choose_location (fs'\<lparr>ff_files := (ff_files fs')(fg_state_path g := None),
        ff_locks := ff_locks fs' - {fg_lock g}\<rparr>) locations = Inr q" "((ff_files fs')(fg_state_path g := None)) q = None"
      using choose_location_removed [OF l(2)] by blast
    ultimately show ?thesis
      by (simp add: active_fleet_manifest_def active_fleet_state_path_def l(1) del: fun_upd_apply)
  qed
  ultimately show ?thesis by simp
qed

end
