(* ===== verification/Fleet_Health.thy ===== *)
theory Fleet_Health
  imports Fleet_Config Workflow_Fingerprint Ledger_Status
begin

text \<open>
  When a fleet polls and how it backs off (\<open>src/fleet.rs\<close>, \<open>src/daemon.rs\<close>): the staggered poll grid
  of each workflow, the backoff of a failing repository, the shared pause after a rate limit, and the
  health that is shown to the operator. Durations and instants are nanoseconds; an \<open>Instant\<close> is
  a reading of the monotonic clock, a \<open>SystemTime\<close> an integer relative to the Unix epoch.
\<close>

subsection \<open>Delays\<close>

definition INITIAL_BACKOFF :: nat where "INITIAL_BACKOFF = 5 * 1000000000"
definition MAX_BACKOFF :: nat where "MAX_BACKOFF = 900 * 1000000000"
definition RATE_LIMIT_FALLBACK :: nat where "RATE_LIMIT_FALLBACK = 60 * 1000000000"
definition DURATION_MAX :: nat where "DURATION_MAX = 2 ^ 64 * 1000000000 - 1"

definition repository_backoff :: "nat \<Rightarrow> nat" where
  "repository_backoff consecutive_failures =
     (let exponent = min (consecutive_failures - 1) 31
      in min (min (INITIAL_BACKOFF * 2 ^ exponent) DURATION_MAX) MAX_BACKOFF)"

definition as_millis :: "nat \<Rightarrow> nat" where "as_millis d = d div 1000000"
definition from_millis :: "nat \<Rightarrow> nat" where "from_millis n = n * 1000000"

text \<open>\<open>u64::from_str_radix(_, 16)\<close> on lower-case digits.\<close>

definition hex_digit :: "char \<Rightarrow> nat" where
  "hex_digit c = (if is_ascii_digit c then byte c - 48 else byte c - 87)"

definition hex_value :: "string \<Rightarrow> nat" where
  "hex_value s = foldl (\<lambda>a c. 16 * a + hex_digit c) 0 s"

definition polling_stagger :: "(string \<Rightarrow> 8 word list) \<Rightarrow> string \<Rightarrow> string \<Rightarrow> nat \<Rightarrow> nat" where
  "polling_stagger sha256 repository workflow interval =
     (let interval_millis = as_millis interval
      in if interval_millis = 0 then 0
         else let digest = sha256_hex sha256 (repository @ [char_of (0::nat)] @ workflow);
                  hash = hex_value (take 16 digest)
              in from_millis (hash mod interval_millis mod 2 ^ 64))"

datatype clock_error = ZeroInterval | ClockBeforeEpoch

definition delay_to_next_poll ::
  "(string \<Rightarrow> 8 word list) \<Rightarrow> string \<Rightarrow> string \<Rightarrow> nat \<Rightarrow> int \<Rightarrow> clock_error + nat" where
  "delay_to_next_poll sha256 repository workflow interval now =
     (let interval_millis = as_millis interval
      in if interval_millis = 0 then Inl ZeroInterval
         else if now < 0 then Inl ClockBeforeEpoch
         else let now_millis = as_millis (nat now);
                  offset = as_millis (polling_stagger sha256 repository workflow interval);
                  period_start = now_millis - now_millis mod interval_millis;
                  due = period_start + offset;
                  due = (if due \<le> now_millis then due + interval_millis else due)
              in Inr (from_millis ((due - now_millis) mod 2 ^ 64)))"

definition resolve_rate_limit_delay :: "int option \<Rightarrow> int \<Rightarrow> nat" where
  "resolve_rate_limit_delay retry_at observed_at =
     (case retry_at of
        None \<Rightarrow> RATE_LIMIT_FALLBACK
      | Some retry_at \<Rightarrow> if retry_at > observed_at then nat (retry_at - observed_at) else RATE_LIMIT_FALLBACK)"

lemma millis [simp]: "as_millis (from_millis n) = n"
  by (simp add: as_millis_def from_millis_def)

text \<open>
  A workflow's polls lie on a fixed grid: the delay is positive and at most one interval, and it ends at
  the workflow's own offset within the interval, wherever in the interval the clock stands, so a restart
  neither postpones a poll beyond the next grid point nor polls twice at one.
\<close>

theorem next_poll_on_grid:
  assumes "delay_to_next_poll sha256 repository workflow interval now = Inr delay"
    and "as_millis interval < 2 ^ 64"
  shows "0 < as_millis delay \<and> delay \<le> interval
    \<and> (as_millis (nat now) + as_millis delay) mod as_millis interval
      = as_millis (polling_stagger sha256 repository workflow interval)"
proof -
  let ?i = "as_millis interval" and ?n = "as_millis (nat now)"
  define off where "off = as_millis (polling_stagger sha256 repository workflow interval)"
  have i: "0 < ?i" using assms(1) by (auto simp: delay_to_next_poll_def Let_def split: if_splits)
  have off: "off < ?i"
  proof -
    have "x mod ?i mod 2 ^ 64 < ?i" for x :: nat
      using mod_less_eq_dividend [of "x mod ?i" "2 ^ 64"] mod_less_divisor [OF i, of x] by linarith
    then show ?thesis using i by (simp add: off_def polling_stagger_def Let_def)
  qed
  define start where "start = ?n - ?n mod ?i"
  have start: "start \<le> ?n" "?n < start + ?i" "start mod ?i = 0"
  proof -
    have "?n mod ?i < ?i" "?n mod ?i \<le> ?n" using i by simp_all
    then show "start \<le> ?n" "?n < start + ?i" by (simp_all add: start_def)
    show "start mod ?i = 0" by (simp add: start_def minus_mod_eq_mult_div)
  qed
  define due where "due = (if start + off \<le> ?n then start + off + ?i else start + off)"
  have due: "?n < due" "due \<le> ?n + ?i" "due mod ?i = off"
    using start off by (auto simp: due_def mod_add_eq [symmetric, of start])
  have "due - ?n < 2 ^ 64" using due(2) assms(2) by linarith
  then have delay: "delay = from_millis (due - ?n)"
    using assms(1) i by (auto simp: delay_to_next_poll_def Let_def off_def due_def start_def split: if_splits)
  have "from_millis (due - ?n) \<le> from_millis ?i" using due(2) by (simp add: from_millis_def)
  also have "from_millis ?i \<le> interval" by (simp add: from_millis_def as_millis_def)
  finally show ?thesis using due by (simp add: delay off_def)
qed

subsection \<open>The health of a repository\<close>

record health_record =
  hr_state :: repository_health
  hr_failures :: nat
  hr_retry_at :: "nat option"
  hr_pre_rate_limit :: "(repository_health \<times> nat option) option"
  hr_validation_error :: "string option"
  hr_ledger_path :: "path option"

text \<open>The shared table is a list of entries with distinct identities, in the order the map is iterated.\<close>

type_synonym fleet_health = "(string \<times> health_record) list"

text \<open>An error is a host's rate limit, with the time it names, or another failure with its text.\<close>

datatype poll_error = RateLimitError "int option" string | OtherError string

fun source_rate_limit :: "poll_error \<Rightarrow> (int option \<times> string) option" where
  "source_rate_limit (RateLimitError retry_at message) = Some (retry_at, message)"
| "source_rate_limit (OtherError _) = None"

fun error_text :: "poll_error \<Rightarrow> string" where
  "error_text (RateLimitError _ message) = message"
| "error_text (OtherError message) = message"

record health_snapshot =
  hs_identity :: string
  hs_state :: repository_health
  hs_validation_error :: "string option"
  hs_failures :: nat
  hs_retry_at :: "nat option"
  hs_ledger_path :: "path option"

definition health_snapshot_of :: "string \<Rightarrow> health_record \<Rightarrow> health_snapshot" where
  "health_snapshot_of identity r =
     \<lparr>hs_identity = identity, hs_state = hr_state r, hs_validation_error = hr_validation_error r,
      hs_failures = hr_failures r, hs_retry_at = hr_retry_at r, hs_ledger_path = hr_ledger_path r\<rparr>"

fun health_name :: "repository_health \<Rightarrow> string" where
  "health_name Loading = ''loading''"
| "health_name Healthy = ''healthy''"
| "health_name BackingOff = ''backing_off''"
| "health_name RateLimited = ''rate_limited''"
| "health_name InvalidConfig = ''invalid_config''"
| "health_name Unavailable = ''unavailable''"
| "health_name Disabled = ''disabled''"

text \<open>
  The ledgers of the repositories by path; one that cannot be opened is absent. \<open>instant\<close> and \<open>utc\<close> are the
  two clocks when the snapshot is written.
\<close>

definition persist_health_snapshot ::
  "(string \<Rightarrow> string) \<Rightarrow> nat \<Rightarrow> int \<Rightarrow> health_snapshot \<Rightarrow> (path \<rightharpoonup> ledger) \<Rightarrow> (path \<rightharpoonup> ledger)" where
  "persist_health_snapshot sanitize instant utc s ledgers =
     (case hs_ledger_path s of
        None \<Rightarrow> ledgers
      | Some p \<Rightarrow>
          let next_retry_at = map_option (\<lambda>retry_at.
                let delay = int (as_millis (retry_at - instant))
                in min (utc + (if delay \<le> i64_max then delay else i64_max)) i64_max) (hs_retry_at s)
          in case ledgers p of
               None \<Rightarrow> ledgers
             | Some db \<Rightarrow>
                 (case record_repository_health sanitize (hs_identity s) (health_name (hs_state s))
                     (hs_validation_error s) (hs_failures s) next_retry_at utc db of
                    Inl _ \<Rightarrow> ledgers
                  | Inr db \<Rightarrow> ledgers(p \<mapsto> db)))"

definition persist_health_snapshots ::
  "(string \<Rightarrow> string) \<Rightarrow> nat \<Rightarrow> int \<Rightarrow> health_snapshot list \<Rightarrow> (path \<rightharpoonup> ledger) \<Rightarrow> (path \<rightharpoonup> ledger)" where
  "persist_health_snapshots sanitize instant utc snapshots ledgers =
     fold (persist_health_snapshot sanitize instant utc) snapshots ledgers"

definition update_record :: "string \<Rightarrow> health_record \<Rightarrow> fleet_health \<Rightarrow> fleet_health" where
  "update_record identity r health = map (\<lambda>(k, v). if k = identity then (k, r) else (k, v)) health"

definition repository_retry_at :: "fleet_health \<Rightarrow> string \<Rightarrow> nat option" where
  "repository_retry_at health identity = Option.bind (map_of health identity) hr_retry_at"

text \<open>Each operation returns the table and the snapshots it persists.\<close>

definition initial_health :: "(string \<times> path) list \<Rightarrow> fleet_health" where
  "initial_health repositories =
     map (\<lambda>(identity, ledger_path). (identity, \<lparr>hr_state = Loading, hr_failures = 0, hr_retry_at = None,
       hr_pre_rate_limit = None, hr_validation_error = None, hr_ledger_path = Some ledger_path\<rparr>)) repositories"

definition backing_off :: "nat \<Rightarrow> health_record \<Rightarrow> bool" where
  "backing_off now r \<longleftrightarrow> (case hr_retry_at r of None \<Rightarrow> False | Some retry_at \<Rightarrow> retry_at > now)
     \<and> hr_state r \<in> set [BackingOff, RateLimited, Unavailable]"

definition set_repository_healthy :: "nat \<Rightarrow> string \<Rightarrow> fleet_health \<Rightarrow> fleet_health \<times> health_snapshot list" where
  "set_repository_healthy now identity health =
     (case map_of health identity of
        None \<Rightarrow> (health, [])
      | Some r \<Rightarrow>
          if backing_off now r then (health, [])
          else let r = r\<lparr>hr_state := Healthy, hr_failures := 0, hr_retry_at := None, hr_pre_rate_limit := None,
                        hr_validation_error := None\<rparr>
               in (update_record identity r health, [health_snapshot_of identity r]))"

definition U32_MAX :: nat where "U32_MAX = 2 ^ 32 - 1"

text \<open>\<open>None\<close> is the panic on a repository that is not in the table.\<close>

definition set_repository_failure ::
  "nat \<Rightarrow> string \<Rightarrow> repository_health \<Rightarrow> poll_error \<Rightarrow> fleet_health \<Rightarrow>
     (nat \<times> fleet_health \<times> health_snapshot list) option" where
  "set_repository_failure now identity state err health =
     (case map_of health identity of
        None \<Rightarrow> None
      | Some r \<Rightarrow>
          let failures = min (hr_failures r + 1) U32_MAX;
              retry_at = now + repository_backoff failures;
              r = r\<lparr>hr_failures := failures, hr_state := state, hr_pre_rate_limit := None,
                    hr_retry_at := Some retry_at, hr_validation_error := Some (one_line (error_text err))\<rparr>
          in Some (retry_at, update_record identity r health, [health_snapshot_of identity r]))"

definition set_repository_host_failure ::
  "nat \<Rightarrow> string \<Rightarrow> poll_error \<Rightarrow> fleet_health \<Rightarrow> (fleet_health \<times> health_snapshot list) option" where
  "set_repository_host_failure now identity err health =
     (if source_rate_limit err = None
      then map_option snd (set_repository_failure now identity Unavailable err health)
      else Some (health, []))"

definition rate_limit_record :: "nat \<Rightarrow> string \<Rightarrow> health_record \<Rightarrow> health_record" where
  "rate_limit_record retry_at message r =
     (if hr_state r \<in> set [InvalidConfig, Disabled] then r
      else r\<lparr>hr_pre_rate_limit := (if hr_state r \<noteq> RateLimited then Some (hr_state r, hr_retry_at r)
                                  else hr_pre_rate_limit r),
             hr_state := RateLimited,
             hr_retry_at := Some (case hr_retry_at r of None \<Rightarrow> retry_at | Some current \<Rightarrow> max current retry_at),
             hr_validation_error := Some (one_line message)\<rparr>)"

definition set_fleet_rate_limited :: "nat \<Rightarrow> string \<Rightarrow> fleet_health \<Rightarrow> fleet_health \<times> health_snapshot list" where
  "set_fleet_rate_limited retry_at message health =
     (let health' = map (\<lambda>(identity, r). (identity, rate_limit_record retry_at message r)) health
      in (health', map (\<lambda>(identity, r). health_snapshot_of identity r)
            (filter (\<lambda>(identity, r). hr_state r \<notin> set [InvalidConfig, Disabled]) health')))"

text \<open>A failed poll moves the workflow's own next poll too.\<close>

definition apply_poll_failure ::
  "nat \<Rightarrow> string \<Rightarrow> poll_error \<Rightarrow> nat \<Rightarrow> fleet_health \<Rightarrow> (nat \<times> fleet_health \<times> health_snapshot list) option" where
  "apply_poll_failure now identity err next_due health =
     (if source_rate_limit err = None then set_repository_failure now identity BackingOff err health
      else Some (next_due, health, []))"

subsection \<open>Backing off\<close>

lemma map_of_update_record:
  "map_of (update_record identity r health) k =
     (if k = identity \<and> map_of health k \<noteq> None then Some r else map_of health k)"
  by (induction health) (auto simp: update_record_def)

lemma map_of_rate_limited:
  "map_of (fst (set_fleet_rate_limited retry_at message health)) k = map_option (rate_limit_record retry_at message) (map_of health k)"
  by (induction health) (auto simp: set_fleet_rate_limited_def Let_def)

text \<open>What the outside reports about a repository: success of a host operation, a failure, a rate limit.\<close>

datatype health_event =
    Succeeded nat string
  | Failed nat string repository_health poll_error
  | Limited nat nat string

fun event_time :: "health_event \<Rightarrow> nat" where
  "event_time (Succeeded now _) = now"
| "event_time (Failed now _ _ _) = now"
| "event_time (Limited now _ _) = now"

fun health_step :: "health_event \<Rightarrow> fleet_health \<Rightarrow> fleet_health" where
  "health_step (Succeeded now identity) health = fst (set_repository_healthy now identity health)"
| "health_step (Failed now identity state err) health =
     (case set_repository_failure now identity state err health of None \<Rightarrow> health | Some (_, health, _) \<Rightarrow> health)"
| "health_step (Limited now retry_at message) health = fst (set_fleet_rate_limited retry_at message health)"

definition failing_states :: "health_event \<Rightarrow> bool" where
  "failing_states e \<longleftrightarrow> (case e of Failed _ _ state _ \<Rightarrow> state \<in> set [BackingOff, Unavailable] | _ \<Rightarrow> True)"

text \<open>The repository has failed \<open>n\<close> times in a row and is not to be used before \<open>until\<close>.\<close>

definition in_backoff :: "string \<Rightarrow> nat \<Rightarrow> nat \<Rightarrow> fleet_health \<Rightarrow> bool" where
  "in_backoff identity n until health \<longleftrightarrow>
     (case map_of health identity of
        None \<Rightarrow> False
      | Some r \<Rightarrow> n \<le> hr_failures r \<and> hr_state r \<in> set [BackingOff, RateLimited, Unavailable]
          \<and> (case hr_retry_at r of None \<Rightarrow> False | Some retry_at \<Rightarrow> until \<le> retry_at))"

lemma repository_backoff_mono: "m \<le> n \<Longrightarrow> repository_backoff m \<le> repository_backoff n"
proof -
  assume "m \<le> n"
  then have "min (m - 1) 31 \<le> min (n - 1) 31" by linarith
  then have "(2::nat) ^ min (m - 1) 31 \<le> 2 ^ min (n - 1) 31" by (rule power_increasing) simp
  then show ?thesis unfolding repository_backoff_def Let_def by (intro min.mono mult_left_mono) simp_all
qed

lemma in_backoff_succeeded:
  assumes "in_backoff identity n until health" and "now < until"
  shows "in_backoff identity n until (fst (set_repository_healthy now k health))"
  using assms
  by (auto simp: in_backoff_def set_repository_healthy_def backing_off_def map_of_update_record Let_def
      split: option.splits if_splits)

lemma in_backoff_limited:
  "in_backoff identity n until health \<Longrightarrow> in_backoff identity n until (fst (set_fleet_rate_limited retry_at message health))"
  by (auto simp: in_backoff_def map_of_rate_limited rate_limit_record_def split: option.splits if_splits)

lemma in_backoff_failed:
  assumes "in_backoff identity n (t + repository_backoff n) health" and "t \<le> now" and "n \<le> U32_MAX"
    and "state \<in> set [BackingOff, Unavailable]"
    and "set_repository_failure now k state err health = Some (retry_at, health', snapshots)"
  shows "in_backoff identity n (t + repository_backoff n) health'"
proof (cases "k = identity")
  case False
  with assms(1,5) show ?thesis
    by (auto simp: in_backoff_def set_repository_failure_def map_of_update_record Let_def split: option.splits)
next
  case True
  obtain r where r: "map_of health identity = Some r" "n \<le> hr_failures r"
    using assms(1) by (auto simp: in_backoff_def split: option.splits)
  define f where "f = min (hr_failures r + 1) U32_MAX"
  have "n \<le> f" using r(2) assms(3) by (simp add: f_def)
  then have "t + repository_backoff n \<le> now + repository_backoff f"
    using assms(2) by (intro add_mono repository_backoff_mono)
  moreover have "health' = update_record identity (r\<lparr>hr_failures := f, hr_state := state, hr_pre_rate_limit := None,
      hr_retry_at := Some (now + repository_backoff f), hr_validation_error := Some (one_line (error_text err))\<rparr>) health"
    using assms(5) r(1) True by (auto simp: set_repository_failure_def Let_def f_def)
  ultimately show ?thesis using r(1) \<open>n \<le> f\<close> assms(4) by (auto simp: in_backoff_def map_of_update_record)
qed

text \<open>
  A backoff lasts: once a repository has failed \<open>n\<close> times in a row, no success reported by another workflow, no
  further failure and no rate limit makes it healthy, restarts its count or allows it to be used before the
  backoff of that failure has passed.
\<close>

theorem backoff_respected:
  assumes "set_repository_failure t identity state err health = Some (until, health', snapshots)"
    and "state \<in> set [BackingOff, Unavailable]"
    and "list_all (\<lambda>e. t \<le> event_time e \<and> event_time e < until \<and> failing_states e) events"
  shows "in_backoff identity (hr_failures (the (map_of health' identity))) until (fold health_step events health')"
proof -
  obtain r where r: "map_of health identity = Some r"
    using assms(1) by (auto simp: set_repository_failure_def split: option.splits)
  define n where "n = min (hr_failures r + 1) U32_MAX"
  have until: "until = t + repository_backoff n" and n: "hr_failures (the (map_of health' identity)) = n"
    and start: "in_backoff identity n until health'"
    using assms(1,2) r
    by (auto simp: set_repository_failure_def Let_def n_def in_backoff_def map_of_update_record)
  have "n \<le> U32_MAX" by (simp add: n_def)
  have step: "in_backoff identity n until (health_step e g)"
    if "in_backoff identity n until g" and e: "t \<le> event_time e" "event_time e < until" "failing_states e" for e g
  proof (cases e)
    case (Succeeded now k)
    with that show ?thesis by (simp add: in_backoff_succeeded)
  next
    case (Failed now k st er)
    with that show ?thesis
      using in_backoff_failed [OF that(1) [unfolded until] _ \<open>n \<le> U32_MAX\<close>, of now st k er]
      by (auto simp: failing_states_def until split: option.splits)
  next
    case (Limited now retry_at message)
    with that show ?thesis by (simp add: in_backoff_limited)
  qed
  have "in_backoff identity n until g \<Longrightarrow> in_backoff identity n until (fold health_step es g)"
    if "list_all (\<lambda>e. t \<le> event_time e \<and> event_time e < until \<and> failing_states e) es" for es g
    using that by (induction es arbitrary: g) (auto intro: step)
  from this [OF assms(3) start] show ?thesis by (simp add: n)
qed

text \<open>
  The backoff of the \<open>n\<close>-th failure in a row is five seconds doubled \<open>n - 1\<close> times, up to fifteen minutes;
  no number of failures overflows it.
\<close>

theorem repository_backoff_closed_form:
  "repository_backoff n =
     (if n \<le> 1 then 5 * 10 ^ 9 else if n \<le> 8 then 5 * 10 ^ 9 * 2 ^ (n - 1) else 900 * 10 ^ 9)"
proof (cases "n \<le> 8")
  case True
  then have "n \<in> {0, 1, 2, 3, 4, 5, 6, 7, 8}" by auto
  then show ?thesis by (auto simp: repository_backoff_def INITIAL_BACKOFF_def MAX_BACKOFF_def DURATION_MAX_def)
next
  case False
  then have "(2::nat) ^ 8 \<le> 2 ^ min (n - 1) 31" by (intro power_increasing) simp_all
  then have "MAX_BACKOFF \<le> INITIAL_BACKOFF * 2 ^ min (n - 1) 31" by (simp add: INITIAL_BACKOFF_def MAX_BACKOFF_def)
  moreover have "MAX_BACKOFF \<le> DURATION_MAX" by (simp add: MAX_BACKOFF_def DURATION_MAX_def)
  ultimately show ?thesis using False by (simp add: repository_backoff_def Let_def) (simp add: MAX_BACKOFF_def)
qed

end
