(* ===== verification/Fleet_Poller.thy ===== *)
theory Fleet_Poller
  imports Fleet_Health
begin

text \<open>
  The fleet's calls to ticket hosts (\<open>src/daemon.rs\<close>): which workflow is polled next
  (\<open>run_fleet_poller\<close>), and the coordinator every call goes through (\<open>FleetHostCoordinator\<close>), which allows two
  calls at a time and pauses all of them after a rate limit. The tasks run concurrently; a step of
  the fleet is one action of one of them, so a run is any interleaving.
\<close>

subsection \<open>Which workflow is due\<close>

record poll_target =
  pt_identity :: string
  pt_workflow :: string
  pt_poll_every :: nat
  pt_next_due :: nat

definition build_poll_targets ::
  "(string \<Rightarrow> 8 word list) \<Rightarrow> nat \<Rightarrow> int \<Rightarrow> repository_runtime list \<Rightarrow> clock_error + poll_target list" where
  "build_poll_targets sha256 instant now repositories =
     collect_results (map (\<lambda>(rt, workflow).
         and_then (delay_to_next_poll sha256 (ru_identity rt) (we_id workflow) (cfg_poll_every (ru_config rt)) now)
           (\<lambda>delay. Inr \<lparr>pt_identity = ru_identity rt, pt_workflow = we_id workflow,
              pt_poll_every = cfg_poll_every (ru_config rt), pt_next_due = instant + delay\<rparr>))
       (concat (map (\<lambda>rt. map (Pair rt) (filter is_polled (ru_catalog rt))) repositories)))"

text \<open>The loop adds the interval until the result lies in the future; \<open>None\<close> is a loop that does not end.\<close>

partial_function (option) advance_due :: "nat \<Rightarrow> nat \<Rightarrow> nat \<Rightarrow> nat option" where
  "advance_due next_due poll_every now =
     (let next_due = next_due + poll_every
      in if next_due > now then Some next_due else advance_due next_due poll_every now)"

definition effective_poll_due :: "poll_target \<Rightarrow> fleet_health \<Rightarrow> nat option \<Rightarrow> nat" where
  "effective_poll_due target health pause_until =
     foldl max (pt_next_due target)
       (List.map_filter (\<lambda>x. x) [repository_retry_at health (pt_identity target), pause_until])"

definition next_poll :: "poll_target list \<Rightarrow> fleet_health \<Rightarrow> nat option \<Rightarrow> nat \<Rightarrow> nat option" where
  "next_poll targets health pause_until now =
     (let candidates = filter (\<lambda>(i, target). effective_poll_due target health pause_until \<le> now) (enumerate 0 targets)
      in if candidates = [] then None
         else Some (fst (arg_min_list (\<lambda>(i, target). effective_poll_due target health pause_until) candidates)))"

lemma effective_poll_due_alt:
  "effective_poll_due target health pause_until =
     max (pt_next_due target) (max (case repository_retry_at health (pt_identity target) of None \<Rightarrow> 0 | Some r \<Rightarrow> r)
       (case pause_until of None \<Rightarrow> 0 | Some p \<Rightarrow> p))"
  by (auto simp: effective_poll_due_def map_filter_simps split: option.split)

lemma advance_due_exact:
  assumes "0 < poll_every"
  shows "\<exists>k. advance_due due poll_every now = Some (due + (k + 1) * poll_every) \<and> now < due + (k + 1) * poll_every
    \<and> (0 < k \<longrightarrow> due + k * poll_every \<le> now)"
  using assms
proof (induction "now - due" arbitrary: due rule: less_induct)
  case less
  show ?case
  proof (cases "due + poll_every > now")
    case True
    then have "advance_due due poll_every now = Some (due + poll_every)"
      by (simp add: advance_due.simps [of due] Let_def)
    with True show ?thesis by (intro exI [of _ 0]) simp
  next
    case False
    then have "now - (due + poll_every) < now - due" using less.prems by linarith
    from less.hyps [OF this less.prems] obtain k where
      k: "advance_due (due + poll_every) poll_every now = Some (due + poll_every + (k + 1) * poll_every)"
        "now < due + poll_every + (k + 1) * poll_every" "0 < k \<longrightarrow> due + poll_every + k * poll_every \<le> now" by blast
    have "advance_due due poll_every now = advance_due (due + poll_every) poll_every now"
      using False by (simp add: advance_due.simps [of due] Let_def)
    with k False show ?thesis by (intro exI [of _ "k + 1"]) (cases k; simp add: algebra_simps)
  qed
qed

text \<open>
  Rescheduling a poll always ends, however late the poller is: the next poll is the first point of the
  workflow's grid after now, at least one interval after the last, so missed polls are skipped and not caught up.
\<close>

theorem advance_due_terminates:
  assumes "0 < poll_every"
  shows "case advance_due due poll_every now of
      None \<Rightarrow> False
    | Some d \<Rightarrow> now < d \<and> due + poll_every \<le> d \<and> (d = due + poll_every \<or> d \<le> now + poll_every) \<and> d mod poll_every = due mod poll_every"
proof -
  from advance_due_exact [OF assms] obtain k where
    "advance_due due poll_every now = Some (due + (k + 1) * poll_every)" "now < due + (k + 1) * poll_every"
    "0 < k \<longrightarrow> due + k * poll_every \<le> now" by blast
  moreover have "(due + (k + 1) * poll_every) mod poll_every = due mod poll_every" by (rule mod_mult_self1)
  ultimately show ?thesis by (cases "k = 0") (simp_all add: algebra_simps)
qed

lemma arg_min_list_mem: "xs \<noteq> [] \<Longrightarrow> arg_min_list f xs \<in> set xs"
  by (rule arg_min_list_in)

text \<open>
  The poller serves the workflow that has waited longest: what it starts is due by its own grid,
  its repository is not backing off and the fleet is not paused, and no workflow was due earlier.
\<close>

theorem next_poll_is_earliest_due:
  assumes "next_poll targets health pause_until now = Some i"
  shows "i < length targets
    \<and> pt_next_due (targets ! i) \<le> now
    \<and> (case repository_retry_at health (pt_identity (targets ! i)) of None \<Rightarrow> True | Some r \<Rightarrow> r \<le> now)
    \<and> (case pause_until of None \<Rightarrow> True | Some p \<Rightarrow> p \<le> now)
    \<and> list_all (\<lambda>t. effective_poll_due (targets ! i) health pause_until \<le> effective_poll_due t health pause_until) targets"
proof -
  let ?due = "\<lambda>t. effective_poll_due t health pause_until"
  define c where "c = filter (\<lambda>(i, t). ?due t \<le> now) (enumerate 0 targets)"
  have c: "c \<noteq> []" "i = fst (arg_min_list (\<lambda>(i, t). ?due t) c)"
    using assms by (auto simp: next_poll_def Let_def c_def split: if_splits)
  obtain t where m: "arg_min_list (\<lambda>(i, t). ?due t) c = (i, t)" using c(2) by (cases "arg_min_list (\<lambda>(i, t). ?due t) c") auto
  then have "(i, t) \<in> set c" using arg_min_list_mem [OF c(1)] by metis
  then have it: "i < length targets" "t = targets ! i" "?due t \<le> now" by (auto simp: c_def in_set_enumerate_eq)
  have "?due t \<le> ?due u" if "u \<in> set targets" for u
  proof (cases "?due u \<le> now")
    case True
    from that obtain j where "j < length targets" "u = targets ! j" by (auto simp: in_set_conv_nth)
    with True have "(j, u) \<in> set c" by (auto simp: c_def in_set_enumerate_eq)
    then have "(\<lambda>(i, t). ?due t) (arg_min_list (\<lambda>(i, t). ?due t) c) \<le> (\<lambda>(i, t). ?due t) (j, u)"
      using f_arg_min_list_f [OF c(1), of "\<lambda>(i, t). ?due t"] by (metis (no_types, lifting) Min_le finite_imageI finite_set imageI)
    then show ?thesis by (simp add: m)
  next
    case False
    with it(3) show ?thesis by simp
  qed
  with it show ?thesis
    by (auto simp: list_all_iff effective_poll_due_alt split: option.splits)
qed

subsection \<open>The coordinator\<close>

text \<open>
  A task goes through \<open>FleetHostCoordinator::run\<close>: it waits for a slot outside a pause, performs its
  call, gives the slot back, then announces the pause if the host limited it; its outcome is then collected by the
  poller or by the repository's member loop. An outcome names the repository it is about.
\<close>

datatype host_caller = Poll nat | Member string

datatype host_phase = Waiting | Calling | Returned "poll_error + string" | Announced "poll_error + string"

record fleet_run =
  fl_now :: nat
  fl_pause_until :: "nat option"
  fl_announced :: "nat list"
  fl_targets :: "poll_target list"
  fl_health :: fleet_health
  fl_tasks :: "(host_caller \<times> host_phase) list"

definition HOST_SLOTS :: nat where "HOST_SLOTS = 2"

definition slots_used :: "fleet_run \<Rightarrow> nat" where
  "slots_used s = length (filter (\<lambda>(c, p). p = Calling) (fl_tasks s))"

definition is_poll :: "host_caller \<Rightarrow> bool" where
  "is_poll c \<longleftrightarrow> (case c of Poll _ \<Rightarrow> True | Member _ \<Rightarrow> False)"

definition active_polls :: "fleet_run \<Rightarrow> nat" where
  "active_polls s = length (filter (\<lambda>(c, p). is_poll c) (fl_tasks s))"

definition paused :: "fleet_run \<Rightarrow> bool" where
  "paused s \<longleftrightarrow> (case fl_pause_until s of None \<Rightarrow> False | Some p \<Rightarrow> p > fl_now s)"

definition set_phase :: "nat \<Rightarrow> host_phase \<Rightarrow> fleet_run \<Rightarrow> fleet_run" where
  "set_phase k phase s = s\<lparr>fl_tasks := (fl_tasks s)[k := (fst (fl_tasks s ! k), phase)]\<rparr>"

text \<open>The pause after a call; \<open>utc\<close> is the wall clock. The pause only grows.\<close>

definition announce :: "int \<Rightarrow> poll_error + string \<Rightarrow> fleet_run \<Rightarrow> fleet_run" where
  "announce utc result s =
     (case result of
        Inl (RateLimitError retry_at message) \<Rightarrow>
          let retry_at = fl_now s + resolve_rate_limit_delay retry_at utc;
              shared = (case fl_pause_until s of None \<Rightarrow> retry_at | Some current \<Rightarrow> max current retry_at)
          in s\<lparr>fl_pause_until := Some shared, fl_announced := retry_at # fl_announced s,
               fl_health := fst (set_fleet_rate_limited shared message (fl_health s))\<rparr>
      | _ \<Rightarrow> s)"

text \<open>What the poller and the member loops do with an outcome; \<open>None\<close> is a panic.\<close>

definition collect_outcome :: "host_caller \<Rightarrow> poll_error + string \<Rightarrow> fleet_run \<Rightarrow> fleet_run option" where
  "collect_outcome caller result s =
     (case result of
        Inr identity \<Rightarrow> Some (s\<lparr>fl_health := fst (set_repository_healthy (fl_now s) identity (fl_health s))\<rparr>)
      | Inl err \<Rightarrow>
          (case caller of
             Poll i \<Rightarrow>
               let target = fl_targets s ! i
               in map_option (\<lambda>(next_due, health, _).
                    s\<lparr>fl_targets := (fl_targets s)[i := target\<lparr>pt_next_due := next_due\<rparr>], fl_health := health\<rparr>)
                  (apply_poll_failure (fl_now s) (pt_identity target) err (pt_next_due target) (fl_health s))
           | Member identity \<Rightarrow>
               map_option (\<lambda>(health, _). s\<lparr>fl_health := health\<rparr>)
                 (set_repository_host_failure (fl_now s) identity err (fl_health s))))"

definition remove_task :: "nat \<Rightarrow> fleet_run \<Rightarrow> fleet_run" where
  "remove_task k s = s\<lparr>fl_tasks := take k (fl_tasks s) @ drop (Suc k) (fl_tasks s)\<rparr>"

datatype fleet_action =
    Tick nat | SpawnPoll nat | SpawnMember string | Begin nat
  | Return nat "poll_error + string" | Announce nat int | Collect nat

inductive fleet_step :: "fleet_run \<Rightarrow> fleet_action \<Rightarrow> fleet_run \<Rightarrow> bool" where
  tick: "fleet_step s (Tick d) (s\<lparr>fl_now := fl_now s + d\<rparr>)"
| spawn_poll: "active_polls s < 2 \<Longrightarrow> next_poll (fl_targets s) (fl_health s) (fl_pause_until s) (fl_now s) = Some i
    \<Longrightarrow> advance_due (pt_next_due (fl_targets s ! i)) (pt_poll_every (fl_targets s ! i)) (fl_now s) = Some d
    \<Longrightarrow> fleet_step s (SpawnPoll i) (s\<lparr>fl_targets := (fl_targets s)[i := (fl_targets s ! i)\<lparr>pt_next_due := d\<rparr>],
          fl_tasks := fl_tasks s @ [(Poll i, Waiting)]\<rparr>)"
| spawn_member: "identity \<in> set (map fst (fl_health s))
    \<Longrightarrow> fleet_step s (SpawnMember identity) (s\<lparr>fl_tasks := fl_tasks s @ [(Member identity, Waiting)]\<rparr>)"
| begin_call: "k < length (fl_tasks s) \<Longrightarrow> snd (fl_tasks s ! k) = Waiting \<Longrightarrow> slots_used s < HOST_SLOTS \<Longrightarrow> \<not> paused s
    \<Longrightarrow> fleet_step s (Begin k) (set_phase k Calling s)"
| return_call: "k < length (fl_tasks s) \<Longrightarrow> snd (fl_tasks s ! k) = Calling
    \<Longrightarrow> fleet_step s (Return k result) (set_phase k (Returned result) s)"
| announce_result: "k < length (fl_tasks s) \<Longrightarrow> snd (fl_tasks s ! k) = Returned result
    \<Longrightarrow> fleet_step s (Announce k utc) (announce utc result (set_phase k (Announced result) s))"
| collect: "k < length (fl_tasks s) \<Longrightarrow> fl_tasks s ! k = (caller, Announced result)
    \<Longrightarrow> collect_outcome caller result (remove_task k s) = Some s'
    \<Longrightarrow> fleet_step s (Collect k) s'"

inductive_cases begin_callE: "fleet_step s (Begin k) s'"
inductive_cases spawn_pollE: "fleet_step s (SpawnPoll i) s'"

definition fleet_start :: "nat \<Rightarrow> poll_target list \<Rightarrow> fleet_health \<Rightarrow> fleet_run" where
  "fleet_start now targets health =
     \<lparr>fl_now = now, fl_pause_until = None, fl_announced = [], fl_targets = targets, fl_health = health, fl_tasks = []\<rparr>"

inductive fleet_reachable :: "fleet_run \<Rightarrow> fleet_run \<Rightarrow> bool" for start where
  init: "fleet_reachable start start"
| more: "fleet_reachable start s \<Longrightarrow> fleet_step s a s' \<Longrightarrow> fleet_reachable start s'"

subsection \<open>What every run keeps\<close>

text \<open>Whose call it is: the repository is one the fleet knows.\<close>

definition known_caller :: "fleet_run \<Rightarrow> host_caller \<Rightarrow> bool" where
  "known_caller s c \<longleftrightarrow> (case c of
      Poll i \<Rightarrow> i < length (fl_targets s)
    | Member identity \<Rightarrow> identity \<in> set (map fst (fl_health s)))"

definition host_ok :: "fleet_run \<Rightarrow> bool" where
  "host_ok s \<longleftrightarrow> slots_used s \<le> HOST_SLOTS \<and> active_polls s \<le> 2
     \<and> list_all (\<lambda>r. case fl_pause_until s of None \<Rightarrow> False | Some p \<Rightarrow> r \<le> p) (fl_announced s)
     \<and> list_all (\<lambda>(c, p). known_caller s c) (fl_tasks s)
     \<and> set (map pt_identity (fl_targets s)) \<subseteq> set (map fst (fl_health s))"

lemma filter_update_length:
  assumes "k < length xs"
  shows "length (filter P (xs[k := y])) + (if P (xs ! k) then 1 else 0) = length (filter P xs) + (if P y then 1 else 0)"
proof -
  have xs: "xs = take k xs @ xs ! k # drop (Suc k) xs" using assms by (rule id_take_nth_drop)
  have "xs[k := y] = take k xs @ y # drop (Suc k) xs" using assms by (rule upd_conv_take_nth_drop)
  then show ?thesis by (subst (3) xs) simp
qed

lemma map_update_same: "f y = f (xs ! i) \<Longrightarrow> map f (xs[i := y]) = map f xs"
  by (cases "i < length xs") (simp_all add: map_update list_update_same_conv list_update_beyond)

lemma set_phase_fields [simp]:
  "fl_now (set_phase k p s) = fl_now s" "fl_pause_until (set_phase k p s) = fl_pause_until s"
  "fl_announced (set_phase k p s) = fl_announced s" "fl_targets (set_phase k p s) = fl_targets s"
  "fl_health (set_phase k p s) = fl_health s"
  by (simp_all add: set_phase_def)

lemma remove_task_fields [simp]:
  "fl_now (remove_task k s) = fl_now s" "fl_pause_until (remove_task k s) = fl_pause_until s"
  "fl_announced (remove_task k s) = fl_announced s" "fl_targets (remove_task k s) = fl_targets s"
  "fl_health (remove_task k s) = fl_health s"
  by (simp_all add: remove_task_def)

lemma set_phase_counts:
  assumes "k < length (fl_tasks s)" and "snd (fl_tasks s ! k) = old"
  shows "slots_used (set_phase k p s) + (if old = Calling then 1 else 0) = slots_used s + (if p = Calling then 1 else 0)"
    and "active_polls (set_phase k p s) = active_polls s"
    and "map fst (fl_tasks (set_phase k p s)) = map fst (fl_tasks s)"
proof -
  obtain c' where t: "fl_tasks s ! k = (c', old)" using assms(2) by (cases "fl_tasks s ! k") auto
  show "slots_used (set_phase k p s) + (if old = Calling then 1 else 0) = slots_used s + (if p = Calling then 1 else 0)"
    using filter_update_length [OF assms(1), of "\<lambda>(c, p). p = Calling" "(c', p)"] t
    by (simp add: slots_used_def set_phase_def)
  show "active_polls (set_phase k p s) = active_polls s"
    using filter_update_length [OF assms(1), of "\<lambda>(c, p). is_poll c" "(c', p)"] t
    by (simp add: active_polls_def set_phase_def split: if_splits)
  show "map fst (fl_tasks (set_phase k p s)) = map fst (fl_tasks s)"
    by (simp add: set_phase_def map_update_same)
qed

lemma known_tasks_iff: "list_all (\<lambda>(c, p). known_caller s c) ts \<longleftrightarrow> list_all (known_caller s) (map fst ts)"
  by (induction ts) auto

lemma health_keys [simp]:
  "map fst (update_record identity r health) = map fst health"
  "map fst (fst (set_repository_healthy now identity health)) = map fst health"
  "map fst (fst (set_fleet_rate_limited retry_at message health)) = map fst health"
  by (auto simp: update_record_def set_repository_healthy_def set_fleet_rate_limited_def Let_def split: option.split)

lemma failure_keys:
  "set_repository_failure now identity state err health = Some (r, health', ss) \<Longrightarrow> map fst health' = map fst health"
  "apply_poll_failure now identity err due health = Some (r, health', ss) \<Longrightarrow> map fst health' = map fst health"
  "set_repository_host_failure now identity err health = Some (health', ss) \<Longrightarrow> map fst health' = map fst health"
  by (auto simp: set_repository_failure_def apply_poll_failure_def set_repository_host_failure_def Let_def
      split: option.splits if_splits)

lemma remove_task_counts:
  assumes "k < length (fl_tasks s)" and "fl_tasks s ! k = (c, Announced result)"
  shows "slots_used (remove_task k s) = slots_used s" and "active_polls (remove_task k s) \<le> active_polls s"
    and "set (fl_tasks (remove_task k s)) \<subseteq> set (fl_tasks s)"
proof -
  define pre post where "pre = take k (fl_tasks s)" and "post = drop (Suc k) (fl_tasks s)"
  then have tasks: "fl_tasks (remove_task k s) = pre @ post" "fl_tasks s = pre @ (c, Announced result) # post"
    using id_take_nth_drop [OF assms(1)] assms(2) by (simp_all add: remove_task_def)
  show "slots_used (remove_task k s) = slots_used s" by (simp add: slots_used_def tasks)
  show "active_polls (remove_task k s) \<le> active_polls s" by (simp add: active_polls_def tasks)
  show "set (fl_tasks (remove_task k s)) \<subseteq> set (fl_tasks s)" by (auto simp: tasks)
qed

lemma collect_outcome_frame:
  assumes "collect_outcome c result s = Some s'"
  shows "fl_pause_until s' = fl_pause_until s" and "fl_announced s' = fl_announced s" and "fl_tasks s' = fl_tasks s"
    and "map fst (fl_health s') = map fst (fl_health s)" and "length (fl_targets s') = length (fl_targets s)"
    and "map pt_identity (fl_targets s') = map pt_identity (fl_targets s)"
proof -
  show "fl_pause_until s' = fl_pause_until s" "fl_announced s' = fl_announced s" "fl_tasks s' = fl_tasks s"
      "map fst (fl_health s') = map fst (fl_health s)" "length (fl_targets s') = length (fl_targets s)"
    using assms by (auto simp: collect_outcome_def Let_def dest: failure_keys split: sum.splits host_caller.splits)
  show "map pt_identity (fl_targets s') = map pt_identity (fl_targets s)"
    using assms by (auto simp: collect_outcome_def Let_def map_update_same split: sum.splits host_caller.splits)
qed

lemma known_caller_ext:
  assumes "length (fl_targets s') = length (fl_targets s)" and "map fst (fl_health s') = map fst (fl_health s)"
  shows "known_caller s' = known_caller s"
  by (rule ext) (simp only: known_caller_def assms)

lemma host_ok_set_phase:
  assumes "host_ok s" and "k < length (fl_tasks s)" and "snd (fl_tasks s ! k) = old"
    and "p = Calling \<Longrightarrow> old \<noteq> Calling \<Longrightarrow> slots_used s < HOST_SLOTS"
  shows "host_ok (set_phase k p s)"
proof -
  note c = set_phase_counts [OF assms(2,3), of p]
  have "known_caller (set_phase k p s) = known_caller s" by (rule known_caller_ext) simp_all
  moreover have "slots_used (set_phase k p s) \<le> HOST_SLOTS"
    using assms(1,4) c(1) by (auto simp: host_ok_def split: if_splits)
  ultimately show ?thesis using assms(1) c(2,3) by (simp add: host_ok_def known_tasks_iff)
qed

lemma announce_frame [simp]:
  "fl_tasks (announce utc result s) = fl_tasks s" "fl_targets (announce utc result s) = fl_targets s"
  "map fst (fl_health (announce utc result s)) = map fst (fl_health s)" "fl_now (announce utc result s) = fl_now s"
  by (auto simp: announce_def Let_def split: sum.split poll_error.split)

lemma host_ok_announce: "host_ok s \<Longrightarrow> host_ok (announce utc result s)"
proof -
  assume ok: "host_ok s"
  have same: "slots_used (announce utc result s) = slots_used s" "active_polls (announce utc result s) = active_polls s"
    by (simp_all add: slots_used_def active_polls_def)
  have known: "known_caller (announce utc result s) = known_caller s" by (rule known_caller_ext) simp_all
  have "list_all (\<lambda>r. case fl_pause_until (announce utc result s) of None \<Rightarrow> False | Some p \<Rightarrow> r \<le> p)
      (fl_announced (announce utc result s))"
    using ok by (auto simp: host_ok_def announce_def Let_def list_all_iff split: sum.split poll_error.split option.splits)
  with ok same known show ?thesis by (simp add: host_ok_def)
qed

lemma host_ok_step:
  assumes "fleet_step s a s'" and "host_ok s"
  shows "host_ok s'"
  using assms
proof (induction rule: fleet_step.induct)
  case (tick s d)
  have "known_caller (s\<lparr>fl_now := fl_now s + d\<rparr>) = known_caller s" by (rule known_caller_ext) simp_all
  with tick show ?case by (simp add: host_ok_def slots_used_def active_polls_def)
next
  case (spawn_poll s i d)
  let ?s = "s\<lparr>fl_targets := (fl_targets s)[i := (fl_targets s ! i)\<lparr>pt_next_due := d\<rparr>], fl_tasks := fl_tasks s @ [(Poll i, Waiting)]\<rparr>"
  have i: "i < length (fl_targets s)" using next_poll_is_earliest_due [OF spawn_poll(2)] by simp
  have "known_caller ?s = known_caller s" by (rule known_caller_ext) simp_all
  moreover have "known_caller s (Poll i)" using i by (simp add: known_caller_def)
  moreover have "map pt_identity (fl_targets ?s) = map pt_identity (fl_targets s)"
    by (simp add: map_update_same)
  ultimately show ?case using spawn_poll
    by (simp add: host_ok_def slots_used_def active_polls_def is_poll_def del: list.set_map)
next
  case (spawn_member identity s)
  let ?s = "s\<lparr>fl_tasks := fl_tasks s @ [(Member identity, Waiting)]\<rparr>"
  have "known_caller ?s = known_caller s" by (rule known_caller_ext) simp_all
  with spawn_member show ?case
    by (simp add: host_ok_def slots_used_def active_polls_def is_poll_def known_caller_def)
next
  case (begin_call k s)
  then show ?case by (intro host_ok_set_phase) auto
next
  case (return_call k s result)
  then show ?case by (intro host_ok_set_phase) auto
next
  case (announce_result k s result utc)
  then show ?case by (intro host_ok_announce host_ok_set_phase) auto
next
  case (collect k s caller result s')
  note r = remove_task_counts [OF collect(1,2)] and f = collect_outcome_frame [OF collect(3)]
  have "known_caller s' = known_caller s" using f(4,5) by (intro known_caller_ext) simp_all
  moreover have "slots_used s' = slots_used s" "active_polls s' \<le> active_polls s"
    using r f(3) by (simp_all add: slots_used_def active_polls_def)
  moreover have "list_all (\<lambda>(c, p). known_caller s c) (fl_tasks (remove_task k s))"
    using collect(4) r(3) unfolding host_ok_def list_all_iff by blast
  ultimately show ?case using collect(4) f by (simp add: host_ok_def del: list.set_map)
qed

lemma host_ok_start:
  "set (map pt_identity targets) \<subseteq> set (map fst health) \<Longrightarrow> host_ok (fleet_start now targets health)"
  by (simp add: host_ok_def fleet_start_def slots_used_def active_polls_def)

lemma host_ok_reachable:
  assumes "fleet_reachable start s" and "host_ok start"
  shows "host_ok s"
  using assms by (induction rule: fleet_reachable.induct) (auto intro: host_ok_step)


lemma failure_total:
  assumes "identity \<in> fst ` set health"
  shows "\<exists>retry_at health' snapshots. set_repository_failure now identity state err health = Some (retry_at, health', snapshots)"
proof -
  obtain r where "map_of health identity = Some r" using assms by (metis map_of_eq_None_iff not_None_eq)
  then show ?thesis by (simp add: set_repository_failure_def Let_def)
qed

lemma recorded_failures_total:
  assumes "identity \<in> fst ` set health"
  shows "apply_poll_failure now identity err due health \<noteq> None"
    and "set_repository_host_failure now identity err health \<noteq> None"
  using failure_total [OF assms, of now BackingOff err] failure_total [OF assms, of now Unavailable err]
  by (auto simp: apply_poll_failure_def set_repository_host_failure_def)

text \<open>
  The poller never panics and never stalls: in every reachable state the outcome of a finished call belongs to a
  repository the health table knows, so it can be recorded; and when a workflow is due and fewer than two polls are
  active, one can be started, since rescheduling it ends.
\<close>

theorem poller_never_panics_or_stalls:
  assumes "fleet_reachable (fleet_start now targets health) s"
    and "set (map pt_identity targets) \<subseteq> set (map fst health)"
    and "list_all (\<lambda>t. 0 < pt_poll_every t) (fl_targets s)"
  shows "(if k < length (fl_tasks s) \<and> fl_tasks s ! k = (caller, Announced result)
      then \<exists>s'. fleet_step s (Collect k) s' else True)
    \<and> (if active_polls s < 2
      then (case next_poll (fl_targets s) (fl_health s) (fl_pause_until s) (fl_now s) of
          None \<Rightarrow> True | Some i \<Rightarrow> \<exists>s'. fleet_step s (SpawnPoll i) s') else True)"
proof -
  have ok: "host_ok s" by (rule host_ok_reachable [OF assms(1) host_ok_start [OF assms(2)]])
  have "\<exists>s'. fleet_step s (Collect k) s'" if k: "k < length (fl_tasks s)" "fl_tasks s ! k = (caller, Announced result)"
  proof -
    have "(caller, Announced result) \<in> set (fl_tasks s)" using k nth_mem by metis
    then have known: "known_caller s caller" using ok by (auto simp: host_ok_def list_all_iff)
    have "collect_outcome caller result (remove_task k s) \<noteq> None"
    proof (cases caller)
      case (Poll i)
      then have "i < length (fl_targets s)" using known by (simp add: known_caller_def)
      then have "pt_identity (fl_targets s ! i) \<in> set (map pt_identity (fl_targets s))" by simp
      then have "pt_identity (fl_targets s ! i) \<in> fst ` set (fl_health s)"
        using ok unfolding host_ok_def by (metis list.set_map subsetD)
      from recorded_failures_total(1) [OF this] show ?thesis
        by (auto simp: collect_outcome_def Let_def Poll split: sum.split)
    next
      case (Member identity)
      then have "identity \<in> fst ` set (fl_health s)" using known by (simp add: known_caller_def)
      from recorded_failures_total(2) [OF this] show ?thesis
        by (auto simp: collect_outcome_def Member split: sum.split)
    qed
    then show ?thesis using k fleet_step.collect by blast
  qed
  moreover have "\<exists>s'. fleet_step s (SpawnPoll i) s'"
    if "active_polls s < 2" "next_poll (fl_targets s) (fl_health s) (fl_pause_until s) (fl_now s) = Some i" for i
  proof -
    have "i < length (fl_targets s)" using next_poll_is_earliest_due [OF that(2)] by simp
    then have "0 < pt_poll_every (fl_targets s ! i)" using assms(3) by (simp add: list_all_length)
    from advance_due_exact [OF this] fleet_step.spawn_poll [OF that] show ?thesis by blast
  qed
  ultimately show ?thesis by (auto split: option.split)
qed

end
