(* ===== verification/Fleet_Examples.thy ===== *)
theory Fleet_Examples
  imports Config_Examples Fleet_Manifest Fleet_Poller
begin

text \<open>
  The fleet's properties applied to concrete fleets: two repositories that share one permit, the
  inventory of one repository, and poll targets on a small clock.
\<close>

subsection \<open>Admission\<close>

theorem admission_respects_limit_witness:
  "admission_run [Try ''a'', Try ''b'', Drop, Try ''b'', Cancel ''a''] (0, two_members)
     = ([''a'', ''b''], 1, \<lparr>adm_repositories = [''a'', ''b''], adm_available = 0, adm_cursor = 0, adm_waiting = [False, False]\<rparr>)
   \<and> (1::nat) \<le> 1"
proof -
  have new: "admission_new [''a'', ''b''] 1 = Inr two_members" by code_simp
  have run: "admission_run [Try ''a'', Try ''b'', Drop, Try ''b'', Cancel ''a''] (0, two_members)
     = ([''a'', ''b''], 1, \<lparr>adm_repositories = [''a'', ''b''], adm_available = 0, adm_cursor = 0, adm_waiting = [False, False]\<rparr>)"
    by code_simp
  from admission_respects_limit [OF new run] run show ?thesis by simp
qed

definition b_waits :: admission where
  "b_waits = \<lparr>adm_repositories = [''a'', ''b''], adm_available = 1, adm_cursor = 0, adm_waiting = [False, True]\<rparr>"

theorem admission_bounded_bypass_witness:
  "fst (admission_run [Try ''a'', Drop, Try ''a''] (0, b_waits)) = [''a''] \<and> length [''a''] < length [''a'', ''b'']"
proof -
  have "admission_ok b_waits" by code_simp
  moreover have "position ''b'' (adm_repositories b_waits) = Some 1" by code_simp
  moreover have "adm_waiting b_waits ! 1" by code_simp
  moreover have run: "admission_run [Try ''a'', Drop, Try ''a''] (0, b_waits)
      = ([''a''], 0, \<lparr>adm_repositories = [''a'', ''b''], adm_available = 1, adm_cursor = 1, adm_waiting = [True, True]\<rparr>)"
    by code_simp
  ultimately have "length [''a''] < length (adm_repositories b_waits)"
    by (rule admission_bounded_bypass) simp_all
  with run show ?thesis by (simp add: b_waits_def)
qed

subsection \<open>Inventory\<close>

definition acme_raw_fleet :: raw_fleet where
  "acme_raw_fleet = \<lparr>rf_limit = 2, rf_repositories =
     [\<lparr>rf_name = ''Acme/Widgets'', rf_path = ''widgets'', rf_enabled = True, rf_max_concurrent = Some 1\<rparr>,
      \<lparr>rf_name = ''gitlab.com/acme/tools/forge'', rf_path = ''/work/forge'', rf_enabled = False, rf_max_concurrent = None\<rparr>]\<rparr>"

definition acme_fleet :: fleet_config where
  "acme_fleet = \<lparr>fc_max_concurrent = 2, fc_repositories =
     [\<lparr>fr_identity = ''acme/widgets'', fr_display_name = ''Acme/Widgets'', fr_path = acme_repository,
       fr_enabled = True, fr_max_concurrent = Some 1\<rparr>,
      \<lparr>fr_identity = ''gitlab.com/acme/tools/forge'', fr_display_name = ''gitlab.com/acme/tools/forge'',
       fr_path = [RootDir, Normal ''work'', Normal ''forge''], fr_enabled = False, fr_max_concurrent = None\<rparr>]\<rparr>"

theorem loaded_fleet_ok_witness:
  "is_ok (admission_new [''acme/widgets''] 2) \<and> fleet_ok acme_fleet"
proof -
  have "load_fleet (\<lambda>contents. Some acme_raw_fleet) acme_host ''/work/fleet.toml'' = Inr acme_fleet" by code_simp
  from loaded_fleet_ok [OF this] show ?thesis by (simp add: acme_fleet_def)
qed

theorem fleet_identity_is_configurable_witness:
  "validate_configured_repository_identity GitLab ''gitlab.com/acme/tools/forge'' = Inr ''gitlab.com/acme/tools/forge''"
proof -
  have "validate_identity 1 '' GitLab.com/Acme/tools/forge '' = Inr ''GitLab.com/Acme/tools/forge''" by code_simp
  note ok = fleet_identity_is_configurable [OF this]
  have "provider_of_identity ''GitLab.com/Acme/tools/forge'' = GitLab" by code_simp
  moreover have "to_ascii_lowercase ''GitLab.com/Acme/tools/forge'' = ''gitlab.com/acme/tools/forge''" by code_simp
  ultimately show ?thesis using ok by simp
qed

definition paused_repository :: fleet_repository where
  "paused_repository = \<lparr>fr_identity = ''acme/widgets'', fr_display_name = ''Acme/Widgets'', fr_path = acme_repository,
     fr_enabled = False, fr_max_concurrent = Some 1\<rparr>"

theorem loaded_runtime_is_pinned_witness:
  "case load_runtime (\<lambda>contents. Some acme_raw) acme_host paused_repository of
     Inl e \<Rightarrow> False
   | Inr rt \<Rightarrow> rc_identity (cfg_repository (ru_config rt)) = ''acme/widgets'' \<and> daemon_for_runtime rt = Inr ()"
proof -
  let ?load = "load_runtime (\<lambda>contents. Some acme_raw) acme_host paused_repository"
  have "is_ok ?load" by code_simp
  then obtain rt where rt: "?load = Inr rt" by (auto simp: is_ok_iff)
  have "plain_path (fr_path paused_repository)"
    unfolding plain_path_def
    by (rule exI [of _ "[''work'', ''widgets'']"]) (simp add: paused_repository_def acme_repository_def plain_name_def)
  moreover have "CHR ''$'' \<notin> set (path_text (fr_path paused_repository))" by code_simp
  moreover have "\<not> blank (fr_identity paused_repository)" by code_simp
  moreover have "h_canonicalize acme_host p = Inr q \<Longrightarrow> h_canonicalize acme_host q = Inr q" for p q
    by (auto simp: acme_host_def split: if_splits)
  ultimately have "rc_identity (cfg_repository (ru_config rt)) = fr_identity paused_repository \<and> daemon_for_runtime rt = Inr ()"
    by (rule loaded_runtime_is_pinned [OF rt])
  moreover have "fr_identity paused_repository = ''acme/widgets''" by (simp add: paused_repository_def)
  ultimately show ?thesis by (simp add: rt)
qed

definition supervisor_identity :: "nat \<Rightarrow> string option" where
  "supervisor_identity pid = (if pid = 7 then Some ''7@boot'' else None)"

definition acme_snapshots :: "operation_snapshot list" where
  "acme_snapshots = map (\<lambda>r. \<lparr>op_identity = fr_identity r, op_repository_path = fr_path r, op_ledger_path = None,
     op_workspace_root = None, op_validation_error = None\<rparr>) (fc_repositories acme_fleet)"

definition all_io :: activation_io where
  "all_io = \<lparr>io_create_dir = True, io_open_lock = True, io_write = True, io_rename = True\<rparr>"

definition no_files :: fleet_files where
  "no_files = \<lparr>ff_files = (\<lambda>p. None), ff_locks = {}\<rparr>"

theorem supervision_exclusive_and_visible_witness:
  "case activate_fleet acme_host supervisor_identity 7 all_io ''/work/fleet.toml'' acme_fleet acme_snapshots no_files of
     (Inl e, fs) \<Rightarrow> False
   | (Inr g, fs) \<Rightarrow> load_for_operation (\<lambda>contents. None) acme_host supervisor_identity fs ''/work/fleet.toml'' = Inr acme_fleet
       \<and> active_fleet_manifest acme_host supervisor_identity (drop_guard g fs) ''/work/fleet.toml'' = Inr None"
proof -
  have "is_ok (fst (activate_fleet acme_host supervisor_identity 7 all_io ''/work/fleet.toml'' acme_fleet acme_snapshots no_files))"
    by code_simp
  then obtain g fs where a:
    "activate_fleet acme_host supervisor_identity 7 all_io ''/work/fleet.toml'' acme_fleet acme_snapshots no_files = (Inr g, fs)"
    by (auto simp: is_ok_iff prod_eq_iff)
  from supervision_exclusive_and_visible [OF a] show ?thesis by (simp add: a)
qed

subsection \<open>Polling\<close>

definition zero_digest :: "string \<Rightarrow> 8 word list" where
  "zero_digest data = replicate 32 0"

lemma zero_hash: "hex_value (take 16 (sha256_hex zero_digest data)) = 0"
proof -
  have "sha256_hex zero_digest data = concat (replicate 32 ''00'')"
    by (simp add: sha256_hex_def zero_digest_def encode_lower_def hex_pair_def lower_hex_def)
  moreover have "hex_value (take 16 (concat (replicate 32 ''00''))) = 0" by code_simp
  ultimately show ?thesis by simp
qed

theorem next_poll_on_grid_witness:
  "delay_to_next_poll zero_digest ''acme/widgets'' ''implement'' 60000000000 90000000000 = Inr 30000000000
   \<and> (as_millis (nat 90000000000) + as_millis 30000000000) mod as_millis 60000000000 = 0"
proof -
  have offset: "polling_stagger zero_digest ''acme/widgets'' ''implement'' 60000000000 = 0"
    by (simp add: polling_stagger_def Let_def zero_hash from_millis_def)
  then have delay: "delay_to_next_poll zero_digest ''acme/widgets'' ''implement'' 60000000000 90000000000 = Inr 30000000000"
    by (simp add: delay_to_next_poll_def Let_def as_millis_def from_millis_def)
  moreover have "as_millis 60000000000 < 2 ^ 64" by (simp add: as_millis_def)
  ultimately show ?thesis using next_poll_on_grid [OF delay] offset by (simp add: as_millis_def)
qed

definition one_record :: health_record where
  "one_record = \<lparr>hr_state = Healthy, hr_failures = 0, hr_retry_at = None, hr_pre_rate_limit = None,
     hr_validation_error = None, hr_ledger_path = None\<rparr>"

theorem backoff_respected_witness:
  "case set_repository_failure 0 ''a'' BackingOff (OtherError ''down'') [(''a'', one_record)] of
     None \<Rightarrow> False
   | Some (until, health, _) \<Rightarrow> until = 5000000000 \<and> in_backoff ''a'' 1 until
       (fold health_step [Succeeded 1 ''a'', Limited 2 3 ''slow'', Failed 4 ''a'' Unavailable (OtherError ''down'')] health)"
proof -
  obtain until health snapshots where
    f: "set_repository_failure 0 ''a'' BackingOff (OtherError ''down'') [(''a'', one_record)] = Some (until, health, snapshots)"
    and u: "until = 5000000000" "hr_failures (the (map_of health ''a'')) = 1"
    by (simp add: set_repository_failure_def one_record_def U32_MAX_def repository_backoff_def INITIAL_BACKOFF_def
        MAX_BACKOFF_def DURATION_MAX_def update_record_def Let_def)
  have "in_backoff ''a'' (hr_failures (the (map_of health ''a''))) until
      (fold health_step [Succeeded 1 ''a'', Limited 2 3 ''slow'', Failed 4 ''a'' Unavailable (OtherError ''down'')] health)"
    by (rule backoff_respected [OF f]) (simp_all add: u(1) failing_states_def)
  then show ?thesis using f u by simp
qed

theorem advance_due_terminates_witness:
  "case advance_due 10 60 100 of None \<Rightarrow> False | Some d \<Rightarrow> 100 < d \<and> 70 \<le> d \<and> d mod 60 = 10"
  using advance_due_terminates [where due = 10 and poll_every = 60 and now = 100] by (auto split: option.splits)

definition two_targets :: "poll_target list" where
  "two_targets = [\<lparr>pt_identity = ''a'', pt_workflow = ''w'', pt_poll_every = 60, pt_next_due = 50\<rparr>,
     \<lparr>pt_identity = ''b'', pt_workflow = ''w'', pt_poll_every = 60, pt_next_due = 40\<rparr>]"

theorem next_poll_is_earliest_due_witness:
  "next_poll two_targets [(''a'', one_record), (''b'', one_record)] (Some 45) 60 = Some 1
   \<and> pt_next_due (two_targets ! 1) \<le> 60"
proof -
  have next_1: "next_poll two_targets [(''a'', one_record), (''b'', one_record)] (Some 45) 60 = Some 1" by code_simp
  from next_poll_is_earliest_due [OF this] next_1 show ?thesis by simp
qed

text \<open>One repository's call meets a rate limit of five ticks; the next call begins when they have passed.\<close>

definition alone :: fleet_health where
  "alone = [(''a'', one_record)]"

definition limited :: fleet_run where
  "limited = \<lparr>fl_now = 5, fl_pause_until = Some 5, fl_announced = [5], fl_targets = [],
     fl_health = fst (set_fleet_rate_limited 5 ''slow'' alone),
     fl_tasks = [(Member ''a'', Announced (Inl (RateLimitError (Some 8) ''slow''))), (Member ''a'', Waiting)]\<rparr>"

lemma limited_reachable: "fleet_reachable (fleet_start 0 [] alone) limited"
proof -
  let ?err = "Inl (RateLimitError (Some 8) ''slow'') :: poll_error + string"
  let ?s0 = "fleet_start 0 [] alone"
  let ?s1 = "?s0\<lparr>fl_tasks := [(Member ''a'', Waiting)]\<rparr>" and ?s2 = "?s0\<lparr>fl_tasks := [(Member ''a'', Calling)]\<rparr>"
    and ?s3 = "?s0\<lparr>fl_tasks := [(Member ''a'', Returned ?err)]\<rparr>"
  let ?s4 = "\<lparr>fl_now = 0, fl_pause_until = Some 5, fl_announced = [5], fl_targets = [],
     fl_health = fst (set_fleet_rate_limited 5 ''slow'' alone), fl_tasks = [(Member ''a'', Announced ?err)]\<rparr>"
  let ?s5 = "?s4\<lparr>fl_tasks := [(Member ''a'', Announced ?err), (Member ''a'', Waiting)]\<rparr>"
  have keys: "''a'' \<in> set (map fst (fl_health ?s0))" "''a'' \<in> set (map fst (fl_health ?s4))"
    by (simp_all add: fleet_start_def alone_def del: list.set_map)
  have "fleet_step ?s0 (SpawnMember ''a'') ?s1" using fleet_step.spawn_member [OF keys(1)] by (simp add: fleet_start_def)
  moreover have "fleet_step ?s1 (Begin 0) ?s2" using fleet_step.begin_call [of 0 ?s1]
    by (simp add: fleet_start_def slots_used_def HOST_SLOTS_def paused_def set_phase_def)
  moreover have "fleet_step ?s2 (Return 0 ?err) ?s3" using fleet_step.return_call [of 0 ?s2 ?err]
    by (simp add: fleet_start_def set_phase_def)
  moreover have "fleet_step ?s3 (Announce 0 3) ?s4" using fleet_step.announce_result [of 0 ?s3 ?err 3]
    by (simp add: fleet_start_def set_phase_def announce_def Let_def resolve_rate_limit_delay_def)
  moreover have "fleet_step ?s4 (SpawnMember ''a'') ?s5" using fleet_step.spawn_member [OF keys(2)] by simp
  moreover have "fleet_step ?s5 (Tick 5) limited" using fleet_step.tick [of ?s5 5] by (simp add: limited_def)
  ultimately show ?thesis by (meson fleet_reachable.intros)
qed


theorem poller_never_panics_or_stalls_witness: "\<exists>s'. fleet_step limited (Collect 0) s'"
proof -
  have "fl_tasks limited ! 0 = (Member ''a'', Announced (Inl (RateLimitError (Some 8) ''slow'')))" "0 < length (fl_tasks limited)"
    by (simp_all add: limited_def)
  with poller_never_panics_or_stalls [OF limited_reachable, of 0 "Member ''a''" "Inl (RateLimitError (Some 8) ''slow'')"]
  show ?thesis by (simp add: limited_def)
qed

end
