(* ===== verification/Daemon_Data.thy ===== *)
theory Daemon_Data
  imports Workflow_Fingerprint
begin

text \<open>
  The data of a running daemon (first part of \<open>src/daemon.rs\<close>): the repositories it executes for,
  with their dispatchable workflows, the repository that owns the ledger, and the counts of active runs.
  A \<open>HashMap\<close> is the list of its entries in the order the map is iterated, with distinct keys.
\<close>

record repository_target =
  tg_path :: path
  tg_provider :: repository_provider
  tg_identity :: string
  tg_workflows :: "(string \<times> workflow_target) list"

type_synonym targets = "(string \<times> repository_target) list"

record repository_owner =
  ow_identity :: string
  ow_path :: path
  ow_workspace_root :: path

datatype daemon_error =
    NoTarget string | NoRepository | AmbiguousRepository | PathsDiffer path path

text \<open>The target a daemon owns: the pinned one, or the only one.\<close>

definition owned_target :: "string option \<Rightarrow> targets \<Rightarrow> daemon_error + (string \<times> repository_target)" where
  "owned_target pinned ts =
     (case pinned of
        Some identity \<Rightarrow> (case map_of ts identity of
            None \<Rightarrow> Inl (NoTarget identity)
          | Some target \<Rightarrow> Inr (identity, target))
      | None \<Rightarrow> (case ts of
            [] \<Rightarrow> Inl NoRepository
          | t # rest \<Rightarrow> if rest \<noteq> [] then Inl AmbiguousRepository else Inr t))"

definition repository_owner_of ::
  "string option \<Rightarrow> path \<Rightarrow> path \<Rightarrow> targets \<Rightarrow> daemon_error + repository_owner" where
  "repository_owner_of pinned repository workspace_root ts =
     and_then (owned_target pinned ts) (\<lambda>(identity, target).
     if tg_path target \<noteq> repository then Inl (PathsDiffer (tg_path target) repository)
     else Inr \<lparr>ow_identity = identity, ow_path = repository, ow_workspace_root = workspace_root\<rparr>)"

lemma repository_owner_of_member:
  assumes "repository_owner_of pinned repository root ts = Inr ow"
  shows "\<exists>target. (ow_identity ow, target) \<in> set ts \<and> tg_path target = repository
    \<and> ow_path ow = repository \<and> ow_workspace_root ow = root
    \<and> (case pinned of Some i \<Rightarrow> ow_identity ow = i | None \<Rightarrow> fst ` set ts = {ow_identity ow})"
proof -
  from assms obtain identity target where t: "owned_target pinned ts = Inr (identity, target)"
    and p: "tg_path target = repository"
    and ow: "ow = \<lparr>ow_identity = identity, ow_path = repository, ow_workspace_root = root\<rparr>"
    by (auto simp: repository_owner_of_def and_then_Inr_iff split: if_splits)
  from t p ow show ?thesis
    by (auto simp: owned_target_def dest: map_of_SomeD split: option.splits list.splits if_splits)
qed

subsection \<open>Active runs\<close>

definition active_count :: "(string \<rightharpoonup> nat) \<Rightarrow> string \<Rightarrow> nat" where
  "active_count active repository = (case active repository of None \<Rightarrow> 0 | Some n \<Rightarrow> n)"

definition increment_active :: "string \<Rightarrow> (string \<rightharpoonup> nat) \<Rightarrow> (string \<rightharpoonup> nat)" where
  "increment_active repository active = active(repository \<mapsto> active_count active repository + 1)"

text \<open>\<open>*count -= 1\<close> does not underflow because a stored count is positive.\<close>

definition decrement_active :: "string \<Rightarrow> (string \<rightharpoonup> nat) \<Rightarrow> (string \<rightharpoonup> nat)" where
  "decrement_active repository active =
     (case active repository of
        None \<Rightarrow> active
      | Some n \<Rightarrow> if n - 1 = 0 then active(repository := None) else active(repository \<mapsto> n - 1))"

definition active_ok :: "(string \<rightharpoonup> nat) \<Rightarrow> bool" where
  "active_ok active \<longleftrightarrow> (\<forall>r n. active r = Some n \<longrightarrow> 0 < n)"

lemma active_ok_empty [simp]: "active_ok Map.empty"
  by (simp add: active_ok_def)

lemma active_ok_increment [simp]: "active_ok active \<Longrightarrow> active_ok (increment_active r active)"
  by (auto simp: active_ok_def increment_active_def)

lemma active_ok_decrement [simp]: "active_ok active \<Longrightarrow> active_ok (decrement_active r active)"
  by (auto simp: active_ok_def decrement_active_def split: option.splits)

lemma active_count_increment [simp]:
  "active_count (increment_active r active) s = active_count active s + (if s = r then 1 else 0)"
  by (auto simp: active_count_def increment_active_def)

lemma active_count_decrement [simp]:
  "active_count (decrement_active r active) s = active_count active s - (if s = r then 1 else 0)"
  by (auto simp: active_count_def decrement_active_def split: option.split)

end
