(* ===== verification/Ticket_Context.thy ===== *)
theory Ticket_Context
  imports Rust_Result Json_Value Ledger_Data
begin

text \<open>
  The payloads of ticket tasks: how \<open>serde\<close> reads the fields of a struct from a JSON object, the four contexts a
  payload may hold (\<open>src/source.rs\<close>, \<open>src/github.rs\<close>), and the number and title the daemon takes from one
  (\<open>ticket_summary\<close> of \<open>src/daemon.rs\<close>). Payloads are written as objects; the positional array \<open>serde\<close> would accept in
  place of an object, and an object with a repeated field, are taken as malformed.
\<close>

subsection \<open>Fields of a struct\<close>

definition field_text :: "string \<Rightarrow> json \<Rightarrow> string option" where
  "field_text k v = Option.bind (json_get k v) json_as_str"

definition field_default_text :: "string \<Rightarrow> json \<Rightarrow> string option" where
  "field_default_text k v = (case json_get k v of None \<Rightarrow> Some '''' | Some w \<Rightarrow> json_as_str w)"

definition field_optional_text :: "string \<Rightarrow> json \<Rightarrow> string option option" where
  "field_optional_text k v =
     (case json_get k v of None \<Rightarrow> Some None | Some JNull \<Rightarrow> Some None | Some w \<Rightarrow> map_option Some (json_as_str w))"

definition field_list :: "string \<Rightarrow> json \<Rightarrow> json list option" where
  "field_list k v = (case json_get k v of None \<Rightarrow> Some [] | Some w \<Rightarrow> json_as_array w)"

definition field_default_texts :: "string \<Rightarrow> json \<Rightarrow> string list option" where
  "field_default_texts k v = Option.bind (field_list k v) (\<lambda>ws. those (map json_as_str ws))"

definition field_value :: "string \<Rightarrow> json \<Rightarrow> json option" where
  "field_value k v = (case json_get k v of Some JNull \<Rightarrow> None | w \<Rightarrow> w)"

definition field_optional_bool :: "string \<Rightarrow> json \<Rightarrow> bool option option" where
  "field_optional_bool k v =
     (case json_get k v of None \<Rightarrow> Some None | Some JNull \<Rightarrow> Some None | Some w \<Rightarrow> map_option Some (json_as_bool w))"

text \<open>A number without sign, fraction or exponent that fits 64 bits.\<close>

definition parse_u64 :: "string \<Rightarrow> nat option" where
  "parse_u64 s = (if s \<noteq> [] \<and> list_all is_ascii_digit s \<and> dec_value s < 2 ^ 64 then Some (dec_value s) else None)"

definition field_u64 :: "string \<Rightarrow> json \<Rightarrow> nat option" where
  "field_u64 k v = (case json_get k v of Some (JNumber s) \<Rightarrow> parse_u64 s | _ \<Rightarrow> None)"

subsection \<open>The contexts\<close>

record source_ticket_context =
  st_key :: string
  st_title :: string
  st_description :: string
  st_state :: string
  st_labels :: "string list"
  st_url :: string
  st_author :: string
  st_observed_revision :: string
  st_dependencies :: "string list"
  st_dependency_revision :: string

record ticket_approval =
  ta_artifact_id :: nat
  ta_label_event_id :: nat
  ta_approver_id :: nat
  ta_workflow_hash :: string
  ta_approved_content_hash :: string
  ta_nonce :: string

record ticket_context =
  tc_number :: nat
  tc_url :: string
  tc_title :: string
  tc_body :: string
  tc_observed_revision :: string
  tc_approval :: ticket_approval

record project_ticket_context =
  pt_project_id :: string
  pt_project_item_id :: string
  pt_status_field_id :: string
  pt_issue_node_id :: string
  pt_number :: nat
  pt_url :: string
  pt_title :: string
  pt_author_id :: string
  pt_author_login :: string
  pt_repository :: string
  pt_expected_status :: string
  pt_expected_option_id :: string
  pt_status_updated_at :: string

record label_ticket_context =
  lt_number :: nat
  lt_url :: string
  lt_title :: string
  lt_author_id :: nat
  lt_author_login :: string
  lt_repository :: string
  lt_expected_label :: string
  lt_label_event_id :: nat

definition source_context_of :: "json \<Rightarrow> source_ticket_context option" where
  "source_context_of v =
     (if json_as_object v = None then None else
      Option.bind (field_text ''key'' v) (\<lambda>key.
      Option.bind (field_text ''title'' v) (\<lambda>title.
      Option.bind (field_default_text ''description'' v) (\<lambda>description.
      Option.bind (field_text ''state'' v) (\<lambda>state.
      Option.bind (field_default_texts ''labels'' v) (\<lambda>labels.
      Option.bind (field_default_text ''url'' v) (\<lambda>url.
      Option.bind (field_default_text ''author'' v) (\<lambda>author.
      Option.bind (field_text ''observed_revision'' v) (\<lambda>revision.
      Option.bind (field_default_texts ''dependencies'' v) (\<lambda>dependencies.
      Option.bind (field_default_text ''dependency_revision'' v) (\<lambda>dependency_revision.
      Some \<lparr>st_key = key, st_title = title, st_description = description, st_state = state, st_labels = labels,
        st_url = url, st_author = author, st_observed_revision = revision, st_dependencies = dependencies,
        st_dependency_revision = dependency_revision\<rparr>)))))))))))"

definition approval_of :: "json \<Rightarrow> ticket_approval option" where
  "approval_of v =
     (if json_as_object v = None then None else
      Option.bind (field_u64 ''artifact_id'' v) (\<lambda>artifact.
      Option.bind (field_u64 ''label_event_id'' v) (\<lambda>event.
      Option.bind (field_u64 ''approver_id'' v) (\<lambda>approver.
      Option.bind (field_text ''workflow_hash'' v) (\<lambda>workflow.
      Option.bind (field_text ''approved_content_hash'' v) (\<lambda>content.
      Option.bind (field_text ''nonce'' v) (\<lambda>nonce.
      Some \<lparr>ta_artifact_id = artifact, ta_label_event_id = event, ta_approver_id = approver,
        ta_workflow_hash = workflow, ta_approved_content_hash = content, ta_nonce = nonce\<rparr>)))))))"

definition ticket_context_of :: "json \<Rightarrow> ticket_context option" where
  "ticket_context_of v =
     (if json_as_object v = None then None else
      Option.bind (field_u64 ''number'' v) (\<lambda>number.
      Option.bind (field_text ''url'' v) (\<lambda>url.
      Option.bind (field_text ''title'' v) (\<lambda>title.
      Option.bind (field_text ''body'' v) (\<lambda>body.
      Option.bind (field_text ''observed_revision'' v) (\<lambda>revision.
      Option.bind (Option.bind (json_get ''approval'' v) approval_of) (\<lambda>approval.
      Some \<lparr>tc_number = number, tc_url = url, tc_title = title, tc_body = body, tc_observed_revision = revision,
        tc_approval = approval\<rparr>)))))))"

definition project_context_of :: "json \<Rightarrow> project_ticket_context option" where
  "project_context_of v =
     (if json_as_object v = None then None else
      Option.bind (field_text ''project_id'' v) (\<lambda>project.
      Option.bind (field_text ''project_item_id'' v) (\<lambda>item.
      Option.bind (field_text ''status_field_id'' v) (\<lambda>status_field.
      Option.bind (field_text ''issue_node_id'' v) (\<lambda>node.
      Option.bind (field_u64 ''number'' v) (\<lambda>number.
      Option.bind (field_text ''url'' v) (\<lambda>url.
      Option.bind (field_text ''title'' v) (\<lambda>title.
      Option.bind (field_text ''author_id'' v) (\<lambda>author_id.
      Option.bind (field_text ''author_login'' v) (\<lambda>author_login.
      Option.bind (field_text ''repository'' v) (\<lambda>repository.
      Option.bind (field_text ''expected_status'' v) (\<lambda>status.
      Option.bind (field_text ''expected_option_id'' v) (\<lambda>option_id.
      Option.bind (field_text ''status_updated_at'' v) (\<lambda>updated.
      Some \<lparr>pt_project_id = project, pt_project_item_id = item, pt_status_field_id = status_field,
        pt_issue_node_id = node, pt_number = number, pt_url = url, pt_title = title, pt_author_id = author_id,
        pt_author_login = author_login, pt_repository = repository, pt_expected_status = status,
        pt_expected_option_id = option_id, pt_status_updated_at = updated\<rparr>))))))))))))))"

definition label_context_of :: "json \<Rightarrow> label_ticket_context option" where
  "label_context_of v =
     (if json_as_object v = None then None else
      Option.bind (field_u64 ''number'' v) (\<lambda>number.
      Option.bind (field_text ''url'' v) (\<lambda>url.
      Option.bind (field_text ''title'' v) (\<lambda>title.
      Option.bind (field_u64 ''author_id'' v) (\<lambda>author_id.
      Option.bind (field_text ''author_login'' v) (\<lambda>author_login.
      Option.bind (field_text ''repository'' v) (\<lambda>repository.
      Option.bind (field_text ''expected_label'' v) (\<lambda>label.
      Option.bind (field_u64 ''label_event_id'' v) (\<lambda>event.
      Some \<lparr>lt_number = number, lt_url = url, lt_title = title, lt_author_id = author_id,
        lt_author_login = author_login, lt_repository = repository, lt_expected_label = label,
        lt_label_event_id = event\<rparr>)))))))))"

subsection \<open>Number and title of a ticket\<close>

record ticket_summary =
  su_number :: nat
  su_title :: string

datatype summary_error = NoPayload | InvalidContext | NotNumbered

text \<open>\<open>trim_end\<close> and the digits at the end of a key.\<close>

definition trim_end :: "string \<Rightarrow> string" where
  "trim_end s = concat (rev (dropWhile is_whitespace (rev (chars s))))"

definition trailing_digits :: "string \<Rightarrow> string" where
  "trailing_digits key = rev (takeWhile is_ascii_digit (rev (trim_end key)))"

definition numeric_ticket_id :: "string \<Rightarrow> summary_error + nat" where
  "numeric_ticket_id key =
     and_then (ok_or NotNumbered (parse_u64 (trailing_digits key))) (\<lambda>number.
     if number = 0 then Inl NotNumbered else Inr number)"

definition ticket_summary_of :: "(string \<Rightarrow> json option) \<Rightarrow> task \<Rightarrow> summary_error + ticket_summary" where
  "ticket_summary_of parse task =
     and_then (ok_or NoPayload (t_payload task)) (\<lambda>payload.
     case Option.bind (parse payload) source_context_of of
       Some context \<Rightarrow> and_then (numeric_ticket_id (st_key context)) (\<lambda>number.
         Inr \<lparr>su_number = number, su_title = st_title context\<rparr>)
     | None \<Rightarrow> (case Option.bind (parse payload) project_context_of of
         Some context \<Rightarrow> Inr \<lparr>su_number = pt_number context, su_title = pt_title context\<rparr>
       | None \<Rightarrow> (case Option.bind (parse payload) label_context_of of
           Some context \<Rightarrow> Inr \<lparr>su_number = lt_number context, su_title = lt_title context\<rparr>
         | None \<Rightarrow> (case Option.bind (parse payload) ticket_context_of of
             Some context \<Rightarrow> Inr \<lparr>su_number = tc_number context, su_title = tc_title context\<rparr>
           | None \<Rightarrow> Inl InvalidContext))))"

end
