(* ===== verification/Rust_State.thy ===== *)
theory Rust_State
  imports Rust_Result
begin

text \<open>
  Fallible code over a state that keeps what was done before an error: a result is the pair of an error
  or a value and the state reached. \<open>continue\<close> is the \<open>?\<close> operator on such results,
  \<open>pure\<close> a computation that leaves the state alone, and \<open>commit\<close> a transaction, which
  on an error changes nothing. The locale carries an invariant or a frame through such code.
\<close>

type_synonym ('e, 'a, 's) outcome = "('e + 'a) \<times> 's"

definition continue :: "('e, 'a, 's) outcome \<Rightarrow> ('a \<Rightarrow> 's \<Rightarrow> ('e, 'b, 's) outcome) \<Rightarrow> ('e, 'b, 's) outcome" where
  "continue r f = (case r of (Inl e, s) \<Rightarrow> (Inl e, s) | (Inr v, s) \<Rightarrow> f v s)"

definition pure :: "'e + 'a \<Rightarrow> 's \<Rightarrow> ('e, 'a, 's) outcome" where
  "pure r s = (r, s)"

definition commit :: "'e + ('a \<times> 's) \<Rightarrow> 's \<Rightarrow> ('e, 'a, 's) outcome" where
  "commit r s = (case r of Inl e \<Rightarrow> (Inl e, s) | Inr (v, s') \<Rightarrow> (Inr v, s'))"

definition commit_state :: "'e + 's \<Rightarrow> 's \<Rightarrow> ('e, unit, 's) outcome" where
  "commit_state r s = (case r of Inl e \<Rightarrow> (Inl e, s) | Inr s' \<Rightarrow> (Inr (), s'))"

lemma continue_simps [simp]: "continue (Inl e, s) f = (Inl e, s)" "continue (Inr v, s) f = f v s"
  by (simp_all add: continue_def)

lemma pure_eq [simp]: "pure r s = (r, s)"
  by (simp add: pure_def)

lemma commit_simps [simp]: "commit (Inl e) s = (Inl e, s)" "commit (Inr (v, s')) s = (Inr v, s')"
  by (simp_all add: commit_def)

lemma commit_state_simps [simp]: "commit_state (Inl e) s = (Inl e, s)" "commit_state (Inr s') s = (Inr (), s')"
  by (simp_all add: commit_state_def)

lemma continue_Inr_iff [result_simps]:
  "continue r f = (Inr b, s2) \<longleftrightarrow> (\<exists>a s1. r = (Inr a, s1) \<and> f a s1 = (Inr b, s2))"
  by (cases r; cases "fst r") auto

lemma commit_Inr_iff [result_simps]: "commit r s = (Inr v, s') \<longleftrightarrow> r = Inr (v, s')"
  by (cases r) auto

lemma commit_state_Inr_iff [result_simps]: "commit_state r s = (Inr v, s') \<longleftrightarrow> r = Inr s'"
  by (cases r) auto

text \<open>A relation between the states before and after that every step respects.\<close>

locale step_relation =
  fixes related :: "'s \<Rightarrow> 's \<Rightarrow> bool"
  assumes related_refl: "related s s"
    and related_trans: "related s t \<Longrightarrow> related t u \<Longrightarrow> related s u"
begin

lemma after_pure: "related s (snd (pure r s))"
  by (simp add: related_refl)

lemma after_commit: "(\<And>v s'. r = Inr (v, s') \<Longrightarrow> related s s') \<Longrightarrow> related s (snd (commit r s))"
  by (cases r) (auto simp: related_refl)

lemma after_commit_state: "(\<And>s'. r = Inr s' \<Longrightarrow> related s s') \<Longrightarrow> related s (snd (commit_state r s))"
  by (cases r) (auto simp: related_refl)

lemma after_continue:
  assumes "related s (snd r)" and "\<And>v t. r = (Inr v, t) \<Longrightarrow> related t (snd (f v t))"
  shows "related s (snd (continue r f))"
proof (cases r)
  case (Pair x t)
  then show ?thesis
    using assms by (cases x) (auto intro: related_trans)
qed

end

subsection \<open>What holds when a computation returns\<close>

definition returns :: "('a \<Rightarrow> 's \<Rightarrow> bool) \<Rightarrow> ('e, 'a, 's) outcome \<Rightarrow> bool" where
  "returns Q r \<longleftrightarrow> (\<forall>v s. r = (Inr v, s) \<longrightarrow> Q v s)"

named_theorems return_rules "what a computation has established when it returns"

lemma returnsD: "returns Q r \<Longrightarrow> r = (Inr v, s) \<Longrightarrow> Q v s"
  by (simp add: returns_def)

lemma returns_error [return_rules]: "returns Q (Inl e, s)"
  by (simp add: returns_def)

lemma returns_value [return_rules]: "Q v s \<Longrightarrow> returns Q (Inr v, s)"
  by (simp add: returns_def)

lemma returns_continue [return_rules]:
  "(\<And>v s. r = (Inr v, s) \<Longrightarrow> returns Q (f v s)) \<Longrightarrow> returns Q (continue r f)"
  by (auto simp: returns_def continue_Inr_iff)

lemma returns_let [return_rules]: "(\<And>x. x = v \<Longrightarrow> returns Q (f x)) \<Longrightarrow> returns Q (Let v f)"
  by simp

lemma returns_if [return_rules]:
  "(c \<Longrightarrow> returns Q x) \<Longrightarrow> (\<not> c \<Longrightarrow> returns Q y) \<Longrightarrow> returns Q (if c then x else y)"
  by simp

lemma returns_option [return_rules]:
  "(v = None \<Longrightarrow> returns Q x) \<Longrightarrow> (\<And>w. v = Some w \<Longrightarrow> returns Q (f w)) \<Longrightarrow>
     returns Q (case v of None \<Rightarrow> x | Some w \<Rightarrow> f w)"
  by (cases v) simp_all

lemma returns_sum [return_rules]:
  "(\<And>e. v = Inl e \<Longrightarrow> returns Q (f e)) \<Longrightarrow> (\<And>w. v = Inr w \<Longrightarrow> returns Q (g w)) \<Longrightarrow>
     returns Q (case v of Inl e \<Rightarrow> f e | Inr w \<Rightarrow> g w)"
  by (cases v) simp_all

lemma returns_pair [return_rules]:
  "(\<And>a b. v = (a, b) \<Longrightarrow> returns Q (f a b)) \<Longrightarrow> returns Q (case v of (a, b) \<Rightarrow> f a b)"
  by (cases v) simp

lemma returns_mono: "returns Q r \<Longrightarrow> (\<And>v s. Q v s \<Longrightarrow> P v s) \<Longrightarrow> returns P r"
  by (auto simp: returns_def)

end
