(* ===== verification/Outside.thy ===== *)
theory Outside
  imports Rust_State Rust_Path
begin

text \<open>
  The processes and files a component works with. Everything the program asks of the operating system
  is a request; a run of the program is the list of its requests, oldest first, and an answer may depend on all
  that came before it, so that nothing is assumed about other processes in between. Safety
  statements are about the requests that are made.
\<close>

subsection \<open>Requests and answers\<close>

text \<open>A child process: program, working directory, arguments, variables that are set and that are removed.\<close>

record command =
  cm_program :: string
  cm_directory :: "path option"
  cm_args :: "string list"
  cm_env :: "(string \<times> string) list"
  cm_removed :: "string list"

datatype request =
    Run command
  | AskExists path
  | AskDirectory path
  | AskSymlink path
  | AskCanonical path
  | AskEntries path
  | AskVariable string
  | RemoveTree path
  | CreateStaging path
  | Rename path path

type_synonym trace = "request list"

text \<open>The exit code is absent when a signal ended the process; the output is absent when it is not UTF-8.\<close>

datatype run_result = NoStart | Exited "int option" "string option"

record outside =
  o_run :: "trace \<Rightarrow> command \<Rightarrow> run_result"
  o_exists :: "trace \<Rightarrow> path \<Rightarrow> bool"
  o_directory :: "trace \<Rightarrow> path \<Rightarrow> bool"
  o_symlink :: "trace \<Rightarrow> path \<Rightarrow> bool"
  o_canonical :: "trace \<Rightarrow> path \<Rightarrow> path option"
  o_entries :: "trace \<Rightarrow> path \<Rightarrow> (string \<times> bool) list option"
  o_variable :: "trace \<Rightarrow> string \<Rightarrow> string option"
  o_remove_tree :: "trace \<Rightarrow> path \<Rightarrow> bool"
  o_staging :: "trace \<Rightarrow> path \<Rightarrow> path option"
  o_rename :: "trace \<Rightarrow> path \<Rightarrow> path \<Rightarrow> bool"

definition ask :: "request \<Rightarrow> (trace \<Rightarrow> 'a) \<Rightarrow> trace \<Rightarrow> ('e, 'a, trace) outcome" where
  "ask r answer t = (Inr (answer t), t @ [r])"

text \<open>An error unless a condition holds.\<close>

definition demand :: "'e \<Rightarrow> bool \<Rightarrow> 's \<Rightarrow> ('e, unit, 's) outcome" where
  "demand e c s = (if c then Inr () else Inl e, s)"

subsection \<open>Requests that are allowed\<close>

definition allowed :: "(request \<Rightarrow> bool) \<Rightarrow> trace \<Rightarrow> trace \<Rightarrow> bool" where
  "allowed P t t' \<longleftrightarrow> (\<exists>new. t' = t @ new \<and> list_all P new)"

interpretation requests: step_relation "allowed P" for P
proof
  show "allowed P t t" for t by (simp add: allowed_def)
  show "allowed P s u" if "allowed P s t" "allowed P t u" for s t u
    using that by (auto simp: allowed_def)
qed

lemma allowed_mono: "allowed P t t' \<Longrightarrow> (\<And>r. P r \<Longrightarrow> Q r) \<Longrightarrow> allowed Q t t'"
  by (auto simp: allowed_def list_all_iff)

named_theorems request_rules "the requests a computation makes"

lemma allowed_refl [request_rules]: "allowed P t t"
  by (simp add: allowed_def)

lemma allowed_ask [request_rules]: "P r \<Longrightarrow> allowed P t (snd (ask r answer t))"
  by (simp add: allowed_def ask_def)

lemma allowed_demand [request_rules]: "allowed P t (snd (demand e c t))"
  by (simp add: demand_def allowed_refl)

lemma allowed_pure [request_rules]: "allowed P t (snd (pure r t))"
  by (simp add: allowed_refl)

lemma allowed_pair [request_rules]: "allowed P t (snd (r, t))"
  by (simp add: allowed_refl)

lemma allowed_continue [request_rules]:
  assumes "allowed P t (snd r)" and "\<And>v t'. r = (Inr v, t') \<Longrightarrow> allowed P t' (snd (f v t'))"
  shows "allowed P t (snd (continue r f))"
  using assms by (rule requests.after_continue)

lemma allowed_let [request_rules]: "(\<And>x. x = v \<Longrightarrow> allowed P t (snd (f x))) \<Longrightarrow> allowed P t (snd (Let v f))"
  by simp

lemma allowed_if [request_rules]:
  "(c \<Longrightarrow> allowed P t (snd x)) \<Longrightarrow> (\<not> c \<Longrightarrow> allowed P t (snd y)) \<Longrightarrow> allowed P t (snd (if c then x else y))"
  by simp

lemma allowed_option [request_rules]:
  "(v = None \<Longrightarrow> allowed P t (snd x)) \<Longrightarrow> (\<And>w. v = Some w \<Longrightarrow> allowed P t (snd (f w))) \<Longrightarrow>
     allowed P t (snd (case v of None \<Rightarrow> x | Some w \<Rightarrow> f w))"
  by (cases v) simp_all

lemma ask_Inr_iff [result_simps]: "ask r answer t = (Inr v, t') \<longleftrightarrow> v = answer t \<and> t' = t @ [r]"
  by (auto simp: ask_def)

lemma demand_Inr_iff [result_simps]: "demand e c s = (Inr u, s') \<longleftrightarrow> c \<and> s' = s"
  by (auto simp: demand_def)

lemma ask_not_Inl [simp]: "ask r answer t \<noteq> (Inl e, t')"
  by (simp add: ask_def)

subsection \<open>Child processes\<close>

definition succeeds :: "run_result \<Rightarrow> bool" where
  "succeeds r \<longleftrightarrow> (case r of Exited (Some c) _ \<Rightarrow> c = 0 | _ \<Rightarrow> False)"

definition stdout :: "run_result \<Rightarrow> string option" where
  "stdout r = (case r of Exited _ out \<Rightarrow> out | NoStart \<Rightarrow> None)"

definition exit_code :: "run_result \<Rightarrow> int option" where
  "exit_code r = (case r of Exited c _ \<Rightarrow> c | NoStart \<Rightarrow> None)"

definition run :: "outside \<Rightarrow> command \<Rightarrow> trace \<Rightarrow> ('e, run_result, trace) outcome" where
  "run o' c t = ask (Run c) (\<lambda>t. o_run o' t c) t"

lemma allowed_run [request_rules]: "P (Run c) \<Longrightarrow> allowed P t (snd (run o' c t))"
  by (simp add: run_def allowed_ask)

subsection \<open>Lines of an output\<close>

definition strip_cr :: "string \<Rightarrow> string" where
  "strip_cr l = (if l \<noteq> [] \<and> last l = CHR 0x0D then butlast l else l)"

text \<open>\<open>str::lines\<close>: a carriage return before the line feed is dropped, a last line without line feed is kept as it is.\<close>

definition text_lines :: "string \<Rightarrow> string list" where
  "text_lines s = (let parts = split (CHR ''\<newline>'') s
     in map strip_cr (butlast parts) @ (if last parts = [] then [] else [last parts]))"

end
