(* ===== verification/Forge.thy ===== *)
theory Forge
  imports Outside Repository_Ref
begin

text \<open>
  The code hosts (\<open>src/forge.rs\<close>): credentials, identities, cloning, and the commands of the GitLab client, with the
  variables each child process is given and is kept from. A cancelled or overdue command is one that
  did not start, since both end in an error. Of the GitHub client (\<open>src/github.rs\<close>) the commands a forge uses are here.
\<close>

subsection \<open>Credentials and identities\<close>

record forge_credentials =
  fc_token_variable :: string
  fc_credential_key :: string
  fc_credential_helper :: string

fun git_credentials :: "repository_provider \<Rightarrow> forge_credentials" where
  "git_credentials GitHub = \<lparr>fc_token_variable = ''GH_TOKEN'',
     fc_credential_key = ''credential.https://github.com.helper'', fc_credential_helper = ''!gh auth git-credential''\<rparr>"
| "git_credentials GitLab = \<lparr>fc_token_variable = ''GITLAB_TOKEN'',
     fc_credential_key = ''credential.https://gitlab.com.helper'', fc_credential_helper = ''!glab auth git-credential''\<rparr>"

datatype forge_error =
    InvalidIdentity | ProviderMismatch | CloneNotStarted | CloneFailed | InvalidDefaultBranch | InvalidProject
  | IdentityMismatch string | ForgeCommandFailed | NotUtf8 | TokenMissing | TokenEmpty

type_synonym 'a forged = "(forge_error, 'a, trace) outcome"

fun executable :: "repository_provider \<Rightarrow> string" where
  "executable GitHub = ''gh''"
| "executable GitLab = ''glab''"

text \<open>The project of an identity and its remote.\<close>

definition identity_project :: "repository_provider \<Rightarrow> string \<Rightarrow> string option" where
  "identity_project provider identity =
     (case provider of GitHub \<Rightarrow> Some identity | GitLab \<Rightarrow> strip_prefix ''gitlab.com/'' identity)"

fun clone_url :: "repository_provider \<Rightarrow> string \<Rightarrow> string" where
  "clone_url GitHub project = ''https://github.com/'' @ project @ ''.git''"
| "clone_url GitLab project = ''https://gitlab.com/'' @ project @ ''.git''"

definition forge_validate_identity :: "repository_provider \<Rightarrow> string \<Rightarrow> forge_error + string" where
  "forge_validate_identity provider identity =
     and_then (ok_or InvalidIdentity (identity_project provider identity)) (\<lambda>project.
     and_then (map_err (\<lambda>_. InvalidIdentity) (parse_repository_ref (clone_url provider project))) (\<lambda>parsed.
     if rr_provider parsed \<noteq> provider \<or> repository_identity parsed \<noteq> identity then Inl ProviderMismatch
     else Inr project))"

definition valid_gitlab_project_path :: "string \<Rightarrow> bool" where
  "valid_gitlab_project_path p \<longleftrightarrow>
     (let segments = split (CHR ''/'') p
      in 2 \<le> length segments \<and> list_all (\<lambda>s. s \<noteq> [] \<and> s \<noteq> ''-''
           \<and> list_all (\<lambda>c. is_ascii_alphanumeric c \<or> c \<in> set ''-_.'') s) segments)"

definition forge_validate_branch :: "string \<Rightarrow> forge_error + string" where
  "forge_validate_branch branch =
     (if branch = [] \<or> text_starts branch ''-''
        \<or> list_ex (\<lambda>c. c \<in> set [CHR 0x00, CHR 0x0A, CHR 0x0D]) branch
      then Inl InvalidDefaultBranch else Inr branch)"

subsection \<open>Cloning\<close>

definition other_token :: "string \<Rightarrow> string" where
  "other_token token_variable = (if token_variable = ''GH_TOKEN'' then ''GITLAB_TOKEN'' else ''GH_TOKEN'')"

definition other_legacy_token :: "string \<Rightarrow> string" where
  "other_legacy_token token_variable = (if token_variable = ''GH_TOKEN'' then ''GLAB_TOKEN'' else ''GITHUB_TOKEN'')"

definition clone_command :: "string \<Rightarrow> string list \<Rightarrow> string \<Rightarrow> path \<Rightarrow> string \<Rightarrow> string \<Rightarrow> command" where
  "clone_command program prefix project destination token_variable token =
     \<lparr>cm_program = program, cm_directory = None,
       cm_args = prefix @ [project, path_text destination] @ [''--'', ''--no-checkout'', ''--no-tags''],
       cm_env = [(token_variable, token), (''GLAB_NO_PROMPT'', ''1'')],
       cm_removed = [''GITLAB_HOST'', ''GL_HOST'', ''GLAB_REPO'', other_token token_variable, other_legacy_token token_variable]\<rparr>"

definition run_clone ::
  "outside \<Rightarrow> string \<Rightarrow> string list \<Rightarrow> string \<Rightarrow> path \<Rightarrow> string \<Rightarrow> string \<Rightarrow> trace \<Rightarrow> unit forged" where
  "run_clone o' program prefix project destination token_variable token t =
     continue (run o' (clone_command program prefix project destination token_variable token) t) (\<lambda>r t.
     continue (demand CloneNotStarted (r \<noteq> NoStart) t) (\<lambda>_ t.
     demand CloneFailed (succeeds r) t))"

definition clone_repository ::
  "outside \<Rightarrow> repository_provider \<Rightarrow> string \<Rightarrow> path \<Rightarrow> string \<Rightarrow> trace \<Rightarrow> unit forged" where
  "clone_repository o' provider identity destination token t =
     continue (pure (forge_validate_identity provider identity) t) (\<lambda>project t.
     run_clone o' (executable provider) [''repo'', ''clone''] (clone_url provider project) destination
       (fc_token_variable (git_credentials provider)) token t)"

subsection \<open>The GitLab client\<close>

definition glab_command :: "path option \<Rightarrow> string list \<Rightarrow> string option \<Rightarrow> command" where
  "glab_command repository args token =
     \<lparr>cm_program = executable GitLab, cm_directory = repository, cm_args = args,
       cm_env = (case token of None \<Rightarrow> [] | Some v \<Rightarrow> [(''GITLAB_TOKEN'', v)]),
       cm_removed = [''GITLAB_HOST'', ''GL_HOST'', ''GLAB_REPO'', ''GH_TOKEN'', ''GITHUB_TOKEN'']\<rparr>"

definition glab_with_token ::
  "outside \<Rightarrow> path option \<Rightarrow> string list \<Rightarrow> string option \<Rightarrow> trace \<Rightarrow> string forged" where
  "glab_with_token o' repository args token t =
     continue (run o' (glab_command repository args token) t) (\<lambda>r t.
     continue (demand ForgeCommandFailed (succeeds r) t) (\<lambda>_ t.
     pure (ok_or NotUtf8 (stdout r)) t))"

definition glab :: "outside \<Rightarrow> path option \<Rightarrow> string list \<Rightarrow> trace \<Rightarrow> string forged" where
  "glab o' repository args t = glab_with_token o' repository args None t"

definition glab_validate :: "outside \<Rightarrow> path \<Rightarrow> string \<Rightarrow> trace \<Rightarrow> unit forged" where
  "glab_validate o' repository expected t =
     continue (glab o' None [''--version''] t) (\<lambda>_ t.
     continue (glab o' None [''auth'', ''status'', ''--hostname'', ''gitlab.com''] t) (\<lambda>_ t.
     continue (glab o' (Some repository)
       [''repo'', ''view'', ''--output'', ''json'', ''--jq'', ''.path_with_namespace''] t) (\<lambda>out t.
     let project = trim out
     in continue (demand InvalidProject (valid_gitlab_project_path project) t) (\<lambda>_ t.
     let discovered = ''gitlab.com/'' @ to_ascii_lowercase project
     in demand (IdentityMismatch discovered) (discovered = expected) t))))"

definition glab_default_branch :: "outside \<Rightarrow> path \<Rightarrow> trace \<Rightarrow> string forged" where
  "glab_default_branch o' repository t =
     continue (glab o' (Some repository)
       [''repo'', ''view'', ''--output'', ''json'', ''--jq'', ''.default_branch''] t) (\<lambda>branch t.
     pure (forge_validate_branch (trim branch)) t)"

definition glab_validate_worker_token_env :: "outside \<Rightarrow> string \<Rightarrow> trace \<Rightarrow> unit forged" where
  "glab_validate_worker_token_env o' token_env t =
     continue (ask (AskVariable token_env) (\<lambda>t. o_variable o' t token_env) t) (\<lambda>token t.
     continue (pure (ok_or TokenMissing token) t) (\<lambda>token t.
     continue (demand TokenEmpty (\<not> blank token) t) (\<lambda>_ t.
     continue (glab_with_token o' None [''api'', ''user'', ''--hostname'', ''gitlab.com''] (Some token) t) (\<lambda>_ t.
     (Inr (), t)))))"

subsection \<open>The GitHub client\<close>

definition gh_command :: "path option \<Rightarrow> string list \<Rightarrow> string option \<Rightarrow> command" where
  "gh_command repository args token =
     \<lparr>cm_program = executable GitHub, cm_directory = repository, cm_args = args,
       cm_env = (case token of None \<Rightarrow> [] | Some v \<Rightarrow> [(''GH_TOKEN'', v)]),
       cm_removed = [''GH_REPO'', ''GITLAB_TOKEN'', ''GLAB_TOKEN'']\<rparr>"

definition gh_with_token ::
  "outside \<Rightarrow> path option \<Rightarrow> string list \<Rightarrow> string option \<Rightarrow> trace \<Rightarrow> string forged" where
  "gh_with_token o' repository args token t =
     continue (run o' (gh_command repository args token) t) (\<lambda>r t.
     continue (demand ForgeCommandFailed (succeeds r) t) (\<lambda>_ t.
     pure (ok_or NotUtf8 (stdout r)) t))"

definition gh :: "outside \<Rightarrow> path option \<Rightarrow> string list \<Rightarrow> trace \<Rightarrow> string forged" where
  "gh o' repository args t = gh_with_token o' repository args None t"

definition gh_validate_global :: "outside \<Rightarrow> trace \<Rightarrow> unit forged" where
  "gh_validate_global o' t =
     continue (gh o' None [''--version''] t) (\<lambda>_ t.
     continue (gh o' None [''auth'', ''status''] t) (\<lambda>_ t. (Inr (), t)))"

definition valid_name_with_owner :: "string \<Rightarrow> bool" where
  "valid_name_with_owner value \<longleftrightarrow>
     (case split (CHR ''/'') value of [owner, repository] \<Rightarrow> owner \<noteq> [] \<and> repository \<noteq> [] | _ \<Rightarrow> False)"

definition gh_validate_repository :: "outside \<Rightarrow> path \<Rightarrow> trace \<Rightarrow> string forged" where
  "gh_validate_repository o' repository t =
     continue (gh o' (Some repository)
       [''repo'', ''view'', ''--json'', ''nameWithOwner'', ''--jq'', ''.nameWithOwner''] t) (\<lambda>out t.
     continue (demand InvalidProject (valid_name_with_owner (trim out)) t) (\<lambda>_ t. (Inr (trim out), t)))"

definition gh_default_branch :: "outside \<Rightarrow> path \<Rightarrow> trace \<Rightarrow> string forged" where
  "gh_default_branch o' repository t =
     continue (gh o' (Some repository)
       [''repo'', ''view'', ''--json'', ''defaultBranchRef'', ''--jq'', ''.defaultBranchRef.name''] t) (\<lambda>branch t.
     pure (forge_validate_branch (trim branch)) t)"

subsection \<open>Either host\<close>

definition gh_validate :: "outside \<Rightarrow> path \<Rightarrow> string \<Rightarrow> trace \<Rightarrow> unit forged" where
  "gh_validate o' repository expected t =
     continue (gh_validate_global o' t) (\<lambda>_ t.
     continue (gh_validate_repository o' repository t) (\<lambda>name t.
     let discovered = to_ascii_lowercase name
     in demand (IdentityMismatch discovered) (discovered = expected) t))"

fun forge_validate :: "outside \<Rightarrow> repository_provider \<Rightarrow> path \<Rightarrow> string \<Rightarrow> trace \<Rightarrow> unit forged" where
  "forge_validate o' GitHub repository expected t = gh_validate o' repository expected t"
| "forge_validate o' GitLab repository expected t = glab_validate o' repository expected t"

fun forge_default_branch :: "outside \<Rightarrow> repository_provider \<Rightarrow> path \<Rightarrow> trace \<Rightarrow> string forged" where
  "forge_default_branch o' GitHub repository t = gh_default_branch o' repository t"
| "forge_default_branch o' GitLab repository t = glab_default_branch o' repository t"

text \<open>A default branch that is handed on is never taken for an option and stays on one line.\<close>

lemma forge_validate_branch_safe:
  assumes "forge_validate_branch branch = Inr b"
  shows "b \<noteq> [] \<and> \<not> text_starts b ''-'' \<and> CHR 0x0A \<notin> set b"
proof -
  have "b = branch" "branch \<noteq> []" "\<not> text_starts branch ''-''"
    "\<not> list_ex (\<lambda>c. c \<in> set [CHR 0x00, CHR 0x0A, CHR 0x0D]) branch"
    using assms unfolding forge_validate_branch_def by (simp_all split: if_splits)
  then show ?thesis by (auto simp: list_ex_iff)
qed

lemma forge_default_branch_safe:
  "forge_default_branch o' provider repository t = (Inr b, t') \<Longrightarrow>
     b \<noteq> [] \<and> \<not> text_starts b ''-'' \<and> CHR 0x0A \<notin> set b"
  by (cases provider) (auto simp: gh_default_branch_def glab_default_branch_def result_simps dest: forge_validate_branch_safe)

end
