(* ===== verification/Workspace_Manager.thy ===== *)
theory Workspace_Manager
  imports Outside
begin

text \<open>
  Worktrees (\<open>WorkspaceManager\<close> of \<open>src/workspace.rs\<close>): preparing a worktree for a ticket or a proposal,
  looking at it before its removal, and removing it. git and the file system are the requests of
  \<open>Outside\<close>. What matters is where the manager removes and what it adopts.
\<close>

subsection \<open>Data\<close>

definition MAX_RETAINED_WORKSPACES :: nat where "MAX_RETAINED_WORKSPACES = 10"

datatype workspace_kind = Delivery | Proposal
datatype workspace_disposition = Created | Reused
datatype delivery_reuse = Reject | ExactBase | Owned
datatype cleanup_outcome = Previewed | Removed

record workspace =
  ws_kind :: workspace_kind
  ws_path :: path
  ws_branch :: "string option"
  ws_base_branch :: string
  ws_base_sha :: string
  ws_disposition :: workspace_disposition

record cleanup_preview =
  cp_path :: path
  cp_branch :: "string option"
  cp_dirty :: bool

record workspace_manager =
  wm_repository :: path
  wm_root :: path

record git_worktree =
  rw_path :: path
  rw_branch :: "string option"

datatype workspace_error =
    NotExistingDirectory string | NotCanonical string | RootsOverlap | NotPrimaryCheckout
  | GitFailed "string list" | NotUtf8Output | InvalidBranch | InvalidRevision | ZeroIssue | InvalidRunId
  | BranchHasWorktree | BranchExists | BranchNotAtBase | BranchInSeveralWorktrees | NotDetached | ProposalExists
  | RelativePath | ParentInPath | CanonicalCheckout | OutsideRoot | TargetExists | NotCleanExactBase
  | RetentionLimit nat | UnreadableRoot | NotRegistered | DirtyDelivery | RemovalFailed | NoWorktrees

type_synonym 'a managed = "(workspace_error, 'a, trace) outcome"

subsection \<open>git\<close>

definition git_command :: "path \<Rightarrow> string list \<Rightarrow> command" where
  "git_command directory args = \<lparr>cm_program = ''git'', cm_directory = Some directory, cm_args = args, cm_env = [], cm_removed = []\<rparr>"

definition git_output :: "outside \<Rightarrow> path \<Rightarrow> string list \<Rightarrow> trace \<Rightarrow> string managed" where
  "git_output o' directory args t =
     continue (run o' (git_command directory args) t) (\<lambda>r t.
     if \<not> succeeds r then (Inl (GitFailed args), t) else pure (ok_or NotUtf8Output (stdout r)) t)"

definition canonical_directory_at :: "outside \<Rightarrow> string \<Rightarrow> path \<Rightarrow> trace \<Rightarrow> path managed" where
  "canonical_directory_at o' name p t =
     (if \<not> is_absolute p then (Inl (NotExistingDirectory name), t)
      else continue (ask (AskDirectory p) (\<lambda>t. o_directory o' t p) t) (\<lambda>dir t.
      if \<not> dir then (Inl (NotExistingDirectory name), t)
      else continue (ask (AskCanonical p) (\<lambda>t. o_canonical o' t p) t) (\<lambda>c t.
      pure (ok_or (NotCanonical name) c) t)))"

definition manager_new :: "outside \<Rightarrow> path \<Rightarrow> path \<Rightarrow> trace \<Rightarrow> workspace_manager managed" where
  "manager_new o' repository root t =
     continue (canonical_directory_at o' ''repository'' repository t) (\<lambda>repository t.
     continue (canonical_directory_at o' ''workspace root'' root t) (\<lambda>root t.
     if repository = root \<or> path_starts_with repository root \<or> path_starts_with root repository
     then (Inl RootsOverlap, t)
     else continue (git_output o' repository [''rev-parse'', ''--show-toplevel''] t) (\<lambda>top t.
     continue (ask (AskCanonical (path_of (trim top))) (\<lambda>t. o_canonical o' t (path_of (trim top))) t) (\<lambda>actual t.
     continue (pure (ok_or (NotCanonical ''repository root'') actual) t) (\<lambda>actual t.
     if actual \<noteq> repository then (Inl NotPrimaryCheckout, t)
     else (Inr \<lparr>wm_repository = repository, wm_root = root\<rparr>, t))))))"

definition delivery_branch :: "nat \<Rightarrow> string" where
  "delivery_branch issue = ''factory/'' @ nat_dec issue"

definition prune :: "outside \<Rightarrow> workspace_manager \<Rightarrow> trace \<Rightarrow> unit managed" where
  "prune o' m t = continue (git_output o' (wm_repository m) [''worktree'', ''prune''] t) (\<lambda>_ t. (Inr (), t))"

definition reconcile_startup :: "outside \<Rightarrow> workspace_manager \<Rightarrow> trace \<Rightarrow> unit managed" where
  "reconcile_startup o' m t = prune o' m t"

definition validate_branch :: "outside \<Rightarrow> workspace_manager \<Rightarrow> string \<Rightarrow> trace \<Rightarrow> unit managed" where
  "validate_branch o' m branch t =
     (if blank branch \<or> text_starts branch ''-'' then (Inl InvalidBranch, t)
      else continue (git_output o' (wm_repository m) [''check-ref-format'', ''--branch'', branch] t) (\<lambda>_ t. (Inr (), t)))"

definition resolve_commit_in :: "outside \<Rightarrow> path \<Rightarrow> string \<Rightarrow> trace \<Rightarrow> string managed" where
  "resolve_commit_in o' directory sha t =
     (if blank sha \<or> text_starts sha ''-'' then (Inl InvalidRevision, t)
      else continue (git_output o' directory [''rev-parse'', ''--verify'', sha @ ''^{commit}''] t) (\<lambda>out t. (Inr (trim out), t)))"

definition resolve_commit :: "outside \<Rightarrow> workspace_manager \<Rightarrow> string \<Rightarrow> trace \<Rightarrow> string managed" where
  "resolve_commit o' m sha t = resolve_commit_in o' (wm_repository m) sha t"

definition fetch_default_branch :: "outside \<Rightarrow> workspace_manager \<Rightarrow> string \<Rightarrow> trace \<Rightarrow> string managed" where
  "fetch_default_branch o' m base_branch t =
     continue (validate_branch o' m base_branch t) (\<lambda>_ t.
     let remote = ''refs/remotes/origin/'' @ base_branch
     in continue (git_output o' (wm_repository m)
          [''fetch'', ''--no-tags'', ''origin'', ''+refs/heads/'' @ base_branch @ '':'' @ remote] t) (\<lambda>_ t.
        resolve_commit o' m remote t))"

definition branch_exists :: "outside \<Rightarrow> workspace_manager \<Rightarrow> string \<Rightarrow> trace \<Rightarrow> bool managed" where
  "branch_exists o' m branch t =
     (let args = [''show-ref'', ''--verify'', ''--quiet'', ''refs/heads/'' @ branch]
      in continue (run o' (git_command (wm_repository m) args) t) (\<lambda>r t.
         if exit_code r = Some 0 then (Inr True, t) else if exit_code r = Some 1 then (Inr False, t)
         else (Inl (GitFailed args), t)))"

subsection \<open>Registered worktrees\<close>

text \<open>A record ends at an empty line; other lines are ignored.\<close>

fun worktree_records :: "path option \<Rightarrow> string option \<Rightarrow> string list \<Rightarrow> git_worktree list" where
  "worktree_records p b [] = []"
| "worktree_records p b (line # rest) =
     (if line = [] then
        (case p of
           None \<Rightarrow> worktree_records None b rest
         | Some q \<Rightarrow> \<lparr>rw_path = q, rw_branch = b\<rparr> # worktree_records None None rest)
      else case strip_prefix ''worktree '' line of
        Some value \<Rightarrow> worktree_records (Some (path_of value)) b rest
      | None \<Rightarrow> (case strip_prefix ''branch refs/heads/'' line of
            Some value \<Rightarrow> worktree_records p (Some value) rest
          | None \<Rightarrow> worktree_records p b rest))"

definition parse_worktrees :: "string \<Rightarrow> workspace_error + git_worktree list" where
  "parse_worktrees output' =
     (let result = worktree_records None None (text_lines output' @ [''''])
      in if result = [] then Inl NoWorktrees else Inr result)"

definition worktrees :: "outside \<Rightarrow> workspace_manager \<Rightarrow> trace \<Rightarrow> git_worktree list managed" where
  "worktrees o' m t =
     continue (git_output o' (wm_repository m) [''worktree'', ''list'', ''--porcelain''] t) (\<lambda>out t.
     pure (parse_worktrees out) t)"

definition absolute_lexical :: "path \<Rightarrow> workspace_error + path" where
  "absolute_lexical p =
     (if \<not> is_absolute p then Inl RelativePath else if ParentDir \<in> set p then Inl ParentInPath else Inr p)"

definition registered_worktree :: "outside \<Rightarrow> workspace_manager \<Rightarrow> path \<Rightarrow> trace \<Rightarrow> git_worktree option managed" where
  "registered_worktree o' m p t =
     continue (pure (absolute_lexical p) t) (\<lambda>p t.
     continue (worktrees o' m t) (\<lambda>items t.
     (Inr (List.find (\<lambda>item. absolute_lexical (rw_path item) = Inr p) items), t)))"

definition worktree_for_branch :: "outside \<Rightarrow> workspace_manager \<Rightarrow> string \<Rightarrow> trace \<Rightarrow> path option managed" where
  "worktree_for_branch o' m branch t =
     continue (worktrees o' m t) (\<lambda>items t.
     case filter (\<lambda>item. rw_branch item = Some branch) items of
       [] \<Rightarrow> (Inr None, t)
     | [item] \<Rightarrow> (Inr (Some (rw_path item)), t)
     | _ \<Rightarrow> (Inl BranchInSeveralWorktrees, t))"

definition ensure_managed_path :: "workspace_manager \<Rightarrow> path \<Rightarrow> workspace_error + unit" where
  "ensure_managed_path m p =
     and_then (absolute_lexical p) (\<lambda>p.
     if p = wm_repository m then Inl CanonicalCheckout
     else if parent p \<noteq> Some (wm_root m) then Inl OutsideRoot else Inr ())"

definition ensure_available_target :: "outside \<Rightarrow> workspace_manager \<Rightarrow> path \<Rightarrow> trace \<Rightarrow> unit managed" where
  "ensure_available_target o' m p t =
     continue (pure (ensure_managed_path m p) t) (\<lambda>_ t.
     continue (ask (AskExists p) (\<lambda>t. o_exists o' t p) t) (\<lambda>present t.
     demand TargetExists (\<not> present) t))"

definition git_status_dirty :: "outside \<Rightarrow> path \<Rightarrow> trace \<Rightarrow> bool managed" where
  "git_status_dirty o' directory t =
     continue (git_output o' directory [''status'', ''--porcelain''] t) (\<lambda>out t. (Inr (\<not> blank out), t))"

definition require_clean_exact_base :: "outside \<Rightarrow> path \<Rightarrow> string \<Rightarrow> trace \<Rightarrow> unit managed" where
  "require_clean_exact_base o' p base_sha t =
     continue (resolve_commit_in o' p ''HEAD'' t) (\<lambda>head t.
     continue (git_status_dirty o' p t) (\<lambda>dirty t.
     demand NotCleanExactBase (head = base_sha \<and> \<not> dirty) t))"

definition is_delivery_name :: "string \<Rightarrow> bool" where
  "is_delivery_name name = (case strip_prefix ''issue-'' name of None \<Rightarrow> False
     | Some issue \<Rightarrow> issue \<noteq> [] \<and> list_all is_ascii_digit issue)"

definition retained_count :: "outside \<Rightarrow> workspace_manager \<Rightarrow> trace \<Rightarrow> nat managed" where
  "retained_count o' m t =
     continue (ask (AskEntries (wm_root m)) (\<lambda>t. o_entries o' t (wm_root m)) t) (\<lambda>entries t.
     continue (pure (ok_or UnreadableRoot entries) t) (\<lambda>entries t.
     (Inr (length (filter (\<lambda>(name, dir). is_delivery_name name \<and> dir) entries)), t)))"

definition require_capacity :: "outside \<Rightarrow> workspace_manager \<Rightarrow> trace \<Rightarrow> unit managed" where
  "require_capacity o' m t =
     continue (retained_count o' m t) (\<lambda>retained t.
     demand (RetentionLimit retained) (retained < MAX_RETAINED_WORKSPACES) t)"

subsection \<open>Preparing\<close>

definition worktree_add :: "outside \<Rightarrow> workspace_manager \<Rightarrow> string list \<Rightarrow> trace \<Rightarrow> unit managed" where
  "worktree_add o' m args t =
     continue (git_output o' (wm_repository m) ([''worktree'', ''add''] @ args) t) (\<lambda>_ t. (Inr (), t))"

definition workspace_of :: "workspace_kind \<Rightarrow> string option \<Rightarrow> string \<Rightarrow> string \<Rightarrow> path \<Rightarrow> workspace_disposition \<Rightarrow> workspace" where
  "workspace_of kind branch base_branch base_sha p disposition =
     \<lparr>ws_kind = kind, ws_path = p, ws_branch = branch,
       ws_base_branch = base_branch, ws_base_sha = base_sha, ws_disposition = disposition\<rparr>"

definition adopt_delivery ::
  "outside \<Rightarrow> workspace_manager \<Rightarrow> string \<Rightarrow> string \<Rightarrow> string \<Rightarrow> delivery_reuse \<Rightarrow> path \<Rightarrow> trace \<Rightarrow> workspace managed" where
  "adopt_delivery o' m branch base_branch base_sha reuse p t =
     continue (demand BranchHasWorktree (reuse \<noteq> Reject) t) (\<lambda>_ t.
     continue (pure (ensure_managed_path m p) t) (\<lambda>_ t.
     continue (if reuse = ExactBase then require_clean_exact_base o' p base_sha t else (Inr (), t)) (\<lambda>_ t.
     (Inr (workspace_of Delivery (Some branch) base_branch base_sha p Reused), t))))"

definition create_delivery ::
  "outside \<Rightarrow> workspace_manager \<Rightarrow> nat \<Rightarrow> string \<Rightarrow> string \<Rightarrow> string \<Rightarrow> delivery_reuse \<Rightarrow> trace \<Rightarrow> workspace managed" where
  "create_delivery o' m issue branch base_branch base_sha reuse t =
     continue (require_capacity o' m t) (\<lambda>_ t.
     let p = path_join (wm_root m) [Normal (''issue-'' @ nat_dec issue)]
     in continue (ensure_available_target o' m p t) (\<lambda>_ t.
     continue (branch_exists o' m branch t) (\<lambda>present t.
     continue (if present then
         continue (demand BranchExists (reuse \<noteq> Reject) t) (\<lambda>_ t.
         continue (if reuse = ExactBase
           then continue (resolve_commit o' m (''refs/heads/'' @ branch) t) (\<lambda>head t.
             demand BranchNotAtBase (head = base_sha) t)
           else (Inr (), t)) (\<lambda>_ t.
         worktree_add o' m [path_text p, branch] t))
       else worktree_add o' m [''-b'', branch, path_text p, base_sha] t) (\<lambda>_ t.
     (Inr (workspace_of Delivery (Some branch) base_branch base_sha p Created), t)))))"

definition prepare_delivery ::
  "outside \<Rightarrow> workspace_manager \<Rightarrow> nat \<Rightarrow> string \<Rightarrow> string \<Rightarrow> string \<Rightarrow> delivery_reuse \<Rightarrow> trace \<Rightarrow> workspace managed" where
  "prepare_delivery o' m issue title base_branch base_sha reuse t =
     continue (demand ZeroIssue (issue \<noteq> 0) t) (\<lambda>_ t.
     continue (validate_branch o' m base_branch t) (\<lambda>_ t.
     continue (resolve_commit o' m base_sha t) (\<lambda>base_sha t.
     continue (prune o' m t) (\<lambda>_ t.
     let branch = delivery_branch issue
     in continue (validate_branch o' m branch t) (\<lambda>_ t.
     continue (worktree_for_branch o' m branch t) (\<lambda>existing t.
     case existing of
       Some p \<Rightarrow> adopt_delivery o' m branch base_branch base_sha reuse p t
     | None \<Rightarrow> create_delivery o' m issue branch base_branch base_sha reuse t))))))"

definition adopt_proposal ::
  "outside \<Rightarrow> workspace_manager \<Rightarrow> string \<Rightarrow> string \<Rightarrow> delivery_reuse \<Rightarrow> git_worktree \<Rightarrow> trace \<Rightarrow> workspace managed" where
  "adopt_proposal o' m base_branch base_sha reuse item t =
     continue (demand ProposalExists (reuse \<noteq> Reject) t) (\<lambda>_ t.
     continue (pure (ensure_managed_path m (rw_path item)) t) (\<lambda>_ t.
     continue (demand NotDetached (rw_branch item = None) t) (\<lambda>_ t.
     continue (if reuse = ExactBase then require_clean_exact_base o' (rw_path item) base_sha t else (Inr (), t)) (\<lambda>_ t.
     (Inr (workspace_of Proposal None base_branch base_sha (rw_path item) Reused), t)))))"

text \<open>Run ids are positive integers.\<close>

definition prepare_proposal ::
  "outside \<Rightarrow> workspace_manager \<Rightarrow> int \<Rightarrow> string \<Rightarrow> string \<Rightarrow> delivery_reuse \<Rightarrow> trace \<Rightarrow> workspace managed" where
  "prepare_proposal o' m run_id base_branch base_sha reuse t =
     continue (demand InvalidRunId (0 < run_id) t) (\<lambda>_ t.
     continue (validate_branch o' m base_branch t) (\<lambda>_ t.
     continue (resolve_commit o' m base_sha t) (\<lambda>base_sha t.
     continue (prune o' m t) (\<lambda>_ t.
     let p = path_join (wm_root m) [Normal (''proposal-'' @ int_dec run_id)]
     in continue (registered_worktree o' m p t) (\<lambda>existing t.
     case existing of
       Some item \<Rightarrow> adopt_proposal o' m base_branch base_sha reuse item t
     | None \<Rightarrow>
         continue (ensure_available_target o' m p t) (\<lambda>_ t.
         continue (worktree_add o' m [''--detach'', path_text p, base_sha] t) (\<lambda>_ t.
         (Inr (workspace_of Proposal None base_branch base_sha p Created), t))))))))"

subsection \<open>Cleaning up\<close>

definition preview_cleanup :: "outside \<Rightarrow> workspace_manager \<Rightarrow> path \<Rightarrow> trace \<Rightarrow> cleanup_preview managed" where
  "preview_cleanup o' m p t =
     continue (pure (ensure_managed_path m p) t) (\<lambda>_ t.
     continue (registered_worktree o' m p t) (\<lambda>item t.
     continue (pure (ok_or NotRegistered item) t) (\<lambda>item t.
     continue (git_status_dirty o' (rw_path item) t) (\<lambda>dirty t.
     (Inr \<lparr>cp_path = rw_path item, cp_branch = rw_branch item, cp_dirty = dirty\<rparr>, t)))))"

definition preview_orphaned :: "path \<Rightarrow> workspace_error + cleanup_preview" where
  "preview_orphaned p = and_then (absolute_lexical p) (\<lambda>p. Inr \<lparr>cp_path = p, cp_branch = None, cp_dirty = False\<rparr>)"

definition remove_orphaned :: "outside \<Rightarrow> path \<Rightarrow> trace \<Rightarrow> cleanup_preview managed" where
  "remove_orphaned o' p t =
     continue (pure (preview_orphaned p) t) (\<lambda>preview t.
     continue (ask (AskExists (cp_path preview)) (\<lambda>t. o_exists o' t (cp_path preview)) t) (\<lambda>present t.
     if present
     then continue (ask (RemoveTree (cp_path preview)) (\<lambda>t. o_remove_tree o' t (cp_path preview)) t) (\<lambda>removed t.
          if removed then (Inr preview, t) else (Inl RemovalFailed, t))
     else (Inr preview, t)))"

definition worktree_remove :: "outside \<Rightarrow> workspace_manager \<Rightarrow> bool \<Rightarrow> path \<Rightarrow> trace \<Rightarrow> unit managed" where
  "worktree_remove o' m force p t =
     continue (git_output o' (wm_repository m)
       ([''worktree'', ''remove''] @ (if force then [''--force''] else []) @ [path_text p]) t) (\<lambda>_ t. (Inr (), t))"

definition cleanup ::
  "outside \<Rightarrow> workspace_manager \<Rightarrow> path \<Rightarrow> bool \<Rightarrow> trace \<Rightarrow> (cleanup_outcome \<times> cleanup_preview) managed" where
  "cleanup o' m p confirm t =
     continue (pure (ensure_managed_path m p) t) (\<lambda>_ t.
     continue (registered_worktree o' m p t) (\<lambda>item t.
     if item = None then
       if \<not> confirm then continue (pure (preview_orphaned p) t) (\<lambda>preview t. (Inr (Previewed, preview), t))
       else continue (remove_orphaned o' p t) (\<lambda>preview t. (Inr (Removed, preview), t))
     else continue (preview_cleanup o' m p t) (\<lambda>preview t.
       if \<not> confirm then (Inr (Previewed, preview), t)
       else continue (worktree_remove o' m (cp_dirty preview) (cp_path preview) t) (\<lambda>_ t.
         (Inr (Removed, preview), t)))))"

definition cleanup_clean :: "outside \<Rightarrow> workspace_manager \<Rightarrow> path \<Rightarrow> trace \<Rightarrow> cleanup_preview managed" where
  "cleanup_clean o' m p t =
     continue (pure (ensure_managed_path m p) t) (\<lambda>_ t.
     continue (registered_worktree o' m p t) (\<lambda>item t.
     if item = None then remove_orphaned o' p t
     else continue (preview_cleanup o' m p t) (\<lambda>preview t.
       if cp_dirty preview then (Inl DirtyDelivery, t)
       else continue (worktree_remove o' m False (cp_path preview) t) (\<lambda>_ t. (Inr preview, t)))))"

definition cleanup_disposable :: "outside \<Rightarrow> workspace_manager \<Rightarrow> path \<Rightarrow> trace \<Rightarrow> cleanup_preview managed" where
  "cleanup_disposable o' m p t =
     continue (pure (ensure_managed_path m p) t) (\<lambda>_ t.
     continue (registered_worktree o' m p t) (\<lambda>item t.
     if item = None then remove_orphaned o' p t
     else continue (preview_cleanup o' m p t) (\<lambda>preview t.
       continue (worktree_remove o' m True (cp_path preview) t) (\<lambda>_ t. (Inr preview, t)))))"

definition branch_is_pushed :: "outside \<Rightarrow> workspace_manager \<Rightarrow> string \<Rightarrow> trace \<Rightarrow> bool managed" where
  "branch_is_pushed o' m branch t =
     continue (validate_branch o' m branch t) (\<lambda>_ t.
     continue (resolve_commit o' m (''refs/heads/'' @ branch) t) (\<lambda>local t.
     continue (git_output o' (wm_repository m) [''ls-remote'', ''--heads'', ''origin'', ''refs/heads/'' @ branch] t) (\<lambda>out t.
     (Inr (case split_whitespace out of [] \<Rightarrow> False | remote # _ \<Rightarrow> remote = local), t))))"

subsection \<open>Where the manager removes\<close>

definition managed_path :: "workspace_manager \<Rightarrow> path \<Rightarrow> bool" where
  "managed_path m p \<longleftrightarrow> ensure_managed_path m p = Inr ()"

lemma managed_path_iff:
  "managed_path m p \<longleftrightarrow> is_absolute p \<and> ParentDir \<notin> set p \<and> p \<noteq> wm_repository m \<and> parent p = Some (wm_root m)"
  by (auto simp: managed_path_def ensure_managed_path_def absolute_lexical_def)

lemma ensure_managed_Inr [result_simps]: "ensure_managed_path m p = Inr u \<longleftrightarrow> managed_path m p"
  by (simp add: managed_path_def)

lemma absolute_lexical_Inr [result_simps]:
  "absolute_lexical p = Inr q \<longleftrightarrow> q = p \<and> is_absolute p \<and> ParentDir \<notin> set p"
  by (auto simp: absolute_lexical_def)

text \<open>A removal is a \<open>git worktree remove\<close> or the removal of a directory; everything else only reads or adds.\<close>

definition is_removal :: "command \<Rightarrow> bool" where
  "is_removal c \<longleftrightarrow> take 2 (cm_args c) = [''worktree'', ''remove'']"

definition removal_ok :: "(bool \<Rightarrow> path \<Rightarrow> bool) \<Rightarrow> request \<Rightarrow> bool" where
  "removal_ok R r \<longleftrightarrow> (case r of
      Run c \<Rightarrow> is_removal c \<longrightarrow> (\<exists>p. R (''--force'' \<in> set (cm_args c)) p \<and> last (cm_args c) = path_text p)
    | RemoveTree p \<Rightarrow> R True p
    | _ \<Rightarrow> True)"


text \<open>What an operation that removes nothing is allowed to ask for, whatever \<open>R\<close> is.\<close>

lemma removal_ok_simps [simp]:
  "removal_ok R (AskExists p)" "removal_ok R (AskDirectory p)" "removal_ok R (AskSymlink p)" "removal_ok R (AskCanonical p)"
  "removal_ok R (AskEntries p)" "removal_ok R (AskVariable v)" "removal_ok R (CreateStaging p)" "removal_ok R (Rename p q)"
  "removal_ok R (RemoveTree p) \<longleftrightarrow> R True p"
  by (simp_all add: removal_ok_def)

lemma removal_ok_git [simp]:
  "take 2 args \<noteq> [''worktree'', ''remove''] \<Longrightarrow> removal_ok R (Run (git_command d args))"
  by (simp add: removal_ok_def is_removal_def git_command_def)

lemma removal_ok_remove [simp]:
  "R (''--force'' = path_text p) p \<Longrightarrow> removal_ok R (Run (git_command d [''worktree'', ''remove'', path_text p]))"
  "R True p \<Longrightarrow> removal_ok R (Run (git_command d [''worktree'', ''remove'', ''--force'', path_text p]))"
  by (auto simp: removal_ok_def git_command_def)

lemma allowed_git_output [request_rules]:
  "P (Run (git_command d args)) \<Longrightarrow> allowed P t (snd (git_output o' d args t))"
  unfolding git_output_def by (intro request_rules)

lemma allowed_validate_branch [request_rules]: "allowed (removal_ok R) t (snd (validate_branch o' m b t))"
  unfolding validate_branch_def by (intro request_rules) simp

lemma allowed_resolve_commit [request_rules]:
  "allowed (removal_ok R) t (snd (resolve_commit_in o' d sha t))" "allowed (removal_ok R) t (snd (resolve_commit o' m sha t))"
  unfolding resolve_commit_def resolve_commit_in_def by (intro request_rules, simp)+

lemma allowed_prune [request_rules]: "allowed (removal_ok R) t (snd (prune o' m t))"
  unfolding prune_def by (intro request_rules) simp

lemma allowed_worktrees [request_rules]: "allowed (removal_ok R) t (snd (worktrees o' m t))"
  unfolding worktrees_def by (intro request_rules) simp

lemma allowed_registered [request_rules]: "allowed (removal_ok R) t (snd (registered_worktree o' m p t))"
  unfolding registered_worktree_def by (intro request_rules)

lemma allowed_status [request_rules]: "allowed (removal_ok R) t (snd (git_status_dirty o' d t))"
  unfolding git_status_dirty_def by (intro request_rules) simp

lemma allowed_preview [request_rules]: "allowed (removal_ok R) t (snd (preview_cleanup o' m p t))"
  unfolding preview_cleanup_def by (intro request_rules)

lemma registered_worktree_path:
  assumes "registered_worktree o' m p t = (Inr (Some item), t')"
  shows "rw_path item = p"
  using assms by (auto simp: registered_worktree_def result_simps find_Some_iff)

lemma preview_cleanup_path:
  assumes "preview_cleanup o' m p t = (Inr preview, t')"
  shows "cp_path preview = p"
  using assms registered_worktree_path by (auto simp: preview_cleanup_def result_simps ok_or_def split: option.splits)

lemma allowed_remove_orphaned [request_rules]:
  "R True p \<Longrightarrow> allowed (removal_ok R) t (snd (remove_orphaned o' p t))"
  unfolding remove_orphaned_def preview_orphaned_def by (intro request_rules) (auto simp: result_simps)

lemma allowed_worktree_remove [request_rules]:
  "R (force \<or> ''--force'' = path_text p) p \<Longrightarrow> allowed (removal_ok R) t (snd (worktree_remove o' m force p t))"
  unfolding worktree_remove_def by (intro request_rules) auto


lemma absolute_not_option: "is_absolute p \<Longrightarrow> path_text p \<noteq> CHR ''-'' # s"
  by (cases p; cases "tl p") (auto simp: is_absolute_def path_text_def split: component.splits)

lemma managed_not_option [simp]: "managed_path m p \<Longrightarrow> path_text p \<noteq> ''--force'' \<and> ''--force'' \<noteq> path_text p"
  using absolute_not_option [of p "''-force''"] by (auto simp: managed_path_iff)

definition removes_only :: "(path \<Rightarrow> bool) \<Rightarrow> trace \<Rightarrow> trace \<Rightarrow> bool" where
  "removes_only R t t' \<longleftrightarrow> allowed (removal_ok (\<lambda>_. R)) t t'"

lemma cleanup_removes:
  "removes_only (\<lambda>q. confirm \<and> q = p \<and> managed_path m p) t (snd (cleanup o' m p confirm t))"
  unfolding removes_only_def cleanup_def
  by (intro request_rules) (auto simp: result_simps dest: preview_cleanup_path)

lemma cleanup_disposable_removes:
  "removes_only (\<lambda>q. q = p \<and> managed_path m p) t (snd (cleanup_disposable o' m p t))"
  unfolding removes_only_def cleanup_disposable_def
  by (intro request_rules) (auto simp: result_simps dest: preview_cleanup_path)

lemma cleanup_clean_removes:
  "removes_only (\<lambda>q. q = p \<and> managed_path m p) t (snd (cleanup_clean o' m p t))"
  unfolding removes_only_def cleanup_clean_def
  by (intro request_rules) (auto simp: result_simps dest: preview_cleanup_path)

lemma allowed_worktree_for_branch [request_rules]: "allowed (removal_ok R) t (snd (worktree_for_branch o' m b t))"
  unfolding worktree_for_branch_def by (intro request_rules) (auto simp: allowed_refl split: list.split)

lemma allowed_clean_base [request_rules]: "allowed (removal_ok R) t (snd (require_clean_exact_base o' p sha t))"
  unfolding require_clean_exact_base_def by (intro request_rules)

lemma allowed_capacity [request_rules]: "allowed (removal_ok R) t (snd (require_capacity o' m t))"
  unfolding require_capacity_def retained_count_def by (intro request_rules) simp

lemma allowed_available [request_rules]: "allowed (removal_ok R) t (snd (ensure_available_target o' m p t))"
  unfolding ensure_available_target_def by (intro request_rules) simp

lemma allowed_branch_exists [request_rules]: "allowed (removal_ok R) t (snd (branch_exists o' m b t))"
  unfolding branch_exists_def by (intro request_rules) simp

lemma allowed_worktree_add [request_rules]: "allowed (removal_ok R) t (snd (worktree_add o' m args t))"
  unfolding worktree_add_def by (intro request_rules) simp

lemma prepare_delivery_removes: "removes_only (\<lambda>_. False) t (snd (prepare_delivery o' m issue title base sha reuse t))"
  unfolding removes_only_def prepare_delivery_def adopt_delivery_def create_delivery_def by (intro request_rules)

lemma prepare_proposal_removes: "removes_only (\<lambda>_. False) t (snd (prepare_proposal o' m number base sha reuse t))"
  unfolding removes_only_def prepare_proposal_def adopt_proposal_def by (intro request_rules)


subsection \<open>An automatic clean-up keeps work\<close>

lemma git_output_trace [simp]: "snd (git_output o' d args t) = t @ [Run (git_command d args)]"
  by (simp add: git_output_def run_def ask_def split: sum.split)

lemma snd_continue_same [simp]: "snd (continue r (\<lambda>v t. (f v, t))) = snd r"
  by (simp add: continue_def split: prod.split sum.split)

lemma git_output_value:
  "fst (git_output o' d args t) = (let r = o_run o' t (git_command d args)
     in if succeeds r then ok_or NotUtf8Output (stdout r) else Inl (GitFailed args))"
  by (simp add: git_output_def run_def ask_def Let_def)

definition list_request :: "workspace_manager \<Rightarrow> request" where
  "list_request m = Run (git_command (wm_repository m) [''worktree'', ''list'', ''--porcelain''])"

definition status_request :: "path \<Rightarrow> request" where
  "status_request p = Run (git_command p [''status'', ''--porcelain''])"

definition reported_clean :: "outside \<Rightarrow> path \<Rightarrow> trace \<Rightarrow> bool" where
  "reported_clean o' p t \<longleftrightarrow> (let r = o_run o' t (git_command p [''status'', ''--porcelain''])
     in succeeds r \<and> (\<exists>out. stdout r = Some out \<and> blank out))"

lemma git_status_dirty_clean:
  assumes "git_status_dirty o' p t = (Inr False, t')"
  shows "reported_clean o' p t \<and> t' = t @ [status_request p]"
proof -
  from assms obtain out where g: "git_output o' p [''status'', ''--porcelain''] t = (Inr out, t')" and "blank out"
    by (auto simp: git_status_dirty_def result_simps)
  with git_output_value [of o' p "[''status'', ''--porcelain'']" t] git_output_trace [of o' p "[''status'', ''--porcelain'']" t]
  show ?thesis by (auto simp: reported_clean_def status_request_def ok_or_def Let_def split: if_splits option.splits)
qed

text \<open>
  An automatic clean-up of a path that git lists as a worktree removes it, if at all, as the answer to a status
  that found no change, and without force; what git does not list is the only thing removed as a directory.
\<close>

theorem clean_removal_follows_clean_status:
  assumes "registered_worktree o' m p t = (Inr (Some item), t1)"
    and "snd (cleanup_clean o' m p t) = t @ new" and "r \<in> set new" and "\<not> removal_ok (\<lambda>_ _. False) r"
  shows "\<exists>before. t @ new = before @ [status_request p, r] \<and> reported_clean o' p before
    \<and> r = Run (git_command (wm_repository m) [''worktree'', ''remove'', path_text p])"
proof -
  let ?Q = "removal_ok (\<lambda>_ _. False)"
  let ?remove = "Run (git_command (wm_repository m) [''worktree'', ''remove'', path_text p])"
  have quiet: "snd (cleanup_clean o' m p t) \<noteq> t2" if "allowed ?Q t t2" for t2
    using that assms(2-) by (auto simp: allowed_def list_all_iff)
  have managed: "ensure_managed_path m p = Inr ()"
    using quiet [OF allowed_refl] by (cases "ensure_managed_path m p") (auto simp: cleanup_clean_def)
  have listed: "allowed ?Q t t1" using allowed_registered [of _ t o' m p] by (simp add: assms(1))
  obtain res t2 where pv: "preview_cleanup o' m p t1 = (res, t2)" by fastforce
  have t2: "allowed ?Q t t2"
    using requests.related_trans [OF listed] allowed_preview [of _ t1 o' m p] by (simp add: pv)
  note run = cleanup_clean_def [of o' m p t, unfolded managed, simplified assms(1) pure_eq continue_simps, simplified pv]
  obtain preview where preview: "res = Inr preview" and clean: "\<not> cp_dirty preview"
    using quiet [OF t2] by (cases res) (auto simp: run split: if_splits)
  have "snd (cleanup_clean o' m p t) = t2 @ [?remove]"
    using preview clean preview_cleanup_path [of o' m p t1 preview t2] pv
    by (simp add: run worktree_remove_def)
  with assms(2) have new: "t @ new = t2 @ [?remove]" by simp
  obtain item' t3 t4 where item': "registered_worktree o' m p t3 = (Inr (Some item'), t4)"
      "git_status_dirty o' (rw_path item') t4 = (Inr False, t2)"
    using pv preview clean by (auto simp: preview_cleanup_def result_simps ok_or_def split: option.splits)
  then have "git_status_dirty o' p t4 = (Inr False, t2)" using registered_worktree_path by metis
  then have "reported_clean o' p t4 \<and> t2 = t4 @ [status_request p]" by (rule git_status_dirty_clean)
  moreover have "r = ?remove"
  proof -
    obtain new2 where "t2 = t @ new2" "list_all ?Q new2" using t2 by (auto simp: allowed_def)
    with new assms(3,4) show ?thesis by (auto simp: list_all_iff)
  qed
  ultimately show ?thesis using new by auto
qed

subsection \<open>What a prepared worktree is\<close>

text \<open>The base was the head of a worktree without changes, as git reported it.\<close>

definition at_clean_base :: "outside \<Rightarrow> path \<Rightarrow> string \<Rightarrow> trace \<Rightarrow> bool" where
  "at_clean_base o' p sha t \<longleftrightarrow> (\<exists>t'. require_clean_exact_base o' p sha t' = (Inr (), t))"

lemma at_clean_baseI: "require_clean_exact_base o' p sha t' = (Inr (), t) \<Longrightarrow> at_clean_base o' p sha t"
  by (auto simp: at_clean_base_def)

lemma adopted_delivery:
  assumes "adopt_delivery o' m branch base sha reuse p t = (Inr ws, t')"
  shows "managed_path m p \<and> ws = workspace_of Delivery (Some branch) base sha p Reused \<and> reuse \<noteq> Reject
    \<and> (reuse = ExactBase \<longrightarrow> at_clean_base o' p sha t')"
  using assms by (auto simp: adopt_delivery_def result_simps intro: at_clean_baseI split: if_splits)

lemma created_delivery:
  assumes "create_delivery o' m issue branch base sha reuse t = (Inr ws, t')"
  shows "managed_path m (ws_path ws)
    \<and> ws = workspace_of Delivery (Some branch) base sha (path_join (wm_root m) [Normal (''issue-'' @ nat_dec issue)]) Created
    \<and> (\<exists>t1 t2 n. retained_count o' m t1 = (Inr n, t2) \<and> n < MAX_RETAINED_WORKSPACES)"
  using assms
  by (auto simp: create_delivery_def ensure_available_target_def require_capacity_def workspace_of_def
      Let_def result_simps simp del: append.simps)

lemma adopted_proposal:
  assumes "adopt_proposal o' m base sha reuse item t = (Inr ws, t')"
  shows "managed_path m (rw_path item) \<and> ws = workspace_of Proposal None base sha (rw_path item) Reused \<and> reuse \<noteq> Reject
    \<and> (reuse = ExactBase \<longrightarrow> at_clean_base o' (rw_path item) sha t')"
  using assms by (auto simp: adopt_proposal_def result_simps intro: at_clean_baseI split: if_splits)

lemma prepared_delivery:
  assumes "prepare_delivery o' m issue title base sha reuse t = (Inr ws, t')"
  shows "\<exists>p sha'. managed_path m p
     \<and> (ws = workspace_of Delivery (Some (delivery_branch issue)) base sha' p Reused \<and> reuse \<noteq> Reject
          \<and> (reuse = ExactBase \<longrightarrow> at_clean_base o' p sha' t')
        \<or> ws = workspace_of Delivery (Some (delivery_branch issue)) base sha' p Created
          \<and> p = path_join (wm_root m) [Normal (''issue-'' @ nat_dec issue)]
          \<and> (\<exists>t1 t2 n. retained_count o' m t1 = (Inr n, t2) \<and> n < MAX_RETAINED_WORKSPACES))"
proof -
  obtain existing t1 sha' where r: "(case existing of
       Some p \<Rightarrow> adopt_delivery o' m (delivery_branch issue) base sha' reuse p t1
     | None \<Rightarrow> create_delivery o' m issue (delivery_branch issue) base sha' reuse t1) = (Inr ws, t')"
    using assms unfolding prepare_delivery_def Let_def continue_Inr_iff by blast
  show ?thesis
  proof (cases existing)
    case None
    with r have c: "create_delivery o' m issue (delivery_branch issue) base sha' reuse t1 = (Inr ws, t')" by simp
    from created_delivery [OF this] have "ws_path ws = path_join (wm_root m) [Normal (''issue-'' @ nat_dec issue)]"
      by (metis workspace_of_def workspace.select_convs(2))
    with created_delivery [OF c] show ?thesis by metis
  next
    case (Some p)
    with r have "adopt_delivery o' m (delivery_branch issue) base sha' reuse p t1 = (Inr ws, t')" by simp
    from adopted_delivery [OF this] show ?thesis by blast
  qed
qed

text \<open>
  A prepared delivery lies in the workspace directory on the ticket's own branch. A new task adopts nothing:
  without leave to reuse it is a new worktree. A worktree that is new is at the ticket's own path,
  which was free, with fewer than ten retained; one that is adopted for a reserved base was clean and at that base.
\<close>

theorem prepared_delivery_owned:
  assumes "prepare_delivery o' m issue title base sha reuse t = (Inr ws, t')"
  shows "managed_path m (ws_path ws) \<and> ws_kind ws = Delivery \<and> ws_branch ws = Some (delivery_branch issue)
    \<and> (reuse = Reject \<longrightarrow> ws_disposition ws = Created)
    \<and> (ws_disposition ws = Created \<longrightarrow> ws_path ws = path_join (wm_root m) [Normal (''issue-'' @ nat_dec issue)]
        \<and> (\<exists>t1 t2 n. retained_count o' m t1 = (Inr n, t2) \<and> n < MAX_RETAINED_WORKSPACES))
    \<and> (ws_disposition ws = Reused \<and> reuse = ExactBase \<longrightarrow> at_clean_base o' (ws_path ws) (ws_base_sha ws) t')"
  using prepared_delivery [OF assms] by (auto simp: workspace_of_def simp del: append.simps)

lemma prepared_proposal:
  assumes "prepare_proposal o' m number base sha reuse t = (Inr ws, t')"
  defines "p \<equiv> path_join (wm_root m) [Normal (''proposal-'' @ int_dec number)]"
  shows "managed_path m p \<and> (\<exists>sha'.
     (ws = workspace_of Proposal None base sha' p Reused \<and> reuse \<noteq> Reject
        \<and> (reuse = ExactBase \<longrightarrow> at_clean_base o' p sha' t'))
     \<or> ws = workspace_of Proposal None base sha' p Created)"
proof -
  obtain existing t1 t2 sha' where r: "registered_worktree o' m p t1 = (Inr existing, t2)"
    and cont: "(case existing of
       Some item \<Rightarrow> adopt_proposal o' m base sha' reuse item t2
     | None \<Rightarrow>
         continue (ensure_available_target o' m p t2) (\<lambda>_ t.
         continue (worktree_add o' m [''--detach'', path_text p, sha'] t) (\<lambda>_ t.
         (Inr (workspace_of Proposal None base sha' p Created), t)))) = (Inr ws, t')"
    using assms(1) unfolding prepare_proposal_def p_def [symmetric] Let_def continue_Inr_iff by blast
  show ?thesis
  proof (cases existing)
    case None
    with cont have "managed_path m p \<and> ws = workspace_of Proposal None base sha' p Created"
      by (auto simp: ensure_available_target_def result_simps)
    then show ?thesis by blast
  next
    case (Some item)
    with r have "rw_path item = p" using registered_worktree_path by metis
    with cont Some adopted_proposal [of o' m base sha' reuse item t2 ws t'] show ?thesis by auto
  qed
qed

text \<open>The same for a proposal, which is detached and always at the path of its run.\<close>

theorem prepared_proposal_owned:
  assumes "prepare_proposal o' m number base sha reuse t = (Inr ws, t')"
  shows "ws_path ws = path_join (wm_root m) [Normal (''proposal-'' @ int_dec number)]
    \<and> managed_path m (ws_path ws) \<and> ws_kind ws = Proposal \<and> ws_branch ws = None
    \<and> (reuse = Reject \<longrightarrow> ws_disposition ws = Created)
    \<and> (ws_disposition ws = Reused \<and> reuse = ExactBase \<longrightarrow> at_clean_base o' (ws_path ws) (ws_base_sha ws) t')"
  using prepared_proposal [OF assms] by (auto simp: workspace_of_def simp del: append.simps)

text \<open>A manager's directories are apart, so that nothing it manages lies in the repository or contains it.\<close>

theorem manager_roots_apart:
  assumes "manager_new o' repository root t = (Inr m, t')" and "managed_path m p"
  shows "\<not> path_starts_with p (wm_repository m) \<and> \<not> path_starts_with (wm_repository m) p"
proof -
  from assms(1) have apart: "\<not> path_starts_with (wm_root m) (wm_repository m)" "\<not> path_starts_with (wm_repository m) (wm_root m)"
    by (auto simp: manager_new_def result_simps split: if_splits)
  from assms(2) have parent: "parent p = Some (wm_root m)" and "p \<noteq> wm_repository m" by (simp_all add: managed_path_iff)
  then obtain c where p: "p = wm_root m @ [c]"
    by (cases p rule: rev_cases) (auto simp: parent_def split: component.splits)
  have "path_starts_with (wm_root m) (wm_repository m) \<or> p = wm_repository m"
    if "path_starts_with p (wm_repository m)"
  proof -
    from that obtain r where r: "wm_root m @ [c] = wm_repository m @ r" by (auto simp: p path_starts_with_iff)
    show ?thesis using r by (cases r rule: rev_cases) (auto simp: p)
  qed
  then show ?thesis
    using apart \<open>p \<noteq> wm_repository m\<close> path_starts_with_trans [of "wm_repository m" p "wm_root m"]
    by (auto simp: p)
qed
subsection \<open>The list of worktrees is read back\<close>

text \<open>What git prints for a worktree: its path, its commit, its branch if it has one, and an empty line.\<close>

definition worktree_block :: "git_worktree \<times> string \<Rightarrow> string list" where
  "worktree_block = (\<lambda>(item, sha). [''worktree '' @ path_text (rw_path item), ''HEAD '' @ sha,
     (case rw_branch item of None \<Rightarrow> ''detached'' | Some b \<Rightarrow> ''branch refs/heads/'' @ b), []])"

definition porcelain :: "(git_worktree \<times> string) list \<Rightarrow> string" where
  "porcelain items = concat (map (\<lambda>l. l @ ''\<newline>'') (concat (map worktree_block items)))"

definition line_text :: "string \<Rightarrow> bool" where
  "line_text l \<longleftrightarrow> CHR ''\<newline>'' \<notin> set l \<and> strip_cr l = l"

lemma text_lines_concat:
  assumes "list_all line_text ls"
  shows "text_lines (concat (map (\<lambda>l. l @ ''\<newline>'') ls)) = ls"
proof -
  have sp: "split (CHR ''\<newline>'') (concat (map (\<lambda>l. l @ ''\<newline>'') ls)) = ls @ [[]]"
    using assms by (induction ls) (simp_all add: line_text_def split_append_sep)
  have "map strip_cr ls = ls" using assms by (induction ls) (simp_all add: line_text_def)
  then show ?thesis by (simp add: text_lines_def sp butlast_append)
qed

lemma worktree_records_block:
  assumes "plain_path (rw_path item)"
  shows "worktree_records None None (worktree_block (item, sha) @ rest) = item # worktree_records None None rest"
  using path_of_text [OF assms] by (cases "rw_branch item") (simp_all add: worktree_block_def)

text \<open>
  Reading git's listing gives back the worktrees, whatever their commits, for paths without detours and
  branches and paths on one line.
\<close>

theorem worktree_listing_roundtrip:
  assumes "items \<noteq> []" and "list_all (\<lambda>(item, sha). plain_path (rw_path item)) items"
    and "list_all line_text (concat (map worktree_block items))"
  shows "parse_worktrees (porcelain items) = Inr (map fst items)"
proof -
  have "worktree_records None None (concat (map worktree_block items) @ [[]]) = map fst items"
    using assms(2)
  proof (induction items)
    case (Cons x items)
    then show ?case using worktree_records_block [of "fst x" "snd x"] by (auto split: prod.splits)
  qed simp
  then show ?thesis
    using assms(1) text_lines_concat [OF assms(3)] by (simp add: parse_worktrees_def porcelain_def)
qed


end
