(* ===== verification/Clone_Manager.thy ===== *)
theory Clone_Manager
  imports Forge Workspace_Manager
begin

text \<open>
  Standalone clones for sandboxed workers (\<open>src/clone.rs\<close>): a clone is made in a staging directory and published
  by a rename, its origin is checked against the repository, and it is put at the reserved commit. Safety is
  about the directories that are removed or published and about the tokens child processes see.
\<close>

subsection \<open>Data\<close>

record standalone_clone =
  sc_path :: path
  sc_branch :: "string option"
  sc_base_branch :: string
  sc_base_sha :: string

record clone_manager =
  cl_root :: path
  cl_git :: string
  cl_provider :: repository_provider

datatype clone_error =
    UnresolvedRoot | RootNotDirectory | NonPositiveIds | InvalidRevision | InvalidRepository forge_error
  | NoParent | UnresolvedParent | OutsideCloneRoot | SymlinkedClone | MissingToken | EmptyToken | NoStaging
  | CloneRefused forge_error | NoGitMetadata | NotPublished | NotStandalone | GitNotStarted | GitRefused
  | GitNotUtf8 | UnsupportedOrigin | OriginMismatch | BaseMismatch | LocalBranchUnknown | RemoteBranchUnknown
  | CloneNotRemoved

type_synonym 'a cloned = "(clone_error, 'a, trace) outcome"

definition lift_error :: "('e \<Rightarrow> 'f) \<Rightarrow> ('e, 'a, 's) outcome \<Rightarrow> ('f, 'a, 's) outcome" where
  "lift_error f r = (map_err f (fst r), snd r)"

lemma lift_error_Inr_iff [result_simps]: "lift_error f r = (Inr v, t) \<longleftrightarrow> r = (Inr v, t)"
  by (cases r) (auto simp: lift_error_def result_simps)

lemma allowed_lift [request_rules]: "allowed P t (snd r) \<Longrightarrow> allowed P t (snd (lift_error f r))"
  by (simp add: lift_error_def)

subsection \<open>Checks\<close>

definition new_clone_manager :: "outside \<Rightarrow> path \<Rightarrow> trace \<Rightarrow> clone_manager cloned" where
  "new_clone_manager o' root t =
     continue (ask (AskCanonical root) (\<lambda>t. o_canonical o' t root) t) (\<lambda>root t.
     continue (pure (ok_or UnresolvedRoot root) t) (\<lambda>root t.
     continue (ask (AskDirectory root) (\<lambda>t. o_directory o' t root) t) (\<lambda>dir t.
     continue (demand RootNotDirectory dir t) (\<lambda>_ t.
     (Inr \<lparr>cl_root = root, cl_git = ''git'', cl_provider = GitHub\<rparr>, t)))))"

definition with_forge :: "outside \<Rightarrow> path \<Rightarrow> repository_provider \<Rightarrow> trace \<Rightarrow> clone_manager cloned" where
  "with_forge o' root provider t =
     continue (new_clone_manager o' root t) (\<lambda>m t. (Inr (m\<lparr>cl_provider := provider\<rparr>), t))"

definition validate_repository :: "repository_provider \<Rightarrow> string \<Rightarrow> clone_error + unit" where
  "validate_repository provider repository =
     and_then (ok_or (InvalidRepository InvalidIdentity) (identity_project provider repository)) (\<lambda>project.
     and_then (map_err (\<lambda>_. InvalidRepository InvalidIdentity) (parse_repository_ref (clone_url provider project))) (\<lambda>parsed.
     if rr_provider parsed \<noteq> provider \<or> repository_identity parsed \<noteq> repository
     then Inl (InvalidRepository ProviderMismatch) else Inr ()))"

definition for_identity :: "outside \<Rightarrow> path \<Rightarrow> string \<Rightarrow> trace \<Rightarrow> clone_manager cloned" where
  "for_identity o' root identity t =
     (let provider = (if text_starts identity ''gitlab.com/'' then GitLab else GitHub)
      in continue (pure (validate_repository provider identity) t) (\<lambda>_ t. with_forge o' root provider t))"

definition validate_revision :: "string \<Rightarrow> clone_error + unit" where
  "validate_revision revision =
     (if length revision \<noteq> 40 \<or> \<not> list_all is_ascii_hexdigit revision then Inl InvalidRevision else Inr ())"

text \<open>Its own check of where a clone may be: the parent is resolved, and the clone itself is not a link.\<close>

definition ensure_managed_clone :: "outside \<Rightarrow> clone_manager \<Rightarrow> path \<Rightarrow> trace \<Rightarrow> unit cloned" where
  "ensure_managed_clone o' m p t =
     continue (pure (ok_or NoParent (parent p)) t) (\<lambda>q t.
     continue (ask (AskCanonical q) (\<lambda>t. o_canonical o' t q) t) (\<lambda>resolved t.
     continue (pure (ok_or UnresolvedParent resolved) t) (\<lambda>resolved t.
     if resolved \<noteq> cl_root m \<or> p = cl_root m then (Inl OutsideCloneRoot, t)
     else continue (ask (AskSymlink p) (\<lambda>t. o_symlink o' t p) t) (\<lambda>link t.
       demand SymlinkedClone (\<not> link) t))))"

subsection \<open>git with a token\<close>

definition token_command :: "clone_manager \<Rightarrow> path \<Rightarrow> string list \<Rightarrow> string \<Rightarrow> command" where
  "token_command m repository args token =
     (let variable = fc_token_variable (git_credentials (cl_provider m))
      in \<lparr>cm_program = cl_git m, cm_directory = Some repository, cm_args = args, cm_env = [(variable, token)],
           cm_removed = [other_token variable, other_legacy_token variable]\<rparr>)"

definition git :: "outside \<Rightarrow> clone_manager \<Rightarrow> path \<Rightarrow> string list \<Rightarrow> string \<Rightarrow> trace \<Rightarrow> unit cloned" where
  "git o' m repository args token t =
     continue (run o' (token_command m repository args token) t) (\<lambda>r t.
     continue (demand GitNotStarted (r \<noteq> NoStart) t) (\<lambda>_ t.
     demand GitRefused (succeeds r) t))"

definition git_text :: "outside \<Rightarrow> clone_manager \<Rightarrow> path \<Rightarrow> string list \<Rightarrow> string \<Rightarrow> trace \<Rightarrow> string cloned" where
  "git_text o' m repository args token t =
     continue (git o' m repository args token t) (\<lambda>_ t'.
     pure (ok_or GitNotUtf8 (stdout (o_run o' t (token_command m repository args token)))) t')"

definition git_status_code :: "outside \<Rightarrow> clone_manager \<Rightarrow> path \<Rightarrow> string list \<Rightarrow> string \<Rightarrow> trace \<Rightarrow> int option cloned" where
  "git_status_code o' m repository args token t =
     continue (run o' (token_command m repository args token) t) (\<lambda>r t.
     continue (demand GitNotStarted (r \<noteq> NoStart) t) (\<lambda>_ t. (Inr (exit_code r), t)))"

definition git_metadata :: "path \<Rightarrow> path" where
  "git_metadata p = path_join p [Normal ''.git'']"

definition require_standalone_clone :: "outside \<Rightarrow> clone_manager \<Rightarrow> path \<Rightarrow> string \<Rightarrow> string \<Rightarrow> trace \<Rightarrow> unit cloned" where
  "require_standalone_clone o' m p repository token t =
     continue (ask (AskDirectory (git_metadata p)) (\<lambda>t. o_directory o' t (git_metadata p)) t) (\<lambda>dir t.
     continue (demand NotStandalone dir t) (\<lambda>_ t.
     continue (git_text o' m p [''remote'', ''get-url'', ''origin''] token t) (\<lambda>origin t.
     continue (pure (map_err (\<lambda>_. UnsupportedOrigin) (parse_repository_ref (trim origin))) t) (\<lambda>discovered t.
     demand OriginMismatch (rr_provider discovered = cl_provider m \<and> repository_identity discovered = repository) t))))"

subsection \<open>Preparing\<close>

text \<open>The token a clone uses: it is set and not blank.\<close>

definition repository_token :: "outside \<Rightarrow> string \<Rightarrow> trace \<Rightarrow> string cloned" where
  "repository_token o' variable t =
     continue (ask (AskVariable variable) (\<lambda>t. o_variable o' t variable) t) (\<lambda>token t.
     pure (ok_or MissingToken token) t)"

text \<open>The staging directory goes away with everything in it, whatever happened.\<close>

definition finally_remove :: "path \<Rightarrow> ('e, 'a, trace) outcome \<Rightarrow> ('e, 'a, trace) outcome" where
  "finally_remove p r = (fst r, snd r @ [RemoveTree p])"

definition publish_clone :: "outside \<Rightarrow> clone_manager \<Rightarrow> string \<Rightarrow> path \<Rightarrow> string \<Rightarrow> trace \<Rightarrow> unit cloned" where
  "publish_clone o' m repository p token t =
     continue (ask (CreateStaging (cl_root m)) (\<lambda>t. o_staging o' t (cl_root m)) t) (\<lambda>staging t.
     continue (pure (ok_or NoStaging staging) t) (\<lambda>staging t.
     let staged = path_join staging [Normal ''repository'']
     in finally_remove staging (
       continue (lift_error CloneRefused (clone_repository o' (cl_provider m) repository staged token t)) (\<lambda>_ t.
       continue (ask (AskDirectory (git_metadata staged)) (\<lambda>t. o_directory o' t (git_metadata staged)) t) (\<lambda>dir t.
       continue (demand NoGitMetadata dir t) (\<lambda>_ t.
       continue (ask (Rename staged p) (\<lambda>t. o_rename o' t staged p) t) (\<lambda>renamed t.
       demand NotPublished renamed t)))))))"

definition clone_path :: "clone_manager \<Rightarrow> int \<Rightarrow> nat \<Rightarrow> bool \<Rightarrow> path" where
  "clone_path m task_id issue implementation =
     path_join (cl_root m) [Normal (if implementation then ''issue-'' @ nat_dec issue else ''triage-'' @ int_dec task_id)]"

definition remote_refspec :: "string \<Rightarrow> string" where
  "remote_refspec branch = ''+refs/heads/'' @ branch @ '':refs/remotes/origin/'' @ branch"

text \<open>An implementation continues on its local branch, else on the pushed one, else at the base.\<close>

definition checkout_branch :: "outside \<Rightarrow> clone_manager \<Rightarrow> path \<Rightarrow> string \<Rightarrow> string \<Rightarrow> string \<Rightarrow> trace \<Rightarrow> unit cloned" where
  "checkout_branch o' m p branch base_sha token t =
     (let source = ''refs/heads/'' @ branch
      in continue (git_status_code o' m p [''show-ref'', ''--verify'', ''--quiet'', source] token t) (\<lambda>local_branch t.
         if local_branch = Some 0 then git o' m p [''checkout'', branch] token t
         else if local_branch \<noteq> Some 1 then (Inl LocalBranchUnknown, t)
         else continue (git_status_code o' m p [''ls-remote'', ''--exit-code'', ''--heads'', ''origin'', source] token t)
           (\<lambda>remote t.
           if remote = Some 0
           then continue (git o' m p [''fetch'', ''--no-tags'', ''origin'', remote_refspec branch] token t) (\<lambda>_ t.
                git o' m p [''checkout'', ''-B'', branch, ''refs/remotes/origin/'' @ branch] token t)
           else if remote = Some 2 then git o' m p [''checkout'', ''-B'', branch, base_sha] token t
           else (Inl RemoteBranchUnknown, t))))"

definition configure_clone :: "outside \<Rightarrow> clone_manager \<Rightarrow> path \<Rightarrow> string \<Rightarrow> string \<Rightarrow> string \<Rightarrow> trace \<Rightarrow> unit cloned" where
  "configure_clone o' m p base_branch base_sha token t =
     (let credentials = git_credentials (cl_provider m)
      in continue (git o' m p [''config'', ''--replace-all'', fc_credential_key credentials, ''''] token t) (\<lambda>_ t.
         continue (git o' m p [''config'', ''--add'', fc_credential_key credentials, fc_credential_helper credentials] token t)
         (\<lambda>_ t.
         continue (git o' m p [''fetch'', ''--no-tags'', ''origin'', remote_refspec base_branch] token t) (\<lambda>_ t.
         continue (git_text o' m p [''rev-parse'', ''--verify'', base_sha @ ''^{commit}''] token t) (\<lambda>resolved t.
         demand BaseMismatch (trim resolved = base_sha) t)))))"

definition prepare ::
  "outside \<Rightarrow> clone_manager \<Rightarrow> string \<Rightarrow> int \<Rightarrow> nat \<Rightarrow> string \<Rightarrow> string \<Rightarrow> string \<Rightarrow> bool \<Rightarrow> string \<Rightarrow> trace \<Rightarrow>
     standalone_clone cloned" where
  "prepare o' m repository task_id issue title base_branch base_sha implementation token_env t =
     continue (demand NonPositiveIds (0 < task_id \<and> \<not> (implementation \<and> issue = 0)) t) (\<lambda>_ t.
     continue (pure (validate_repository (cl_provider m) repository) t) (\<lambda>_ t.
     continue (pure (validate_revision base_sha) t) (\<lambda>_ t.
     let p = clone_path m task_id issue implementation
     in continue (ensure_managed_clone o' m p t) (\<lambda>_ t.
     continue (repository_token o' token_env t) (\<lambda>token t.
     continue (demand EmptyToken (\<not> blank token) t) (\<lambda>_ t.
     continue (ask (AskExists p) (\<lambda>t. o_exists o' t p) t) (\<lambda>present t.
     continue (if present then (Inr (), t) else publish_clone o' m repository p token t) (\<lambda>_ t.
     continue (require_standalone_clone o' m p repository token t) (\<lambda>_ t.
     continue (configure_clone o' m p base_branch base_sha token t) (\<lambda>_ t.
     let branch = (if implementation then Some (delivery_branch issue) else None)
     in continue (case branch of
           Some b \<Rightarrow> checkout_branch o' m p b base_sha token t
         | None \<Rightarrow> git o' m p [''checkout'', ''--detach'', base_sha] token t) (\<lambda>_ t.
     (Inr \<lparr>sc_path = p, sc_branch = branch, sc_base_branch = base_branch, sc_base_sha = base_sha\<rparr>, t))))))))))))"

definition prepare_proposal_clone ::
  "outside \<Rightarrow> clone_manager \<Rightarrow> string \<Rightarrow> int \<Rightarrow> string \<Rightarrow> string \<Rightarrow> string \<Rightarrow> trace \<Rightarrow> standalone_clone cloned" where
  "prepare_proposal_clone o' m repository task_id base_branch base_sha token_env t =
     prepare o' m repository task_id 0 '''' base_branch base_sha False token_env t"

subsection \<open>Cleaning up\<close>

definition remove_clone :: "outside \<Rightarrow> clone_manager \<Rightarrow> path \<Rightarrow> trace \<Rightarrow> unit cloned" where
  "remove_clone o' m p t =
     continue (ensure_managed_clone o' m p t) (\<lambda>_ t.
     continue (ask (AskExists p) (\<lambda>t. o_exists o' t p) t) (\<lambda>present t.
     if present then continue (ask (RemoveTree p) (\<lambda>t. o_remove_tree o' t p) t) (\<lambda>removed t.
       demand CloneNotRemoved removed t)
     else (Inr (), t)))"

definition preview_clone :: "outside \<Rightarrow> clone_manager \<Rightarrow> path \<Rightarrow> trace \<Rightarrow> cleanup_preview cloned" where
  "preview_clone o' m p t =
     continue (ensure_managed_clone o' m p t) (\<lambda>_ t.
     continue (ask (AskDirectory (git_metadata p)) (\<lambda>t. o_directory o' t (git_metadata p)) t) (\<lambda>dir t.
     continue (demand NotStandalone dir t) (\<lambda>_ t.
     continue (git_text o' m p [''status'', ''--porcelain''] '''' t) (\<lambda>status t.
     continue (git_text o' m p [''branch'', ''--show-current''] '''' t) (\<lambda>branch t.
     (Inr \<lparr>cp_path = p, cp_branch = (if blank branch then None else Some (trim branch)), cp_dirty = \<not> blank status\<rparr>, t))))))"

definition clone_branch_is_pushed :: "outside \<Rightarrow> clone_manager \<Rightarrow> path \<Rightarrow> string \<Rightarrow> string \<Rightarrow> trace \<Rightarrow> bool cloned" where
  "clone_branch_is_pushed o' m p branch token_env t =
     continue (ensure_managed_clone o' m p t) (\<lambda>_ t.
     continue (repository_token o' token_env t) (\<lambda>token t.
     continue (git_text o' m p [''rev-parse'', ''HEAD''] token t) (\<lambda>local t.
     continue (git_text o' m p [''ls-remote'', ''--heads'', ''origin'', ''refs/heads/'' @ branch] token t) (\<lambda>remote t.
     (Inr (case split_whitespace remote of [] \<Rightarrow> False | w # _ \<Rightarrow> w = trim local), t)))))"

subsection \<open>Tokens\<close>

text \<open>The variables of the other code host are removed from a process and not set in it.\<close>

fun other_host_tokens :: "repository_provider \<Rightarrow> string list" where
  "other_host_tokens GitHub = [''GITLAB_TOKEN'', ''GLAB_TOKEN'']"
| "other_host_tokens GitLab = [''GH_TOKEN'', ''GITHUB_TOKEN'']"

definition token_isolated :: "repository_provider \<Rightarrow> request \<Rightarrow> bool" where
  "token_isolated provider r \<longleftrightarrow> (case r of
      Run c \<Rightarrow> list_all (\<lambda>v. v \<in> set (cm_removed c) \<and> v \<notin> set (map fst (cm_env c))) (other_host_tokens provider)
    | _ \<Rightarrow> True)"

lemma token_isolated_simps [simp]:
  "token_isolated provider (AskExists p)" "token_isolated provider (AskDirectory p)" "token_isolated provider (AskSymlink p)"
  "token_isolated provider (AskCanonical p)" "token_isolated provider (AskEntries p)" "token_isolated provider (AskVariable v)"
  "token_isolated provider (CreateStaging p)" "token_isolated provider (Rename p q)" "token_isolated provider (RemoveTree p)"
  by (simp_all add: token_isolated_def)

lemma token_isolated_git [simp]: "token_isolated (cl_provider m) (Run (token_command m p args token))"
  by (cases "cl_provider m")
    (simp_all add: token_isolated_def token_command_def other_token_def other_legacy_token_def Let_def)

lemma token_isolated_clone [simp]:
  "token_isolated provider (Run (clone_command program prefix project destination (fc_token_variable (git_credentials provider)) token))"
  by (cases provider) (simp_all add: token_isolated_def clone_command_def other_token_def other_legacy_token_def)

lemma token_isolated_glab [simp]: "token_isolated GitLab (Run (glab_command repository args token))"
  by (cases token) (simp_all add: token_isolated_def glab_command_def)

lemma token_isolated_gh [simp]: "token_isolated GitHub (Run (gh_command repository args token))"
  by (cases token) (simp_all add: token_isolated_def gh_command_def)

lemma forge_isolated:
  "allowed (token_isolated provider) t (snd (forge_validate o' provider repository_path expected t))"
  "allowed (token_isolated provider) t (snd (forge_default_branch o' provider repository_path t))"
  by (cases provider; simp; unfold gh_validate_def gh_validate_global_def gh_validate_repository_def gh_default_branch_def
      gh_def gh_with_token_def glab_validate_def glab_default_branch_def glab_def glab_with_token_def;
      intro request_rules; simp)+

text \<open>What the pieces ask for, given that the commands and questions are allowed.\<close>

lemma allowed_ensure_clone [request_rules]:
  assumes "\<And>q. P (AskCanonical q)" and "\<And>q. P (AskSymlink q)"
  shows "allowed P t (snd (ensure_managed_clone o' m p t))"
  unfolding ensure_managed_clone_def by (intro request_rules assms)

lemma allowed_git [request_rules]:
  assumes "\<And>args token. P (Run (token_command m p args token))"
  shows "allowed P t (snd (git o' m p args token t))" "allowed P t (snd (git_text o' m p args token t))"
    "allowed P t (snd (git_status_code o' m p args token t))"
  unfolding git_def git_text_def git_status_code_def by (intro request_rules assms)+

lemma allowed_token [request_rules]:
  "P (AskVariable v) \<Longrightarrow> allowed P t (snd (repository_token o' v t))"
  unfolding repository_token_def by (intro request_rules)

lemma allowed_clone_repository [request_rules]:
  assumes "\<And>args project. P (Run (clone_command (executable provider) args project destination
      (fc_token_variable (git_credentials provider)) token))"
  shows "allowed P t (snd (clone_repository o' provider identity destination token t))"
  unfolding clone_repository_def run_clone_def by (intro request_rules assms)

lemma allowed_standalone [request_rules]:
  assumes "\<And>args token. P (Run (token_command m p args token))" and "\<And>q. P (AskDirectory q)"
  shows "allowed P t (snd (require_standalone_clone o' m p repository token t))"
  unfolding require_standalone_clone_def by (intro request_rules assms)

lemma allowed_checkout [request_rules]:
  assumes "\<And>args token. P (Run (token_command m p args token))"
  shows "allowed P t (snd (checkout_branch o' m p b sha token t))"
    "allowed P t (snd (configure_clone o' m p b sha token t))"
  unfolding checkout_branch_def configure_clone_def by (intro request_rules assms)+

lemma allowed_publish:
  assumes "P (CreateStaging (cl_root m))" and "\<And>q. P (AskDirectory q)"
    and "\<And>args project staged. P (Run (clone_command (executable (cl_provider m)) args project staged
      (fc_token_variable (git_credentials (cl_provider m))) token))"
    and "\<And>t' staging. o_staging o' t' (cl_root m) = Some staging \<Longrightarrow>
      P (RemoveTree staging) \<and> P (Rename (path_join staging [Normal ''repository'']) p)"
  shows "allowed P t (snd (publish_clone o' m repository p token t))"
proof -
  have "allowed P s (snd (finally_remove staging r))"
    if "allowed P s (snd r)" and "P (RemoveTree staging)" for s staging and r :: "(clone_error, unit, trace) outcome"
    using that requests.related_trans [of P s "snd r" "snd r @ [RemoveTree staging]"]
    by (simp add: finally_remove_def allowed_def)
  note dropped = this
  show ?thesis
    unfolding publish_clone_def by (intro request_rules dropped) (use assms in \<open>auto simp: result_simps\<close>)
qed

lemma allowed_prepare:
  assumes "\<And>args token p. P (Run (token_command m p args token))"
    and "\<And>q. P (AskCanonical q)" and "\<And>q. P (AskSymlink q)" and "\<And>q. P (AskDirectory q)" and "\<And>q. P (AskExists q)"
    and "\<And>v. P (AskVariable v)" and "P (CreateStaging (cl_root m))"
    and "\<And>args project staged token. P (Run (clone_command (executable (cl_provider m)) args project staged
      (fc_token_variable (git_credentials (cl_provider m))) token))"
    and "\<And>t' staging. o_staging o' t' (cl_root m) = Some staging \<Longrightarrow>
      P (RemoveTree staging) \<and> P (Rename (path_join staging [Normal ''repository'']) (clone_path m task_id issue implementation))"
  shows "allowed P t (snd (prepare o' m repository task_id issue title base sha implementation token_env t))"
  unfolding prepare_def by (intro request_rules allowed_publish assms) (use assms(9) in simp_all)

text \<open>
  No process started for a clone or by a code host's client is given the other host's token. (What the GitLab
  client inherits as \<open>GLAB_TOKEN\<close> is its own.)
\<close>

theorem clone_tokens_isolated:
  "allowed (token_isolated (cl_provider m)) t (snd (prepare o' m repository task_id issue title base sha implementation token_env t))
   \<and> allowed (token_isolated (cl_provider m)) t (snd (preview_clone o' m p t))
   \<and> allowed (token_isolated (cl_provider m)) t (snd (clone_branch_is_pushed o' m p branch token_env t))
   \<and> allowed (token_isolated provider) t (snd (forge_validate o' provider repository_path expected t))
   \<and> allowed (token_isolated provider) t (snd (forge_default_branch o' provider repository_path t))
   \<and> allowed (token_isolated GitLab) t (snd (glab_validate_worker_token_env o' token_env t))"
proof (intro conjI)
  show "allowed (token_isolated (cl_provider m)) t
      (snd (prepare o' m repository task_id issue title base sha implementation token_env t))"
    by (intro allowed_prepare) simp_all
qed (rule forge_isolated | (unfold preview_clone_def clone_branch_is_pushed_def glab_validate_worker_token_env_def
    glab_with_token_def; intro request_rules; simp))+

subsection \<open>What is removed and published\<close>

text \<open>A clone's path was checked: its parent is the root by another name at most, and it is not a link.\<close>

definition checked_clone :: "outside \<Rightarrow> clone_manager \<Rightarrow> path \<Rightarrow> bool" where
  "checked_clone o' m p \<longleftrightarrow> p \<noteq> cl_root m
     \<and> (\<exists>q t t'. parent p = Some q \<and> o_canonical o' t q = Some (cl_root m) \<and> \<not> o_symlink o' t' p)"

lemma ensure_managed_clone_checked:
  "ensure_managed_clone o' m p t = (Inr u, t') \<Longrightarrow> checked_clone o' m p"
  by (auto simp: ensure_managed_clone_def checked_clone_def result_simps split: if_splits)

definition clone_changes :: "(path \<Rightarrow> bool) \<Rightarrow> (path \<Rightarrow> path \<Rightarrow> bool) \<Rightarrow> request \<Rightarrow> bool" where
  "clone_changes R M r \<longleftrightarrow> (case r of RemoveTree p \<Rightarrow> R p | Rename p q \<Rightarrow> M p q | _ \<Rightarrow> True)"

lemma clone_changes_simps [simp]:
  "clone_changes R M (Run c)" "clone_changes R M (AskExists p)" "clone_changes R M (AskDirectory p)"
  "clone_changes R M (AskSymlink p)" "clone_changes R M (AskCanonical p)" "clone_changes R M (AskEntries p)"
  "clone_changes R M (AskVariable v)" "clone_changes R M (CreateStaging p)"
  "clone_changes R M (RemoveTree p) = R p" "clone_changes R M (Rename p q) = M p q"
  by (simp_all add: clone_changes_def)

definition is_staging :: "outside \<Rightarrow> clone_manager \<Rightarrow> path \<Rightarrow> bool" where
  "is_staging o' m staging \<longleftrightarrow> (\<exists>t. o_staging o' t (cl_root m) = Some staging)"


text \<open>
  The check looks at the parent of the path as it is written, so that it accepts \<open>..\<close> below the root, which the
  worktree manager refuses.
\<close>

lemma clone_check_accepts_dotdot:
  assumes "\<And>t. o_canonical o' t (cl_root m) = Some (cl_root m)" and "\<And>t p. \<not> o_symlink o' t p"
    and "wm_root w = cl_root m"
  shows "fst (ensure_managed_clone o' m (cl_root m @ [ParentDir]) t) = Inr ()
    \<and> \<not> managed_path w (cl_root m @ [ParentDir])"
  using assms by (simp add: ensure_managed_clone_def parent_def ask_def demand_def managed_path_iff)

subsection \<open>What a prepared clone is\<close>

definition origin_of :: "outside \<Rightarrow> clone_manager \<Rightarrow> path \<Rightarrow> string \<Rightarrow> bool" where
  "origin_of o' m p repository \<longleftrightarrow> (\<exists>t token origin r.
     stdout (o_run o' t (token_command m p [''remote'', ''get-url'', ''origin''] token)) = Some origin
     \<and> parse_repository_ref (trim origin) = Inr r \<and> rr_provider r = cl_provider m \<and> repository_identity r = repository)"

definition base_of :: "outside \<Rightarrow> clone_manager \<Rightarrow> path \<Rightarrow> string \<Rightarrow> bool" where
  "base_of o' m p sha \<longleftrightarrow> (\<exists>t token out.
     stdout (o_run o' t (token_command m p [''rev-parse'', ''--verify'', sha @ ''^{commit}''] token)) = Some out \<and> trim out = sha)"

lemma git_text_value:
  "git_text o' m p args token t = (Inr out, t') \<Longrightarrow> stdout (o_run o' t (token_command m p args token)) = Some out"
  by (auto simp: git_text_def result_simps)

lemma standalone_origin:
  "require_standalone_clone o' m p repository token t = (Inr u, t') \<Longrightarrow> origin_of o' m p repository"
  unfolding require_standalone_clone_def origin_of_def
  by (auto simp: result_simps dest!: git_text_value)

lemma configured_base: "configure_clone o' m p base sha token t = (Inr u, t') \<Longrightarrow> base_of o' m p sha"
  unfolding configure_clone_def base_of_def Let_def by (auto simp: result_simps dest!: git_text_value)

lemma prepare_steps:
  assumes "prepare o' m repository task_id issue title base sha implementation token_env t = (Inr c, t')"
  defines "p \<equiv> clone_path m task_id issue implementation"
  shows "c = \<lparr>sc_path = p, sc_branch = (if implementation then Some (delivery_branch issue) else None),
      sc_base_branch = base, sc_base_sha = sha\<rparr> \<and> length sha = 40 \<and> list_all is_ascii_hexdigit sha
    \<and> checked_clone o' m p \<and> origin_of o' m p repository \<and> base_of o' m p sha
    \<and> (\<exists>t token. o_variable o' t token_env = Some token \<and> \<not> blank token)"
proof -
  obtain t1 t2 t3 t4 t5 t6 t7 token where steps:
      "validate_revision sha = Inr ()" "ensure_managed_clone o' m p t1 = (Inr (), t2)"
      "repository_token o' token_env t2 = (Inr token, t3)" "\<not> blank token"
      "require_standalone_clone o' m p repository token t4 = (Inr (), t5)"
      "configure_clone o' m p base sha token t6 = (Inr (), t7)"
    and c: "c = \<lparr>sc_path = p, sc_branch = (if implementation then Some (delivery_branch issue) else None),
      sc_base_branch = base, sc_base_sha = sha\<rparr>"
    using assms(1) unfolding prepare_def Let_def continue_Inr_iff demand_Inr_iff p_def [symmetric] by auto
  have "\<exists>t. o_variable o' t token_env = Some token"
    using steps(3) by (auto simp: repository_token_def result_simps)
  moreover have "length sha = 40 \<and> list_all is_ascii_hexdigit sha"
    using steps(1) by (simp add: validate_revision_def split: if_splits)
  ultimately show ?thesis
    using c steps(4) ensure_managed_clone_checked [OF steps(2)] standalone_origin [OF steps(5)] configured_base [OF steps(6)]
    by blast
qed

text \<open>
  A clone that was prepared is at the path of its ticket or task, its origin is the configured repository
  at the selected host, its base is a full commit identifier that git resolved to itself, and it has the
  ticket's own branch exactly for an implementation.
\<close>

theorem prepared_clone_is_of_repository:
  assumes "prepare o' m repository task_id issue title base sha implementation token_env t = (Inr c, t')"
  shows "sc_path c = clone_path m task_id issue implementation \<and> checked_clone o' m (sc_path c)
    \<and> origin_of o' m (sc_path c) repository \<and> sc_base_sha c = sha \<and> length sha = 40 \<and> list_all is_ascii_hexdigit sha \<and> base_of o' m (sc_path c) sha
    \<and> sc_branch c = (if implementation then Some (delivery_branch issue) else None)
    \<and> (\<exists>t token. o_variable o' t token_env = Some token \<and> \<not> blank token)"
  using prepare_steps [OF assms] by simp

end
