(* ===== verification/Daemon_Workspaces.thy ===== *)
theory Daemon_Workspaces
  imports Daemon_Data Ticket_Context Clone_Manager Ledger_Workspaces Ledger_Recovery
begin

text \<open>
  Workspaces of tasks (\<open>src/daemon.rs\<close>): preparing one for a run, settling it when the task has ended, and the
  reconciliation at startup. The state is the ledger with the requests made of the outside; the clock's
  readings are a function of it.
\<close>

subsection \<open>State\<close>

record host =
  ht_ledger :: ledger
  ht_trace :: trace

record host_io =
  hi_outside :: outside
  hi_now :: "host \<Rightarrow> int"
  hi_parse :: "string \<Rightarrow> json option"

datatype work_error =
    WorkLedger ledger_error | WorkTree workspace_error | WorkClone clone_error | WorkForge forge_error
  | WorkSummary summary_error | TaskGone int | WorkspaceGone int | NoWorkspaceRoot | WrongRepository string
  | WorkspaceCleaned int | DefaultBranchChanged | WrongBackend string | NoTokenSource | NotReserved int
  | NoCommit | OwnerUnresolved int | IncompatibleBackends "(int \<times> string) list"

type_synonym 'a work = "(work_error, 'a, host) outcome"

definition outside_step :: "('e \<Rightarrow> work_error) \<Rightarrow> (trace \<Rightarrow> ('e, 'a, trace) outcome) \<Rightarrow> host \<Rightarrow> 'a work" where
  "outside_step f op s = (map_err f (fst (op (ht_trace s))), s\<lparr>ht_trace := snd (op (ht_trace s))\<rparr>)"

abbreviation "on_tree \<equiv> outside_step WorkTree"
abbreviation "on_clone \<equiv> outside_step WorkClone"

definition path_exists :: "host_io \<Rightarrow> path \<Rightarrow> host \<Rightarrow> bool work" where
  "path_exists io p s = on_tree (ask (AskExists p) (\<lambda>t. o_exists (hi_outside io) t p)) s"

definition set_ledger :: "(ledger \<Rightarrow> ledger_error + ledger) \<Rightarrow> host \<Rightarrow> unit work" where
  "set_ledger f s = (case f (ht_ledger s) of Inl e \<Rightarrow> (Inl (WorkLedger e), s) | Inr db \<Rightarrow> (Inr (), s\<lparr>ht_ledger := db\<rparr>))"

definition set_workspace :: "host_io \<Rightarrow> int \<Rightarrow> string \<Rightarrow> string option \<Rightarrow> host \<Rightarrow> unit work" where
  "set_workspace io task_id state summary s =
     set_ledger (update_task_workspace_state task_id state summary (hi_now io s)) s"

text \<open>An error as a value, for code that goes on after it.\<close>

definition attempt :: "('e, 'a, 's) outcome \<Rightarrow> ('f, 'e + 'a, 's) outcome" where
  "attempt r = (Inr (fst r), snd r)"

definition AUTOMATIC_DELIVERY_CLEANUP :: string where
  "AUTOMATIC_DELIVERY_CLEANUP = ''clean published delivery with recorded pull request and handoff''"

definition OPERATOR_CONFIRMED_CLEANUP :: string where
  "OPERATOR_CONFIRMED_CLEANUP = ''operator-confirmed cleanup''"

definition task_workspaces_in_state :: "string \<Rightarrow> ledger \<Rightarrow> task_workspace list" where
  "task_workspaces_in_state state db = sort_key w_task_id (filter (\<lambda>w. w_state w = state) (task_workspaces db))"

definition active_task_workspaces :: "ledger \<Rightarrow> task_workspace list" where
  "active_task_workspaces db = sort_key w_task_id (filter (\<lambda>w. w_state w \<noteq> ''cleaned'') (task_workspaces db))"

subsection \<open>Ownership\<close>

definition workspace_owner_is_resolved :: "host_io \<Rightarrow> task_workspace \<Rightarrow> repository_owner \<Rightarrow> host \<Rightarrow> bool work" where
  "workspace_owner_is_resolved io w owner s =
     continue (pure (ok_or (TaskGone (w_task_id w)) (query_task (w_task_id w) (ht_ledger s))) s) (\<lambda>task s.
     if t_repository task = ow_identity owner \<and> w_repository w = ow_identity owner then (Inr True, s)
     else continue (set_workspace io (w_task_id w) ''retained''
         (Some (''retained because workspace owner could not be resolved: expected='' @ ow_identity owner
            @ '' task='' @ t_repository task @ '' workspace='' @ w_repository w)) s)
       (\<lambda>_ s. (Inr False, s)))"

fun retain_each :: "host_io \<Rightarrow> repository_owner \<Rightarrow> task_workspace list \<Rightarrow> host \<Rightarrow> unit work" where
  "retain_each io owner [] s = (Inr (), s)"
| "retain_each io owner (w # ws) s =
     continue (workspace_owner_is_resolved io w owner s) (\<lambda>_ s. retain_each io owner ws s)"

definition retain_unresolvable_workspaces :: "host_io \<Rightarrow> repository_owner \<Rightarrow> host \<Rightarrow> unit work" where
  "retain_unresolvable_workspaces io owner s = retain_each io owner (active_task_workspaces (ht_ledger s)) s"

fun owned_each :: "host_io \<Rightarrow> repository_owner \<Rightarrow> task_workspace list \<Rightarrow> host \<Rightarrow> task_workspace list work" where
  "owned_each io owner [] s = (Inr [], s)"
| "owned_each io owner (w # ws) s =
     continue (workspace_owner_is_resolved io w owner s) (\<lambda>owned s.
     continue (owned_each io owner ws s) (\<lambda>rest s. (Inr (if owned then w # rest else rest), s)))"

definition expected_backend :: "bool \<Rightarrow> string" where
  "expected_backend sandboxed = (if sandboxed then ''clone'' else ''worktree'')"

definition validate_workspace_backends :: "host_io \<Rightarrow> repository_owner \<Rightarrow> bool \<Rightarrow> host \<Rightarrow> unit work" where
  "validate_workspace_backends io owner sandbox_mode s =
     continue (owned_each io owner (active_task_workspaces (ht_ledger s)) s) (\<lambda>owned s.
     let incompatible = filter (\<lambda>w. w_backend w \<noteq> expected_backend sandbox_mode) owned
     in demand (IncompatibleBackends (map (\<lambda>w. (w_task_id w, w_backend w)) incompatible)) (incompatible = []) s)"

subsection \<open>Settling a workspace\<close>

text \<open>git prints a commit in ASCII.\<close>

definition current_commit :: "host_io \<Rightarrow> path \<Rightarrow> host \<Rightarrow> string option work" where
  "current_commit io p s =
     continue (on_tree (run (hi_outside io) (git_command p [''rev-parse'', ''HEAD''])) s) (\<lambda>r s.
     (Inr (if \<not> succeeds r then None
           else case stdout r of None \<Rightarrow> None | Some out \<Rightarrow> if blank out then None else Some (trim out)), s))"

definition clone_backend :: "task_workspace \<Rightarrow> bool" where
  "clone_backend w \<longleftrightarrow> w_backend w = ''clone''"

definition remove_workspace_clone :: "host_io \<Rightarrow> clone_manager \<Rightarrow> path \<Rightarrow> host \<Rightarrow> unit work" where
  "remove_workspace_clone io cm p s = on_clone (remove_clone (hi_outside io) cm p) s"

definition preview_workspace ::
  "host_io \<Rightarrow> workspace_manager \<Rightarrow> clone_manager \<Rightarrow> task_workspace \<Rightarrow> host \<Rightarrow> cleanup_preview work" where
  "preview_workspace io m cm w s =
     (if clone_backend w then on_clone (preview_clone (hi_outside io) cm (path_of (w_path w))) s
      else on_tree (preview_cleanup (hi_outside io) m (path_of (w_path w))) s)"

definition workspace_is_pushed ::
  "host_io \<Rightarrow> workspace_manager \<Rightarrow> clone_manager \<Rightarrow> string option \<Rightarrow> task_workspace \<Rightarrow> string \<Rightarrow> host \<Rightarrow> bool work" where
  "workspace_is_pushed io m cm token w branch s =
     (if clone_backend w
      then continue (pure (ok_or NoTokenSource token) s) (\<lambda>token s.
        on_clone (clone_branch_is_pushed (hi_outside io) cm (path_of (w_path w)) branch token) s)
      else on_tree (branch_is_pushed (hi_outside io) m branch) s)"

definition automatic_cleanup_is_still_safe ::
  "host_io \<Rightarrow> workspace_manager \<Rightarrow> task_workspace \<Rightarrow> string option \<Rightarrow> host \<Rightarrow> bool work" where
  "automatic_cleanup_is_still_safe io m w token s =
     continue (pure (ok_or (TaskGone (w_task_id w)) (query_task (w_task_id w) (ht_ledger s))) s) (\<lambda>task s.
     if t_state task \<noteq> task_state.Succeeded then (Inr False, s)
     else continue (pure (ok_or NoWorkspaceRoot (parent (path_of (w_path w)))) s) (\<lambda>root s.
     continue (on_clone (for_identity (hi_outside io) root (w_repository w)) s) (\<lambda>cm s.
     continue (preview_workspace io m cm w s) (\<lambda>preview s.
     if cp_dirty preview then (Inr False, s)
     else continue (current_commit io (path_of (w_path w)) s) (\<lambda>head s.
     continue (pure (ok_or NoCommit head) s) (\<lambda>head s.
     if head = w_base_sha w then (Inr True, s)
     else case cp_branch preview of
         None \<Rightarrow> (Inr False, s)
       | Some branch \<Rightarrow> workspace_is_pushed io m cm token w branch s))))))"

subsection \<open>Reconciliation at startup\<close>

definition finish_cleanup :: "host_io \<Rightarrow> task_workspace \<Rightarrow> 'a work \<Rightarrow> unit work" where
  "finish_cleanup io w r =
     (case r of
        (Inr _, s) \<Rightarrow> set_workspace io (w_task_id w) ''cleaned'' (Some ''completed interrupted cleanup at startup'') s
      | (Inl _, s) \<Rightarrow> (Inr (), s))"

definition retain_workspace :: "host_io \<Rightarrow> task_workspace \<Rightarrow> string \<Rightarrow> host \<Rightarrow> unit work" where
  "retain_workspace io w summary s = set_workspace io (w_task_id w) ''retained'' (Some summary) s"

definition clean_pending_workspace ::
  "host_io \<Rightarrow> workspace_manager \<Rightarrow> clone_manager \<Rightarrow> string option \<Rightarrow> task_workspace \<Rightarrow> host \<Rightarrow> unit work" where
  "clean_pending_workspace io m cm token w s =
     (let p = path_of (w_path w)
      in continue (path_exists io p s) (\<lambda>present s.
         if \<not> present
         then set_workspace io (w_task_id w) ''cleaned'' (Some ''completed interrupted cleanup at startup'') s
         else if w_kind w = ''proposal''
         then (if clone_backend w then finish_cleanup io w (remove_workspace_clone io cm p s)
               else finish_cleanup io w (on_tree (cleanup_disposable (hi_outside io) m p) s))
         else if w_status_summary w = Some OPERATOR_CONFIRMED_CLEANUP
         then (if clone_backend w then finish_cleanup io w (remove_workspace_clone io cm p s)
               else finish_cleanup io w (on_tree (cleanup (hi_outside io) m p True) s))
         else if w_status_summary w = Some AUTOMATIC_DELIVERY_CLEANUP
         then continue (attempt (automatic_cleanup_is_still_safe io m w token s)) (\<lambda>safe s.
              case safe of
                Inr True \<Rightarrow>
                  (if clone_backend w then finish_cleanup io w (remove_workspace_clone io cm p s)
                   else finish_cleanup io w (on_tree (cleanup_clean (hi_outside io) m p) s))
              | Inr False \<Rightarrow> retain_workspace io w ''retained after interrupted automatic cleanup revalidation'' s
              | Inl _ \<Rightarrow> retain_workspace io w ''retained because automatic cleanup could not be revalidated'' s)
         else retain_workspace io w ''retained cleanup with unknown confirmation provenance'' s))"

fun clean_pending_each ::
  "host_io \<Rightarrow> workspace_manager \<Rightarrow> clone_manager \<Rightarrow> string option \<Rightarrow> task_workspace list \<Rightarrow> host \<Rightarrow> unit work" where
  "clean_pending_each io m cm token [] s = (Inr (), s)"
| "clean_pending_each io m cm token (w # ws) s =
     continue (clean_pending_workspace io m cm token w s) (\<lambda>_ s. clean_pending_each io m cm token ws s)"

definition reconcile_pending_cleanup :: "host_io \<Rightarrow> repository_owner \<Rightarrow> string option \<Rightarrow> host \<Rightarrow> unit work" where
  "reconcile_pending_cleanup io owner token s =
     continue (owned_each io owner (task_workspaces_in_state ''cleanup_pending'' (ht_ledger s)) s) (\<lambda>ws s.
     if ws = [] then (Inr (), s)
     else continue (on_tree (manager_new (hi_outside io) (ow_path owner) (ow_workspace_root owner)) s) (\<lambda>m s.
     continue (on_clone (for_identity (hi_outside io) (ow_workspace_root owner) (ow_identity owner)) s) (\<lambda>cm s.
     continue (on_tree (reconcile_startup (hi_outside io) m) s) (\<lambda>_ s.
     clean_pending_each io m cm token ws s))))"

subsection \<open>A task that has ended\<close>

definition finalize_proposal ::
  "host_io \<Rightarrow> workspace_manager \<Rightarrow> clone_manager \<Rightarrow> task_workspace \<Rightarrow> host \<Rightarrow> unit work" where
  "finalize_proposal io m cm w s =
     (let p = path_of (w_path w)
      in continue (set_workspace io (w_task_id w) ''cleanup_pending'' (Some ''terminal proposal'') s) (\<lambda>_ s.
         continue (path_exists io p s) (\<lambda>present s.
         if \<not> present
         then set_workspace io (w_task_id w) ''cleaned'' (Some ''terminal proposal workspace was already absent'') s
         else continue
           (if clone_backend w
            then continue (on_clone (preview_clone (hi_outside io) cm p) s) (\<lambda>preview s.
                 continue (remove_workspace_clone io cm p s) (\<lambda>_ s. (Inr preview, s)))
            else on_tree (cleanup_disposable (hi_outside io) m p) s) (\<lambda>preview s.
         set_workspace io (w_task_id w) ''cleaned''
           (Some (if cp_dirty preview then ''discarded terminal proposal workspace with uncommitted changes''
              else ''removed terminal proposal workspace'')) s))))"

definition bool_text :: "bool \<Rightarrow> string" where
  "bool_text b = (if b then ''true'' else ''false'')"

fun task_state_debug :: "task_state \<Rightarrow> string" where
  "task_state_debug task_state.Queued = ''Queued''"
| "task_state_debug task_state.Running = ''Running''"
| "task_state_debug task_state.Succeeded = ''Succeeded''"
| "task_state_debug task_state.Failed = ''Failed''"
| "task_state_debug task_state.Cancelled = ''Cancelled''"

text \<open>Whether a delivery's commits are on the code host; an error keeps the workspace.\<close>

definition delivery_published ::
  "host_io \<Rightarrow> workspace_manager \<Rightarrow> clone_manager \<Rightarrow> string option \<Rightarrow> task_workspace \<Rightarrow> cleanup_preview \<Rightarrow> bool \<Rightarrow>
     host \<Rightarrow> bool work" where
  "delivery_published io m cm token w preview changed s =
     (if \<not> changed then (Inr True, s)
      else case cp_branch preview of
          None \<Rightarrow> (Inr False, s)
        | Some branch \<Rightarrow>
            if clone_backend w \<and> token = None then (Inl NoTokenSource, s)
            else continue (attempt (workspace_is_pushed io m cm token w branch s)) (\<lambda>r s.
              case r of
                Inr published \<Rightarrow> (Inr published, s)
              | Inl e \<Rightarrow> continue (retain_workspace io w ''retained delivery because remote branch inspection failed'' s)
                  (\<lambda>_ s. (Inl e, s))))"

text \<open>A delivery goes away only when nothing in it could still be needed.\<close>

definition settle_delivery ::
  "host_io \<Rightarrow> workspace_manager \<Rightarrow> clone_manager \<Rightarrow> task \<Rightarrow> task_workspace \<Rightarrow> cleanup_preview \<Rightarrow> bool \<Rightarrow> bool \<Rightarrow> host \<Rightarrow>
     unit work" where
  "settle_delivery io m cm task w preview changed published s =
     (let p = path_of (w_path w);
          awaits_continuation = (t_workflow task = ''implement''
            \<and> latest_pull_request_for_task (t_id task) (ht_ledger s) \<noteq> None)
      in if t_state task = task_state.Succeeded \<and> \<not> cp_dirty preview \<and> published \<and> \<not> awaits_continuation
         then continue (set_workspace io (w_task_id w) ''cleanup_pending'' (Some AUTOMATIC_DELIVERY_CLEANUP) s) (\<lambda>_ s.
              continue (if clone_backend w then remove_workspace_clone io cm p s
                else continue (on_tree (cleanup_clean (hi_outside io) m p) s) (\<lambda>_ s. (Inr (), s))) (\<lambda>_ s.
              set_workspace io (w_task_id w) ''cleaned'' (Some ''successful ticket workspace removed'') s))
         else retain_workspace io w (''retained ticket workspace: task='' @ task_state_debug (t_state task)
            @ '' dirty='' @ bool_text (cp_dirty preview) @ '' changed='' @ bool_text changed
            @ '' published='' @ bool_text published
            @ '' awaits_continuation='' @ bool_text awaits_continuation) s)"

definition finalize_delivery ::
  "host_io \<Rightarrow> workspace_manager \<Rightarrow> clone_manager \<Rightarrow> string option \<Rightarrow> task \<Rightarrow> task_workspace \<Rightarrow> host \<Rightarrow> unit work" where
  "finalize_delivery io m cm token task w s =
     (let p = path_of (w_path w)
      in continue (path_exists io p s) (\<lambda>present s.
         if \<not> present
         then set_workspace io (w_task_id w) ''cleaned''
           (Some ''terminal delivery workspace was already absent; local branch preserved'') s
         else continue (attempt (preview_workspace io m cm w s)) (\<lambda>preview s.
         case preview of
           Inl e \<Rightarrow> continue (retain_workspace io w ''retained delivery because Git worktree inspection failed'' s)
             (\<lambda>_ s. (Inl e, s))
         | Inr preview \<Rightarrow>
             continue (current_commit io p s) (\<lambda>head s.
             continue (pure (ok_or NoCommit head) s) (\<lambda>head s.
             let changed = (head \<noteq> w_base_sha w)
             in continue (delivery_published io m cm token w preview changed s) (\<lambda>published s.
             settle_delivery io m cm task w preview changed published s))))))"

definition finalize_task_workspace ::
  "host_io \<Rightarrow> repository_owner \<Rightarrow> int \<Rightarrow> string option \<Rightarrow> host \<Rightarrow> unit work" where
  "finalize_task_workspace io owner task_id token s =
     continue (pure (ok_or (TaskGone task_id) (query_task task_id (ht_ledger s))) s) (\<lambda>task s.
     continue (pure (ok_or (WorkspaceGone task_id) (query_task_workspace task_id (ht_ledger s))) s) (\<lambda>w s.
     if \<not> is_terminal (t_state task) then (Inr (), s)
     else continue (workspace_owner_is_resolved io w owner s) (\<lambda>owned s.
     if \<not> owned then (Inl (OwnerUnresolved task_id), s)
     else continue (on_tree (manager_new (hi_outside io) (ow_path owner) (ow_workspace_root owner)) s) (\<lambda>m s.
     continue (on_clone (for_identity (hi_outside io) (ow_workspace_root owner) (ow_identity owner)) s) (\<lambda>cm s.
     if w_kind w = ''proposal'' then finalize_proposal io m cm w s
     else finalize_delivery io m cm token task w s)))))"

fun reconcile_terminal_each ::
  "host_io \<Rightarrow> repository_owner \<Rightarrow> string option \<Rightarrow> task_workspace list \<Rightarrow> host \<Rightarrow> unit work" where
  "reconcile_terminal_each io owner token [] s = (Inr (), s)"
| "reconcile_terminal_each io owner token (w # ws) s =
     (if w_state w \<in> {''cleanup_pending'', ''retained''} then reconcile_terminal_each io owner token ws s
      else continue (workspace_owner_is_resolved io w owner s) (\<lambda>owned s.
        if \<not> owned then reconcile_terminal_each io owner token ws s
        else continue (pure (ok_or (TaskGone (w_task_id w)) (query_task (w_task_id w) (ht_ledger s))) s) (\<lambda>task s.
        if \<not> is_terminal (t_state task) then reconcile_terminal_each io owner token ws s
        else if runs_for_task (t_id task) (ht_ledger s) = []
        then continue (set_workspace io (t_id task) ''retained''
            (Some ''terminal task has no run history for workspace reconciliation'') s)
          (\<lambda>_ s. reconcile_terminal_each io owner token ws s)
        else continue (attempt (finalize_task_workspace io owner (t_id task) token s))
          (\<lambda>_ s. reconcile_terminal_each io owner token ws s))))"

definition reconcile_terminal_workspaces :: "host_io \<Rightarrow> repository_owner \<Rightarrow> string option \<Rightarrow> host \<Rightarrow> unit work" where
  "reconcile_terminal_workspaces io owner token s =
     reconcile_terminal_each io owner token (active_task_workspaces (ht_ledger s)) s"

definition reconcile_recovery_state ::
  "host_io \<Rightarrow> os_env \<Rightarrow> (int \<Rightarrow> int) \<Rightarrow> repository_owner \<Rightarrow> string option \<Rightarrow> bool \<Rightarrow> host \<Rightarrow> unit work" where
  "reconcile_recovery_state io os clk owner token destructive s =
     continue (case recover_orphaned_runs_for_repository os (ow_identity owner) (hi_now io s) clk (ht_ledger s) of
         Inl e \<Rightarrow> (Inl (WorkLedger e), s)
       | Inr (_, db) \<Rightarrow> (Inr (), s\<lparr>ht_ledger := db\<rparr>)) (\<lambda>_ s.
     continue (retain_unresolvable_workspaces io owner s) (\<lambda>_ s.
     if \<not> destructive then (Inr (), s)
     else continue (reconcile_pending_cleanup io owner token s) (\<lambda>_ s.
          reconcile_terminal_workspaces io owner token s)))"

subsection \<open>Preparing a workspace for a run\<close>

definition task_workspace_candidate :: "task \<Rightarrow> path \<Rightarrow> bool \<Rightarrow> string \<Rightarrow> string \<Rightarrow> task_workspace" where
  "task_workspace_candidate task root sandboxed base_branch base_sha =
     \<lparr>w_task_id = t_id task,
       w_kind = (if t_kind task = ''ticket'' then ''delivery'' else ''proposal''),
       w_backend = expected_backend sandboxed,
       w_repository = t_repository task,
       w_base_branch = base_branch, w_base_sha = base_sha,
       w_factory_branch = None,
       w_path = path_text (path_join root
         [Normal ((if sandboxed then ''triage-'' else ''proposal-'') @ int_dec (t_id task))]),
       w_state = ''preparing'', w_status_summary = None, w_created_at = 0, w_updated_at = 0, w_cleaned_at = None\<rparr>"

text \<open>The workspace a task already has, or a new reservation at the code host's current default branch.\<close>

definition reserve_workspace ::
  "host_io \<Rightarrow> workspace_manager \<Rightarrow> repository_target \<Rightarrow> path \<Rightarrow> task \<Rightarrow> bool \<Rightarrow> task_workspace option \<Rightarrow> host \<Rightarrow>
     task_workspace work" where
  "reserve_workspace io m target root task sandboxed existing s =
     (case existing of
        Some w \<Rightarrow> if w_state w = ''cleaned'' then (Inl (WorkspaceCleaned (t_id task)), s) else (Inr w, s)
      | None \<Rightarrow>
          continue (outside_step WorkForge (forge_default_branch (hi_outside io) (tg_provider target) (tg_path target)) s)
            (\<lambda>base_branch s.
          continue (on_tree (fetch_default_branch (hi_outside io) m base_branch) s) (\<lambda>base_sha s.
          continue (outside_step WorkForge (forge_default_branch (hi_outside io) (tg_provider target) (tg_path target)) s)
            (\<lambda>confirmed s.
          if confirmed \<noteq> base_branch then (Inl DefaultBranchChanged, s)
          else (case reserve_task_workspace (task_workspace_candidate task root sandboxed base_branch base_sha)
              (hi_now io s) (ht_ledger s) of
            Inl e \<Rightarrow> (Inl (WorkLedger e), s)
          | Inr (w, db) \<Rightarrow> (Inr w, s\<lparr>ht_ledger := db\<rparr>))))))"

definition matches_reservation :: "task_workspace \<Rightarrow> path \<Rightarrow> string option \<Rightarrow> string \<Rightarrow> string \<Rightarrow> bool" where
  "matches_reservation w p branch base_branch base_sha \<longleftrightarrow> p = path_of (w_path w) \<and> branch = w_factory_branch w
     \<and> base_branch = w_base_branch w \<and> base_sha = w_base_sha w"

text \<open>The checked result is recorded with the run, and the run works in it.\<close>

definition enter_workspace ::
  "host_io \<Rightarrow> repository_target \<Rightarrow> task \<Rightarrow> int \<Rightarrow> string \<Rightarrow> task_workspace \<Rightarrow> path \<Rightarrow> string option \<Rightarrow> string \<Rightarrow> string \<Rightarrow>
     host \<Rightarrow> repository_target work" where
  "enter_workspace io target task run_id kind w p branch base_branch base_sha s =
     (if \<not> matches_reservation w p branch base_branch base_sha then (Inl (NotReserved (t_id task)), s)
      else continue (set_workspace io (t_id task) ''ready'' None s) (\<lambda>_ s.
      continue (set_ledger (record_run_workspace run_id (path_text p) base_branch base_sha branch kind) s) (\<lambda>_ s.
      (Inr (target\<lparr>tg_path := p\<rparr>), s))))"

definition enter_clone ::
  "host_io \<Rightarrow> repository_target \<Rightarrow> path \<Rightarrow> task \<Rightarrow> int \<Rightarrow> string option \<Rightarrow> task_workspace \<Rightarrow> host \<Rightarrow> repository_target work" where
  "enter_clone io target root task run_id token w s =
     continue (pure (ok_or NoTokenSource token) s) (\<lambda>token s.
     continue (on_clone (with_forge (hi_outside io) root (tg_provider target)) s) (\<lambda>cm s.
     continue (if w_factory_branch w \<noteq> None
       then continue (pure (map_err WorkSummary (ticket_summary_of (hi_parse io) task)) s) (\<lambda>ticket s.
         on_clone (prepare (hi_outside io) cm (t_repository task) (t_id task) (su_number ticket) (su_title ticket)
           (w_base_branch w) (w_base_sha w) True token) s)
       else on_clone (prepare_proposal_clone (hi_outside io) cm (t_repository task) (t_id task)
           (w_base_branch w) (w_base_sha w) token) s) (\<lambda>c s.
     enter_workspace io target task run_id (if w_kind w = ''delivery'' then ''delivery'' else ''proposal'')
       w (sc_path c) (sc_branch c) (sc_base_branch c) (sc_base_sha c) s)))"

definition enter_worktree ::
  "host_io \<Rightarrow> workspace_manager \<Rightarrow> repository_target \<Rightarrow> task \<Rightarrow> int \<Rightarrow> delivery_reuse \<Rightarrow> task_workspace \<Rightarrow> host \<Rightarrow>
     repository_target work" where
  "enter_worktree io m target task run_id reuse w s =
     continue (if w_factory_branch w \<noteq> None
       then continue (pure (map_err WorkSummary (ticket_summary_of (hi_parse io) task)) s) (\<lambda>ticket s.
         on_tree (prepare_delivery (hi_outside io) m (su_number ticket) (su_title ticket)
           (w_base_branch w) (w_base_sha w) reuse) s)
       else on_tree (Workspace_Manager.prepare_proposal (hi_outside io) m (t_id task)
           (w_base_branch w) (w_base_sha w) reuse) s) (\<lambda>ws s.
     enter_workspace io target task run_id (w_kind w) w (ws_path ws) (ws_branch ws) (ws_base_branch ws) (ws_base_sha ws) s)"

definition reuse_of :: "task_workspace option \<Rightarrow> delivery_reuse" where
  "reuse_of existing = (case existing of
      None \<Rightarrow> Reject
    | Some w \<Rightarrow> if w_state w = ''preparing'' then ExactBase else Owned)"

definition prepare_task_workspace ::
  "host_io \<Rightarrow> repository_target \<Rightarrow> string \<Rightarrow> path \<Rightarrow> task \<Rightarrow> int \<Rightarrow> bool \<Rightarrow> string option \<Rightarrow> host \<Rightarrow>
     repository_target work" where
  "prepare_task_workspace io target identity workspace_root task run_id sandboxed token s =
     continue (on_tree (ask (AskCanonical workspace_root) (\<lambda>t. o_canonical (hi_outside io) t workspace_root)) s) (\<lambda>root s.
     continue (pure (ok_or NoWorkspaceRoot root) s) (\<lambda>root s.
     let existing = query_task_workspace (t_id task) (ht_ledger s)
     in if t_repository task \<noteq> identity then (Inl (WrongRepository (t_repository task)), s)
     else continue (case existing of
         Some w \<Rightarrow> if w_repository w \<noteq> identity
           then continue (set_workspace io (t_id task) ''retained''
               (Some ''retained because workspace owner could not be resolved during execution'') s)
             (\<lambda>_ s. (Inl (WrongRepository (w_repository w)), s))
           else (Inr (), s)
       | None \<Rightarrow> (Inr (), s)) (\<lambda>_ s.
     continue (on_tree (manager_new (hi_outside io) (tg_path target) root) s) (\<lambda>m s.
     continue (reserve_workspace io m target root task sandboxed existing s) (\<lambda>w s.
     if w_backend w \<noteq> expected_backend sandboxed then (Inl (WrongBackend (w_backend w)), s)
     else if sandboxed then enter_clone io target root task run_id token w s
     else enter_worktree io m target task run_id (reuse_of existing) w s)))))"

end
