(* ===== verification/Workspace_Protocol.thy ===== *)
theory Workspace_Protocol
  imports Daemon_Workspaces
begin

text \<open>
  What the daemon's handling of workspaces guarantees. Its abstract description is a small machine: a workspace
  row changes its state, or a request is made, and a request may remove a directory only while the row of
  that directory is recorded as pending for clean-up. The daemon's code refines this machine, so that a crash
  between the record and the removal is always found by the next start.
\<close>

subsection \<open>The protocol\<close>

inductive host_step :: "(ledger \<Rightarrow> path \<Rightarrow> bool) \<Rightarrow> int set \<Rightarrow> host \<Rightarrow> host \<Rightarrow> bool" for R I where
  written: "i \<in> I \<Longrightarrow> update_task_workspace_state i state summary now (ht_ledger s) = Inr db \<Longrightarrow>
     host_step R I s (s\<lparr>ht_ledger := db\<rparr>)"
| requested: "removal_ok (\<lambda>_. R (ht_ledger s)) r \<Longrightarrow> host_step R I s (s\<lparr>ht_trace := ht_trace s @ [r]\<rparr>)"

inductive_cases host_stepE: "host_step R I s s'"

abbreviation host_steps :: "(ledger \<Rightarrow> path \<Rightarrow> bool) \<Rightarrow> int set \<Rightarrow> host \<Rightarrow> host \<Rightarrow> bool" where
  "host_steps R I \<equiv> (host_step R I)\<^sup>*\<^sup>*"

interpretation host: step_relation "host_steps R I" for R I
  by unfold_locales (simp, rule rtranclp_trans)

definition pending_path :: "repository_owner \<Rightarrow> ledger \<Rightarrow> path \<Rightarrow> bool" where
  "pending_path owner db p \<longleftrightarrow> (\<exists>w\<in>set (task_workspaces db). w_state w = ''cleanup_pending''
     \<and> w_repository w = ow_identity owner \<and> path_of (w_path w) = p)"

definition nothing :: "ledger \<Rightarrow> path \<Rightarrow> bool" where
  "nothing db p \<longleftrightarrow> False"

lemma removal_ok_mono:
  assumes "removal_ok R r" and "\<And>force p. R force p \<Longrightarrow> Q force p"
  shows "removal_ok Q r"
  using assms by (cases r) (simp_all add: removal_ok_def, blast)

lemma host_step_mono:
  assumes "host_step R I s s'" and "\<And>db p. R db p \<Longrightarrow> Q db p" and "I \<subseteq> J"
  shows "host_step Q J s s'"
  using assms(1)
proof (cases rule: host_step.cases)
  case (written i state summary now db)
  with assms(3) show ?thesis by (auto intro: host_step.written)
next
  case (requested r)
  have "removal_ok (\<lambda>_. Q (ht_ledger s)) r" by (rule removal_ok_mono [OF requested(2) assms(2)])
  with requested(1) show ?thesis by (simp add: host_step.requested)
qed

lemma host_steps_mono:
  assumes "host_steps R I s s'" and "\<And>db p. R db p \<Longrightarrow> Q db p" and "I \<subseteq> J"
  shows "host_steps Q J s s'"
  using assms(1) by (induction rule: rtranclp_induct) (auto intro: host_step_mono [OF _ assms(2,3)] rtranclp.rtrancl_into_rtrancl)

text \<open>A computation that removes nothing and writes nothing may run anywhere.\<close>

lemma host_reads: "host_steps nothing {} s s' \<Longrightarrow> host_steps R I s s'"
  by (erule host_steps_mono) (simp_all add: nothing_def)

lemma host_reads_ledger: "host_steps R {} s s' \<Longrightarrow> ht_ledger s' = ht_ledger s"
  by (induction rule: rtranclp_induct) (auto elim: host_stepE)

lemma host_requests:
  assumes "allowed (removal_ok (\<lambda>_. R (ht_ledger s))) (ht_trace s) t"
  shows "host_steps R I s (s\<lparr>ht_trace := t\<rparr>)"
proof -
  obtain new where t: "t = ht_trace s @ new" and ok: "list_all (removal_ok (\<lambda>_. R (ht_ledger s))) new"
    using assms by (auto simp: allowed_def)
  from ok have "host_steps R I s (s\<lparr>ht_trace := ht_trace s @ new\<rparr>)"
  proof (induction new rule: rev_induct)
    case (snoc r new)
    then have "host_step R I (s\<lparr>ht_trace := ht_trace s @ new\<rparr>) (s\<lparr>ht_trace := ht_trace s @ new @ [r]\<rparr>)"
      using host_step.requested [of R "s\<lparr>ht_trace := ht_trace s @ new\<rparr>" r I] by simp
    with snoc show ?case by (auto intro: rtranclp.rtrancl_into_rtrancl)
  qed simp
  then show ?thesis by (simp add: t)
qed

subsection \<open>Rows of other tasks\<close>

lemma update_state_effect:
  assumes "update_task_workspace_state i state summary now db = Inr db'"
  shows "task_workspaces db' = update_where (\<lambda>w. w_task_id w = i) (set_workspace_state state summary now) (task_workspaces db)"
    and "tasks db' = tasks db" and "runs db' = runs db"
  using assms by (auto simp: update_task_workspace_state_def Let_def split: if_splits)

lemma set_workspace_state_key [simp]: "w_task_id (set_workspace_state state summary now w) = w_task_id w"
  by (simp add: set_workspace_state_def)

lemma host_steps_rows:
  assumes "host_steps R I s s'"
  shows "map w_task_id (task_workspaces (ht_ledger s')) = map w_task_id (task_workspaces (ht_ledger s))
    \<and> tasks (ht_ledger s') = tasks (ht_ledger s) \<and> runs (ht_ledger s') = runs (ht_ledger s)
    \<and> (\<forall>w\<in>set (task_workspaces (ht_ledger s)). w_task_id w \<notin> I \<longrightarrow> w \<in> set (task_workspaces (ht_ledger s')))"
  using assms
proof (induction rule: rtranclp_induct)
  case (step s1 s2)
  from step(2) show ?case
  proof (cases rule: host_step.cases)
    case (written i state summary now db)
    have "map w_task_id (update_where (\<lambda>w. w_task_id w = i) (set_workspace_state state summary now) ws) = map w_task_id ws" for ws
      by (simp add: update_where_def)
    moreover have "w \<in> set (update_where (\<lambda>w. w_task_id w = i) (set_workspace_state state summary now) ws)"
      if "w \<in> set ws" "w_task_id w \<notin> I" for w ws
      using that written(2) by (force simp: update_where_def)
    ultimately show ?thesis using step.IH written update_state_effect [OF written(3)] by simp
  next
    case (requested r)
    with step.IH show ?thesis by simp
  qed
qed simp

subsection \<open>Requests of the managers\<close>

lemma allowed_canonical_directory [request_rules]: "allowed (removal_ok R) t (snd (canonical_directory_at o' name p t))"
  unfolding canonical_directory_at_def by (intro request_rules) simp_all

lemma allowed_manager_new [request_rules]: "allowed (removal_ok R) t (snd (manager_new o' repository root t))"
  unfolding manager_new_def by (intro request_rules) simp_all

lemma allowed_new_clone_manager [request_rules]:
  "allowed (removal_ok R) t (snd (new_clone_manager o' root t))" "allowed (removal_ok R) t (snd (with_forge o' root provider t))"
  "allowed (removal_ok R) t (snd (for_identity o' root identity t))"
  unfolding with_forge_def for_identity_def new_clone_manager_def by (intro request_rules; simp)+

lemma removal_ok_run [simp]: "\<not> is_removal c \<Longrightarrow> removal_ok R (Run c)"
  by (simp add: removal_ok_def)

lemma token_command_not_removal [simp]:
  "is_removal (token_command m p args token) \<longleftrightarrow> take 2 args = [''worktree'', ''remove'']"
  by (simp add: is_removal_def token_command_def Let_def)

lemma allowed_clone_git:
  "take 2 args \<noteq> [''worktree'', ''remove''] \<Longrightarrow> allowed (removal_ok R) t (snd (git o' m p args token t))"
  "take 2 args \<noteq> [''worktree'', ''remove''] \<Longrightarrow> allowed (removal_ok R) t (snd (git_text o' m p args token t))"
  unfolding git_def git_text_def by (intro request_rules; simp)+

lemma allowed_preview_clone [request_rules]: "allowed (removal_ok R) t (snd (preview_clone o' m p t))"
  unfolding preview_clone_def by (intro request_rules allowed_clone_git) simp_all

lemma allowed_clone_pushed [request_rules]: "allowed (removal_ok R) t (snd (clone_branch_is_pushed o' m p b v t))"
  unfolding clone_branch_is_pushed_def by (intro request_rules allowed_clone_git) simp_all

lemma allowed_pushed [request_rules]: "allowed (removal_ok R) t (snd (branch_is_pushed o' m b t))"
  unfolding branch_is_pushed_def by (intro request_rules) simp_all

lemma allowed_remove_clone: "R True p \<Longrightarrow> allowed (removal_ok R) t (snd (remove_clone o' m p t))"
  unfolding remove_clone_def by (intro request_rules) simp_all

lemma allowed_cleanups:
  assumes "R p"
  shows "allowed (removal_ok (\<lambda>_. R)) t (snd (cleanup o' m p confirm t))"
    "allowed (removal_ok (\<lambda>_. R)) t (snd (cleanup_clean o' m p t))"
    "allowed (removal_ok (\<lambda>_. R)) t (snd (cleanup_disposable o' m p t))"
proof -
  have "removal_ok (\<lambda>_ q. q = p \<and> managed_path m p) r \<Longrightarrow> removal_ok (\<lambda>_. R) r"
    "removal_ok (\<lambda>_ q. confirm \<and> q = p \<and> managed_path m p) r \<Longrightarrow> removal_ok (\<lambda>_. R) r" for r
    by (erule removal_ok_mono; use assms in simp)+
  then show "allowed (removal_ok (\<lambda>_. R)) t (snd (cleanup o' m p confirm t))"
    "allowed (removal_ok (\<lambda>_. R)) t (snd (cleanup_clean o' m p t))"
    "allowed (removal_ok (\<lambda>_. R)) t (snd (cleanup_disposable o' m p t))"
    using cleanup_removes [of confirm p m t o'] cleanup_clean_removes [of p m t o'] cleanup_disposable_removes [of p m t o']
    unfolding removes_only_def by (blast intro: allowed_mono)+
qed

subsection \<open>Steps of the daemon\<close>

named_theorems host_rules "the steps a computation of the daemon takes"

lemma host_refl [host_rules]: "host_steps R I s s"
  by simp

lemma host_pair [host_rules]: "host_steps R I s (snd (r, s))"
  by simp

lemma host_pure [host_rules]: "host_steps R I s (snd (pure r s))"
  by simp

lemma host_demand [host_rules]: "host_steps R I s (snd (demand e c s))"
  by (simp add: demand_def)

lemma host_continue [host_rules]:
  assumes "host_steps R I s (snd r)" and "\<And>v s'. r = (Inr v, s') \<Longrightarrow> host_steps R I s' (snd (f v s'))"
  shows "host_steps R I s (snd (continue r f))"
  using assms by (rule host.after_continue)

lemma host_let [host_rules]: "(\<And>x. x = v \<Longrightarrow> host_steps R I s (snd (f x))) \<Longrightarrow> host_steps R I s (snd (Let v f))"
  by simp

lemma host_if [host_rules]:
  "(c \<Longrightarrow> host_steps R I s (snd x)) \<Longrightarrow> (\<not> c \<Longrightarrow> host_steps R I s (snd y)) \<Longrightarrow> host_steps R I s (snd (if c then x else y))"
  by simp

lemma host_option [host_rules]:
  "(v = None \<Longrightarrow> host_steps R I s (snd x)) \<Longrightarrow> (\<And>w. v = Some w \<Longrightarrow> host_steps R I s (snd (f w))) \<Longrightarrow>
     host_steps R I s (snd (case v of None \<Rightarrow> x | Some w \<Rightarrow> f w))"
  by (cases v) simp_all

lemma host_sum [host_rules]:
  "(\<And>e. v = Inl e \<Longrightarrow> host_steps R I s (snd (f e))) \<Longrightarrow> (\<And>w. v = Inr w \<Longrightarrow> host_steps R I s (snd (g w))) \<Longrightarrow>
     host_steps R I s (snd (case v of Inl e \<Rightarrow> f e | Inr w \<Rightarrow> g w))"
  by (cases v) simp_all

lemma host_bool [host_rules]:
  "(v \<Longrightarrow> host_steps R I s (snd x)) \<Longrightarrow> (\<not> v \<Longrightarrow> host_steps R I s (snd y)) \<Longrightarrow>
     host_steps R I s (snd (case v of True \<Rightarrow> x | False \<Rightarrow> y))"
  by (cases v) simp_all

lemma host_attempt [host_rules]: "host_steps R I s (snd r) \<Longrightarrow> host_steps R I s (snd (attempt r))"
  by (simp add: attempt_def)

lemma snd_outside_step: "snd (outside_step f op s) = s\<lparr>ht_trace := snd (op (ht_trace s))\<rparr>"
  by (simp add: outside_step_def)

lemma host_outside:
  "allowed (removal_ok (\<lambda>_. R (ht_ledger s))) (ht_trace s) (snd (op (ht_trace s))) \<Longrightarrow>
     host_steps R I s (snd (outside_step f op s))"
  unfolding snd_outside_step by (rule host_requests)

lemma host_set_workspace [host_rules]:
  assumes "i \<in> I"
  shows "host_steps R I s (snd (set_workspace io i state summary s))"
  using host_step.written [OF assms, of state summary "hi_now io s" s]
  by (auto simp: set_workspace_def set_ledger_def split: sum.split)

lemma host_retain [host_rules]: "w_task_id w \<in> I \<Longrightarrow> host_steps R I s (snd (retain_workspace io w summary s))"
  unfolding retain_workspace_def by (rule host_set_workspace)

lemma host_reading [host_rules]:
  "host_steps R I s (snd (path_exists io p s))"
  "host_steps R I s (snd (on_tree (manager_new o' repository root) s))"
  "host_steps R I s (snd (on_clone (for_identity o' root identity) s))"
  "host_steps R I s (snd (on_tree (reconcile_startup o' m) s))"
  "host_steps R I s (snd (on_clone (preview_clone o' cm p) s))"
  "host_steps R I s (snd (on_tree (preview_cleanup o' m p) s))"
  "host_steps R I s (snd (on_clone (clone_branch_is_pushed o' cm p b v) s))"
  "host_steps R I s (snd (on_tree (branch_is_pushed o' m b) s))"
  unfolding path_exists_def reconcile_startup_def by (intro host_outside request_rules; simp)+

lemma host_current_commit [host_rules]: "host_steps R I s (snd (current_commit io p s))"
  unfolding current_commit_def by (intro host_rules host_outside request_rules) simp

lemma host_preview [host_rules]: "host_steps R I s (snd (preview_workspace io m cm w s))"
  unfolding preview_workspace_def by (intro host_rules)

lemma host_pushed [host_rules]: "host_steps R I s (snd (workspace_is_pushed io m cm token w b s))"
  unfolding workspace_is_pushed_def by (intro host_rules)

lemma host_still_safe [host_rules]: "host_steps R I s (snd (automatic_cleanup_is_still_safe io m w token s))"
  unfolding automatic_cleanup_is_still_safe_def by (intro host_rules)

lemma reading_ledger:
  "path_exists io p s = (r, s') \<Longrightarrow> ht_ledger s' = ht_ledger s"
  "current_commit io p s = (r', s') \<Longrightarrow> ht_ledger s' = ht_ledger s"
  "preview_workspace io m cm w s = (r'', s') \<Longrightarrow> ht_ledger s' = ht_ledger s"
  "automatic_cleanup_is_still_safe io m w token s = (r3, s') \<Longrightarrow> ht_ledger s' = ht_ledger s"
  "outside_step f op s = (r4, s') \<Longrightarrow> ht_ledger s' = ht_ledger s"
proof -
  show "path_exists io p s = (r, s') \<Longrightarrow> ht_ledger s' = ht_ledger s"
    using host_reads_ledger [OF host_reading(1) [where s = s and io = io and p = p]] by simp
  show "current_commit io p s = (r', s') \<Longrightarrow> ht_ledger s' = ht_ledger s"
    using host_reads_ledger [OF host_current_commit [where s = s and io = io and p = p]] by simp
  show "preview_workspace io m cm w s = (r'', s') \<Longrightarrow> ht_ledger s' = ht_ledger s"
    using host_reads_ledger [OF host_preview [where s = s and io = io and w = w and m = m and cm = cm]] by simp
  show "automatic_cleanup_is_still_safe io m w token s = (r3, s') \<Longrightarrow> ht_ledger s' = ht_ledger s"
    using host_reads_ledger [OF host_still_safe [where s = s and io = io and w = w and m = m and token = token]] by simp
  show "outside_step f op s = (r4, s') \<Longrightarrow> ht_ledger s' = ht_ledger s"
    using snd_outside_step [of f op s] by auto
qed

lemma still_safe_ledger [simp]: "ht_ledger (snd (automatic_cleanup_is_still_safe io m w token s)) = ht_ledger s"
  using reading_ledger(4) [of io m w token s] by (cases "automatic_cleanup_is_still_safe io m w token s") simp

lemma preview_ledger: "ht_ledger (snd (preview_workspace io m cm w s)) = ht_ledger s"
  using reading_ledger(3) [of io m cm w s] by (cases "preview_workspace io m cm w s") simp

lemma host_removals:
  assumes "R (ht_ledger s) p"
  shows "host_steps R I s (snd (remove_workspace_clone io cm p s))"
    "host_steps R I s (snd (on_tree (cleanup o' m p confirm) s))"
    "host_steps R I s (snd (on_tree (cleanup_clean o' m p) s))"
    "host_steps R I s (snd (on_tree (cleanup_disposable o' m p) s))"
  unfolding remove_workspace_clone_def
  by (intro host_outside allowed_remove_clone allowed_cleanups; simp add: assms)+

lemma host_finish_cleanup:
  assumes "host_steps R I s (snd r)" and "w_task_id w \<in> I"
  shows "host_steps R I s (snd (finish_cleanup io w r))"
proof (cases r)
  case (Pair x t)
  then show ?thesis
    using assms host_set_workspace [OF assms(2), of R t io "''cleaned''" "Some ''completed interrupted cleanup at startup''"]
    by (cases x) (auto simp: finish_cleanup_def)
qed

lemma host_clean_pending:
  assumes "pending_path owner (ht_ledger s) (path_of (w_path w))"
  shows "host_steps (pending_path owner) {w_task_id w} s (snd (clean_pending_workspace io m cm token w s))"
proof -
  have ledger: "pending_path owner (ht_ledger s') (path_of (w_path w))" if "ht_ledger s' = ht_ledger s" for s'
    using assms that by simp
  show ?thesis
    unfolding clean_pending_workspace_def
    by (intro host_rules host_finish_cleanup host_removals) (auto simp: attempt_def intro!: ledger dest!: reading_ledger)
qed

text \<open>Whether the daemon owns a workspace.\<close>

definition owns :: "repository_owner \<Rightarrow> ledger \<Rightarrow> task_workspace \<Rightarrow> bool" where
  "owns owner db w \<longleftrightarrow> w_repository w = ow_identity owner
     \<and> (\<exists>t. query_task (w_task_id w) db = Some t \<and> t_repository t = ow_identity owner)"

lemma owner_resolved:
  "workspace_owner_is_resolved io w owner s = (Inr b, s') \<Longrightarrow> b = owns owner (ht_ledger s) w \<and> (b \<longrightarrow> s' = s)"
  by (auto simp: workspace_owner_is_resolved_def owns_def ok_or_def result_simps split: option.splits if_splits)

lemma host_owner_resolved:
  assumes "\<not> owns owner (ht_ledger s) w \<longrightarrow> w_task_id w \<in> I"
  shows "host_steps R I s (snd (workspace_owner_is_resolved io w owner s))"
  unfolding workspace_owner_is_resolved_def
  by (intro host_rules) (use assms in \<open>auto simp: owns_def ok_or_def split: option.splits\<close>)

lemma owns_steps: "host_steps R I s s' \<Longrightarrow> owns owner (ht_ledger s') w = owns owner (ht_ledger s) w"
  using host_steps_rows [of R I s s'] by (simp add: owns_def query_task_def)

lemma owned_each_steps:
  "host_steps R {w_task_id w |w. w \<in> set ws \<and> \<not> owns owner (ht_ledger s) w} s (snd (owned_each io owner ws s))"
  "owned_each io owner ws s = (Inr os, s') \<Longrightarrow> os = filter (owns owner (ht_ledger s)) ws"
proof (induction ws arbitrary: s os)
  case (Cons w ws)
  let ?I = "\<lambda>s. {w_task_id v |v. v \<in> set (w # ws) \<and> \<not> owns owner (ht_ledger s) v}"
  {
    case 1
    have "host_steps R (?I s) t (snd (owned_each io owner ws t))"
      if "workspace_owner_is_resolved io w owner s = (Inr b, t)" for b t
    proof -
      have "host_steps R (?I s) s t"
        using host_owner_resolved [of owner s w "?I s" R io] that by auto
      then have "owns owner (ht_ledger t) = owns owner (ht_ledger s)" using owns_steps by blast
      then show ?thesis using host_steps_mono [OF Cons.IH(1) [of t], of R "?I s"] by auto
    qed
    then show ?case unfolding owned_each.simps
      by (intro host_continue host_owner_resolved host_pair; auto)
  next
    case 2
    then obtain b t rest where b: "workspace_owner_is_resolved io w owner s = (Inr b, t)"
      and rest: "owned_each io owner ws t = (Inr rest, s')" "os = (if b then w # rest else rest)"
      by (auto simp: result_simps)
    have "host_steps R (?I s) s t" for R
      using host_owner_resolved [of owner s w "?I s" R io] b by auto
    then have "owns owner (ht_ledger t) = owns owner (ht_ledger s)" using owns_steps by blast
    with Cons.IH(2) [OF rest(1)] rest(2) owner_resolved [OF b] show ?case by simp
  }
qed simp_all

lemma retain_each_steps:
  "host_steps R (w_task_id ` set ws) s (snd (retain_each io owner ws s))"
proof (induction ws arbitrary: s)
  case (Cons w ws)
  have "host_steps R (w_task_id ` set (w # ws)) t (snd (retain_each io owner ws t))" for t
    by (rule host_steps_mono [OF Cons.IH]) auto
  then show ?case unfolding retain_each.simps by (intro host_continue host_owner_resolved) simp_all
qed simp

definition pending_rows :: "repository_owner \<Rightarrow> task_workspace list \<Rightarrow> ledger \<Rightarrow> bool" where
  "pending_rows owner ws db \<longleftrightarrow> (\<forall>w\<in>set ws. w \<in> set (task_workspaces db) \<and> w_state w = ''cleanup_pending''
     \<and> w_repository w = ow_identity owner)"

lemma pending_rows_steps:
  "pending_rows owner ws (ht_ledger s) \<Longrightarrow> host_steps R I s s' \<Longrightarrow> w_task_id ` set ws \<inter> I = {} \<Longrightarrow>
     pending_rows owner ws (ht_ledger s')"
  using host_steps_rows [of R I s s'] by (auto simp: pending_rows_def)

lemma clean_each_steps:
  assumes "pending_rows owner ws (ht_ledger s)" and "distinct (map w_task_id ws)"
  shows "host_steps (pending_path owner) (w_task_id ` set ws) s (snd (clean_pending_each io m cm token ws s))"
  using assms
proof (induction ws arbitrary: s)
  case (Cons w ws)
  have "pending_path owner (ht_ledger s) (path_of (w_path w))"
    using Cons.prems(1) by (auto simp: pending_rows_def pending_path_def)
  note first = host_clean_pending [OF this, of io m cm token]
  have "host_steps (pending_path owner) (w_task_id ` set (w # ws)) t (snd (clean_pending_each io m cm token ws t))"
    if "clean_pending_workspace io m cm token w s = (Inr v, t)" for v t
  proof -
    have step: "host_steps (pending_path owner) {w_task_id w} s t" using first that by simp
    have "pending_rows owner ws (ht_ledger s)" "w_task_id ` set ws \<inter> {w_task_id w} = {}"
      using Cons.prems by (auto simp: pending_rows_def)
    then have "pending_rows owner ws (ht_ledger t)" using pending_rows_steps [OF _ step] by blast
    then show ?thesis using Cons.prems(2) by (intro host_steps_mono [OF Cons.IH]) auto
  qed
  moreover have "host_steps (pending_path owner) (w_task_id ` set (w # ws)) s (snd (clean_pending_workspace io m cm token w s))"
    by (rule host_steps_mono [OF first]) auto
  ultimately show ?case unfolding clean_pending_each.simps by (intro host_continue)
qed simp

subsection \<open>The daemon follows the protocol\<close>

definition rows_keyed :: "ledger \<Rightarrow> bool" where
  "rows_keyed db \<longleftrightarrow> unique_key w_task_id (task_workspaces db)"

lemma distinct_sorted_rows:
  "rows_keyed db \<Longrightarrow> distinct (map w_task_id (sort_key w_task_id (filter P (task_workspaces db))))"
  by (simp add: map_sort_key rows_keyed_def unique_key_def distinct_map_filter)

lemma in_state_member: "w \<in> set (task_workspaces_in_state state db) \<longleftrightarrow> w \<in> set (task_workspaces db) \<and> w_state w = state"
  by (auto simp: task_workspaces_in_state_def)

lemma owns_repository: "owns owner db w \<Longrightarrow> w_repository w = ow_identity owner"
  by (simp add: owns_def)

lemma host_reconcile_pending:
  assumes "rows_keyed (ht_ledger s)"
  shows "host_steps (pending_path owner) UNIV s (snd (reconcile_pending_cleanup io owner token s))"
proof -
  let ?ws = "task_workspaces_in_state ''cleanup_pending'' (ht_ledger s)"
  have ws: "distinct (map w_task_id ?ws)"
    unfolding task_workspaces_in_state_def by (rule distinct_sorted_rows [OF assms])
  have each: "host_steps (pending_path owner) UNIV t' (snd (clean_pending_each io m cm token os t'))"
    if "owned_each io owner ?ws s = (Inr os, t)" "ht_ledger t' = ht_ledger t" for os t t' m cm
  proof -
    let ?I = "{w_task_id w |w. w \<in> set ?ws \<and> \<not> owns owner (ht_ledger s) w}"
    have os: "os = filter (owns owner (ht_ledger s)) ?ws" using owned_each_steps(2) [OF that(1)] .
    have d: "distinct (map w_task_id os)" using ws by (simp add: os distinct_map_filter)
    have inj: "v = w" if "v \<in> set ?ws" "w \<in> set ?ws" "w_task_id v = w_task_id w" for v w
      using ws that unfolding distinct_map by (blast dest: inj_onD)
    have "w_task_id ` set os \<inter> ?I = {}" unfolding os by (auto dest: inj)
    moreover have "pending_rows owner os (ht_ledger s)"
      unfolding pending_rows_def os
    proof (intro ballI)
      fix w assume "w \<in> set (filter (owns owner (ht_ledger s)) ?ws)"
      then have "w \<in> set ?ws" "owns owner (ht_ledger s) w" by simp_all
      then show "w \<in> set (task_workspaces (ht_ledger s)) \<and> w_state w = ''cleanup_pending'' \<and> w_repository w = ow_identity owner"
        using in_state_member owns_repository by blast
    qed
    moreover have "host_steps nothing ?I s t"
      using owned_each_steps(1) [of nothing ?ws owner s io] unfolding that(1) snd_conv .
    ultimately have "pending_rows owner os (ht_ledger t)" using pending_rows_steps by blast
    then have "pending_rows owner os (ht_ledger t')" by (simp add: that(2))
    from host_steps_mono [OF clean_each_steps [OF this d] _ subset_UNIV] show ?thesis by blast
  qed
  have owned: "host_steps (pending_path owner) UNIV s (snd (owned_each io owner ?ws s))"
    using host_steps_mono [OF owned_each_steps(1) _ subset_UNIV] by blast
  show ?thesis
    unfolding reconcile_pending_cleanup_def
    by (rule host_continue host_if host_pair host_reading owned each | assumption)+
      (simp add: reading_ledger(5))
qed

lemma find_where_update_row:
  assumes "update_task_workspace_state i state summary now db = Inr db'" and "w \<in> set (task_workspaces db)" and "w_task_id w = i"
  shows "set_workspace_state state summary now w \<in> set (task_workspaces db')"
  using assms by (auto simp: update_state_effect [OF assms(1)] update_where_def)

lemma set_pending_path:
  assumes "set_workspace io (w_task_id w) ''cleanup_pending'' summary s = (Inr u, s')"
    and "w \<in> set (task_workspaces (ht_ledger s))" and "w_repository w = ow_identity owner"
  shows "pending_path owner (ht_ledger s') (path_of (w_path w))"
proof -
  obtain now where "update_task_workspace_state (w_task_id w) ''cleanup_pending'' summary now (ht_ledger s) = Inr (ht_ledger s')"
    using assms(1) by (auto simp: set_workspace_def set_ledger_def split: sum.splits)
  from find_where_update_row [OF this assms(2) refl] assms(3) show ?thesis
    unfolding pending_path_def by (intro bexI) (auto simp: set_workspace_state_def)
qed

lemma host_finalize_proposal:
  assumes "w \<in> set (task_workspaces (ht_ledger s))" and "w_repository w = ow_identity owner"
  shows "host_steps (pending_path owner) UNIV s (snd (finalize_proposal io m cm w s))"
proof -
  have pending: "pending_path owner (ht_ledger s2) (path_of (w_path w))"
    if "set_workspace io (w_task_id w) ''cleanup_pending'' (Some ''terminal proposal'') s = (Inr u, s1)"
      "ht_ledger s2 = ht_ledger s1" for u s1 s2
    using set_pending_path [OF that(1) assms] that(2) by simp
  show ?thesis
    unfolding finalize_proposal_def
    by (intro host_rules host_removals) (auto intro!: pending dest!: reading_ledger)
qed

lemma host_published [host_rules]:
  "w_task_id w \<in> I \<Longrightarrow> host_steps R I s (snd (delivery_published io m cm token w preview changed s))"
  unfolding delivery_published_def by (intro host_rules) simp_all

lemma pushed_ledger: "ht_ledger (snd (workspace_is_pushed io m cm token w b s)) = ht_ledger s"
  by (rule host_reads_ledger [OF host_pushed])

lemma published_ledger:
  assumes "delivery_published io m cm token w preview changed s = (Inr b, s')"
  shows "ht_ledger s' = ht_ledger s"
proof -
  have "s' = s \<or> (\<exists>branch. s' = snd (workspace_is_pushed io m cm token w branch s))"
    using assms unfolding delivery_published_def
    by (auto simp: attempt_def result_simps split: if_splits option.splits sum.splits)
  then show ?thesis using pushed_ledger by auto
qed

lemma host_settle:
  assumes "w \<in> set (task_workspaces (ht_ledger s))" and "w_repository w = ow_identity owner"
  shows "host_steps (pending_path owner) UNIV s (snd (settle_delivery io m cm task w preview changed published s))"
  unfolding settle_delivery_def Let_def
  by (rule host_continue host_if host_pair host_set_workspace host_retain host_removals UNIV_I
      | erule set_pending_path [OF _ assms])+

lemma host_finalize_delivery:
  assumes "w \<in> set (task_workspaces (ht_ledger s))" and "w_repository w = ow_identity owner"
  shows "host_steps (pending_path owner) UNIV s (snd (finalize_delivery io m cm token task w s))"
proof -
  have preview: "ht_ledger s2 = ht_ledger s1"
    if "attempt (preview_workspace io m cm w s1) = (r, s2)" for s1 s2 and r :: "work_error + work_error + cleanup_preview"
  proof -
    have "s2 = snd (preview_workspace io m cm w s1)" using that by (simp add: attempt_def)
    then show ?thesis by (simp add: preview_ledger)
  qed
  have settle: "host_steps (pending_path owner) UNIV s5 (snd (settle_delivery io m cm task w pv changed published s5))"
    if "path_exists io q s = (r1, s1)" "attempt (preview_workspace io m cm w s1) = (r2, s2)"
      "current_commit io q s2 = (r3, s3)" "pure r4 s3 = (r5, s4)"
      "delivery_published io m cm token w pv changed s4 = (Inr published, s5)"
    for q r1 s1 and r2 :: "work_error + work_error + cleanup_preview" and s2 r3 s3 and r4 r5 :: "work_error + string"
      and s4 s5 pv changed published
  proof -
    have "s4 = s3" using that(4) by simp
    then have "ht_ledger s5 = ht_ledger s"
      using published_ledger [OF that(5)] reading_ledger(2) [OF that(3)] preview [OF that(2)] reading_ledger(1) [OF that(1)]
      by simp
    with assms show ?thesis by (intro host_settle) simp_all
  qed
  show ?thesis
    unfolding finalize_delivery_def Let_def
    by (rule host_continue host_if host_sum host_attempt host_pair host_pure host_reading host_preview host_current_commit
        host_set_workspace host_retain host_published UNIV_I | erule (4) settle)+
qed

lemma query_workspace_row:
  "query_task_workspace i db = Some w \<Longrightarrow> w \<in> set (task_workspaces db) \<and> w_task_id w = i"
  by (auto simp: query_task_workspace_def dest: find_where_SomeD)

lemma host_finalize:
  "host_steps (pending_path owner) UNIV s (snd (finalize_task_workspace io owner task_id token s))"
proof -
  have owned: "w \<in> set (task_workspaces (ht_ledger s2)) \<and> w_repository w = ow_identity owner"
    if "pure (ok_or (WorkspaceGone task_id) (query_task_workspace task_id (ht_ledger s1))) s1 = (Inr w, s0)"
      "workspace_owner_is_resolved io w owner s0 = (Inr owned, s')" "\<not> \<not> owned"
      "outside_step f op s' = (r, s'')" "outside_step g op' s'' = (r', s2)"
    for w s0 s1 owned s' s'' s2 and f :: "'e \<Rightarrow> work_error" and op :: "trace \<Rightarrow> ('e, 'a, trace) outcome" and r
      and g :: "'g \<Rightarrow> work_error" and op' :: "trace \<Rightarrow> ('g, 'b, trace) outcome" and r'
  proof -
    have "query_task_workspace task_id (ht_ledger s0) = Some w" using that(1) by (auto simp: ok_or_Inr_iff)
    moreover have "owns owner (ht_ledger s0) w" "s' = s0" using owner_resolved [OF that(2)] that(3) by auto
    moreover have "ht_ledger s2 = ht_ledger s'" using reading_ledger(5) [OF that(4)] reading_ledger(5) [OF that(5)] by simp
    ultimately show ?thesis using query_workspace_row by (auto simp: owns_def)
  qed
  show ?thesis
    unfolding finalize_task_workspace_def
    by (rule host_continue host_if host_pair host_pure host_reading host_owner_resolved UNIV_I impI
        host_finalize_proposal host_finalize_delivery
      | erule (4) owned [THEN conjunct1] owned [THEN conjunct2])+
qed

lemma host_terminal_each:
  "host_steps (pending_path owner) UNIV s (snd (reconcile_terminal_each io owner token ws s))"
proof (induction ws arbitrary: s)
  case (Cons w ws)
  show ?case unfolding reconcile_terminal_each.simps
    by (rule host_continue host_if host_pure host_attempt host_owner_resolved host_set_workspace UNIV_I impI
        host_finalize Cons.IH)+
qed simp

text \<open>
  C20. Every removal of a workspace is preceded by its record: whatever the daemon does to workspaces at startup or at
  the end of a task, and wherever it stops with an error, it only changes states of workspaces and
  makes requests, and a request that removes a directory is made while the ledger holds the workspace
  of that directory, of this repository, as pending for clean-up.
\<close>

theorem cleanup_refines_protocol:
  assumes "rows_keyed (ht_ledger s)"
  shows "host_steps (pending_path owner) UNIV s (snd (retain_unresolvable_workspaces io owner s))
    \<and> host_steps (pending_path owner) UNIV s (snd (reconcile_pending_cleanup io owner token s))
    \<and> host_steps (pending_path owner) UNIV s (snd (reconcile_terminal_workspaces io owner token s))
    \<and> host_steps (pending_path owner) UNIV s (snd (finalize_task_workspace io owner task_id token s))"
proof (intro conjI)
  show "host_steps (pending_path owner) UNIV s (snd (retain_unresolvable_workspaces io owner s))"
    unfolding retain_unresolvable_workspaces_def
    using host_steps_mono [OF retain_each_steps _ subset_UNIV] by blast
  show "host_steps (pending_path owner) UNIV s (snd (reconcile_terminal_workspaces io owner token s))"
    unfolding reconcile_terminal_workspaces_def by (rule host_terminal_each)
qed (rule host_reconcile_pending [OF assms] host_finalize)+

subsection \<open>What a delivery needs to go away\<close>

lemma host_nothing_removes:
  "host_steps nothing I s s' \<Longrightarrow> removes_only (\<lambda>_. False) (ht_trace s) (ht_trace s')"
  unfolding removes_only_def
proof (induction rule: rtranclp_induct)
  case base
  then show ?case by (rule allowed_refl)
next
  case (step s1 s2)
  from step(2) have "allowed (removal_ok (\<lambda>_ _. False)) (ht_trace s1) (ht_trace s2)"
    by (cases rule: host_step.cases) (auto simp: nothing_def [abs_def] allowed_def)
  with step.IH show ?case by (rule requests.related_trans)
qed

text \<open>The reasons for removing a delivery, as they were found.\<close>

definition delivery_disposable :: "host_io \<Rightarrow> string option \<Rightarrow> task \<Rightarrow> task_workspace \<Rightarrow> ledger \<Rightarrow> bool" where
  "delivery_disposable io token task w db \<longleftrightarrow> t_state task = task_state.Succeeded
     \<and> \<not> (t_workflow task = ''implement'' \<and> latest_pull_request_for_task (t_id task) db \<noteq> None)
     \<and> (\<exists>m cm preview head s1 s2 s3. preview_workspace io m cm w s1 = (Inr preview, s2) \<and> \<not> cp_dirty preview
         \<and> current_commit io (path_of (w_path w)) s2 = (Inr (Some head), s3)
         \<and> (head = w_base_sha w \<or> (\<exists>branch. cp_branch preview = Some branch
              \<and> fst (workspace_is_pushed io m cm token w branch s3) = Inr True)))"

lemma settle_keeps:
  assumes "\<not> (t_state task = task_state.Succeeded \<and> \<not> cp_dirty preview \<and> published
      \<and> \<not> (t_workflow task = ''implement'' \<and> latest_pull_request_for_task (t_id task) (ht_ledger s) \<noteq> None))"
  shows "host_steps nothing UNIV s (snd (settle_delivery io m cm task w preview changed published s))"
  unfolding settle_delivery_def Let_def if_not_P [OF assms] by (rule host_retain) simp

lemma published_reason:
  assumes "delivery_published io m cm token w preview changed s = (Inr True, s')"
  shows "\<not> changed \<or> (\<exists>branch. cp_branch preview = Some branch \<and> fst (workspace_is_pushed io m cm token w branch s) = Inr True)"
  using assms unfolding delivery_published_def
  by (auto simp: attempt_def result_simps split: if_splits option.splits sum.splits)

lemma delivery_keeps:
  assumes "\<not> delivery_disposable io token task w (ht_ledger s)"
  shows "host_steps nothing UNIV s (snd (finalize_delivery io m cm token task w s))"
proof -
  have settle: "host_steps nothing UNIV s5 (snd (settle_delivery io m cm task w pv (head \<noteq> w_base_sha w) published s5))"
    if "path_exists io q s = (r1, s1)" "attempt (preview_workspace io m cm w s1) = (Inr r2, s2)" "r2 = Inr pv"
      "current_commit io (path_of (w_path w)) s2 = (Inr r3, s3)" "pure (ok_or NoCommit r3) s3 = (Inr head, s4)"
      "delivery_published io m cm token w pv (head \<noteq> w_base_sha w) s4 = (Inr published, s5)"
    for q r1 s1 and r2 :: "work_error + cleanup_preview" and s2 r3 s3 s4 s5 pv published head
  proof (rule settle_keeps, rule notI)
    assume safe: "t_state task = task_state.Succeeded \<and> \<not> cp_dirty pv \<and> published
      \<and> \<not> (t_workflow task = ''implement'' \<and> latest_pull_request_for_task (t_id task) (ht_ledger s5) \<noteq> None)"
    have pv: "preview_workspace io m cm w s1 = (Inr pv, s2)"
      using that(2,3) by (cases "preview_workspace io m cm w s1") (simp add: attempt_def)
    have head: "r3 = Some head" "s4 = s3" using that(5) by (simp_all add: ok_or_Inr_iff)
    have "ht_ledger s5 = ht_ledger s"
      using published_ledger [OF that(6)] reading_ledger(2) [OF that(4)] reading_ledger(3) [OF pv]
        reading_ledger(1) [OF that(1)] head by simp
    then have task: "t_state task = task_state.Succeeded"
        "\<not> (t_workflow task = ''implement'' \<and> latest_pull_request_for_task (t_id task) (ht_ledger s) \<noteq> None)"
      using safe by simp_all
    have "head = w_base_sha w \<or> (\<exists>branch. cp_branch pv = Some branch
        \<and> fst (workspace_is_pushed io m cm token w branch s3) = Inr True)"
      using published_reason [of io m cm token w pv "head \<noteq> w_base_sha w" s4 s5] that(6) safe head(2) by auto
    with pv that(4) head(1) safe have "preview_workspace io m cm w s1 = (Inr pv, s2) \<and> \<not> cp_dirty pv
        \<and> current_commit io (path_of (w_path w)) s2 = (Inr (Some head), s3)
        \<and> (head = w_base_sha w \<or> (\<exists>branch. cp_branch pv = Some branch
              \<and> fst (workspace_is_pushed io m cm token w branch s3) = Inr True))" by simp
    then have "delivery_disposable io token task w (ht_ledger s)"
      unfolding delivery_disposable_def using task by blast
    with assms show False ..
  qed
  show ?thesis
    unfolding finalize_delivery_def Let_def
    by (rule host_continue host_if host_sum host_attempt host_pair host_pure host_reading host_preview host_current_commit
        host_set_workspace host_retain host_published UNIV_I | erule (5) settle)+
qed

text \<open>
  C21. A delivery is removed only if its task succeeded, no continuation of a change request is awaited, its status
  was found clean, and its commit was found to be the base or the head of its branch on the code host.
\<close>

theorem delivery_kept_until_safe:
  assumes "query_task task_id (ht_ledger s) = Some task" and "query_task_workspace task_id (ht_ledger s) = Some w"
    and "w_kind w \<noteq> ''proposal''"
    and "\<not> removes_only (\<lambda>_. False) (ht_trace s) (ht_trace (snd (finalize_task_workspace io owner task_id token s)))"
  shows "delivery_disposable io token task w (ht_ledger s)"
proof (rule ccontr)
  assume unsafe: "\<not> delivery_disposable io token task w (ht_ledger s)"
  have keep: "host_steps nothing UNIV s2 (snd (finalize_delivery io m cm token task w s2))"
    if "workspace_owner_is_resolved io w owner s = (Inr owned, s')" "\<not> \<not> owned"
      "outside_step f op s' = (r, s'')" "outside_step g op' s'' = (r', s2)"
    for owned s' s'' s2 m cm and f :: "'e \<Rightarrow> work_error" and op :: "trace \<Rightarrow> ('e, 'a, trace) outcome" and r
      and g :: "'g \<Rightarrow> work_error" and op' :: "trace \<Rightarrow> ('g, 'b, trace) outcome" and r'
  proof -
    have "s' = s" using owner_resolved [OF that(1)] that(2) by simp
    then have "ht_ledger s2 = ht_ledger s" using reading_ledger(5) [OF that(3)] reading_ledger(5) [OF that(4)] by simp
    with unsafe show ?thesis by (intro delivery_keeps) simp
  qed
  have "host_steps nothing UNIV s (snd (finalize_task_workspace io owner task_id token s))"
    unfolding finalize_task_workspace_def assms(1,2) ok_or_simps pure_eq continue_simps if_not_P [OF assms(3)]
    by (rule host_continue host_if host_pair host_reading host_owner_resolved UNIV_I impI | erule (3) keep)+
  with assms(4) show False using host_nothing_removes by blast
qed

end
