(* ===== verification/Daemon_Change_Requests.thy ===== *)
theory Daemon_Change_Requests
  imports Daemon_Data Rust_State Ticket_Context Ledger_PullRequests "HOL-Library.Multiset"
begin

text \<open>
  Reconciliation of change requests by the daemon (\<open>src/daemon.rs\<close>): what a provider's answer is taken to
  mean, whether a continuation is authorized, and the handling of one event from its observation to
  its consumption, with the calls to the ticket system as a trace. The answers of the command line
  clients, the JSON crate, the date parser and SHA-256 are the fields of \<open>reconcile_io\<close>.
\<close>

subsection \<open>The outside\<close>

datatype command_result = NotStarted | Failed string | Completed string

record reconcile_io =
  ri_observe :: "repository_target \<Rightarrow> string \<Rightarrow> command_result"
  ri_get_ticket :: "path \<Rightarrow> string \<Rightarrow> command_result"
  ri_reconcile :: "path \<Rightarrow> string \<Rightarrow> string \<Rightarrow> command_result"
  ri_parse :: "string \<Rightarrow> json option"
  ri_print :: "json \<Rightarrow> string"
  ri_rfc3339 :: "string \<Rightarrow> bool"
  ri_sha256 :: "string \<Rightarrow> 8 word list"

text \<open>The clock's readings while one event is handled.\<close>

record event_clock =
  ek_observed :: int
  ek_claimed :: int
  ek_requested :: int
  ek_requeued :: int
  ek_applied :: int
  ek_consumed :: int

subsection \<open>The provider's answer\<close>

record change_request_observation =
  co_state :: string
  co_merged_at :: "string option"
  co_head_sha :: string
  co_reviews :: "json list"
  co_continuation_required :: bool

definition failed_pipeline :: "(json \<Rightarrow> string) \<Rightarrow> json option \<Rightarrow> bool" where
  "failed_pipeline print pipeline =
     (case pipeline of None \<Rightarrow> False
      | Some v \<Rightarrow> list_ex (\<lambda>w. contains_text w (to_ascii_lowercase (print v)))
          [''failure'', ''failed'', ''timed_out'', ''cancelled'', ''action_required''])"

definition changes_requested :: "json list \<Rightarrow> bool" where
  "changes_requested reviews = list_ex (\<lambda>review.
     case Option.bind (json_get ''state'' review) json_as_str of
       None \<Rightarrow> False | Some state \<Rightarrow> eq_ignore_ascii_case state ''changes_requested'') reviews"

definition optional_list :: "'a option \<Rightarrow> 'a list" where
  "optional_list x = (case x of None \<Rightarrow> [] | Some v \<Rightarrow> [v])"

text \<open>
  The providers answer with one object. The positional array that \<open>serde\<close> would accept in its place, and an
  object with a repeated field, are taken as malformed.
\<close>

definition github_observation :: "(json \<Rightarrow> string) \<Rightarrow> json \<Rightarrow> change_request_observation option" where
  "github_observation print v =
     (if json_as_object v = None then None else
      Option.bind (field_text ''state'' v) (\<lambda>state.
      Option.bind (field_optional_text ''mergedAt'' v) (\<lambda>merged_at.
      Option.bind (field_text ''headRefOid'' v) (\<lambda>head.
      Option.bind (field_list ''reviews'' v) (\<lambda>reviews.
      let rollup = field_value ''statusCheckRollup'' v
      in Some \<lparr>co_state = state, co_merged_at = merged_at, co_head_sha = head,
           co_reviews = reviews @ optional_list rollup,
           co_continuation_required = failed_pipeline print rollup \<or> changes_requested reviews\<rparr>)))))"

definition gitlab_observation :: "(json \<Rightarrow> string) \<Rightarrow> json \<Rightarrow> change_request_observation option" where
  "gitlab_observation print v =
     (if json_as_object v = None then None else
      Option.bind (field_text ''state'' v) (\<lambda>state.
      Option.bind (field_optional_text ''merged_at'' v) (\<lambda>merged_at.
      Option.bind (field_text ''sha'' v) (\<lambda>head.
      Option.bind (field_list ''approved_by'' v) (\<lambda>approved_by.
      Option.bind (field_optional_bool ''blocking_discussions_resolved'' v) (\<lambda>resolved.
      let pipeline = field_value ''head_pipeline'' v
      in Some \<lparr>co_state = state, co_merged_at = merged_at, co_head_sha = head,
           co_reviews = approved_by @ optional_list pipeline
             @ optional_list (map_option (\<lambda>b. JObject [(''blocking_discussions_resolved'', JBool b)]) resolved),
           co_continuation_required = failed_pipeline print pipeline \<or> resolved = Some False\<rparr>))))))"

definition parse_observation ::
  "reconcile_io \<Rightarrow> repository_provider \<Rightarrow> string \<Rightarrow> change_request_observation option" where
  "parse_observation io provider output =
     Option.bind (ri_parse io output)
       (case provider of GitHub \<Rightarrow> github_observation (ri_print io) | GitLab \<Rightarrow> gitlab_observation (ri_print io))"

text \<open>The provider's state words; \<open>None\<close> is an unknown or contradictory state.\<close>

definition observed_state :: "(string \<Rightarrow> bool) \<Rightarrow> change_request_observation \<Rightarrow> string option" where
  "observed_state rfc3339 co =
     (let valid = (case co_merged_at co of None \<Rightarrow> True | Some value \<Rightarrow> rfc3339 value)
      in if valid \<and> co_merged_at co \<noteq> None \<and> co_state co \<in> set [''CLOSED'', ''MERGED'', ''merged''] then Some ''merged''
         else if valid \<and> co_merged_at co = None \<and> co_state co \<in> set [''CLOSED'', ''closed''] then Some ''closed''
         else if valid \<and> co_merged_at co = None \<and> co_state co \<in> set [''OPEN'', ''opened''] then Some ''open''
         else None)"

definition valid_head :: "string \<Rightarrow> bool" where
  "valid_head sha \<longleftrightarrow> length sha = 40 \<and> list_all is_ascii_hexdigit sha"

text \<open>\<open>PullRequestObservation::fingerprint\<close> hashes this text.\<close>

definition observation_text :: "string \<Rightarrow> string \<Rightarrow> string \<Rightarrow> string" where
  "observation_text state head reviews = ''state='' @ state @ '';head='' @ head @ '';reviews='' @ reviews"

definition review_fingerprint :: "reconcile_io \<Rightarrow> json list \<Rightarrow> string" where
  "review_fingerprint io reviews =
     sha256_hex (ri_sha256 io) (join ''\<newline>'' (sort (map (ri_print io) reviews)))"

definition unsafe_event :: "reconcile_io \<Rightarrow> string \<Rightarrow> string \<Rightarrow> string \<times> string \<times> bool" where
  "unsafe_event io reason url = (''unsafe'', sha256_hex (ri_sha256 io) (reason @ '':'' @ url), False)"

text \<open>
  What one association's change request is found to be: the outcome, the fingerprint of the event, and
  whether the open change request needs more work.
\<close>

definition observed_event ::
  "reconcile_io \<Rightarrow> string \<Rightarrow> repository_target \<Rightarrow> string \<Rightarrow> string \<times> string \<times> bool" where
  "observed_event io repository target url =
     (if recognize_change_request_url (tg_provider target) repository url = None
      then unsafe_event io ''cross-repository'' url
      else case ri_observe io target url of
          NotStarted \<Rightarrow> unsafe_event io ''gh-error'' url
        | Failed _ \<Rightarrow> unsafe_event io ''inaccessible'' url
        | Completed output \<Rightarrow> (case parse_observation io (tg_provider target) output of
            None \<Rightarrow> unsafe_event io ''malformed'' url
          | Some co \<Rightarrow> (case observed_state (ri_rfc3339 io) co of
              None \<Rightarrow> unsafe_event io ''contradictory'' url
            | Some state \<Rightarrow>
                if \<not> valid_head (co_head_sha co) then unsafe_event io ''invalid-head'' url
                else (state, sha256_hex (ri_sha256 io)
                       (observation_text state (co_head_sha co) (review_fingerprint io (co_reviews co))),
                     co_continuation_required co))))"

subsection \<open>Authorization of a continuation\<close>

datatype work_authorization = Autonomous | Manual | Unsafe

definition tag_names :: "json \<Rightarrow> string list option" where
  "tag_names task = map_option
     (List.map_filter (\<lambda>tag. Option.bind (json_get ''name'' tag) json_as_str))
     (Option.bind (json_get ''tags'' task) json_as_array)"

definition in_reviewing :: "json \<Rightarrow> bool" where
  "in_reviewing task =
     (case Option.bind (json_get ''memberships'' task) json_as_array of
        None \<Rightarrow> False
      | Some memberships \<Rightarrow> list_ex (\<lambda>m.
          Option.bind (Option.bind (json_get ''section'' m) (json_get ''name'')) json_as_str = Some ''Reviewing'')
          memberships)"

definition ticket_authorization :: "json \<Rightarrow> work_authorization" where
  "ticket_authorization value =
     (case json_get ''data'' value of
        None \<Rightarrow> Unsafe
      | Some task \<Rightarrow> (case tag_names task of
          None \<Rightarrow> Unsafe
        | Some labels \<Rightarrow>
            if ''factory:manual'' \<in> set labels \<and> ''factory:auto-to-pr'' \<notin> set labels then Manual
            else if ''factory:auto-to-pr'' \<in> set labels \<and> ''factory:manual'' \<notin> set labels
              \<and> Option.bind (json_get ''completed'' task) json_as_bool = Some False \<and> in_reviewing task
            then Autonomous else Unsafe))"

definition continuation_authorization :: "reconcile_io \<Rightarrow> path \<Rightarrow> string \<Rightarrow> work_authorization" where
  "continuation_authorization io repository_path task_gid =
     (case ri_get_ticket io repository_path task_gid of
        NotStarted \<Rightarrow> Unsafe
      | Failed _ \<Rightarrow> Unsafe
      | Completed output \<Rightarrow> (case ri_parse io output of None \<Rightarrow> Unsafe | Some value \<Rightarrow> ticket_authorization value))"

subsection \<open>One event\<close>

text \<open>A call to the ticket system: the event it is made for, the outcome it reports, whether it succeeded.\<close>

record ticket_call =
  tk_event :: event_key
  tk_outcome :: string
  tk_succeeded :: bool

record reconcile_state =
  rx_ledger :: ledger
  rx_calls :: "ticket_call list"

definition on_ledger ::
  "(ledger \<Rightarrow> ledger_error + ('a \<times> ledger)) \<Rightarrow> reconcile_state \<Rightarrow> (ledger_error, 'a, reconcile_state) outcome" where
  "on_ledger f s = (case f (rx_ledger s) of
      Inl e \<Rightarrow> (Inl e, s)
    | Inr (v, db) \<Rightarrow> (Inr v, s\<lparr>rx_ledger := db\<rparr>))"

definition on_ledger_state ::
  "(ledger \<Rightarrow> ledger_error + ledger) \<Rightarrow> reconcile_state \<Rightarrow> (ledger_error, unit, reconcile_state) outcome" where
  "on_ledger_state f s = on_ledger (\<lambda>db. case f db of Inl e \<Rightarrow> Inl e | Inr db \<Rightarrow> Inr ((), db)) s"

definition apply_and_consume ::
  "event_key \<Rightarrow> event_clock \<Rightarrow> reconcile_state \<Rightarrow> (ledger_error, unit, reconcile_state) outcome" where
  "apply_and_consume k clock s =
     continue (on_ledger_state (\<lambda>db. Inr (mark_pull_request_event_asana_applied k (ek_applied clock) db)) s)
       (\<lambda>_ s. on_ledger_state (consume_pull_request_event k (ek_consumed clock)) s)"

definition succeeded :: "command_result \<Rightarrow> bool" where
  "succeeded r \<longleftrightarrow> (case r of Completed _ \<Rightarrow> True | _ \<Rightarrow> False)"

text \<open>The call is made, and only a success consumes the event; a claim that is left is released.\<close>

definition reconcile_pull_request_event_with_asana ::
  "reconcile_io \<Rightarrow> path \<Rightarrow> event_key \<Rightarrow> event_clock \<Rightarrow> string \<Rightarrow> reconcile_state \<Rightarrow>
     (ledger_error, unit, reconcile_state) outcome" where
  "reconcile_pull_request_event_with_asana io repository_path k clock word s =
     (let result = succeeded (ri_reconcile io repository_path (fst (snd k)) word);
          s = s\<lparr>rx_calls := rx_calls s @ [\<lparr>tk_event = k, tk_outcome = word, tk_succeeded = result\<rparr>]\<rparr>
      in continue (if result then apply_and_consume k clock s else (Inr (), s))
           (\<lambda>_ s. on_ledger_state (release_pull_request_event_claim k) s))"

definition reconcile_open_event ::
  "reconcile_io \<Rightarrow> path \<Rightarrow> event_key \<Rightarrow> event_clock \<Rightarrow> reconcile_state \<Rightarrow>
     (ledger_error, unit, reconcile_state) outcome" where
  "reconcile_open_event io repository_path k clock s =
     (case continuation_authorization io repository_path (fst (snd k)) of
        Manual \<Rightarrow> apply_and_consume k clock s
      | Unsafe \<Rightarrow> reconcile_pull_request_event_with_asana io repository_path k clock ''unsafe'' s
      | Autonomous \<Rightarrow>
          continue (on_ledger (request_continuation (ri_parse io) k (ek_requested clock) (ek_requeued clock)) s)
            (\<lambda>requested s. if requested \<in> {ContQueued, ContDuplicate} then apply_and_consume k clock s
               else reconcile_pull_request_event_with_asana io repository_path k clock ''unsafe'' s))"

definition reconcile_pull_request_event ::
  "reconcile_io \<Rightarrow> path \<Rightarrow> event_key \<Rightarrow> event_clock \<Rightarrow> string \<Rightarrow> bool \<Rightarrow> reconcile_state \<Rightarrow>
     (ledger_error, unit, reconcile_state) outcome" where
  "reconcile_pull_request_event io repository_path k clock word continuation_required s =
     continue (on_ledger (observe_pull_request_event k (ek_observed clock)) s) (\<lambda>_ s.
     continue (on_ledger (\<lambda>db. Inr (claim_pull_request_event k (ek_claimed clock) db)) s) (\<lambda>state s.
     case state of
       None \<Rightarrow> (Inr (), s)
     | Some Consumed \<Rightarrow> (Inr (), s)
     | Some AsanaApplied \<Rightarrow> on_ledger_state (consume_pull_request_event k (ek_consumed clock)) s
     | _ \<Rightarrow>
         if word = ''open'' \<and> \<not> continuation_required then apply_and_consume k clock s
         else if word = ''open'' then reconcile_open_event io repository_path k clock s
         else reconcile_pull_request_event_with_asana io repository_path k clock word s))"

subsection \<open>A pass\<close>

fun reconcile_associations ::
  "reconcile_io \<Rightarrow> (event_key \<Rightarrow> event_clock) \<Rightarrow> string \<Rightarrow> repository_target \<Rightarrow> pr_association list \<Rightarrow>
     reconcile_state \<Rightarrow> (ledger_error, unit, reconcile_state) outcome" where
  "reconcile_associations io clock repository target [] s = (Inr (), s)"
| "reconcile_associations io clock repository target (a # as) s =
     (let (word, fingerprint, continuation_required) = observed_event io repository target (pa_pull_request a);
          k = (repository, pa_task_gid a, fingerprint)
      in continue (reconcile_pull_request_event io (tg_path target) k (clock k) word continuation_required s)
           (\<lambda>_ s. reconcile_associations io clock repository target as s))"

fun reconcile_targets ::
  "reconcile_io \<Rightarrow> (event_key \<Rightarrow> event_clock) \<Rightarrow> targets \<Rightarrow> reconcile_state \<Rightarrow>
     (ledger_error, unit, reconcile_state) outcome" where
  "reconcile_targets io clock [] s = (Inr (), s)"
| "reconcile_targets io clock ((repository, target) # ts) s =
     continue (reconcile_associations io clock repository target
         (pull_request_associations repository (rx_ledger s)) s)
       (\<lambda>_ s. reconcile_targets io clock ts s)"

text \<open>\<open>locked\<close>: another process holds the reconciliation lock of the ledger, and this pass does nothing.\<close>

definition reconcile_pull_request_observations ::
  "reconcile_io \<Rightarrow> (event_key \<Rightarrow> event_clock) \<Rightarrow> targets \<Rightarrow> bool \<Rightarrow> reconcile_state \<Rightarrow>
     (ledger_error, unit, reconcile_state) outcome" where
  "reconcile_pull_request_observations io clock ts locked s =
     (if locked then (Inr (), s) else reconcile_targets io clock ts s)"

subsection \<open>What is hashed\<close>

lemma observed_state_cases:
  assumes "observed_state rfc3339 co = Some word"
  shows "(case co_merged_at co of
      None \<Rightarrow> (word = ''closed'' \<and> co_state co \<in> {''CLOSED'', ''closed''}) \<or> (word = ''open'' \<and> co_state co \<in> {''OPEN'', ''opened''})
    | Some at \<Rightarrow> rfc3339 at \<and> word = ''merged'' \<and> co_state co \<in> {''CLOSED'', ''MERGED'', ''merged''})"
  using assms by (cases "co_merged_at co") (auto simp: observed_state_def Let_def split: if_splits)

text \<open>
  C29. The outcome that is reported for a change request: an outcome other than \<open>unsafe\<close> needs a
  change request of the configured repository, a provider that answered, a known state that agrees
  with the merge date, and a commit.
\<close>

theorem observed_event_trusted:
  assumes "observed_event io repository target url = (word, fingerprint, required)" and "word \<noteq> ''unsafe''"
  shows "\<exists>answer co. recognize_change_request_url (tg_provider target) repository url \<noteq> None
    \<and> ri_observe io target url = Completed answer
    \<and> parse_observation io (tg_provider target) answer = Some co
    \<and> valid_head (co_head_sha co) \<and> required = co_continuation_required co
    \<and> (case co_merged_at co of
        None \<Rightarrow> (word = ''closed'' \<and> co_state co \<in> {''CLOSED'', ''closed''})
          \<or> (word = ''open'' \<and> co_state co \<in> {''OPEN'', ''opened''})
      | Some at \<Rightarrow> ri_rfc3339 io at \<and> word = ''merged'' \<and> co_state co \<in> {''CLOSED'', ''MERGED'', ''merged''})"
proof -
  from assms obtain answer co where "recognize_change_request_url (tg_provider target) repository url \<noteq> None"
    and "ri_observe io target url = Completed answer"
    and "parse_observation io (tg_provider target) answer = Some co"
    and st: "observed_state (ri_rfc3339 io) co = Some word" and "valid_head (co_head_sha co)"
    and "required = co_continuation_required co"
    by (auto simp: observed_event_def unsafe_event_def split: if_splits command_result.splits option.splits)
  with observed_state_cases [OF st] show ?thesis by blast
qed

subsection \<open>The event machine\<close>

text \<open>Every transaction of the reconciliation is one of the ledger's steps.\<close>

definition event_steps :: "reconcile_state \<Rightarrow> reconcile_state \<Rightarrow> bool" where
  "event_steps s t \<longleftrightarrow> pr_event_step\<^sup>*\<^sup>* (rx_ledger s) (rx_ledger t)"

interpretation rx: step_relation event_steps
  by unfold_locales (auto simp: event_steps_def)

lemma on_ledger_steps:
  assumes "\<And>v db. f (rx_ledger s) = Inr (v, db) \<Longrightarrow> pr_event_step\<^sup>*\<^sup>* (rx_ledger s) db"
  shows "event_steps s (snd (on_ledger f s))"
  using assms by (auto simp: on_ledger_def event_steps_def split: sum.split)

lemma on_ledger_state_steps:
  assumes "\<And>db. f (rx_ledger s) = Inr db \<Longrightarrow> pr_event_step\<^sup>*\<^sup>* (rx_ledger s) db"
  shows "event_steps s (snd (on_ledger_state f s))"
  using assms by (auto simp: on_ledger_def on_ledger_state_def event_steps_def split: sum.splits)

lemma consume_steps: "consume_pull_request_event k now db = Inr db' \<Longrightarrow> pr_event_step\<^sup>*\<^sup>* db db'"
  by (rule r_into_rtranclp) (rule step_consume)

lemma apply_and_consume_steps: "event_steps s (snd (apply_and_consume k clock s))"
  unfolding apply_and_consume_def
  by (intro rx.after_continue on_ledger_state_steps) (auto intro: pr_event_step.intros)

lemma with_asana_steps: "event_steps s (snd (reconcile_pull_request_event_with_asana io p k clock word s))"
proof -
  define s1 where "s1 = s\<lparr>rx_calls := rx_calls s @
    [\<lparr>tk_event = k, tk_outcome = word, tk_succeeded = succeeded (ri_reconcile io p (fst (snd k)) word)\<rparr>]\<rparr>"
  have "event_steps s1 (snd (reconcile_pull_request_event_with_asana io p k clock word s))"
    unfolding reconcile_pull_request_event_with_asana_def Let_def s1_def [symmetric]
    by (intro rx.after_continue on_ledger_state_steps)
      (auto intro: pr_event_step.intros apply_and_consume_steps rx.related_refl)
  then show ?thesis by (simp add: event_steps_def s1_def)
qed

lemma open_event_steps: "event_steps s (snd (reconcile_open_event io p k clock s))"
  unfolding reconcile_open_event_def
  by (auto intro!: rx.after_continue on_ledger_steps with_asana_steps apply_and_consume_steps
      intro: pr_event_step.intros split: work_authorization.split)

lemma reconcile_event_steps:
  "event_steps s (snd (reconcile_pull_request_event io p k clock word required s))"
  unfolding reconcile_pull_request_event_def
  by (auto intro!: rx.after_continue on_ledger_steps on_ledger_state_steps with_asana_steps apply_and_consume_steps
      open_event_steps rx.related_refl intro: pr_event_step.intros consume_steps split: option.split pr_event_state.split)

lemma reconcile_associations_steps: "event_steps s (snd (reconcile_associations io clock r target as s))"
  by (induction as arbitrary: s)
    (auto simp: Let_def split_beta intro: rx.after_continue reconcile_event_steps rx.related_refl)

lemma reconcile_targets_steps: "event_steps s (snd (reconcile_targets io clock ts s))"
  by (induction ts arbitrary: s)
    (auto intro!: rx.after_continue reconcile_associations_steps rx.related_refl)

text \<open>
  What the reconciliation does with one event, as a machine of three phases: a settled event stays as it is, one
  that another daemon holds is left alone, and a pending one is settled, unless the ticket system has to be told
  and the call fails.
\<close>

datatype phase = Settled | Held | Pending

definition event_phase :: "int \<Rightarrow> event_key \<Rightarrow> ledger \<Rightarrow> phase" where
  "event_phase now k db =
     (case query_event k db of
        None \<Rightarrow> Pending
      | Some e \<Rightarrow> if pv_state e = AsanaApplied \<or> pv_state e = Consumed then Settled
          else if pv_state e = Observed \<or> stale_claim (saturating_sub now PULL_REQUEST_CLAIM_LEASE_MILLIS) e
          then Pending else Held)"

definition event_settled :: "event_key \<Rightarrow> ledger \<Rightarrow> bool" where
  "event_settled k db \<longleftrightarrow> (case query_event k db of None \<Rightarrow> False
     | Some e \<Rightarrow> pv_state e = AsanaApplied \<or> pv_state e = Consumed)"

fun machine_step :: "string option \<Rightarrow> (string \<Rightarrow> bool) \<Rightarrow> phase \<Rightarrow> phase \<times> (string \<times> bool) list" where
  "machine_step call works Settled = (Settled, [])"
| "machine_step call works Held = (Held, [])"
| "machine_step None works Pending = (Settled, [])"
| "machine_step (Some word) works Pending = (if works word then Settled else Pending, [(word, works word)])"

text \<open>The word the ticket system has to be told, if any.\<close>

definition ticket_word ::
  "reconcile_io \<Rightarrow> path \<Rightarrow> event_key \<Rightarrow> event_clock \<Rightarrow> string \<Rightarrow> bool \<Rightarrow> ledger \<Rightarrow> string option" where
  "ticket_word io repository_path k clock word required db =
     (if word \<noteq> ''open'' then Some word
      else if \<not> required then None
      else case continuation_authorization io repository_path (fst (snd k)) of
          Manual \<Rightarrow> None
        | Unsafe \<Rightarrow> Some ''unsafe''
        | Autonomous \<Rightarrow>
            (case request_continuation (ri_parse io) k (ek_requested clock) (ek_requeued clock) db of
               Inr (ContQueued, _) \<Rightarrow> None
             | Inr (ContDuplicate, _) \<Rightarrow> None
             | _ \<Rightarrow> Some ''unsafe''))"

lemma query_event_update_at:
  assumes "keeps_event f"
  shows "query_event j (update_events (\<lambda>e. event_key e = k \<and> Q e) f db) =
    (if j = k then map_option (\<lambda>e. if Q e then f e else e) (query_event k db) else query_event j db)"
  using assms query_event_key [of j db] by (cases "query_event j db") (auto simp: query_event_update)

text \<open>A claimed event of a valid key is consumed, or released, and nothing can fail.\<close>

lemma apply_and_consume_settles:
  assumes "validate_pull_request_event_key k" and "query_event k (rx_ledger s) \<noteq> None"
  obtains s' where "apply_and_consume k clock s = (Inr (), s')" and "rx_calls s' = rx_calls s"
    and "event_settled k (rx_ledger s')"
    and "\<exists>e. query_event k (rx_ledger s') = Some e \<and> pv_state e = Consumed"
    and "tasks (rx_ledger s') = tasks (rx_ledger s)"
    and "\<And>j. j \<noteq> k \<Longrightarrow> query_event j (rx_ledger s') = query_event j (rx_ledger s)"
    and "events_unique (rx_ledger s) \<Longrightarrow> events_unique (rx_ledger s')"
proof -
  define db1 where "db1 = mark_pull_request_event_asana_applied k (ek_applied clock) (rx_ledger s)"
  define db2 where "db2 = update_events (\<lambda>e. event_key e = k \<and> (pv_state e = Observed \<or> pv_state e = Claimed \<or> pv_state e = AsanaApplied))
        (\<lambda>e. e\<lparr>pv_state := Consumed, pv_consumed_at := Some (ek_consumed clock)\<rparr>) db1"
  have c: "consume_pull_request_event k (ek_consumed clock) db1 = Inr db2"
    using assms(1) by (simp add: consume_pull_request_event_def db2_def)
  have r: "apply_and_consume k clock s = (Inr (), s\<lparr>rx_ledger := db2\<rparr>)"
    by (simp add: apply_and_consume_def on_ledger_state_def on_ledger_def db1_def [symmetric] c)
  obtain e where e: "query_event k (rx_ledger s) = Some e" using assms(2) by blast
  have q1: "query_event j db1 = (if j = k then map_option (\<lambda>e. if pv_state e = Observed \<or> pv_state e = Claimed
      then e\<lparr>pv_state := AsanaApplied, pv_applied_at := Some (ek_applied clock)\<rparr> else e) (query_event k (rx_ledger s))
      else query_event j (rx_ledger s))" for j
    unfolding db1_def mark_pull_request_event_asana_applied_def by (rule query_event_update_at) simp
  have q2: "query_event j db2 = (if j = k then map_option (\<lambda>e. if pv_state e = Observed \<or> pv_state e = Claimed \<or> pv_state e = AsanaApplied
      then e\<lparr>pv_state := Consumed, pv_consumed_at := Some (ek_consumed clock)\<rparr> else e) (query_event k db1) else query_event j db1)" for j
    unfolding db2_def by (rule query_event_update_at) simp
  have consumed: "\<exists>e. query_event k db2 = Some e \<and> pv_state e = Consumed"
    using e by (cases "pv_state e") (simp_all add: q1 q2)
  have other: "query_event j db2 = query_event j (rx_ledger s)" if "j \<noteq> k" for j
    using that by (simp add: q1 q2)
  have rest: "tasks db2 = tasks (rx_ledger s)" "events_unique db2 = events_unique (rx_ledger s)"
    by (simp_all add: db2_def db1_def mark_pull_request_event_asana_applied_def)
  show thesis
    by (rule that [OF r]) (use consumed other rest in \<open>auto simp: event_settled_def\<close>)
qed

text \<open>With the call: consumed after a success, back to observed after a failure.\<close>

lemma with_asana_settles:
  assumes "validate_pull_request_event_key k" and "query_event k (rx_ledger s) = Some e" and "pv_state e = Claimed"
  obtains s' where "reconcile_pull_request_event_with_asana io p k clock word s = (Inr (), s')"
    and "rx_calls s' = rx_calls s @ [\<lparr>tk_event = k, tk_outcome = word,
      tk_succeeded = succeeded (ri_reconcile io p (fst (snd k)) word)\<rparr>]"
    and "\<exists>e'. query_event k (rx_ledger s') = Some e'
      \<and> pv_state e' = (if succeeded (ri_reconcile io p (fst (snd k)) word) then Consumed else Observed)"
    and "tasks (rx_ledger s') = tasks (rx_ledger s)"
    and "\<And>j. j \<noteq> k \<Longrightarrow> query_event j (rx_ledger s') = query_event j (rx_ledger s)"
    and "events_unique (rx_ledger s) \<Longrightarrow> events_unique (rx_ledger s')"
proof -
  define ok where "ok = succeeded (ri_reconcile io p (fst (snd k)) word)"
  define s1 where "s1 = s\<lparr>rx_calls := rx_calls s @ [\<lparr>tk_event = k, tk_outcome = word, tk_succeeded = ok\<rparr>]\<rparr>"
  have q: "query_event k (rx_ledger s1) \<noteq> None" using assms(2) by (simp add: s1_def)
  obtain s2 where s2: "(if ok then apply_and_consume k clock s1 else (Inr (), s1)) = (Inr (), s2)"
    and calls: "rx_calls s2 = rx_calls s1"
    and e2: "\<exists>e'. query_event k (rx_ledger s2) = Some e' \<and> pv_state e' = (if ok then Consumed else Claimed)"
    and t2: "tasks (rx_ledger s2) = tasks (rx_ledger s)"
    and other: "\<And>j. j \<noteq> k \<Longrightarrow> query_event j (rx_ledger s2) = query_event j (rx_ledger s)"
    and u2: "events_unique (rx_ledger s) \<Longrightarrow> events_unique (rx_ledger s2)"
  proof (cases ok)
    case True
    from apply_and_consume_settles [OF assms(1) q] obtain s2 where "apply_and_consume k clock s1 = (Inr (), s2)"
      "rx_calls s2 = rx_calls s1" "\<exists>e. query_event k (rx_ledger s2) = Some e \<and> pv_state e = Consumed"
      "tasks (rx_ledger s2) = tasks (rx_ledger s1)"
      "\<And>j. j \<noteq> k \<Longrightarrow> query_event j (rx_ledger s2) = query_event j (rx_ledger s1)"
      "events_unique (rx_ledger s1) \<Longrightarrow> events_unique (rx_ledger s2)" by metis
    with True that show ?thesis by (simp add: s1_def)
  next
    case False
    with assms that show ?thesis by (simp add: s1_def)
  qed
  define db3 where "db3 = update_events (\<lambda>e. event_key e = k \<and> pv_state e = Claimed)
    (\<lambda>e. e\<lparr>pv_state := Observed, pv_claimed_at := None\<rparr>) (rx_ledger s2)"
  have rel: "release_pull_request_event_claim k (rx_ledger s2) = Inr db3"
    using assms(1) by (simp add: release_pull_request_event_claim_def db3_def)
  have q3: "query_event j db3 = (if j = k then map_option (\<lambda>e. if pv_state e = Claimed
      then e\<lparr>pv_state := Observed, pv_claimed_at := None\<rparr> else e) (query_event k (rx_ledger s2))
      else query_event j (rx_ledger s2))" for j
    unfolding db3_def by (rule query_event_update_at) simp
  have e3: "\<exists>e'. query_event k db3 = Some e' \<and> pv_state e' = (if ok then Consumed else Observed)"
    using e2 by (cases ok) (auto simp: q3 simp del: map_option_eq_Some)
  have other3: "query_event j db3 = query_event j (rx_ledger s)" if "j \<noteq> k" for j
    using that other by (simp add: q3)
  have rest: "tasks db3 = tasks (rx_ledger s)" "events_unique db3 = events_unique (rx_ledger s2)"
    by (simp_all add: db3_def t2)
  have r: "reconcile_pull_request_event_with_asana io p k clock word s = (Inr (), s2\<lparr>rx_ledger := db3\<rparr>)"
    using s2 rel
    by (cases ok) (simp_all add: reconcile_pull_request_event_with_asana_def ok_def [symmetric] s1_def Let_def
        on_ledger_state_def on_ledger_def)
  show thesis
    by (rule that [OF r]) (use e3 other3 rest u2 calls in \<open>auto simp: s1_def ok_def\<close>)
qed

text \<open>Observing and claiming put the event into the phase it is handled in.\<close>

definition ticket_tables :: "ledger \<Rightarrow> task list \<times> task_workspace list \<times> continuation list" where
  "ticket_tables db = (tasks db, task_workspaces db, autonomous_continuations db)"

lemma ticket_tables_update_events [simp]: "ticket_tables (update_events P f db) = ticket_tables db"
  by (simp add: ticket_tables_def update_events_def)

lemma ticket_word_cong:
  "ticket_tables db = ticket_tables db' \<Longrightarrow> ticket_word io p k clock word required db = ticket_word io p k clock word required db'"
  by (simp add: ticket_word_def request_continuation_def ticket_tables_def delivery_candidate_def continuations_of_def
      Let_def split_beta split: work_authorization.split option.split)

lemma observe_event:
  assumes "validate_pull_request_event_key k" and "events_unique db"
  obtains new db' e where "observe_pull_request_event k now db = Inr (new, db')" and "events_unique db'"
    and "query_event k db' = Some e" and "event_phase t k db' = event_phase t k db"
    and "ticket_tables db' = ticket_tables db" and "\<And>j. j \<noteq> k \<Longrightarrow> query_event j db' = query_event j db"
proof (cases "exists_where (\<lambda>e. event_key e = k) (autonomous_pull_request_events db)")
  case True
  then obtain e where "query_event k db = Some e"
    unfolding query_event_def by (metis find_where_first not_None_eq)
  with True assms that [of False db e] show ?thesis
    by (simp add: observe_pull_request_event_def insert_event_or_ignore_def)
next
  case False
  define row where "row = \<lparr>pv_repository = fst k, pv_task_gid = fst (snd k), pv_fingerprint = snd (snd k),
          pv_state = Observed, pv_observed_at = now, pv_claimed_at = None, pv_applied_at = None, pv_consumed_at = None\<rparr>"
  define db' where "db' = db\<lparr>autonomous_pull_request_events := autonomous_pull_request_events db @ [row]\<rparr>"
  have key: "event_key row = k" by (simp add: row_def event_key_def)
  have q: "query_event k db = None" using False by (simp add: query_event_def find_where_first)
  have q': "query_event j db' = (if j = k then Some row else query_event j db)" for j
    using q key by (auto simp: query_event_def db'_def find_where_append split: option.splits)
  have "observe_pull_request_event k now db = Inr (True, db')"
    using False assms(1) by (simp add: observe_pull_request_event_def insert_event_or_ignore_def db'_def row_def)
  moreover have "events_unique db'"
    using assms(2) False key by (simp add: events_unique_def db'_def unique_key_append1)
  moreover have "event_phase t k db' = event_phase t k db"
    by (simp add: event_phase_def q q' row_def)
  ultimately show ?thesis using that [of True db' row] q' by (simp add: db'_def ticket_tables_def)
qed

lemma claim_event_phase:
  assumes "events_unique db" and "query_event k db = Some e"
  shows "case event_phase now k db of
      Settled \<Rightarrow> claim_pull_request_event k now db = (Some (pv_state e), db) \<and> (pv_state e = AsanaApplied \<or> pv_state e = Consumed)
    | Held \<Rightarrow> claim_pull_request_event k now db = (None, db)
    | Pending \<Rightarrow> \<exists>db' e'. claim_pull_request_event k now db = (Some Observed, db') \<and> events_unique db'
        \<and> query_event k db' = Some e' \<and> pv_state e' = Claimed \<and> ticket_tables db' = ticket_tables db
        \<and> (\<forall>j. j \<noteq> k \<longrightarrow> query_event j db' = query_event j db)"
proof -
  define fresh where "fresh = update_events (\<lambda>e. event_key e = k \<and> pv_state e = Observed)
    (\<lambda>e. e\<lparr>pv_state := Claimed, pv_claimed_at := Some now\<rparr>) db"
  define again where "again = update_events (\<lambda>e. event_key e = k
      \<and> stale_claim (saturating_sub now PULL_REQUEST_CLAIM_LEASE_MILLIS) e) (\<lambda>e. e\<lparr>pv_claimed_at := Some now\<rparr>) db"
  have f: "query_event j fresh = (if j = k then map_option (\<lambda>e. if pv_state e = Observed
      then e\<lparr>pv_state := Claimed, pv_claimed_at := Some now\<rparr> else e) (query_event k db) else query_event j db)" for j
    unfolding fresh_def by (rule query_event_update_at) simp
  have a: "query_event j again = (if j = k then map_option (\<lambda>e. if stale_claim (saturating_sub now PULL_REQUEST_CLAIM_LEASE_MILLIS) e
      then e\<lparr>pv_claimed_at := Some now\<rparr> else e) (query_event k db) else query_event j db)" for j
    unfolding again_def by (rule query_event_update_at) simp
  have kept: "events_unique fresh" "events_unique again" "ticket_tables fresh = ticket_tables db" "ticket_tables again = ticket_tables db"
    using assms(1) by (simp_all add: fresh_def again_def)
  note claim = claim_event_cases [OF assms(1), of k now, folded fresh_def again_def]
  show ?thesis
  proof (cases "pv_state e")
    case Claimed
    then show ?thesis using assms(2) a kept
      by (cases "stale_claim (saturating_sub now PULL_REQUEST_CLAIM_LEASE_MILLIS) e")
        (simp_all add: claim event_phase_def)
  qed (use assms(2) f kept in \<open>simp_all add: claim event_phase_def stale_claim_def\<close>)
qed

lemma request_continuation_valid:
  assumes "validate_pull_request_event_key k"
  obtains c db' where "request_continuation parse k now1 now2 db = Inr (c, db')"
    and "\<And>j. query_event j db' = query_event j db" and "events_unique db' = events_unique db"
    and "c \<noteq> ContQueued \<longrightarrow> db' = db"
proof -
  have "\<exists>c db'. request_continuation parse k now1 now2 db = Inr (c, db')
      \<and> autonomous_pull_request_events db' = autonomous_pull_request_events db"
    using assms by (cases k) (auto simp: request_continuation_def Let_def split: option.split)
  then obtain c db' where r: "request_continuation parse k now1 now2 db = Inr (c, db')"
    and e: "autonomous_pull_request_events db' = autonomous_pull_request_events db" by blast
  show thesis
    by (rule that [OF r]) (use e request_continuation_other [OF r] in \<open>simp_all add: query_event_def events_unique_def\<close>)
qed

definition settled_or_told ::
  "event_key \<Rightarrow> (string \<Rightarrow> bool) \<Rightarrow> string option \<Rightarrow> reconcile_state \<Rightarrow>
     (ledger_error, unit, reconcile_state) outcome \<Rightarrow> bool" where
  "settled_or_told k works call s r \<longleftrightarrow> fst r = Inr () \<and> events_unique (rx_ledger (snd r))
     \<and> (\<exists>e. query_event k (rx_ledger (snd r)) = Some e
          \<and> pv_state e = (case call of None \<Rightarrow> Consumed | Some w \<Rightarrow> if works w then Consumed else Observed))
     \<and> rx_calls (snd r) = rx_calls s @
         (case call of None \<Rightarrow> [] | Some w \<Rightarrow> [\<lparr>tk_event = k, tk_outcome = w, tk_succeeded = works w\<rparr>])
     \<and> (\<forall>j. j \<noteq> k \<longrightarrow> query_event j (rx_ledger (snd r)) = query_event j (rx_ledger s))"

lemma apply_settles:
  assumes "validate_pull_request_event_key k" and "query_event k (rx_ledger s) = Some e" and "events_unique (rx_ledger s)"
  shows "settled_or_told k works None s (apply_and_consume k clock s)"
  using assms by (elim apply_and_consume_settles [of k s clock]) (auto simp: settled_or_told_def)

lemma told_settles:
  assumes "validate_pull_request_event_key k" and "query_event k (rx_ledger s) = Some e" and "pv_state e = Claimed"
    and "events_unique (rx_ledger s)"
  shows "settled_or_told k (\<lambda>w. succeeded (ri_reconcile io p (fst (snd k)) w)) (Some word) s
    (reconcile_pull_request_event_with_asana io p k clock word s)"
  by (rule with_asana_settles [OF assms(1-3), of io p clock word])
    (use assms(4) in \<open>auto simp: settled_or_told_def\<close>)

lemma settled_or_told_ledger:
  assumes "settled_or_told k works call (s\<lparr>rx_ledger := db\<rparr>) r" and "\<And>j. query_event j db = query_event j (rx_ledger s)"
  shows "settled_or_told k works call s r"
  using assms by (simp add: settled_or_told_def)

lemma open_event_settles:
  assumes "validate_pull_request_event_key k" and "query_event k (rx_ledger s) = Some e" and "pv_state e = Claimed"
    and "events_unique (rx_ledger s)"
  shows "settled_or_told k (\<lambda>w. succeeded (ri_reconcile io p (fst (snd k)) w))
    (ticket_word io p k clock ''open'' True (rx_ledger s)) s (reconcile_open_event io p k clock s)"
proof (cases "continuation_authorization io p (fst (snd k))")
  case Autonomous
  obtain c db' where r: "request_continuation (ri_parse io) k (ek_requested clock) (ek_requeued clock) (rx_ledger s) = Inr (c, db')"
    and q: "\<And>j. query_event j db' = query_event j (rx_ledger s)" and u: "events_unique db' = events_unique (rx_ledger s)"
    using request_continuation_valid [OF assms(1), of "ri_parse io" "ek_requested clock" "ek_requeued clock" "rx_ledger s"] by blast
  let ?s = "s\<lparr>rx_ledger := db'\<rparr>"
  have at: "query_event k (rx_ledger ?s) = Some e" "events_unique (rx_ledger ?s)" using assms q u by simp_all
  have word: "ticket_word io p k clock ''open'' True (rx_ledger s) = (if c \<in> {ContQueued, ContDuplicate} then None else Some ''unsafe'')"
    using Autonomous r by (cases c) (simp_all add: ticket_word_def)
  have step: "reconcile_open_event io p k clock s = (if c \<in> {ContQueued, ContDuplicate} then apply_and_consume k clock ?s
      else reconcile_pull_request_event_with_asana io p k clock ''unsafe'' ?s)"
    using Autonomous r by (simp add: reconcile_open_event_def on_ledger_def)
  show ?thesis
    unfolding word step
    using settled_or_told_ledger [OF apply_settles [OF assms(1) at] q] settled_or_told_ledger [OF told_settles [OF assms(1) at(1) assms(3) at(2)] q]
    by simp
qed (use assms in \<open>simp_all add: reconcile_open_event_def ticket_word_def apply_settles told_settles\<close>)

text \<open>
  C30. The reconciliation of one event refines the event machine: with a well-formed key it never fails, moves the
  event as the machine does, tells the ticket system exactly what the machine tells it, and leaves
  every other event alone.
\<close>

theorem reconcile_refines_event_machine:
  assumes "validate_pull_request_event_key k" and "events_unique (rx_ledger s)"
  shows "case reconcile_pull_request_event io p k clock word required s of (r, s') \<Rightarrow>
    r = Inr () \<and> events_unique (rx_ledger s')
    \<and> machine_step (ticket_word io p k clock word required (rx_ledger s))
        (\<lambda>w. succeeded (ri_reconcile io p (fst (snd k)) w)) (event_phase (ek_claimed clock) k (rx_ledger s))
      = (event_phase (ek_claimed clock) k (rx_ledger s'),
         map (\<lambda>c. (tk_outcome c, tk_succeeded c)) (drop (length (rx_calls s)) (rx_calls s')))
    \<and> take (length (rx_calls s)) (rx_calls s') = rx_calls s
    \<and> (\<forall>j. j \<noteq> k \<longrightarrow> query_event j (rx_ledger s') = query_event j (rx_ledger s))"
proof -
  define now where "now = ek_claimed clock"
  define works where "works = (\<lambda>w. succeeded (ri_reconcile io p (fst (snd k)) w))"
  obtain new db1 e1 where o: "observe_pull_request_event k (ek_observed clock) (rx_ledger s) = Inr (new, db1)"
    and u1: "events_unique db1" and e1: "query_event k db1 = Some e1"
    and ph: "event_phase now k db1 = event_phase now k (rx_ledger s)"
    and tt: "ticket_tables db1 = ticket_tables (rx_ledger s)"
    and q1: "\<And>j. j \<noteq> k \<Longrightarrow> query_event j db1 = query_event j (rx_ledger s)"
    using observe_event [OF assms, where now = "ek_observed clock" and t = now] by blast
  define s1 where "s1 = s\<lparr>rx_ledger := db1\<rparr>"
  define word' where "word' = ticket_word io p k clock word required (rx_ledger s)"
  obtain state db2 where c: "claim_pull_request_event k now db1 = (state, db2)" by fastforce
  have run: "reconcile_pull_request_event io p k clock word required s =
      (case state of None \<Rightarrow> (Inr (), s1\<lparr>rx_ledger := db2\<rparr>) | Some Consumed \<Rightarrow> (Inr (), s1\<lparr>rx_ledger := db2\<rparr>)
       | Some AsanaApplied \<Rightarrow> on_ledger_state (consume_pull_request_event k (ek_consumed clock)) (s1\<lparr>rx_ledger := db2\<rparr>)
       | _ \<Rightarrow> if word = ''open'' \<and> \<not> required then apply_and_consume k clock (s1\<lparr>rx_ledger := db2\<rparr>)
         else if word = ''open'' then reconcile_open_event io p k clock (s1\<lparr>rx_ledger := db2\<rparr>)
         else reconcile_pull_request_event_with_asana io p k clock word (s1\<lparr>rx_ledger := db2\<rparr>))"
    using o c by (simp add: reconcile_pull_request_event_def on_ledger_def s1_def now_def
        split: option.split pr_event_state.split)
  note phases = claim_event_phase [OF u1 e1, of now, unfolded c]
  show ?thesis
  proof (cases "event_phase now k db1")
    case Held
    then have "state = None" "db2 = db1" using phases by simp_all
    then show ?thesis
      using u1 q1 Held ph by (simp add: run s1_def now_def)
  next
    case Settled
    then have st: "state = Some (pv_state e1)" "db2 = db1" and e: "pv_state e1 = AsanaApplied \<or> pv_state e1 = Consumed"
      using phases by simp_all
    show ?thesis
    proof (cases "pv_state e1")
      case Consumed
      then show ?thesis using u1 q1 Settled ph st by (simp add: run s1_def now_def)
    next
      case AsanaApplied
      define db3 where "db3 = update_events (\<lambda>e. event_key e = k \<and> (pv_state e = Observed \<or> pv_state e = Claimed \<or> pv_state e = AsanaApplied))
        (\<lambda>e. e\<lparr>pv_state := Consumed, pv_consumed_at := Some (ek_consumed clock)\<rparr>) db1"
      have q3: "query_event j db3 = (if j = k then map_option (\<lambda>e. if pv_state e = Observed \<or> pv_state e = Claimed \<or> pv_state e = AsanaApplied
        then e\<lparr>pv_state := Consumed, pv_consumed_at := Some (ek_consumed clock)\<rparr> else e) (query_event k db1) else query_event j db1)" for j
        unfolding db3_def by (rule query_event_update_at) simp
      have "consume_pull_request_event k (ek_consumed clock) db1 = Inr db3"
        using assms(1) by (simp add: consume_pull_request_event_def db3_def)
      moreover have "event_phase now k db3 = Settled" using e1 AsanaApplied by (simp add: event_phase_def q3)
      moreover have "events_unique db3" using u1 by (simp add: db3_def)
      ultimately show ?thesis
        using q1 q3 Settled ph st AsanaApplied
        by (simp add: run s1_def on_ledger_state_def on_ledger_def now_def [symmetric])
    qed (use e in simp_all)
  next
    case Pending
    then obtain e2 where st: "state = Some Observed" and u2: "events_unique db2"
      and e2: "query_event k db2 = Some e2" "pv_state e2 = Claimed" and tt2: "ticket_tables db2 = ticket_tables db1"
      and q2: "\<And>j. j \<noteq> k \<Longrightarrow> query_event j db2 = query_event j db1"
      using phases by auto
    let ?s = "s1\<lparr>rx_ledger := db2\<rparr>"
    have at: "query_event k (rx_ledger ?s) = Some e2" "events_unique (rx_ledger ?s)" using e2(1) u2 by simp_all
    have word: "ticket_word io p k clock word required db2 = word'"
      unfolding word'_def by (rule ticket_word_cong) (simp add: tt tt2)
    have sett: "settled_or_told k works word' ?s (reconcile_pull_request_event io p k clock word required s)"
      using apply_settles [OF assms(1) at, of works clock] told_settles [OF assms(1) at(1) e2(2) at(2), of io p word clock]
        open_event_settles [OF assms(1) at(1) e2(2) at(2), of io p clock] word
      by (simp add: run st works_def ticket_word_def split: if_splits)
    then obtain e where "query_event k (rx_ledger (snd (reconcile_pull_request_event io p k clock word required s))) = Some e"
      and "pv_state e = (case word' of None \<Rightarrow> Consumed | Some w \<Rightarrow> if works w then Consumed else Observed)"
      by (auto simp: settled_or_told_def)
    then have "event_phase now k (rx_ledger (snd (reconcile_pull_request_event io p k clock word required s)))
        = (case word' of None \<Rightarrow> Settled | Some w \<Rightarrow> if works w then Settled else phase.Pending)"
      by (simp add: event_phase_def split: option.split)
    with sett Pending ph q1 q2 show ?thesis
      unfolding word'_def [symmetric] works_def [symmetric] now_def [symmetric]
      by (cases "reconcile_pull_request_event io p k clock word required s")
        (auto simp: settled_or_told_def s1_def split: option.split)
  qed
qed

subsection \<open>At most one update of the ticket system\<close>

lemma claim_observed:
  assumes "claim_pull_request_event k now db = (Some Observed, db')"
  shows "\<exists>e. query_event k db' = Some e \<and> pv_state e = Claimed" and "\<not> event_settled k db"
proof -
  obtain e where e: "query_event k db = Some e"
    using assms by (auto simp: claim_pull_request_event_def split: option.splits)
  have st: "pv_state e = Observed \<or> stale_claim (saturating_sub now PULL_REQUEST_CLAIM_LEASE_MILLIS) e"
    using assms e by (auto simp: claim_pull_request_event_def Let_def split: if_splits)
  with assms e have "db' = (if pv_state e = Observed
      then update_events (\<lambda>e. event_key e = k \<and> pv_state e = Observed) (\<lambda>e. e\<lparr>pv_state := Claimed, pv_claimed_at := Some now\<rparr>) db
      else update_events (\<lambda>e. event_key e = k \<and> stale_claim (saturating_sub now PULL_REQUEST_CLAIM_LEASE_MILLIS) e)
        (\<lambda>e. e\<lparr>pv_claimed_at := Some now\<rparr>) db)"
    by (auto simp: claim_pull_request_event_def Let_def split: if_splits)
  with e st show "\<exists>e. query_event k db' = Some e \<and> pv_state e = Claimed"
    by (auto simp: query_event_update_at stale_claim_def)
  show "\<not> event_settled k db" using e st by (auto simp: event_settled_def stale_claim_def)
qed

lemma event_settled_reached: "event_settled k db \<longleftrightarrow> event_reached k AsanaApplied db"
  by (auto simp: event_settled_def event_reached_def pull_request_event_state_def split: option.splits)

lemma event_settled_steps:
  assumes "event_settled k (rx_ledger s)" and "event_steps s t"
  shows "event_settled k (rx_ledger t)"
proof -
  obtain e where e: "query_event k (rx_ledger s) = Some e" "pv_state e = AsanaApplied \<or> pv_state e = Consumed"
    using assms(1) by (auto simp: event_settled_def split: option.splits)
  have "event_reached k (pv_state e) (rx_ledger t)"
    using event_done.inv_reachable [of "pv_state e" k "rx_ledger s" "rx_ledger t"] assms(2) e
    by (auto simp: event_steps_def pull_request_event_state_def)
  then show ?thesis
    using e(2) by (auto simp: event_reached_def event_settled_def pull_request_event_state_def split: option.splits)
qed

lemma observe_settled:
  assumes "observe_pull_request_event k now db = Inr (new, db')" and "event_settled k db"
  shows "event_settled k db'"
  using assms by (auto simp: observe_pull_request_event_def insert_event_or_ignore_def event_settled_def query_event_def
      find_where_append split: if_splits option.splits)

text \<open>A reconciliation, and whether it told the ticket system successfully.\<close>

type_synonym reconcile_call = "reconcile_io \<times> path \<times> event_key \<times> event_clock \<times> string \<times> bool"

definition call_event :: "reconcile_call \<Rightarrow> event_key" where
  "call_event = (\<lambda>(io, p, k, clock, word, required). k)"

definition reconcile_put :: "reconcile_call \<Rightarrow> reconcile_state \<Rightarrow> bool \<times> reconcile_state" where
  "reconcile_put = (\<lambda>(io, p, k, clock, word, required) s.
     let s' = snd (reconcile_pull_request_event io p k clock word required s)
     in (list_ex tk_succeeded (drop (length (rx_calls s)) (rx_calls s')), s'))"

lemma with_asana_told:
  assumes "validate_pull_request_event_key k" and "query_event k (rx_ledger s) = Some e" and "pv_state e = Claimed"
    and "rx_calls s = cs"
    and "list_ex tk_succeeded (drop (length cs) (rx_calls (snd (reconcile_pull_request_event_with_asana io p k clock word s))))"
  shows "event_settled k (rx_ledger (snd (reconcile_pull_request_event_with_asana io p k clock word s)))"
  by (rule with_asana_settles [OF assms(1-3), of io p clock word])
    (use assms(4,5) in \<open>auto simp: event_settled_def\<close>)

lemma apply_not_told:
  "rx_calls (snd (apply_and_consume k clock s)) = rx_calls s"
  by (auto simp: apply_and_consume_def on_ledger_state_def on_ledger_def continue_def split: sum.splits)

lemma open_event_told:
  assumes "validate_pull_request_event_key k" and "query_event k (rx_ledger s) = Some e" and "pv_state e = Claimed"
    and "list_ex tk_succeeded (drop (length (rx_calls s)) (rx_calls (snd (reconcile_open_event io p k clock s))))"
  shows "event_settled k (rx_ledger (snd (reconcile_open_event io p k clock s)))"
proof (cases "continuation_authorization io p (fst (snd k))")
  case Autonomous
  obtain c db' where r: "request_continuation (ri_parse io) k (ek_requested clock) (ek_requeued clock) (rx_ledger s) = Inr (c, db')"
    and q: "\<And>j. query_event j db' = query_event j (rx_ledger s)"
    using request_continuation_valid [OF assms(1), of "ri_parse io" "ek_requested clock" "ek_requeued clock" "rx_ledger s"] by blast
  let ?s = "s\<lparr>rx_ledger := db'\<rparr>"
  have step: "reconcile_open_event io p k clock s = (if c \<in> {ContQueued, ContDuplicate} then apply_and_consume k clock ?s
      else reconcile_pull_request_event_with_asana io p k clock ''unsafe'' ?s)"
    using Autonomous r by (simp add: reconcile_open_event_def on_ledger_def)
  show ?thesis
    using assms(4) with_asana_told [of k ?s e "rx_calls s" io p clock "''unsafe''"] assms(1-3) q
    unfolding step by (auto simp: apply_not_told split: if_splits)
qed (use assms with_asana_told [of k s e "rx_calls s" io p clock "''unsafe''"] in
    \<open>auto simp: reconcile_open_event_def apply_not_told\<close>)

lemma reconcile_told:
  assumes "list_ex tk_succeeded (drop (length (rx_calls s))
      (rx_calls (snd (reconcile_pull_request_event io p k clock word required s))))"
  shows "\<not> event_settled k (rx_ledger s)
    \<and> event_settled k (rx_ledger (snd (reconcile_pull_request_event io p k clock word required s)))"
proof (cases "observe_pull_request_event k (ek_observed clock) (rx_ledger s)")
  case (Inl e)
  then show ?thesis using assms by (simp add: reconcile_pull_request_event_def on_ledger_def)
next
  case (Inr o')
  obtain new db1 where o: "o' = (new, db1)" by (cases o')
  with Inr have obs: "observe_pull_request_event k (ek_observed clock) (rx_ledger s) = Inr (new, db1)" by simp
  then have valid: "validate_pull_request_event_key k" by (auto simp: observe_pull_request_event_def split: if_splits)
  obtain state db2 where c: "claim_pull_request_event k (ek_claimed clock) db1 = (state, db2)" by fastforce
  let ?s = "s\<lparr>rx_ledger := db2\<rparr>"
  have run: "reconcile_pull_request_event io p k clock word required s =
      (case state of None \<Rightarrow> (Inr (), ?s) | Some Consumed \<Rightarrow> (Inr (), ?s)
       | Some AsanaApplied \<Rightarrow> on_ledger_state (consume_pull_request_event k (ek_consumed clock)) ?s
       | _ \<Rightarrow> if word = ''open'' \<and> \<not> required then apply_and_consume k clock ?s
         else if word = ''open'' then reconcile_open_event io p k clock ?s
         else reconcile_pull_request_event_with_asana io p k clock word ?s)"
    using obs c by (simp add: reconcile_pull_request_event_def on_ledger_def split: option.split pr_event_state.split)
  have "state = Some Observed"
  proof (rule ccontr)
    assume "state \<noteq> Some Observed"
    moreover have "state \<noteq> Some Claimed"
      using c by (auto simp: claim_pull_request_event_def Let_def split: option.splits if_splits)
    ultimately show False
      using assms by (simp add: run on_ledger_state_def on_ledger_def split: option.splits pr_event_state.splits sum.splits)
  qed
  with c have c: "claim_pull_request_event k (ek_claimed clock) db1 = (Some Observed, db2)" by simp
  obtain e where e: "query_event k (rx_ledger ?s) = Some e" "pv_state e = Claimed" using claim_observed(1) [OF c] by auto
  have "event_settled k (rx_ledger (snd (reconcile_pull_request_event io p k clock word required s)))"
    using assms with_asana_told [OF valid e, of "rx_calls s" io p clock word] open_event_told [OF valid e, of io p clock]
    unfolding run \<open>state = Some Observed\<close> by (auto simp: apply_not_told split: if_splits)
  moreover have "\<not> event_settled k (rx_ledger s)"
    using claim_observed(2) [OF c] observe_settled [OF obs] by blast
  ultimately show ?thesis by blast
qed

interpretation ticket_update: at_most_once call_event "\<lambda>s k. event_settled k (rx_ledger s)" reconcile_put
proof unfold_locales
  fix a :: reconcile_call and s j
  obtain io p k clock word required where a: "a = (io, p, k, clock, word, required)" by (cases a)
  show "fst (reconcile_put a s) \<Longrightarrow> \<not> event_settled (call_event a) (rx_ledger s)"
    and "fst (reconcile_put a s) \<Longrightarrow> event_settled (call_event a) (rx_ledger (snd (reconcile_put a s)))"
    using reconcile_told [of s io p k clock word required] by (simp_all add: a reconcile_put_def call_event_def Let_def)
  show "event_settled j (rx_ledger s) \<Longrightarrow> event_settled j (rx_ledger (snd (reconcile_put a s)))"
    using event_settled_steps [OF _ reconcile_event_steps, of j s io p k clock word required]
    by (simp add: a reconcile_put_def Let_def)
qed

text \<open>
  C31. Over any sequence of reconciliations, by whatever daemons and with whatever answers, the ticket system
  accepts at most one update for an event.
\<close>

theorem ticket_updated_once:
  "length (filter (\<lambda>(a, told). told \<and> call_event a = k) (fst (put_all reconcile_put calls s))) \<le> 1"
  by (rule ticket_update.accepted_at_most_once)

subsection \<open>A pass completes\<close>

lemma hex_pair_digits: "length (hex_pair b) = 2" "list_all is_ascii_hexdigit (hex_pair b)"
proof -
  have "list_all is_ascii_hexdigit lower_hex" by code_simp
  then have d: "is_ascii_hexdigit (lower_hex ! i)" if "i < 16" for i
    using that by (simp add: list_all_length lower_hex_def)
  show "length (hex_pair b) = 2" by (simp add: hex_pair_def)
  have "unat b < 256" using unsigned_less [of b, where ?'a = nat] by simp
  then have "unat (drop_bit 4 b) < 16" by (subst unat_drop_bit_eq) (simp add: drop_bit_eq_div)
  moreover have "b AND 15 \<le> 15" by (rule word_and_le1)
  then have "unat (b AND 15) < 16" by (simp add: word_le_nat_alt)
  ultimately show "list_all is_ascii_hexdigit (hex_pair b)" by (simp add: hex_pair_def d)
qed

lemma sha256_hex_valid:
  assumes "length (sha256 text) = 32"
  shows "length (sha256_hex sha256 text) = 64 \<and> list_all is_ascii_hexdigit (sha256_hex sha256 text)"
proof -
  have "length (encode_lower bs) = 2 * length bs \<and> list_all is_ascii_hexdigit (encode_lower bs)" for bs
    by (induction bs) (simp_all add: encode_lower_def hex_pair_digits)
  with assms show ?thesis by (simp add: sha256_hex_def)
qed

lemma event_steps_associations:
  assumes "event_steps s t"
  shows "autonomous_pull_requests (rx_ledger t) = autonomous_pull_requests (rx_ledger s)"
proof -
  have step: "pr_event_step db db' \<Longrightarrow> autonomous_pull_requests db' = autonomous_pull_requests db" for db db'
    by (erule pr_event_stepE)
      (auto simp: observe_pull_request_event_def insert_event_or_ignore_def claim_pull_request_event_def
        recover_expired_pull_request_event_claims_def release_pull_request_event_claim_def
        mark_pull_request_event_asana_applied_def consume_pull_request_event_def update_events_def
        request_continuation_def Let_def split: if_splits option.splits prod.splits)
  have "pr_event_step\<^sup>*\<^sup>* db db' \<Longrightarrow> autonomous_pull_requests db' = autonomous_pull_requests db" for db db'
    by (induction rule: rtranclp_induct) (simp_all add: step)
  then show ?thesis using assms by (simp add: event_steps_def)
qed

definition named_association :: "pr_association \<Rightarrow> bool" where
  "named_association a \<longleftrightarrow> \<not> blank (pa_repository a) \<and> \<not> blank (pa_task_gid a)"

lemma observed_event_key:
  assumes "\<And>text. length (ri_sha256 io text) = 32" and "\<not> blank repository" and "\<not> blank gid"
    and "observed_event io repository target url = (word, fingerprint, required)"
  shows "validate_pull_request_event_key (repository, gid, fingerprint)"
proof -
  obtain hashed where "fingerprint = sha256_hex (ri_sha256 io) hashed"
    using assms(4) by (auto simp: observed_event_def unsafe_event_def split: if_splits command_result.splits option.splits)
  then show ?thesis using assms(2,3) sha256_hex_valid [OF assms(1)] by (simp add: validate_pull_request_event_key_def)
qed

lemma reconcile_associations_completes:
  assumes "\<And>text. length (ri_sha256 io text) = 32" and "events_unique (rx_ledger s)"
    and "list_all named_association as" and "list_all (\<lambda>a. pa_repository a = repository) as"
  shows "fst (reconcile_associations io clock repository target as s) = Inr ()
    \<and> events_unique (rx_ledger (snd (reconcile_associations io clock repository target as s)))"
  using assms(2-)
proof (induction as arbitrary: s)
  case (Cons a as)
  obtain word fp required where ob: "observed_event io repository target (pa_pull_request a) = (word, fp, required)"
    by (cases "observed_event io repository target (pa_pull_request a)") auto
  have "validate_pull_request_event_key (repository, pa_task_gid a, fp)"
    using Cons.prems(2,3) by (intro observed_event_key [OF assms(1) _ _ ob]) (auto simp: named_association_def)
  note step = reconcile_refines_event_machine [OF this Cons.prems(1), of io "tg_path target"
      "clock (repository, pa_task_gid a, fp)" word required]
  obtain s1 where s1: "reconcile_pull_request_event io (tg_path target) (repository, pa_task_gid a, fp)
      (clock (repository, pa_task_gid a, fp)) word required s = (Inr (), s1)" and u: "events_unique (rx_ledger s1)"
    using step by (cases "reconcile_pull_request_event io (tg_path target) (repository, pa_task_gid a, fp)
      (clock (repository, pa_task_gid a, fp)) word required s") auto
  with Cons.IH [OF u] Cons.prems(2,3) ob show ?case by simp
qed simp

text \<open>
  C32. A pass of the reconciliation always completes: when every association names its repository and ticket,
  no observation, no failing client and no answer of the ticket system stops it, and the
  events keep their primary key. A pass that finds another one under way does nothing.
\<close>

theorem reconciliation_completes:
  assumes "\<And>text. length (ri_sha256 io text) = 32" and "events_unique (rx_ledger s)"
    and "list_all named_association (autonomous_pull_requests (rx_ledger s))"
  shows "fst (reconcile_pull_request_observations io clock ts locked s) = Inr ()
    \<and> events_unique (rx_ledger (snd (reconcile_pull_request_observations io clock ts locked s)))
    \<and> (locked \<longrightarrow> snd (reconcile_pull_request_observations io clock ts locked s) = s)"
proof -
  have "fst (reconcile_targets io clock ts s) = Inr () \<and> events_unique (rx_ledger (snd (reconcile_targets io clock ts s)))"
    using assms(2,3)
  proof (induction ts arbitrary: s)
    case (Cons t ts)
    obtain repository target where t: "t = (repository, target)" by (cases t)
    let ?as = "pull_request_associations repository (rx_ledger s)"
    have "list_all named_association ?as" "list_all (\<lambda>a. pa_repository a = repository) ?as"
      using Cons.prems(2) by (auto simp: pull_request_associations_def list_all_iff)
    note ih = reconcile_associations_completes [OF assms(1) Cons.prems(1) this, of clock target]
    obtain s1 where s1: "reconcile_associations io clock repository target ?as s = (Inr (), s1)"
      and u: "events_unique (rx_ledger s1)" using ih by (cases "reconcile_associations io clock repository target ?as s") auto
    have "autonomous_pull_requests (rx_ledger s1) = autonomous_pull_requests (rx_ledger s)"
      using event_steps_associations [OF reconcile_associations_steps [of s io clock repository target ?as]] s1 by simp
    with Cons.IH [OF u] Cons.prems(2) s1 show ?case by (simp add: t)
  qed simp
  then show ?thesis using assms(2) by (simp add: reconcile_pull_request_observations_def)
qed

text \<open>Its continuations stay bounded, whatever the providers answer.\<close>

theorem reconciliation_keeps_bound:
  assumes "continuations_bounded (rx_ledger s)"
  shows "continuations_of repository gid (rx_ledger (snd (reconcile_pull_request_observations io clock ts locked s))) \<le> 3"
proof -
  have "event_steps s (snd (reconcile_pull_request_observations io clock ts locked s))"
    using reconcile_targets_steps rx.related_refl by (simp add: reconcile_pull_request_observations_def)
  then have "continuations_bounded (rx_ledger (snd (reconcile_pull_request_observations io clock ts locked s)))"
    using bounded.inv_reachable [OF assms] by (simp add: event_steps_def)
  then show ?thesis by (simp add: continuations_bounded_def)
qed

subsection \<open>What a fingerprint identifies\<close>

text \<open>
  The hashed text of an observation determines what was observed, and only that: two trusted
  observations have the same text exactly when state and commit agree and the reviews are the same up to
  their order. \<open>print\<close> writes a JSON value on one line.
\<close>

definition review_text :: "(json \<Rightarrow> string) \<Rightarrow> json list \<Rightarrow> string" where
  "review_text print reviews = join ''\<newline>'' (sort (map print reviews))"

lemma review_text_iff:
  assumes "\<And>v. print v \<noteq> []" and "\<And>v. CHR ''\<newline>'' \<notin> set (print v)"
  shows "review_text print xs = review_text print ys \<longleftrightarrow> mset (map print xs) = mset (map print ys)"
proof
  assume eq: "review_text print xs = review_text print ys"
  have sp: "split (CHR ''\<newline>'') (review_text print zs) = sort (map print zs)" if "zs \<noteq> []" for zs
  proof -
    have "length (sort (map print zs)) \<noteq> 0" using that by simp
    then have "sort (map print zs) \<noteq> []" by (metis list.size(3))
    moreover have "\<forall>w\<in>set (sort (map print zs)). CHR ''\<newline>'' \<notin> set w" using assms(2) by auto
    ultimately show ?thesis unfolding review_text_def by (rule split_join)
  qed
  have empty: "review_text print zs = [] \<longleftrightarrow> zs = []" for zs
  proof (cases "sort (map print zs)")
    case Nil
    then have "length (sort (map print zs)) = 0" by (simp del: length_sort)
    then have "zs = []" by simp
    then show ?thesis using Nil by (simp add: review_text_def)
  next
    case (Cons w ws)
    then have "w \<in> set (sort (map print zs))" by simp
    then have "w \<noteq> []" using assms(1) by auto
    moreover have "zs \<noteq> []" using Cons by auto
    ultimately show ?thesis using Cons join_Cons_first [of "''\<newline>''" _ _ ws]
      by (cases w) (auto simp: review_text_def)
  qed
  show "mset (map print xs) = mset (map print ys)"
  proof (cases "xs = []")
    case True
    with eq empty [of ys] empty [of xs] have "ys = []" by simp
    with True show ?thesis by simp
  next
    case False
    with eq empty have "ys \<noteq> []" by metis
    with False eq sp have "sort (map print xs) = sort (map print ys)" by metis
    then show ?thesis by (metis mset_sort)
  qed
next
  assume "mset (map print xs) = mset (map print ys)"
  then have "sort (map print xs) = sort (map print ys)"
    by (intro properties_for_sort) simp_all
  then show "review_text print xs = review_text print ys" by (simp add: review_text_def)
qed

theorem observation_text_identifies:
  assumes "state \<in> {''merged'', ''closed'', ''open''}" and "state' \<in> {''merged'', ''closed'', ''open''}"
    and "valid_head head" and "valid_head head'"
  shows "observation_text state head reviews = observation_text state' head' reviews' \<longleftrightarrow>
    state = state' \<and> head = head' \<and> reviews = reviews'"
  using assms by (auto simp: observation_text_def valid_head_def)

end
