(* ===== verification/Workspace_Lifecycle.thy ===== *)
theory Workspace_Lifecycle
  imports Workspace_Protocol Daemon_Change_Requests
begin

text \<open>
  A workspace from its preparation to its end: what a run is given to work in, how an ended task leaves its
  workspace, and the consequence, for continuations, of the rows the daemon writes.
\<close>

subsection \<open>The end of a workspace\<close>

lemma set_workspace_effect:
  assumes "set_workspace io i state summary s = (Inr u, s')"
  obtains now w where "query_task_workspace i (ht_ledger s) = Some w"
    and "query_task_workspace i (ht_ledger s') = Some (set_workspace_state state summary now w)"
    and "runs (ht_ledger s') = runs (ht_ledger s)" and "tasks (ht_ledger s') = tasks (ht_ledger s)"
    and "autonomous_continuations (ht_ledger s') = autonomous_continuations (ht_ledger s)"
    and "task_workspaces (ht_ledger s') = update_where (\<lambda>w. w_task_id w = i) (set_workspace_state state summary now)
       (task_workspaces (ht_ledger s))"
proof -
  obtain now where u: "update_task_workspace_state i state summary now (ht_ledger s) = Inr (ht_ledger s')"
    using assms by (auto simp: set_workspace_def set_ledger_def split: sum.splits)
  have one: "count_where (\<lambda>w. w_task_id w = i) (task_workspaces (ht_ledger s)) = 1"
    and new: "ht_ledger s' = (ht_ledger s)\<lparr>task_workspaces := update_where (\<lambda>w. w_task_id w = i)
      (set_workspace_state state summary now) (task_workspaces (ht_ledger s))\<rparr>"
    using u by (auto simp: update_task_workspace_state_def Let_def split: if_splits)
  have conts: "autonomous_continuations (ht_ledger s') = autonomous_continuations (ht_ledger s)" by (simp add: new)
  have "exists_where (\<lambda>w. w_task_id w = i) (task_workspaces (ht_ledger s))"
    using one count_where_pos [of "\<lambda>w. w_task_id w = i" "task_workspaces (ht_ledger s)"] by simp
  then obtain w where w: "query_task_workspace i (ht_ledger s) = Some w"
    unfolding query_task_workspace_def using find_where_first by (metis not_Some_eq)
  moreover have "query_task_workspace i (ht_ledger s') = Some (set_workspace_state state summary now w)"
    using w query_workspace_row [OF w]
    by (simp add: query_task_workspace_def update_state_effect(1) [OF u] find_where_update)
  ultimately show ?thesis using that conts update_state_effect [OF u] by blast
qed

definition workspace_in :: "string set \<Rightarrow> int \<Rightarrow> host \<Rightarrow> bool" where
  "workspace_in states i s \<longleftrightarrow> (\<exists>w. query_task_workspace i (ht_ledger s) = Some w \<and> w_state w \<in> states)"

lemma set_workspace_in [return_rules]:
  "state \<in> states \<Longrightarrow> returns (\<lambda>_. workspace_in states i) (set_workspace io i state summary s)"
  unfolding returns_def
  by (intro allI impI, erule set_workspace_effect) (auto simp: workspace_in_def set_workspace_state_def)

lemma retain_workspace_in [return_rules]:
  "''retained'' \<in> states \<Longrightarrow> returns (\<lambda>_. workspace_in states (w_task_id w)) (retain_workspace io w summary s)"
  unfolding retain_workspace_def by (rule set_workspace_in)

lemma finalized_proposal: "returns (\<lambda>_. workspace_in {''cleaned''} (w_task_id w)) (finalize_proposal io m cm w s)"
  unfolding finalize_proposal_def by (intro return_rules) simp_all

lemma finalized_delivery:
  "returns (\<lambda>_. workspace_in {''cleaned'', ''retained''} (w_task_id w)) (finalize_delivery io m cm token task w s)"
  unfolding finalize_delivery_def settle_delivery_def by (intro return_rules) simp_all

text \<open>
  When the workspace of an ended task has been settled, the ledger says so: a proposal is cleaned, a delivery
  cleaned or retained, and neither is left as pending.
\<close>

theorem finalized_workspace_settled:
  assumes "finalize_task_workspace io owner task_id token s = (Inr (), s')"
    and "query_task task_id (ht_ledger s) = Some task" and "is_terminal (t_state task)"
    and "query_task_workspace task_id (ht_ledger s) = Some w"
  shows "owns owner (ht_ledger s) w
    \<and> workspace_in (if w_kind w = ''proposal'' then {''cleaned''} else {''cleaned'', ''retained''}) task_id s'"
proof -
  let ?states = "if w_kind w = ''proposal'' then {''cleaned''} else {''cleaned'', ''retained''}"
  have id: "w_task_id w = task_id" using query_workspace_row [OF assms(4)] by simp
  have "returns (\<lambda>_ s'. owns owner (ht_ledger s) w \<and> workspace_in ?states (w_task_id w) s')
      (finalize_task_workspace io owner task_id token s)"
    unfolding finalize_task_workspace_def assms(2,4) ok_or_simps pure_eq continue_simps
    using assms(3) finalized_proposal finalized_delivery owner_resolved
    by (intro return_rules) (auto simp: returns_def simp del: is_terminal.simps)
  from returnsD [OF this assms(1)] show ?thesis by (simp add: id)
qed

subsection \<open>What a run is given\<close>

definition run_placed :: "int \<Rightarrow> path \<Rightarrow> task_workspace \<Rightarrow> host \<Rightarrow> bool" where
  "run_placed run_id p w s \<longleftrightarrow> (\<exists>r\<in>set (runs (ht_ledger s)). r_id r = run_id \<and> r_outcome r = run_outcome.Running
     \<and> r_working_directory r = Some (path_text p) \<and> r_base_branch r = Some (w_base_branch w)
     \<and> r_base_sha r = Some (w_base_sha w) \<and> r_factory_branch r = w_factory_branch w)"

definition workspace_entered :: "task \<Rightarrow> int \<Rightarrow> repository_target \<Rightarrow> task_workspace \<Rightarrow> repository_target \<Rightarrow> host \<Rightarrow> bool" where
  "workspace_entered task run_id target w target' s \<longleftrightarrow>
     target' = target\<lparr>tg_path := path_of (w_path w)\<rparr> \<and> run_placed run_id (tg_path target') w s
     \<and> (\<exists>w'. query_task_workspace (t_id task) (ht_ledger s) = Some w' \<and> same_workspace w' w \<and> w_state w' = ''ready'')"

lemma enter_workspace_returns:
  assumes "query_task_workspace (t_id task) (ht_ledger s) = Some w"
  shows "returns (\<lambda>target' s'. p = path_of (w_path w) \<and> workspace_entered task run_id target w target' s')
    (enter_workspace io target task run_id kind w p branch base sha s)"
  unfolding returns_def
proof (intro allI impI)
  fix target' s'
  assume r: "enter_workspace io target task run_id kind w p branch base sha s = (Inr target', s')"
  then obtain s1 where m: "p = path_of (w_path w)" "branch = w_factory_branch w" "base = w_base_branch w" "sha = w_base_sha w"
    and state: "set_workspace io (t_id task) ''ready'' None s = (Inr (), s1)"
    and place: "set_ledger (record_run_workspace run_id (path_text p) base sha branch kind) s1 = (Inr (), s')"
    and t: "target' = target\<lparr>tg_path := p\<rparr>"
    by (auto simp: enter_workspace_def matches_reservation_def result_simps split: if_splits)
  from state obtain now w1 where row: "query_task_workspace (t_id task) (ht_ledger s) = Some w1"
    "query_task_workspace (t_id task) (ht_ledger s1) = Some (set_workspace_state ''ready'' None now w1)"
    by (rule set_workspace_effect)
  from place obtain db where rec: "record_run_workspace run_id (path_text p) base sha branch kind (ht_ledger s1) = Inr db"
    and s': "s' = s1\<lparr>ht_ledger := db\<rparr>" by (auto simp: set_ledger_def split: sum.splits)
  have one: "count_where (\<lambda>r. r_id r = run_id \<and> r_outcome r = run_outcome.Running) (runs (ht_ledger s1)) = 1"
    using rec by (auto simp: record_run_workspace_def update_running_run_def split: if_splits)
  then obtain r where run: "r \<in> set (runs (ht_ledger s1))" "r_id r = run_id" "r_outcome r = run_outcome.Running"
    using count_where_pos [of "\<lambda>r. r_id r = run_id \<and> r_outcome r = run_outcome.Running" "runs (ht_ledger s1)"]
    by (auto simp: exists_where_iff)
  obtain f where f: "f = (\<lambda>r. r\<lparr>r_working_directory := Some (path_text p), r_base_branch := Some base,
      r_base_sha := Some sha, r_factory_branch := branch, r_workspace_kind := Some kind\<rparr> :: run)" by blast
  have "runs db = update_where (\<lambda>r. r_id r = run_id \<and> r_outcome r = run_outcome.Running) f (runs (ht_ledger s1))"
    using rec by (auto simp: record_run_workspace_def update_running_run_def f split: if_splits)
  with run have "f r \<in> set (runs db)" by (auto simp: set_update_where intro: rev_image_eqI)
  then have "run_placed run_id p w s'"
    unfolding run_placed_def by (intro bexI [of _ "f r"]) (simp_all add: f s' m run)
  moreover have "query_task_workspace (t_id task) (ht_ledger s') = query_task_workspace (t_id task) (ht_ledger s1)"
    using rec by (auto simp: s' query_task_workspace_def record_run_workspace_def update_running_run_def split: if_splits)
  ultimately show "p = path_of (w_path w) \<and> workspace_entered task run_id target w target' s'"
    using row assms m t by (simp add: workspace_entered_def set_workspace_state_def same_workspace_def)
qed

lemma reserve_workspace_returns:
  assumes "existing = query_task_workspace (t_id task) (ht_ledger s)"
  shows "returns (\<lambda>w s'. query_task_workspace (t_id task) (ht_ledger s') = Some w
     \<and> (existing = Some w \<and> w_state w \<noteq> ''cleaned''
        \<or> existing = None \<and> (\<exists>base sha. same_workspace w (task_workspace_candidate task root sandboxed base sha))))
    (reserve_workspace io m target root task sandboxed existing s)"
  unfolding reserve_workspace_def
proof (intro return_rules)
  fix base_branch s1 base_sha s2 confirmed s3 p w db
  assume none: "existing = None" and p: "p = (w, db)"
    and steps: "reserve_task_workspace (task_workspace_candidate task root sandboxed base_branch base_sha) (hi_now io s3) (ht_ledger s3) = Inr p"
  let ?c = "task_workspace_candidate task root sandboxed base_branch base_sha"
  have id: "w_task_id ?c = t_id task" by (simp add: task_workspace_candidate_def)
  have "query_task_workspace (t_id task) db = Some w \<and> same_workspace w ?c"
    using reserve_task_workspace_spec [where w = "?c" and now = "hi_now io s3" and db = "ht_ledger s3"] steps
    by (simp add: p id)
  then show "query_task_workspace (t_id task) (ht_ledger (s3\<lparr>ht_ledger := db\<rparr>)) = Some w
     \<and> (existing = Some w \<and> w_state w \<noteq> ''cleaned''
        \<or> existing = None \<and> (\<exists>base sha. same_workspace w (task_workspace_candidate task root sandboxed base sha)))"
    using none by auto
qed (use assms in simp_all)

text \<open>Where git has put it: a checked clone of the repository at the reserved base, or a managed worktree.\<close>

definition placed_by_git :: "host_io \<Rightarrow> repository_target \<Rightarrow> path \<Rightarrow> bool \<Rightarrow> task_workspace \<Rightarrow> bool" where
  "placed_by_git io target root sandboxed w \<longleftrightarrow>
     (if sandboxed then \<exists>cm. checked_clone (hi_outside io) cm (path_of (w_path w))
          \<and> cl_provider cm = tg_provider target \<and> origin_of (hi_outside io) cm (path_of (w_path w)) (w_repository w)
          \<and> base_of (hi_outside io) cm (path_of (w_path w)) (w_base_sha w)
      else \<exists>m t t'. manager_new (hi_outside io) (tg_path target) root t = (Inr m, t') \<and> managed_path m (path_of (w_path w)))"

lemma outside_step_value: "outside_step f op s = (Inr v, s') \<longleftrightarrow> (\<exists>t. op (ht_trace s) = (Inr v, t) \<and> s' = s\<lparr>ht_trace := t\<rparr>)"
  by (cases "op (ht_trace s)") (auto simp: outside_step_def result_simps)

lemma enter_worktree_returns:
  assumes "query_task_workspace (t_id task) (ht_ledger s) = Some w"
  shows "returns (\<lambda>target' s'. workspace_entered task run_id target w target' s' \<and> managed_path m (path_of (w_path w)))
    (enter_worktree io m target task run_id reuse w s)"
  unfolding enter_worktree_def
proof (rule returns_continue)
  fix ws s1
  assume "(if w_factory_branch w \<noteq> None
       then continue (pure (map_err WorkSummary (ticket_summary_of (hi_parse io) task)) s) (\<lambda>ticket s.
         on_tree (prepare_delivery (hi_outside io) m (su_number ticket) (su_title ticket)
           (w_base_branch w) (w_base_sha w) reuse) s)
       else on_tree (Workspace_Manager.prepare_proposal (hi_outside io) m (t_id task)
           (w_base_branch w) (w_base_sha w) reuse) s) = (Inr ws, s1)"
  then have l1: "ht_ledger s1 = ht_ledger s"
    and "(\<exists>issue title t t'. prepare_delivery (hi_outside io) m issue title (w_base_branch w) (w_base_sha w) reuse t = (Inr ws, t'))
      \<or> (\<exists>t t'. Workspace_Manager.prepare_proposal (hi_outside io) m (t_id task) (w_base_branch w) (w_base_sha w) reuse t = (Inr ws, t'))"
    by (auto simp: result_simps outside_step_value split: if_splits)
  then have "managed_path m (ws_path ws)"
    by (auto simp: workspace_of_def dest!: prepared_delivery prepared_proposal)
  then have managed: "managed_path m (ws_path ws)" .
  have row: "query_task_workspace (t_id task) (ht_ledger s1) = Some w" using assms l1 by simp
  show "returns (\<lambda>target' s'. workspace_entered task run_id target w target' s' \<and> managed_path m (path_of (w_path w)))
     (enter_workspace io target task run_id (w_kind w) w (ws_path ws) (ws_branch ws) (ws_base_branch ws) (ws_base_sha ws) s1)"
    by (rule returns_mono [OF enter_workspace_returns [OF row]]) (use managed in simp)
qed

lemma with_forge_provider: "with_forge o' root provider t = (Inr cm, t') \<Longrightarrow> cl_provider cm = provider"
  by (auto simp: with_forge_def result_simps)

lemma enter_clone_returns:
  assumes "query_task_workspace (t_id task) (ht_ledger s) = Some w" and "w_repository w = t_repository task"
  shows "returns (\<lambda>target' s'. workspace_entered task run_id target w target' s' \<and> placed_by_git io target root' True w)
    (enter_clone io target root task run_id token w s)"
  unfolding enter_clone_def
proof (intro returns_continue)
  fix v s1 cm s2 c s3
  assume tok: "pure (ok_or NoTokenSource token) s = (Inr v, s1)"
    and cm: "on_clone (with_forge (hi_outside io) root (tg_provider target)) s1 = (Inr cm, s2)"
    and c: "(if w_factory_branch w \<noteq> None
       then continue (pure (map_err WorkSummary (ticket_summary_of (hi_parse io) task)) s2) (\<lambda>ticket s.
         on_clone (prepare (hi_outside io) cm (t_repository task) (t_id task) (su_number ticket) (su_title ticket)
           (w_base_branch w) (w_base_sha w) True v) s)
       else on_clone (prepare_proposal_clone (hi_outside io) cm (t_repository task) (t_id task)
           (w_base_branch w) (w_base_sha w) v) s2) = (Inr c, s3)"
  have provider: "cl_provider cm = tg_provider target" and l2: "ht_ledger s2 = ht_ledger s"
    using cm tok with_forge_provider by (auto simp: outside_step_value)
  have "\<exists>issue title implementation t t'. prepare (hi_outside io) cm (t_repository task) (t_id task) issue title
      (w_base_branch w) (w_base_sha w) implementation v t = (Inr c, t')" and l3: "ht_ledger s3 = ht_ledger s2"
    using c by (auto simp: result_simps outside_step_value prepare_proposal_clone_def split: if_splits) blast+
  then have clone: "checked_clone (hi_outside io) cm (sc_path c)" "origin_of (hi_outside io) cm (sc_path c) (t_repository task)"
      "base_of (hi_outside io) cm (sc_path c) (w_base_sha w)"
    by (auto dest!: prepare_steps)
  have row: "query_task_workspace (t_id task) (ht_ledger s3) = Some w" using assms(1) l2 l3 by simp
  show "returns (\<lambda>target' s'. workspace_entered task run_id target w target' s' \<and> placed_by_git io target root' True w)
      (enter_workspace io target task run_id (if w_kind w = ''delivery'' then ''delivery'' else ''proposal'')
        w (sc_path c) (sc_branch c) (sc_base_branch c) (sc_base_sha c) s3)"
    by (rule returns_mono [OF enter_workspace_returns [OF row]])
      (use clone provider assms(2) in \<open>auto simp: placed_by_git_def\<close>)
qed


subsection \<open>Continuations of the daemon's workspaces\<close>

text \<open>Workspaces without a branch of their own, and no continuation so far: what a fresh ledger holds.\<close>

definition branchless :: "host \<Rightarrow> bool" where
  "branchless s \<longleftrightarrow> list_all (\<lambda>w. w_factory_branch w = None) (task_workspaces (ht_ledger s))
     \<and> autonomous_continuations (ht_ledger s) = []"

definition stays_branchless :: "host \<Rightarrow> host \<Rightarrow> bool" where
  "stays_branchless s s' \<longleftrightarrow> (branchless s \<longrightarrow> branchless s')"

interpretation branchless: step_relation stays_branchless
  by unfold_locales (auto simp: stays_branchless_def)

lemma branchless_ledger: "ht_ledger s' = ht_ledger s \<Longrightarrow> stays_branchless s s'"
  by (simp add: stays_branchless_def branchless_def)

lemma branchless_update: "update_task_workspace_state i state summary now db = Inr db' \<Longrightarrow>
    stays_branchless s (s\<lparr>ht_ledger := db'\<rparr>)" if "ht_ledger s = db"
  using that by (auto simp: stays_branchless_def branchless_def update_task_workspace_state_def Let_def
      list_all_iff update_where_def set_workspace_state_def split: if_splits)

lemma branchless_host_step: "host_step R I s s' \<Longrightarrow> stays_branchless s s'"
  by (erule host_step.cases) (auto intro: branchless_update branchless_ledger)

lemma branchless_host_steps: "host_steps R I s s' \<Longrightarrow> stays_branchless s s'"
  by (induction rule: rtranclp_induct)
    (auto intro: branchless.related_refl branchless.related_trans branchless_host_step)

lemma branchless_outside: "stays_branchless s (snd (outside_step f op s))"
  by (rule branchless_ledger) (simp add: outside_step_def)

lemma branchless_enter: "stays_branchless s (snd (enter_workspace io target task run_id kind w p branch base sha s))"
proof -
  have "stays_branchless s1 (snd (set_ledger (record_run_workspace run_id d base sha branch kind) s1))" for s1 d
    by (auto simp: set_ledger_def stays_branchless_def branchless_def record_run_workspace_def update_running_run_def
        split: sum.splits if_splits)
  moreover have "stays_branchless s (snd (set_workspace io (t_id task) ''ready'' None s))"
    using branchless_host_steps [OF host_set_workspace [OF UNIV_I]] .
  ultimately show ?thesis
    unfolding enter_workspace_def
    by (auto intro!: branchless.after_continue simp: branchless.related_refl)
qed

lemma branchless_reserve:
  "stays_branchless s (snd (reserve_workspace io m target root task sandboxed existing s))"
proof -
  have "stays_branchless s1 (s1\<lparr>ht_ledger := db\<rparr>)"
    if "reserve_task_workspace (task_workspace_candidate task root sandboxed b sha) now (ht_ledger s1) = Inr (w, db)"
    for b sha now s1 w db
    using that
  proof (cases rule: reserve_cases)
    case existing
    then show ?thesis by (simp add: stays_branchless_def)
  next
    case new
    then show ?thesis by (simp add: stays_branchless_def branchless_def task_workspace_candidate_def)
  qed
  then show ?thesis
    unfolding reserve_workspace_def
    by (auto intro!: branchless.after_continue branchless_outside simp: branchless.related_refl split: option.splits sum.splits)
qed

text \<open>
  What happens to the ledger between two requests for a continuation: workspaces are prepared and settled,
  continuations are requested, and everything else leaves both tables alone.
\<close>

inductive daemon_life :: "host \<Rightarrow> host \<Rightarrow> bool" where
  prepare_run: "daemon_life s (snd (prepare_task_workspace io target identity root task run_id sandboxed token s))"
| settle: "host_steps R UNIV s s' \<Longrightarrow> daemon_life s s'"
| continue_work: "request_continuation parse k now1 now2 (ht_ledger s) = Inr (c, db) \<Longrightarrow>
     daemon_life s (s\<lparr>ht_ledger := db\<rparr>)"
| elsewhere: "task_workspaces (ht_ledger s') = task_workspaces (ht_ledger s) \<Longrightarrow>
     autonomous_continuations (ht_ledger s') = autonomous_continuations (ht_ledger s) \<Longrightarrow> daemon_life s s'"

inductive_cases daemon_lifeE: "daemon_life s s'"

lemma branchless_prepare:
  "stays_branchless s (snd (prepare_task_workspace io target identity workspace_root task run_id sandboxed token s))"
proof -
  have set: "stays_branchless s1 (snd (set_workspace io i state summary s1))" for s1 i state summary
    using branchless_host_steps [OF host_set_workspace [OF UNIV_I]] .
  have pure: "stays_branchless s1 (snd (pure r s1))" for r :: "work_error + 'x" and s1
    by (simp add: branchless.related_refl)
  note steps = branchless.after_continue branchless_outside branchless_enter branchless_reserve set pure
  have enter: "stays_branchless s1 (snd (enter_worktree io m target task run_id reuse w s1))"
    "stays_branchless s1 (snd (enter_clone io target r task run_id token w s1))" for s1 m reuse w r
    unfolding enter_worktree_def enter_clone_def by (auto intro!: steps simp: branchless.related_refl)
  show ?thesis
    unfolding prepare_task_workspace_def Let_def
    by (auto intro!: steps enter simp: branchless.related_refl split: option.split)
qed

lemma branchless_unsafe:
  assumes "branchless s" and "request_continuation parse k now1 now2 (ht_ledger s) = Inr (c, db)"
  shows "c = ContUnsafe \<and> db = ht_ledger s"
proof -
  have "\<not> continuable parse t w" if "delivery_candidate r g (ht_ledger s) = Some (t, w)" for t w r g
  proof -
    from that have "w \<in> set (task_workspaces (ht_ledger s))"
      by (auto simp: delivery_candidate_def bind_eq_Some_conv dest: find_where_SomeD)
    with assms(1) show ?thesis by (auto simp: branchless_def list_all_iff continuable_def)
  qed
  moreover have "autonomous_continuations (ht_ledger s) = []" using assms(1) by (simp add: branchless_def)
  ultimately show ?thesis
    using assms(2) by (cases k) (auto simp: request_continuation_def exists_where_def split: if_splits option.splits)
qed

lemma branchless_life:
  assumes "daemon_life s s'"
  shows "stays_branchless s s'"
  using assms
proof (rule daemon_lifeE)
  fix parse k now1 now2 c db
  assume s': "s' = s\<lparr>ht_ledger := db\<rparr>" and r: "request_continuation parse k now1 now2 (ht_ledger s) = Inr (c, db)"
  have "branchless s \<Longrightarrow> s' = s" using branchless_unsafe [OF _ r] s' by simp
  then show ?thesis by (simp add: stays_branchless_def)
next
  assume "task_workspaces (ht_ledger s') = task_workspaces (ht_ledger s)"
    "autonomous_continuations (ht_ledger s') = autonomous_continuations (ht_ledger s)"
  then show ?thesis by (simp add: stays_branchless_def branchless_def)
qed (simp_all add: branchless_prepare branchless_host_steps)

text \<open>
  C23. A daemon that starts on a fresh ledger never continues an implementation: the workspaces it reserves carry
  no branch, no operation gives them one, and a continuation is only queued for a workspace that has one.
  Every request is answered as unsafe and changes nothing.
\<close>

theorem daemon_workspaces_never_continue:
  assumes "branchless s" and "daemon_life\<^sup>*\<^sup>* s s'"
    and "request_continuation parse k now1 now2 (ht_ledger s') = Inr (c, db)"
  shows "c = ContUnsafe \<and> db = ht_ledger s'"
proof -
  from assms(2) have "stays_branchless s s'"
    by (induction rule: rtranclp_induct)
      (auto intro: branchless.related_refl branchless.related_trans branchless_life)
  then show ?thesis using branchless_unsafe assms(1,3) by (auto simp: stays_branchless_def)
qed

text \<open>
  So a change request that its ticket marks for autonomous work, and that needs more of it, is reported to the
  ticket as unsafe instead.
\<close>

theorem autonomous_work_reported_unsafe:
  assumes "branchless s" and "rx_ledger x = ht_ledger s" and "validate_pull_request_event_key k"
    and "continuation_authorization io p (fst (snd k)) = Autonomous"
  shows "\<exists>ok. rx_calls (snd (reconcile_open_event io p k clock x)) =
    rx_calls x @ [\<lparr>tk_event = k, tk_outcome = ''unsafe'', tk_succeeded = ok\<rparr>]"
proof -
  obtain c db where r: "request_continuation (ri_parse io) k (ek_requested clock) (ek_requeued clock) (rx_ledger x) = Inr (c, db)"
    using request_continuation_valid [OF assms(3), of "ri_parse io" "ek_requested clock" "ek_requeued clock" "rx_ledger x"] by blast
  then have c: "c = ContUnsafe" "db = rx_ledger x"
    using branchless_unsafe [OF assms(1), of "ri_parse io" k "ek_requested clock" "ek_requeued clock" c db] assms(2) by simp_all
  then have "reconcile_open_event io p k clock x = reconcile_pull_request_event_with_asana io p k clock ''unsafe'' x"
    using r assms(4) by (simp add: reconcile_open_event_def on_ledger_def)
  then show ?thesis
    by (auto simp: reconcile_pull_request_event_with_asana_def apply_and_consume_def on_ledger_state_def on_ledger_def
        continue_def Let_def split: sum.split prod.split)
qed

end
