(* ===== verification/Workspace_Examples.thy ===== *)
theory Workspace_Examples
  imports Workspace_Lifecycle Ledger_Examples
begin

text \<open>
  Workspaces at work: a git and a file system that answer by the arguments of a command, a repository with one
  proposal worktree, and the theorems about managers and daemon applied to them.
\<close>

subsection \<open>An outside\<close>

definition ex_repository :: path where "ex_repository = [RootDir, Normal ''r'']"
definition ex_root :: path where "ex_root = [RootDir, Normal ''w'']"
definition ex_proposal :: path where "ex_proposal = [RootDir, Normal ''w'', Normal ''proposal-1'']"
definition ex_base :: string where "ex_base = replicate 40 (CHR ''a'')"
definition ex_lines :: "string list \<Rightarrow> string" where "ex_lines ls = concat (map (\<lambda>l. l @ ''\<newline>'') ls)"

definition ex_listed :: string where
  "ex_listed = ex_lines [''worktree /r'', ''branch refs/heads/main'', '''', ''worktree /w/proposal-1'', ''detached'', '''']"

definition ex_answer :: "string \<Rightarrow> string list \<Rightarrow> run_result" where
  "ex_answer listed args =
     (if args = [''rev-parse'', ''--show-toplevel''] then Exited (Some 0) (Some ''/r'')
      else if args = [''worktree'', ''list'', ''--porcelain''] then Exited (Some 0) (Some listed)
      else if take 1 args = [''show-ref''] then Exited (Some 1) (Some '''')
      else if take 1 args = [''ls-remote''] then Exited (Some 2) (Some '''')
      else if take 1 args = [''rev-parse''] then Exited (Some 0) (Some ex_base)
      else if take 2 args = [''remote'', ''get-url''] then Exited (Some 0) (Some ''https://github.com/a/b.git'')
      else if take 2 args = [''repo'', ''view''] then Exited (Some 0) (Some ''main'')
      else Exited (Some 0) (Some ''''))"

definition ex_outside :: "string \<Rightarrow> bool \<Rightarrow> outside" where
  "ex_outside listed present = \<lparr>o_run = (\<lambda>_ c. ex_answer listed (cm_args c)), o_exists = (\<lambda>_ _. present),
     o_directory = (\<lambda>_ _. True), o_symlink = (\<lambda>_ _. False), o_canonical = (\<lambda>_ p. Some p),
     o_entries = (\<lambda>_ _. Some []), o_variable = (\<lambda>_ _. Some ''t''), o_remove_tree = (\<lambda>_ _. True),
     o_staging = (\<lambda>_ p. Some (p @ [Normal ''.s''])), o_rename = (\<lambda>_ _ _. True)\<rparr>"

definition ex_manager :: workspace_manager where
  "ex_manager = \<lparr>wm_repository = ex_repository, wm_root = ex_root\<rparr>"

subsection \<open>Worktrees\<close>

lemma ex_registered_item:
  "registered_worktree (ex_outside ex_listed True) ex_manager ex_proposal [] =
     (Inr (Some \<lparr>rw_path = ex_proposal, rw_branch = None\<rparr>), [list_request ex_manager])"
  by code_simp

lemma ex_cleaned_trace:
  "snd (cleanup_clean (ex_outside ex_listed True) ex_manager ex_proposal []) =
     [list_request ex_manager, list_request ex_manager, status_request ex_proposal,
      Run (git_command ex_repository [''worktree'', ''remove'', ''/w/proposal-1''])]"
  by code_simp

theorem clean_removal_follows_clean_status_witness:
  "\<exists>before. snd (cleanup_clean (ex_outside ex_listed True) ex_manager ex_proposal []) = before @ [status_request ex_proposal,
       Run (git_command ex_repository [''worktree'', ''remove'', ''/w/proposal-1''])]
     \<and> reported_clean (ex_outside ex_listed True) ex_proposal before"
proof -
  let ?r = "Run (git_command ex_repository [''worktree'', ''remove'', ''/w/proposal-1''])"
  have "\<not> removal_ok (\<lambda>_ _. False) ?r" by (simp add: removal_ok_def is_removal_def git_command_def)
  from clean_removal_follows_clean_status [OF ex_registered_item _ _ this,
      of "snd (cleanup_clean (ex_outside ex_listed True) ex_manager ex_proposal [])"]
  show ?thesis by (auto simp: ex_cleaned_trace)
qed

definition ex_delivery :: "workspace managed" where
  "ex_delivery = prepare_delivery (ex_outside ex_listed False) ex_manager 7 ''t'' ''main'' ex_base Reject []"

lemma ex_delivery_made:
  "fst ex_delivery = Inr (workspace_of Delivery (Some ''factory/7'') ''main'' ex_base (ex_root @ [Normal ''issue-7'']) Created)"
  by code_simp

theorem prepared_delivery_owned_witness:
  "\<exists>ws. fst ex_delivery = Inr ws \<and> managed_path ex_manager (ws_path ws) \<and> ws_disposition ws = Created"
proof -
  have r: "ex_delivery = (Inr (workspace_of Delivery (Some ''factory/7'') ''main'' ex_base
      (ex_root @ [Normal ''issue-7'']) Created), snd ex_delivery)"
    using ex_delivery_made by (metis prod.collapse)
  have "managed_path ex_manager (ws_path (workspace_of Delivery (Some ''factory/7'') ''main'' ex_base
      (ex_root @ [Normal ''issue-7'']) Created))"
    using prepared_delivery_owned [OF r [unfolded ex_delivery_def]] by blast
  then show ?thesis unfolding ex_delivery_made by (simp add: workspace_of_def)
qed

theorem worktree_listing_roundtrip_witness:
  "parse_worktrees (porcelain [(\<lparr>rw_path = ex_proposal, rw_branch = Some ''b''\<rparr>, ''1'')])
     = Inr [\<lparr>rw_path = ex_proposal, rw_branch = Some ''b''\<rparr>]"
proof -
  have "plain_path ex_proposal"
    unfolding plain_path_def ex_proposal_def
    by (rule exI [of _ "[''w'', ''proposal-1'']"]) (simp add: plain_name_def)
  moreover have "list_all line_text (concat (map worktree_block [(\<lparr>rw_path = ex_proposal, rw_branch = Some ''b''\<rparr>, ''1'')]))"
    by code_simp
  ultimately show ?thesis
    using worktree_listing_roundtrip [of "[(\<lparr>rw_path = ex_proposal, rw_branch = Some ''b''\<rparr>, ''1'')]"] by simp
qed

subsection \<open>Clones\<close>

definition ex_clones :: clone_manager where
  "ex_clones = \<lparr>cl_root = ex_root, cl_git = ''git'', cl_provider = GitHub\<rparr>"

definition ex_clone :: "standalone_clone cloned" where
  "ex_clone = prepare (ex_outside ex_listed False) ex_clones ''a/b'' 1 7 ''t'' ''main'' ex_base True ''TOKEN'' []"

lemma ex_clone_made:
  "fst ex_clone = Inr \<lparr>sc_path = ex_root @ [Normal ''issue-7''], sc_branch = Some ''factory/7'',
     sc_base_branch = ''main'', sc_base_sha = ex_base\<rparr>"
  by code_simp

theorem prepared_clone_is_of_repository_witness:
  "\<exists>c. fst ex_clone = Inr c \<and> origin_of (ex_outside ex_listed False) ex_clones (sc_path c) ''a/b''
     \<and> sc_branch c = Some ''factory/7''"
proof -
  have r: "ex_clone = (Inr \<lparr>sc_path = ex_root @ [Normal ''issue-7''], sc_branch = Some ''factory/7'',
      sc_base_branch = ''main'', sc_base_sha = ex_base\<rparr>, snd ex_clone)"
    using ex_clone_made by (metis prod.collapse)
  let ?c = "\<lparr>sc_path = ex_root @ [Normal ''issue-7''], sc_branch = Some ''factory/7'', sc_base_branch = ''main'', sc_base_sha = ex_base\<rparr>"
  have "origin_of (ex_outside ex_listed False) ex_clones (sc_path ?c) ''a/b''"
    using prepared_clone_is_of_repository [OF r [unfolded ex_clone_def]] by blast
  then show ?thesis unfolding ex_clone_made by simp
qed

subsection \<open>The daemon\<close>

lemma ex_key_valid: "validate_pull_request_event_key (''a/b'', ''42'', replicate 64 (CHR ''a''))" by code_simp

definition ex_host_io :: "bool \<Rightarrow> host_io" where
  "ex_host_io present = \<lparr>hi_outside = ex_outside ex_listed present, hi_now = (\<lambda>_. 2000), hi_parse = ex_no_json\<rparr>"

definition ex_owner :: repository_owner where
  "ex_owner = \<lparr>ow_identity = ''a/b'', ow_path = ex_repository, ow_workspace_root = ex_root\<rparr>"

definition ex_ended :: task where "ex_ended = ex_task task_state.Succeeded 1002"

definition ex_settled :: task_workspace where
  "ex_settled = \<lparr>w_task_id = 1, w_kind = ''delivery'', w_backend = ''worktree'', w_repository = ''a/b'',
     w_base_branch = ''main'', w_base_sha = ex_base, w_factory_branch = None, w_path = ''/w/proposal-1'',
     w_state = ''ready'', w_status_summary = None, w_created_at = 1, w_updated_at = 1, w_cleaned_at = None\<rparr>"

definition ex_host :: host where
  "ex_host = \<lparr>ht_ledger = (ex_ledger [ex_ended] [])\<lparr>task_workspaces := [ex_settled]\<rparr>, ht_trace = []\<rparr>"

lemma ex_found:
  "query_task 1 (ht_ledger ex_host) = Some ex_ended" "query_task_workspace 1 (ht_ledger ex_host) = Some ex_settled"
  by code_simp+

definition ex_finalized :: "unit work" where
  "ex_finalized = finalize_task_workspace (ex_host_io True) ex_owner 1 None ex_host"

lemma ex_finalized_returns: "fst ex_finalized = Inr ()" by code_simp

lemma ex_finalized_trace:
  "Run (git_command ex_repository [''worktree'', ''remove'', ''/w/proposal-1'']) \<in> set (ht_trace (snd ex_finalized))"
  by code_simp

theorem cleanup_refines_protocol_witness:
  "host_steps (pending_path ex_owner) UNIV ex_host (snd ex_finalized)"
proof -
  have "rows_keyed (ht_ledger ex_host)" by code_simp
  from cleanup_refines_protocol [OF this] show ?thesis unfolding ex_finalized_def by blast
qed

theorem delivery_kept_until_safe_witness:
  "delivery_disposable (ex_host_io True) None ex_ended ex_settled (ht_ledger ex_host)"
proof -
  have "\<not> removes_only (\<lambda>_. False) (ht_trace ex_host) (ht_trace (snd ex_finalized))"
  proof
    let ?r = "Run (git_command ex_repository [''worktree'', ''remove'', ''/w/proposal-1''])"
    assume "removes_only (\<lambda>_. False) (ht_trace ex_host) (ht_trace (snd ex_finalized))"
    then have "removal_ok (\<lambda>_ _. False) ?r"
      using ex_finalized_trace by (auto simp: removes_only_def allowed_def ex_host_def list_all_iff)
    then show False by (simp add: removal_ok_def is_removal_def git_command_def)
  qed
  moreover have "w_kind ex_settled \<noteq> ''proposal''" by (simp add: ex_settled_def)
  ultimately show ?thesis
    using delivery_kept_until_safe [OF ex_found] unfolding ex_finalized_def by blast
qed

theorem finalized_workspace_settled_witness:
  "owns ex_owner (ht_ledger ex_host) ex_settled \<and> workspace_in {''cleaned'', ''retained''} 1 (snd ex_finalized)"
proof -
  have r: "finalize_task_workspace (ex_host_io True) ex_owner 1 None ex_host = (Inr (), snd ex_finalized)"
    using ex_finalized_returns unfolding ex_finalized_def by (metis prod.collapse)
  have "is_terminal (t_state ex_ended)" by code_simp
  from finalized_workspace_settled [OF r ex_found(1) this ex_found(2)] show ?thesis by (simp add: ex_settled_def)
qed

definition ex_target :: repository_target where
  "ex_target = \<lparr>tg_path = ex_repository, tg_provider = GitHub, tg_identity = ''a/b'', tg_workflows = []\<rparr>"

definition ex_started :: task where "ex_started = ex_task task_state.Running 1002"

definition ex_fresh_io :: host_io where
  "ex_fresh_io = (ex_host_io False)\<lparr>hi_outside := ex_outside (ex_lines [''worktree /r'', ''branch refs/heads/main'', '''']) False\<rparr>"

definition ex_prepared :: "repository_target work" where
  "ex_prepared = prepare_task_workspace ex_fresh_io ex_target ''a/b'' ex_root ex_started 1 False None
     \<lparr>ht_ledger = ex_running, ht_trace = []\<rparr>"

lemma ex_prepared_returns: "fst ex_prepared = Inr (ex_target\<lparr>tg_path := ex_proposal\<rparr>)" by code_simp


theorem daemon_workspaces_never_continue_witness:
  "fst (case request_continuation ex_no_json (''a/b'', ''42'', replicate 64 (CHR ''a'')) 5 5 ex_running of
     Inr r \<Rightarrow> r | Inl _ \<Rightarrow> (ContQueued, ex_running)) = ContUnsafe"
proof -
  let ?s = "\<lparr>ht_ledger = ex_running, ht_trace = []\<rparr>"
  obtain c db where r: "request_continuation ex_no_json (''a/b'', ''42'', replicate 64 (CHR ''a'')) 5 5 (ht_ledger ?s) = Inr (c, db)"
    using request_continuation_valid [of "(''a/b'', ''42'', replicate 64 (CHR ''a''))"] ex_key_valid by blast
  have "branchless ?s" by code_simp
  from daemon_workspaces_never_continue [OF this rtranclp.rtrancl_refl r] r show ?thesis by simp
qed

definition ex_auto_io :: reconcile_io where
  "ex_auto_io = \<lparr>ri_observe = (\<lambda>_ _. NotStarted), ri_get_ticket = (\<lambda>_ _. Completed ''auto''),
     ri_reconcile = (\<lambda>_ _ _. Completed []),
     ri_parse = (\<lambda>_. Some (JObject [(''data'', JObject [
        (''tags'', JArray [JObject [(''name'', JString ''factory:auto-to-pr'')]]), (''completed'', JBool False),
        (''memberships'', JArray [JObject [(''section'', JObject [(''name'', JString ''Reviewing'')])]])])])),
     ri_print = (\<lambda>_. []), ri_rfc3339 = (\<lambda>_. True), ri_sha256 = (\<lambda>_. replicate 32 0)\<rparr>"

definition ex_clock :: event_clock where
  "ex_clock = \<lparr>ek_observed = 1, ek_claimed = 2, ek_requested = 3, ek_requeued = 4, ek_applied = 5, ek_consumed = 6\<rparr>"

theorem autonomous_work_reported_unsafe_witness:
  "map tk_outcome (rx_calls (snd (reconcile_open_event ex_auto_io ex_repository (''a/b'', ''42'', replicate 64 (CHR ''a''))
     ex_clock \<lparr>rx_ledger = ex_running, rx_calls = []\<rparr>))) = [''unsafe'']"
proof -
  let ?s = "\<lparr>ht_ledger = ex_running, ht_trace = []\<rparr>" and ?x = "\<lparr>rx_ledger = ex_running, rx_calls = []\<rparr>"
  have b: "branchless ?s" by code_simp
  have a: "continuation_authorization ex_auto_io ex_repository (fst (snd (''a/b'', ''42'', replicate 64 (CHR ''a'')))) = Autonomous"
    by code_simp
  have "rx_ledger ?x = ht_ledger ?s" by simp
  from autonomous_work_reported_unsafe [OF b this ex_key_valid a, where clock = ex_clock] show ?thesis by auto
qed

end
