(* ===== verification/Daemon_Schedules.thy ===== *)
theory Daemon_Schedules
  imports Daemon_Data Rust_State Ledger_Schedule
begin

text \<open>
  The evaluation of schedules by the daemon (\<open>src/daemon.rs\<close>): the next occurrence of a cron
  expression, the cursors a daemon starts with, and the loop that enqueues every occurrence
  up to now. Instants are nanoseconds since the epoch. The cron and calendar crates are the
  fields of \<open>calendar\<close>; instants are assumed three hours away from the end of the crate's range, where
  its additions would overflow. A clock reading inside a batch is a function of the item handled.
\<close>

subsection \<open>Instants\<close>

record 's calendar =
  cal_schedule :: "string \<Rightarrow> 's option"
  cal_after :: "'s \<Rightarrow> string \<Rightarrow> int \<Rightarrow> int option"
  cal_includes :: "'s \<Rightarrow> string \<Rightarrow> int \<Rightarrow> bool"
  cal_in_range :: "int \<Rightarrow> bool"
  cal_rfc3339_secs :: "int \<Rightarrow> string"

definition NANOS :: int where "NANOS = 1000000000"
definition MINUTE :: int where "MINUTE = 60 * NANOS"

definition timestamp :: "int \<Rightarrow> int" where "timestamp t = t div NANOS"
definition timestamp_millis :: "int \<Rightarrow> int" where "timestamp_millis t = t div 1000000"

definition from_timestamp_millis :: "'s calendar \<Rightarrow> int \<Rightarrow> int option" where
  "from_timestamp_millis cal m = (if cal_in_range cal (m * 1000000) then Some (m * 1000000) else None)"

datatype schedule_error =
    CronUnparsable | NoFutureOccurrence | InstantOutOfRange | LedgerRefused ledger_error

subsection \<open>The next occurrence\<close>

text \<open>
  The crate's own successor may skip an occurrence in an hour that the clocks repeat, so the
  minutes up to it, three hours at most, are probed one by one.
\<close>

function probe_minutes :: "(int \<Rightarrow> bool) \<Rightarrow> int \<Rightarrow> int \<Rightarrow> int \<Rightarrow> int" where
  "probe_minutes hits scan_until candidate probe =
     (if probe \<le> scan_until
      then if hits probe then probe else probe_minutes hits scan_until candidate (probe + MINUTE)
      else candidate)"
  by auto
termination
  by (relation "measure (\<lambda>(_, scan_until, _, probe). nat (scan_until + 1 - probe))")
    (auto simp: MINUTE_def NANOS_def)

declare probe_minutes.simps [simp del]

definition next_occurrence :: "'s calendar \<Rightarrow> 's \<Rightarrow> string \<Rightarrow> int \<Rightarrow> schedule_error + int" where
  "next_occurrence cal schedule timezone after =
     (case cal_after cal schedule timezone after of
        None \<Rightarrow> Inl NoFutureOccurrence
      | Some candidate \<Rightarrow>
          let scan_until = min candidate (after + 180 * MINUTE);
              next_minute = (timestamp after div 60 + 1) * 60;
              probe = next_minute * NANOS
          in if \<not> cal_in_range cal probe then Inl InstantOutOfRange
             else Inr (probe_minutes (cal_includes cal schedule timezone) scan_until candidate probe))"

subsection \<open>Schedules of a daemon\<close>

record 's scheduled_target =
  sd_repository :: string
  sd_workflow :: string
  sd_schedule :: 's
  sd_timezone :: string
  sd_fingerprint :: string
  sd_next_due :: int

text \<open>The closure that initializes one workflow; \<open>now\<close> gives the clock's two readings.\<close>

definition initialize_target ::
  "'s calendar \<Rightarrow> (string \<Rightarrow> 8 word list) \<Rightarrow> os_env \<Rightarrow> int \<Rightarrow> string \<Rightarrow> bool \<Rightarrow> int \<times> int \<Rightarrow>
     string \<Rightarrow> string \<Rightarrow> workflow_target \<Rightarrow> string \<Rightarrow> string \<Rightarrow> ledger \<Rightarrow>
     (schedule_error, 's scheduled_target, ledger) outcome" where
  "initialize_target cal sha256 os startup_at owner_id preserve_existing_due now
       repository workflow target expression timezone db =
     continue (pure (ok_or CronUnparsable (cal_schedule cal (''0 '' @ expression))) db) (\<lambda>schedule db.
     continue (pure (next_occurrence cal schedule timezone startup_at) db) (\<lambda>calculated db.
     let fingerprint = scheduled_workflow_fingerprint sha256 expression timezone
           (wt_runtime target) (wt_timeout target) (wt_prompt target)
     in continue (commit (map_err LedgerRefused (initialize_schedule_cursor os repository workflow fingerprint
          (timestamp_millis calculated)
          (if preserve_existing_due then i64_min else timestamp_millis startup_at)
          owner_id (fst now) (snd now) db)) db) (\<lambda>cursor_due db.
     continue (pure (ok_or InstantOutOfRange (from_timestamp_millis cal cursor_due)) db) (\<lambda>next_due db.
     (Inr \<lparr>sd_repository = repository, sd_workflow = workflow, sd_schedule = schedule,
       sd_timezone = timezone, sd_fingerprint = fingerprint, sd_next_due = next_due\<rparr>, db)))))"

definition schedule_entries :: "targets \<Rightarrow> (string \<times> string \<times> workflow_target) list" where
  "schedule_entries ts = concat (map (\<lambda>(repository, t). map (Pair repository) (tg_workflows t)) ts)"

text \<open>Workflows with another trigger are passed over and those that cannot be initialized are skipped.\<close>

fun initialize_each ::
  "'s calendar \<Rightarrow> (string \<Rightarrow> 8 word list) \<Rightarrow> os_env \<Rightarrow> int \<Rightarrow> string \<Rightarrow> bool \<Rightarrow>
     (string \<Rightarrow> string \<Rightarrow> int \<times> int) \<Rightarrow> (string \<times> string \<times> workflow_target) list \<Rightarrow> ledger \<Rightarrow>
     's scheduled_target list \<times> ledger" where
  "initialize_each cal sha256 os startup_at owner_id preserve now [] db = ([], db)"
| "initialize_each cal sha256 os startup_at owner_id preserve now ((repository, workflow, target) # rest) db =
     (case wt_trigger target of
        TSchedule expression timezone \<Rightarrow>
          (let (r, db) = initialize_target cal sha256 os startup_at owner_id preserve (now repository workflow)
                 repository workflow target expression timezone db;
               (ss, db) = initialize_each cal sha256 os startup_at owner_id preserve now rest db
           in (case r of Inl _ \<Rightarrow> ss | Inr s \<Rightarrow> s # ss, db))
      | _ \<Rightarrow> initialize_each cal sha256 os startup_at owner_id preserve now rest db)"

definition initialize_schedules_with_policy ::
  "'s calendar \<Rightarrow> (string \<Rightarrow> 8 word list) \<Rightarrow> os_env \<Rightarrow> (string \<Rightarrow> string \<Rightarrow> int \<times> int) \<Rightarrow> targets \<Rightarrow>
     int \<Rightarrow> string \<Rightarrow> bool \<Rightarrow> ledger \<Rightarrow> 's scheduled_target list \<times> ledger" where
  "initialize_schedules_with_policy cal sha256 os now ts startup_at owner_id preserve db =
     initialize_each cal sha256 os startup_at owner_id preserve now (schedule_entries ts) db"

definition initialize_schedules ::
  "'s calendar \<Rightarrow> (string \<Rightarrow> 8 word list) \<Rightarrow> os_env \<Rightarrow> (string \<Rightarrow> string \<Rightarrow> int \<times> int) \<Rightarrow> targets \<Rightarrow>
     int \<Rightarrow> string \<Rightarrow> ledger \<Rightarrow> 's scheduled_target list \<times> ledger" where
  "initialize_schedules cal sha256 os now ts startup_at owner_id db =
     initialize_schedules_with_policy cal sha256 os now ts startup_at owner_id False db"

definition initialize_schedules_preserving_due ::
  "'s calendar \<Rightarrow> (string \<Rightarrow> 8 word list) \<Rightarrow> os_env \<Rightarrow> (string \<Rightarrow> string \<Rightarrow> int \<times> int) \<Rightarrow> targets \<Rightarrow>
     int \<Rightarrow> string \<Rightarrow> ledger \<Rightarrow> 's scheduled_target list \<times> ledger" where
  "initialize_schedules_preserving_due cal sha256 os now ts startup_at owner_id db =
     initialize_schedules_with_policy cal sha256 os now ts startup_at owner_id True db"

subsection \<open>Enqueueing due occurrences\<close>

record json_io =
  js_parse :: "string \<Rightarrow> json option"
  js_print :: "json \<Rightarrow> string"

definition scheduled_payload :: "string \<Rightarrow> json" where
  "scheduled_payload scheduled_at = JObject [(''scheduled_at'', JString scheduled_at)]"

definition evaluate_schedule ::
  "'s calendar \<Rightarrow> json_io \<Rightarrow> int \<Rightarrow> 's scheduled_target \<Rightarrow> ledger \<Rightarrow> (schedule_error, int, ledger) outcome" where
  "evaluate_schedule cal js now target db =
     (let due = sd_next_due target
      in continue (pure (next_occurrence cal (sd_schedule target) (sd_timezone target) due) db) (\<lambda>next db.
         let scheduled_at = cal_rfc3339_secs cal due
         in continue (pure (map_err LedgerRefused
              (identity_scheduled (sd_repository target) (sd_workflow target) scheduled_at)) db) (\<lambda>identity db.
         continue (commit (map_err LedgerRefused (enqueue_scheduled_occurrence (js_parse js) (js_print js) identity
              (js_print js (scheduled_payload scheduled_at)) (sd_fingerprint target)
              (timestamp_millis due) (timestamp_millis next) now db)) db) (\<lambda>_ db.
         (Inr next, db)))))"

text \<open>The \<open>while\<close> loop of one schedule; \<open>None\<close> is a loop that does not end.\<close>

partial_function (option) evaluate_due ::
  "'s calendar \<Rightarrow> json_io \<Rightarrow> (int \<Rightarrow> int) \<Rightarrow> int \<Rightarrow> 's scheduled_target \<Rightarrow> ledger \<Rightarrow>
     ('s scheduled_target \<times> ledger) option" where
  "evaluate_due cal js now through target db =
     (if sd_next_due target \<le> through
      then (case evaluate_schedule cal js (now (sd_next_due target)) target db of
          (Inr next, db') \<Rightarrow> evaluate_due cal js now through (target\<lparr>sd_next_due := next\<rparr>) db'
        | (Inl _, db') \<Rightarrow> Some (target, db'))
      else Some (target, db))"

fun evaluate_schedules ::
  "'s calendar \<Rightarrow> json_io \<Rightarrow> (string \<Rightarrow> string \<Rightarrow> int \<Rightarrow> int) \<Rightarrow> int \<Rightarrow> 's scheduled_target list \<Rightarrow> ledger \<Rightarrow>
     ('s scheduled_target list \<times> ledger) option" where
  "evaluate_schedules cal js now through [] db = Some ([], db)"
| "evaluate_schedules cal js now through (target # rest) db =
     Option.bind (evaluate_due cal js (now (sd_repository target) (sd_workflow target)) through target db)
       (\<lambda>(target, db).
     Option.bind (evaluate_schedules cal js now through rest db) (\<lambda>(rest, db).
     Some (target # rest, db)))"

fun evaluate_schedules_once ::
  "'s calendar \<Rightarrow> json_io \<Rightarrow> (string \<Rightarrow> string \<Rightarrow> int \<Rightarrow> int) \<Rightarrow> int \<Rightarrow> 's scheduled_target list \<Rightarrow> ledger \<Rightarrow>
     's scheduled_target list \<times> ledger" where
  "evaluate_schedules_once cal js now through [] db = ([], db)"
| "evaluate_schedules_once cal js now through (target # rest) db =
     (let (target, db) =
        (if through < sd_next_due target then (target, db)
         else case evaluate_schedule cal js
              (now (sd_repository target) (sd_workflow target) (sd_next_due target)) target db of
            (Inr next, db) \<Rightarrow> (target\<lparr>sd_next_due := next\<rparr>, db)
          | (Inl _, db) \<Rightarrow> (target, db));
        (rest, db) = evaluate_schedules_once cal js now through rest db
      in (target # rest, db))"

subsection \<open>Occurrences are found in order\<close>

lemma NANOS_pos: "0 < NANOS" and MINUTE_pos: "0 < MINUTE"
  by (simp_all add: NANOS_def MINUTE_def)

lemma minute_grid:
  assumes "MINUTE dvd p" and "MINUTE dvd m" and "p < m"
  shows "p + MINUTE \<le> m"
proof -
  obtain a b where ab: "p = MINUTE * a" "m = MINUTE * b" using assms(1,2) by (auto simp: dvd_def)
  with assms(3) MINUTE_pos have "a + 1 \<le> b" by simp
  then have "MINUTE * (a + 1) \<le> MINUTE * b" using MINUTE_pos by (intro mult_left_mono) simp_all
  with ab show ?thesis by (simp add: distrib_left)
qed

text \<open>The probe stops at the first minute it accepts, and at the candidate when there is none.\<close>

lemma probe_minutes_spec:
  assumes "MINUTE dvd probe" and "n = probe_minutes hits scan_until candidate probe"
  shows "(probe \<le> n \<and> n \<le> scan_until \<and> MINUTE dvd n \<and> hits n
      \<and> (\<forall>m. MINUTE dvd m \<and> probe \<le> m \<and> m < n \<longrightarrow> \<not> hits m))
    \<or> (n = candidate \<and> (\<forall>m. MINUTE dvd m \<and> probe \<le> m \<and> m \<le> scan_until \<longrightarrow> \<not> hits m))"
  using assms
proof (induction hits scan_until candidate probe rule: probe_minutes.induct)
  case (1 hits scan_until candidate probe)
  consider "scan_until < probe" | "probe \<le> scan_until" "hits probe" | "probe \<le> scan_until" "\<not> hits probe"
    by fastforce
  then show ?case
  proof cases
    case 1
    with "1.prems" have "n = candidate" by (subst (asm) probe_minutes.simps) simp
    with 1 show ?thesis by auto
  next
    case 2
    with "1.prems" have "n = probe" by (subst (asm) probe_minutes.simps) simp
    with 2 "1.prems"(1) show ?thesis by (intro disjI1) auto
  next
    case 3
    have "n = probe_minutes hits scan_until candidate (probe + MINUTE)"
      using 3 "1.prems" by (subst (asm) probe_minutes.simps) simp
    note ih = "1.IH" [OF 3 dvd_add [OF "1.prems"(1) dvd_refl] this]
    have later: "\<not> hits m" if "MINUTE dvd m" "probe \<le> m" "\<not> probe + MINUTE \<le> m" for m
      using that 3(2) minute_grid [OF "1.prems"(1) that(1)] by (cases "m = probe") auto
    from ih show ?thesis
    proof (elim disjE conjE, goal_cases)
      case 1
      moreover have "\<not> hits m" if "MINUTE dvd m" "probe \<le> m" "m < n" for m
        using that 1(5) later by (cases "probe + MINUTE \<le> m") auto
      ultimately show ?case using MINUTE_pos by simp
    next
      case 2
      moreover have "\<not> hits m" if "MINUTE dvd m" "probe \<le> m" "m \<le> scan_until" for m
        using that 2(2) later by (cases "probe + MINUTE \<le> m") auto
      ultimately show ?case by blast
    qed
  qed
qed

text \<open>
  The crate's documented contract: an occurrence after an instant lies after it and on a whole second; the
  printed instant is not empty.
\<close>

definition calendar_ok :: "'s calendar \<Rightarrow> bool" where
  "calendar_ok cal \<longleftrightarrow>
     (\<forall>schedule timezone after candidate. cal_after cal schedule timezone after = Some candidate \<longrightarrow>
        after < candidate \<and> NANOS dvd candidate)
     \<and> (\<forall>t. \<not> blank (cal_rfc3339_secs cal t))"

lemma calendar_after:
  "calendar_ok cal \<Longrightarrow> cal_after cal schedule timezone after = Some candidate \<Longrightarrow> after < candidate \<and> NANOS dvd candidate"
  unfolding calendar_ok_def by blast

lemma next_minute_bounds:
  fixes after :: int
  shows "after < (timestamp after div 60 + 1) * 60 * NANOS"
    and "(timestamp after div 60 + 1) * 60 * NANOS \<le> after + MINUTE"
    and "MINUTE dvd (timestamp after div 60 + 1) * 60 * NANOS"
proof -
  have "timestamp after div 60 = after div MINUTE"
    by (simp add: timestamp_def MINUTE_def NANOS_def zdiv_zmult2_eq [symmetric])
  then have e: "(timestamp after div 60 + 1) * 60 * NANOS = (after div MINUTE + 1) * MINUTE"
    by (simp add: MINUTE_def)
  obtain q r where q: "after div MINUTE = q" and r: "after = q * MINUTE + r" "0 \<le> r" "r < MINUTE"
    using MINUTE_pos by (metis div_mult_mod_eq pos_mod_bound pos_mod_sign)
  show "after < (timestamp after div 60 + 1) * 60 * NANOS"
    and "(timestamp after div 60 + 1) * 60 * NANOS \<le> after + MINUTE"
    unfolding e q using r by (simp_all add: algebra_simps)
  show "MINUTE dvd (timestamp after div 60 + 1) * 60 * NANOS"
    unfolding e by simp
qed

text \<open>
  The next occurrence lies after the given instant and no later than the crate's own successor. It is
  either that successor or a whole minute of the schedule, and no minute of the schedule within
  the next three hours is passed over.
\<close>

theorem next_occurrence_spec:
  assumes "calendar_ok cal" and "next_occurrence cal schedule timezone after = Inr n"
  shows "after < n
    \<and> (\<exists>candidate. cal_after cal schedule timezone after = Some candidate \<and> n \<le> candidate
        \<and> (n = candidate \<or> (MINUTE dvd n \<and> cal_includes cal schedule timezone n)))
    \<and> (\<forall>m. MINUTE dvd m \<and> after < m \<and> m < n \<and> m \<le> after + 180 * MINUTE \<longrightarrow>
        \<not> cal_includes cal schedule timezone m)"
proof -
  define probe where "probe = (timestamp after div 60 + 1) * 60 * NANOS"
  from assms(2) obtain candidate where c: "cal_after cal schedule timezone after = Some candidate"
    and n: "n = probe_minutes (cal_includes cal schedule timezone) (min candidate (after + 180 * MINUTE)) candidate probe"
    by (auto simp: next_occurrence_def Let_def probe_def split: option.splits if_splits)
  note ac = calendar_after [OF assms(1) c]
  note p = next_minute_bounds [of after, folded probe_def]
  have later: "probe \<le> m" if "MINUTE dvd m" "after < m" for m
    using minute_grid [OF that(1) p(3)] p(2) that(2) by (cases "m < probe") auto
  from probe_minutes_spec [OF p(3) n] show ?thesis
  proof (elim disjE conjE, goal_cases)
    case 1
    then show ?case using c p(1) later by auto
  next
    case 2
    then show ?case using c ac later by auto
  qed
qed

subsection \<open>Catching up\<close>

text \<open>The instants from one to another, each the successor of the one before.\<close>

fun consecutive :: "('a \<Rightarrow> 'e + 'a) \<Rightarrow> 'a \<Rightarrow> 'a list \<Rightarrow> 'a \<Rightarrow> bool" where
  "consecutive step a [] b \<longleftrightarrow> a = b"
| "consecutive step a (x # xs) b \<longleftrightarrow> x = a \<and> (case step a of Inl _ \<Rightarrow> False | Inr c \<Rightarrow> consecutive step c xs b)"

text \<open>What the JSON crate does with the payload of an occurrence.\<close>

definition payload_roundtrips :: "json_io \<Rightarrow> bool" where
  "payload_roundtrips js \<longleftrightarrow> (\<forall>s. js_parse js (js_print js (scheduled_payload s)) = Some (scheduled_payload s))"

definition millis_aligned :: "int \<Rightarrow> bool" where
  "millis_aligned t \<longleftrightarrow> timestamp_millis t * 1000000 = t"

lemma millis_strict: "millis_aligned a \<Longrightarrow> millis_aligned b \<Longrightarrow> a < b \<Longrightarrow> timestamp_millis a < timestamp_millis b"
  unfolding millis_aligned_def by linarith

lemma NANOS_millis: "NANOS dvd t \<Longrightarrow> millis_aligned t"
  by (auto simp: millis_aligned_def timestamp_millis_def NANOS_def)

lemma next_occurrence_aligned:
  assumes "calendar_ok cal" and "next_occurrence cal schedule timezone after = Inr n"
  shows "after < n" and "millis_aligned n"
proof -
  note s = next_occurrence_spec [OF assms]
  show "after < n" using s by blast
  have "NANOS dvd n"
    using s calendar_after [OF assms(1)] by (auto simp: MINUTE_def elim: dvd_mult_right)
  then show "millis_aligned n" by (rule NANOS_millis)
qed

definition scheduled_identity :: "'s calendar \<Rightarrow> 's scheduled_target \<Rightarrow> int \<Rightarrow> task_identity" where
  "scheduled_identity cal target t = Scheduled (sd_repository target) (sd_workflow target) (cal_rfc3339_secs cal t)"

definition successor :: "'s calendar \<Rightarrow> 's scheduled_target \<Rightarrow> int \<Rightarrow> schedule_error + int" where
  "successor cal target = next_occurrence cal (sd_schedule target) (sd_timezone target)"

definition at_cursor :: "'s scheduled_target \<Rightarrow> ledger \<Rightarrow> bool" where
  "at_cursor target db \<longleftrightarrow> query_cursor (sd_repository target) (sd_workflow target) db
     = Some (sd_fingerprint target, timestamp_millis (sd_next_due target))"

definition named_target :: "'s scheduled_target \<Rightarrow> bool" where
  "named_target target \<longleftrightarrow> \<not> blank (sd_repository target) \<and> \<not> blank (sd_workflow target)"

text \<open>The primary key of the cursor table.\<close>

definition cursors_unique :: "ledger \<Rightarrow> bool" where
  "cursors_unique db \<longleftrightarrow> unique_key (\<lambda>c. (sc_repository c, sc_workflow c)) (schedule_cursors db)"

lemma occurrence_fires_at_cursor:
  assumes "identity_validate (Scheduled r w i) = Inr ()" and "due < next_due"
    and "occurrence_payload parse print fingerprint payload = Some body"
    and "query_cursor r w db = Some (fingerprint, due)" and "cursors_unique db"
  shows "\<exists>e db'. enqueue_scheduled_occurrence parse print (Scheduled r w i) payload fingerprint due next_due now db
    = Inr (Some e, db')"
proof -
  obtain db1 inserted where ins: "insert_task_or_ignore (identity_key (Scheduled r w i)) ''scheduled'' r w None
      (Some body) now db = (db1, inserted)" by fastforce
  note c1 = insert_task_cursors [OF ins]
  let ?here = "\<lambda>c. sc_repository c = r \<and> sc_workflow c = w \<and> sc_fingerprint c = fingerprint \<and> sc_next_due_at c = due"
  have "exists_where ?here (schedule_cursors db)"
    using assms(4) find_where_SomeD [of "cursor_of r w" "schedule_cursors db"]
    by (auto simp: query_cursor_def cursor_of_def exists_where_iff)
  then have one: "count_where ?here (schedule_cursors db1) = 1"
    using count_where_one_iff [OF assms(5) [unfolded cursors_unique_def], of "(r, w)"
        "\<lambda>c. sc_fingerprint c = fingerprint \<and> sc_next_due_at c = due"] c1 by simp
  have "exists_where (\<lambda>t. t_identity_key t = identity_key (Scheduled r w i)) (tasks db1)"
    using ins by (auto simp: insert_task_or_ignore_def exists_where_iff simp del: identity_key.simps split: if_splits)
  then obtain task where "query_task_by_key (identity_key (Scheduled r w i)) db1 = Some task"
    unfolding query_task_by_key_def by (metis find_where_first not_None_eq)
  with assms ins one show ?thesis
    by (simp add: enqueue_scheduled_occurrence_def Let_def del: identity_key.simps)
qed

lemma occurrence_effect:
  assumes "enqueue_scheduled_occurrence parse print (Scheduled r w i) payload fingerprint due next_due now db
      = Inr (Some e, db')"
  shows "cursors_unique db \<Longrightarrow> cursors_unique db'" and "runs db' = runs db"
    and "\<exists>new. tasks db' = tasks db @ new"
    and "set (map t_identity_key (tasks db')) = insert (identity_key (Scheduled r w i)) (set (map t_identity_key (tasks db)))"
proof -
  obtain body db1 inserted where ins: "insert_task_or_ignore (identity_key (Scheduled r w i)) ''scheduled'' r w None
      (Some body) now db = (db1, inserted)"
    and db': "db' = db1\<lparr>schedule_cursors := update_where (\<lambda>c. sc_repository c = r \<and> sc_workflow c = w
        \<and> sc_fingerprint c = fingerprint \<and> sc_next_due_at c = due)
        (\<lambda>c. c\<lparr>sc_next_due_at := next_due, sc_updated_at := now\<rparr>) (schedule_cursors db1)\<rparr>"
    by (rule occurrence_fired [OF assms]) auto
  note c1 = insert_task_cursors [OF ins]
  show "cursors_unique db \<Longrightarrow> cursors_unique db'"
    by (simp add: cursors_unique_def db' c1 unique_key_update_where)
  show "runs db' = runs db" by (simp add: db' c1)
  show "\<exists>new. tasks db' = tasks db @ new"
    and "set (map t_identity_key (tasks db')) = insert (identity_key (Scheduled r w i)) (set (map t_identity_key (tasks db)))"
    using ins by (auto simp: db' insert_task_or_ignore_def exists_where_iff rev_image_eqI
        simp del: identity_key.simps split: if_splits)
qed

text \<open>One occurrence is always accepted where the cursor stands, and moves the cursor to its successor.\<close>

lemma evaluate_schedule_fires:
  assumes "calendar_ok cal" and "payload_roundtrips js" and "named_target target"
    and "at_cursor target db" and "millis_aligned (sd_next_due target)" and "cursors_unique db"
    and "successor cal target (sd_next_due target) = Inr n"
  obtains db' where "evaluate_schedule cal js now target db = (Inr n, db')"
    and "at_cursor (target\<lparr>sd_next_due := n\<rparr>) db'" and "cursors_unique db'" and "runs db' = runs db"
    and "\<exists>new. tasks db' = tasks db @ new"
    and "set (map t_identity_key (tasks db')) =
      insert (identity_key (scheduled_identity cal target (sd_next_due target))) (set (map t_identity_key (tasks db)))"
    and "\<forall>r w. (r, w) \<noteq> (sd_repository target, sd_workflow target) \<longrightarrow> query_cursor r w db' = query_cursor r w db"
proof -
  define due where "due = sd_next_due target"
  define at where "at = cal_rfc3339_secs cal due"
  define r where "r = sd_repository target"
  define w where "w = sd_workflow target"
  note n = next_occurrence_aligned [OF assms(1) assms(7) [unfolded successor_def]]
  have lt: "timestamp_millis due < timestamp_millis n"
    using millis_strict [OF assms(5) n(2) n(1)] by (simp add: due_def)
  have valid: "identity_validate (Scheduled r w at) = Inr ()"
    using assms(1,3) by (simp add: r_def w_def at_def identity_validate_Inr_iff calendar_ok_def named_target_def)
  have body: "\<exists>body. occurrence_payload (js_parse js) (js_print js) (sd_fingerprint target)
      (js_print js (scheduled_payload at)) = Some body"
    using assms(2) by (simp add: occurrence_payload_def payload_roundtrips_def scheduled_payload_def)
  then obtain body where body: "occurrence_payload (js_parse js) (js_print js) (sd_fingerprint target)
      (js_print js (scheduled_payload at)) = Some body" ..
  have cur: "query_cursor r w db = Some (sd_fingerprint target, timestamp_millis due)"
    using assms(4) by (simp add: at_cursor_def r_def w_def due_def)
  obtain e db' where fired: "enqueue_scheduled_occurrence (js_parse js) (js_print js) (Scheduled r w at)
      (js_print js (scheduled_payload at)) (sd_fingerprint target) (timestamp_millis due) (timestamp_millis n) now db
      = Inr (Some e, db')"
    using occurrence_fires_at_cursor [OF valid lt body cur assms(6)] by blast
  note eff = occurrence_effect [OF fired] occurrence_cursor(3) [OF fired]
  have "evaluate_schedule cal js now target db = (Inr n, db')"
    using assms(7) valid fired
    by (simp add: evaluate_schedule_def successor_def identity_scheduled_def due_def [symmetric] at_def [symmetric]
        r_def [symmetric] w_def [symmetric] Let_def del: identity_key.simps)
  moreover have "at_cursor (target\<lparr>sd_next_due := n\<rparr>) db'"
    using eff(5) [of r w] by (simp add: at_cursor_def r_def w_def)
  moreover have "\<forall>r' w'. (r', w') \<noteq> (sd_repository target, sd_workflow target) \<longrightarrow> query_cursor r' w' db' = query_cursor r' w' db"
    using eff(5) by (simp add: r_def w_def)
  ultimately show thesis
    using that [of db'] eff(1-4) assms(6)
    by (simp add: scheduled_identity_def due_def at_def r_def w_def del: identity_key.simps)
qed

text \<open>
  The loop catches up: it returns, and it fired the occurrences from the due one on, each the
  successor of the one before and none after \<open>through\<close>. Every fired occurrence is a task afterwards, nothing
  else was added and no other schedule moved. It stops at an occurrence after \<open>through\<close>, or at
  one that has no successor. The cursor stands where it stopped.
\<close>

definition caught_up ::
  "'s calendar \<Rightarrow> int \<Rightarrow> 's scheduled_target \<Rightarrow> ledger \<Rightarrow> int list \<Rightarrow> 's scheduled_target \<Rightarrow> ledger \<Rightarrow> bool" where
  "caught_up cal through target db fired target' db' \<longleftrightarrow>
     consecutive (successor cal target) (sd_next_due target) fired (sd_next_due target')
     \<and> target' = target\<lparr>sd_next_due := sd_next_due target'\<rparr>
     \<and> list_all (\<lambda>o'. o' \<le> through) fired
     \<and> (through < sd_next_due target' \<or> \<not> is_ok (successor cal target (sd_next_due target')))
     \<and> at_cursor target' db' \<and> cursors_unique db' \<and> runs db' = runs db
     \<and> take (length (tasks db)) (tasks db') = tasks db
     \<and> set (map t_identity_key (tasks db')) = set (map t_identity_key (tasks db))
         \<union> set (map (\<lambda>o'. identity_key (scheduled_identity cal target o')) fired)
     \<and> (\<forall>r w. (r, w) \<noteq> (sd_repository target, sd_workflow target) \<longrightarrow> query_cursor r w db' = query_cursor r w db)"

lemma evaluate_due_stops:
  assumes "calendar_ok cal" and "payload_roundtrips js" and "named_target target"
    and "at_cursor target db" and "millis_aligned (sd_next_due target)" and "cursors_unique db"
  shows "\<exists>fired target' db'. evaluate_due cal js now through target db = Some (target', db')
    \<and> caught_up cal through target db fired target' db'"
  using assms(3-6)
proof (induction "nat (through + 1 - sd_next_due target)" arbitrary: target db rule: less_induct)
  case less
  define due where "due = sd_next_due target"
  show ?case
  proof (cases "due \<le> through \<and> is_ok (successor cal target due)")
    case False
    have "evaluate_due cal js now through target db = Some (target, db)"
    proof (cases "due \<le> through")
      case True
      with False obtain e where "successor cal target due = Inl e" by (cases "successor cal target due") auto
      then have "evaluate_schedule cal js (now due) target db = (Inl e, db)"
        by (simp add: evaluate_schedule_def successor_def due_def Let_def)
      with True show ?thesis by (simp add: evaluate_due.simps due_def)
    qed (simp add: evaluate_due.simps due_def)
    moreover have "caught_up cal through target db [] target db"
      using False less.prems by (auto simp: caught_up_def due_def)
    ultimately show ?thesis by blast
  next
    case True
    then obtain n where n: "successor cal target due = Inr n" by (auto simp: is_ok_iff)
    note later = next_occurrence_aligned [OF assms(1) n [unfolded successor_def]]
    obtain db1 where e: "evaluate_schedule cal js (now due) target db = (Inr n, db1)"
      and s: "at_cursor (target\<lparr>sd_next_due := n\<rparr>) db1" "cursors_unique db1" "runs db1 = runs db"
        "\<exists>new. tasks db1 = tasks db @ new"
        "set (map t_identity_key (tasks db1)) = insert (identity_key (scheduled_identity cal target due))
          (set (map t_identity_key (tasks db)))"
        "\<forall>r w. (r, w) \<noteq> (sd_repository target, sd_workflow target) \<longrightarrow> query_cursor r w db1 = query_cursor r w db"
      using evaluate_schedule_fires [OF assms(1,2) less.prems(1-4), of n "now due"] n by (auto simp: due_def)
    have "nat (through + 1 - sd_next_due (target\<lparr>sd_next_due := n\<rparr>)) < nat (through + 1 - sd_next_due target)"
      using later(1) True by (simp add: due_def)
    from less.hyps [OF this, of db1] s(1,2) later(2) less.prems(1)
    obtain fired target' db' where ih: "evaluate_due cal js now through (target\<lparr>sd_next_due := n\<rparr>) db1 = Some (target', db')"
      and c: "caught_up cal through (target\<lparr>sd_next_due := n\<rparr>) db1 fired target' db'"
      by (auto simp: named_target_def)
    have "evaluate_due cal js now through target db = Some (target', db')"
      using e True ih by (subst evaluate_due.simps) (simp add: due_def)
    moreover have "caught_up cal through target db (due # fired) target' db'"
    proof -
      have same: "successor cal (target\<lparr>sd_next_due := n\<rparr>) = successor cal target"
        "scheduled_identity cal (target\<lparr>sd_next_due := n\<rparr>) = scheduled_identity cal target"
        by (simp_all add: successor_def scheduled_identity_def fun_eq_iff)
      obtain new where new: "tasks db1 = tasks db @ new" using s(4) by blast
      have "take (length (tasks db)) (take (length (tasks db1)) (tasks db')) = tasks db"
        using c new by (simp add: caught_up_def)
      then have "take (length (tasks db)) (tasks db') = tasks db" by (simp add: new min_def)
      with c n s True show ?thesis by (auto simp: caught_up_def same due_def)
    qed
    ultimately show ?thesis by blast
  qed
qed

theorem evaluate_due_catches_up:
  assumes "calendar_ok cal" and "payload_roundtrips js" and "named_target target"
    and "at_cursor target db" and "millis_aligned (sd_next_due target)" and "cursors_unique db"
  shows "case evaluate_due cal js now through target db of
      None \<Rightarrow> False
    | Some (target', db') \<Rightarrow> \<exists>fired. caught_up cal through target db fired target' db'"
  using evaluate_due_stops [OF assms, of now through] by auto

subsection \<open>A tick of the daemon\<close>

lemma initialize_cursor_effect:
  assumes "initialize_schedule_cursor os r w fp next_due startup owner now1 now2 db = Inr (resolved, db')"
  shows "query_cursor r w db' = Some (fp, resolved)" and "cursors_unique db \<Longrightarrow> cursors_unique db'"
    and "tasks db' = tasks db \<and> runs db' = runs db"
    and "\<forall>r' w'. (r', w') \<noteq> (r, w) \<longrightarrow> query_cursor r' w' db' = query_cursor r' w' db"
    and "\<not> blank r \<and> \<not> blank w" and "owned_fingerprint owner r w db' = Some fp"
proof -
  note spec = initialize_schedule_spec [OF assms]
  show "query_cursor r w db' = Some (fp, resolved)" and "tasks db' = tasks db \<and> runs db' = runs db"
    and "\<forall>r' w'. (r', w') \<noteq> (r, w) \<longrightarrow> query_cursor r' w' db' = query_cursor r' w' db"
    and "owned_fingerprint owner r w db' = Some fp"
    using spec by blast+
  show "\<not> blank r \<and> \<not> blank w" using assms by (auto simp: initialize_schedule_cursor_def split: if_splits)
  assume u: "cursors_unique db"
  have put: "cursors_unique (put_cursor r w fp d n db)" for d n
    using u unfolding cursors_unique_def put_cursor_def
    by simp (rule unique_key_upsert_where, auto simp: cursor_of_def)
  from assms show "cursors_unique db'"
  proof (cases rule: initialize_schedule_cases)
    case kept
    then show ?thesis using u by (simp add: cursors_unique_def put_schedule_owner_simps(2))
  next
    case reset
    then show ?thesis using put [of next_due now2] put_schedule_owner_simps(2) [OF reset(5)]
      by (simp add: cursors_unique_def)
  qed
qed

definition cursor_frame :: "(string \<times> string) set \<Rightarrow> ledger \<Rightarrow> ledger \<Rightarrow> bool" where
  "cursor_frame changed db db' \<longleftrightarrow> tasks db' = tasks db \<and> runs db' = runs db
     \<and> (cursors_unique db \<longrightarrow> cursors_unique db')
     \<and> (\<forall>r w. (r, w) \<notin> changed \<longrightarrow> query_cursor r w db' = query_cursor r w db)"

lemma cursor_frame_refl [simp]: "cursor_frame changed db db"
  by (simp add: cursor_frame_def)

lemma cursor_frame_trans: "cursor_frame a db db1 \<Longrightarrow> cursor_frame b db1 db2 \<Longrightarrow> cursor_frame (a \<union> b) db db2"
  by (simp add: cursor_frame_def)

lemma initialize_target_effect:
  assumes "initialize_target cal sha256 os startup owner preserve now r w wt expression timezone db = (res, db')"
  shows "cursor_frame {(r, w)} db db'"
    and "\<And>s. res = Inr s \<Longrightarrow> sd_repository s = r \<and> sd_workflow s = w \<and> at_cursor s db' \<and> named_target s
      \<and> millis_aligned (sd_next_due s) \<and> owned_fingerprint owner r w db' = Some (sd_fingerprint s)"
proof -
  consider (out) e where "res = Inl e" "db' = db"
    | (written) schedule calculated fp due where
      "initialize_schedule_cursor os r w fp (timestamp_millis calculated)
          (if preserve then i64_min else timestamp_millis startup) owner (fst now) (snd now) db = Inr (due, db')"
      and "res = (case from_timestamp_millis cal due of None \<Rightarrow> Inl InstantOutOfRange
         | Some next_due \<Rightarrow> Inr \<lparr>sd_repository = r, sd_workflow = w, sd_schedule = schedule, sd_timezone = timezone,
             sd_fingerprint = fp, sd_next_due = next_due\<rparr>)"
  proof (cases "cal_schedule cal (''0 '' @ expression)")
    case None
    then show ?thesis using assms out [of CronUnparsable] by (simp add: initialize_target_def)
  next
    case schedule: (Some schedule)
    show ?thesis
    proof (cases "next_occurrence cal schedule timezone startup")
      case (Inl e)
      then show ?thesis using assms schedule out [of e] by (simp add: initialize_target_def)
    next
      case calculated: (Inr calculated)
      define fp where "fp = scheduled_workflow_fingerprint sha256 expression timezone (wt_runtime wt) (wt_timeout wt) (wt_prompt wt)"
      show ?thesis
      proof (cases "initialize_schedule_cursor os r w fp (timestamp_millis calculated)
          (if preserve then i64_min else timestamp_millis startup) owner (fst now) (snd now) db")
        case (Inl e)
        then show ?thesis using assms schedule calculated out [of "LedgerRefused e"]
          by (simp add: initialize_target_def fp_def [symmetric] Let_def del: if_split)
      next
        case (Inr p)
        obtain due db1 where p: "p = (due, db1)" by (cases p)
        have "res = (case from_timestamp_millis cal due of None \<Rightarrow> Inl InstantOutOfRange
         | Some next_due \<Rightarrow> Inr \<lparr>sd_repository = r, sd_workflow = w, sd_schedule = schedule, sd_timezone = timezone,
             sd_fingerprint = fp, sd_next_due = next_due\<rparr>) \<and> db' = db1"
          using assms schedule calculated Inr p
          by (cases "from_timestamp_millis cal due")
            (simp_all add: initialize_target_def fp_def [symmetric] Let_def del: if_split)
        then show ?thesis using written [of fp calculated due schedule] Inr p by simp
      qed
    qed
  qed
  then have "cursor_frame {(r, w)} db db' \<and> (\<forall>s. res = Inr s \<longrightarrow> sd_repository s = r \<and> sd_workflow s = w
      \<and> at_cursor s db' \<and> named_target s
      \<and> millis_aligned (sd_next_due s) \<and> owned_fingerprint owner r w db' = Some (sd_fingerprint s))"
  proof cases
    case written
    note eff = initialize_cursor_effect [OF written(1)]
    have "cursor_frame {(r, w)} db db'" using eff by (simp add: cursor_frame_def)
    moreover have "sd_repository s = r \<and> sd_workflow s = w \<and> at_cursor s db' \<and> named_target s
      \<and> millis_aligned (sd_next_due s) \<and> owned_fingerprint owner r w db' = Some (sd_fingerprint s)" if "res = Inr s" for s
      using that written(2) eff(1,5,6)
      by (auto simp: from_timestamp_millis_def at_cursor_def named_target_def millis_aligned_def timestamp_millis_def
          split: if_splits)
    ultimately show ?thesis by blast
  qed simp
  then show "cursor_frame {(r, w)} db db'" and "\<And>s. res = Inr s \<Longrightarrow> sd_repository s = r \<and> sd_workflow s = w
      \<and> at_cursor s db' \<and> named_target s
      \<and> millis_aligned (sd_next_due s) \<and> owned_fingerprint owner r w db' = Some (sd_fingerprint s)"
    by blast+
qed

text \<open>What holds of every schedule a daemon starts with.\<close>

definition schedule_ready :: "ledger \<Rightarrow> 's scheduled_target \<Rightarrow> bool" where
  "schedule_ready db s \<longleftrightarrow> at_cursor s db \<and> named_target s \<and> millis_aligned (sd_next_due s)"

definition schedule_name :: "'s scheduled_target \<Rightarrow> string \<times> string" where
  "schedule_name s = (sd_repository s, sd_workflow s)"

definition entry_name :: "string \<times> string \<times> workflow_target \<Rightarrow> string \<times> string" where
  "entry_name e = (fst e, fst (snd e))"

lemma schedule_ready_frame:
  "schedule_ready db s \<Longrightarrow> cursor_frame changed db db' \<Longrightarrow> schedule_name s \<notin> changed \<Longrightarrow> schedule_ready db' s"
  by (simp add: schedule_ready_def cursor_frame_def at_cursor_def schedule_name_def)

lemma initialize_each_effect:
  assumes "initialize_each cal sha256 os startup owner preserve now es db = (ss, db')"
    and "distinct (map entry_name es)"
  shows "cursor_frame (entry_name ` set es) db db' \<and> list_all (schedule_ready db') ss
    \<and> distinct (map schedule_name ss) \<and> schedule_name ` set ss \<subseteq> entry_name ` set es"
  using assms
proof (induction es arbitrary: db ss)
  case (Cons e es)
  obtain r w wt where e: "e = (r, w, wt)" by (cases e)
  show ?case
  proof (cases "\<exists>expression timezone. wt_trigger wt = TSchedule expression timezone")
    case False
    with Cons.prems e have "initialize_each cal sha256 os startup owner preserve now es db = (ss, db')"
      by (auto split: trigger.splits)
    from Cons.IH [OF this] Cons.prems(2) have ih: "cursor_frame (entry_name ` set es) db db'"
      "list_all (schedule_ready db') ss" "distinct (map schedule_name ss)"
      "schedule_name ` set ss \<subseteq> entry_name ` set es" by auto
    then show ?thesis by (auto simp: cursor_frame_def)
  next
    case True
    then obtain expression timezone where tr: "wt_trigger wt = TSchedule expression timezone" by blast
    obtain res db1 where i: "initialize_target cal sha256 os startup owner preserve (now r w) r w wt expression timezone db
        = (res, db1)" by fastforce
    obtain ss' db2 where rest: "initialize_each cal sha256 os startup owner preserve now es db1 = (ss', db2)" by fastforce
    from Cons.prems(1) e tr i rest have out: "db' = db2" "ss = (case res of Inl _ \<Rightarrow> ss' | Inr s \<Rightarrow> s # ss')"
      by (simp_all split: sum.splits)
    have "entry_name e = (r, w)" by (simp add: e entry_name_def)
    with Cons.prems(2) have fresh: "(r, w) \<notin> entry_name ` set es" and d: "distinct (map entry_name es)"
      by simp_all
    note ih = Cons.IH [OF rest [folded out(1)] d]
    note eff = initialize_target_effect [OF i]
    have frame: "cursor_frame (entry_name ` set (e # es)) db db'"
      using cursor_frame_trans [OF eff(1), of "entry_name ` set es" db'] ih by (simp add: e entry_name_def)
    show ?thesis
    proof (cases res)
      case (Inl err)
      with out ih frame show ?thesis by auto
    next
      case (Inr s)
      note s = eff(2) [OF Inr]
      then have name: "schedule_name s = (r, w)" and "schedule_ready db1 s"
        by (simp_all add: schedule_name_def schedule_ready_def)
      with ih fresh name have "schedule_ready db' s"
        using schedule_ready_frame [of db1 s "entry_name ` set es"] by simp
      moreover have "schedule_name s \<notin> schedule_name ` set ss'" "schedule_name s \<in> entry_name ` set (e # es)"
        using ih fresh name by (auto simp: e entry_name_def)
      ultimately show ?thesis using ih frame out Inr by auto
    qed
  qed
qed simp

text \<open>A schedule's part of a batch, seen from the end of the batch.\<close>

definition schedule_served ::
  "'s calendar \<Rightarrow> int \<Rightarrow> ledger \<Rightarrow> 's scheduled_target \<Rightarrow> 's scheduled_target \<Rightarrow> bool" where
  "schedule_served cal through db s s' \<longleftrightarrow>
     s' = s\<lparr>sd_next_due := sd_next_due s'\<rparr> \<and> at_cursor s' db
     \<and> (\<exists>fired. consecutive (successor cal s) (sd_next_due s) fired (sd_next_due s')
          \<and> (\<forall>t\<in>set fired. t \<le> through \<and> identity_held db (scheduled_identity cal s t)))
     \<and> (through < sd_next_due s' \<or> \<not> is_ok (successor cal s (sd_next_due s')))"

definition batch_frame :: "(string \<times> string) set \<Rightarrow> ledger \<Rightarrow> ledger \<Rightarrow> bool" where
  "batch_frame changed db db' \<longleftrightarrow> take (length (tasks db)) (tasks db') = tasks db \<and> runs db' = runs db
     \<and> cursors_unique db' \<and> (\<forall>r w. (r, w) \<notin> changed \<longrightarrow> query_cursor r w db' = query_cursor r w db)"

lemma take_prefix_trans:
  "take (length xs) ys = xs \<Longrightarrow> take (length ys) zs = ys \<Longrightarrow> take (length xs) zs = xs"
  by (metis append_take_drop_id append_eq_conv_conj append.assoc)

lemma identity_held_prefix:
  "take (length (tasks db)) (tasks db') = tasks db \<Longrightarrow> identity_held db i \<Longrightarrow> identity_held db' i"
  unfolding identity_held_def exists_where_iff by (metis in_set_takeD)

lemma identity_held_key: "identity_held db i \<longleftrightarrow> identity_key i \<in> set (map t_identity_key (tasks db))"
  by (auto simp: identity_held_def exists_where_iff rev_image_eqI simp del: identity_key.simps)

lemma caught_up_served:
  assumes "caught_up cal through s db fired s' db1" and "batch_frame changed db1 db2" and "schedule_name s \<notin> changed"
  shows "schedule_served cal through db2 s s'"
proof -
  have "\<forall>t\<in>set fired. identity_held db1 (scheduled_identity cal s t)"
    using assms(1) by (simp add: caught_up_def identity_held_key del: identity_key.simps)
  then have "\<forall>t\<in>set fired. identity_held db2 (scheduled_identity cal s t)"
    using assms(2) identity_held_prefix by (auto simp: batch_frame_def)
  moreover have "at_cursor s' db2"
  proof -
    from assms(1) obtain d where "s' = s\<lparr>sd_next_due := d\<rparr>" unfolding caught_up_def by blast
    moreover have "at_cursor s' db1" using assms(1) by (simp add: caught_up_def)
    moreover have "query_cursor (sd_repository s) (sd_workflow s) db2 = query_cursor (sd_repository s) (sd_workflow s) db1"
      using assms(2,3) by (simp add: batch_frame_def schedule_name_def)
    ultimately show ?thesis by (simp add: at_cursor_def)
  qed
  ultimately show ?thesis using assms(1) by (auto simp: caught_up_def schedule_served_def list_all_iff)
qed

lemma evaluate_schedules_served:
  assumes "calendar_ok cal" and "payload_roundtrips js" and "cursors_unique db"
    and "list_all (schedule_ready db) ss" and "distinct (map schedule_name ss)"
  shows "\<exists>ss' db'. evaluate_schedules cal js now through ss db = Some (ss', db')
    \<and> list_all2 (schedule_served cal through db') ss ss' \<and> batch_frame (schedule_name ` set ss) db db'"
  using assms(3-)
proof (induction ss arbitrary: db)
  case Nil
  then show ?case by (simp add: batch_frame_def)
next
  case (Cons s ss)
  let ?now = "now (sd_repository s) (sd_workflow s)"
  from Cons.prems(2) have s: "named_target s" "at_cursor s db" "millis_aligned (sd_next_due s)"
    by (simp_all add: schedule_ready_def)
  obtain fired s' db1 where ev: "evaluate_due cal js ?now through s db = Some (s', db1)"
    and c: "caught_up cal through s db fired s' db1"
    using evaluate_due_stops [OF assms(1,2) s Cons.prems(1), of ?now through] by blast
  have "at_cursor x db1" if "x \<in> set ss" "at_cursor x db" for x
  proof -
    have "schedule_name x \<noteq> schedule_name s" using that(1) Cons.prems(3) by (metis distinct.simps(2) image_eqI list.simps(9) list.set_map)
    then show ?thesis using that(2) c unfolding caught_up_def at_cursor_def schedule_name_def by metis
  qed
  then have "list_all (schedule_ready db1) ss"
    using Cons.prems(2) by (simp add: list_all_iff schedule_ready_def)
  moreover have "cursors_unique db1" using c by (simp add: caught_up_def)
  ultimately obtain ss' db2 where rest: "evaluate_schedules cal js now through ss db1 = Some (ss', db2)"
    and served: "list_all2 (schedule_served cal through db2) ss ss'" and frame: "batch_frame (schedule_name ` set ss) db1 db2"
    using Cons.IH [of db1] Cons.prems(3) by auto
  have "schedule_served cal through db2 s s'"
    using caught_up_served [OF c frame] Cons.prems(3) by auto
  moreover have "batch_frame (schedule_name ` set (s # ss)) db db2"
    using c frame take_prefix_trans [of "tasks db" "tasks db1" "tasks db2"]
    by (auto simp: batch_frame_def caught_up_def schedule_name_def)
  ultimately show ?case using ev rest served by simp
qed


end
