(* ===== verification/Daemon_Examples.thy ===== *)
theory Daemon_Examples
  imports Workspace_Examples Daemon_Schedules
begin

text \<open>Schedules and change requests at work: a calendar of whole minutes and a provider with one answer.\<close>

subsection \<open>Schedules\<close>

definition ex_calendar :: "unit calendar" where
  "ex_calendar = \<lparr>cal_schedule = (\<lambda>_. Some ()), cal_after = (\<lambda>_ _ t. Some ((t div MINUTE + 1) * MINUTE)),
     cal_includes = (\<lambda>_ _ t. MINUTE dvd t), cal_in_range = (\<lambda>_. True), cal_rfc3339_secs = (\<lambda>t. ''TT'' @ int_dec t)\<rparr>"

lemma ex_calendar_ok: "calendar_ok ex_calendar"
proof -
  have "t < (t div MINUTE + 1) * MINUTE" and "NANOS dvd (t div MINUTE + 1) * MINUTE" for t
    by (simp_all add: MINUTE_def NANOS_def)
  moreover have "\<not> blank (''TT'' @ int_dec t)" for t by (simp add: blank_iff is_cont_def byte_def is_whitespace_def)
  ultimately show ?thesis by (auto simp: calendar_ok_def ex_calendar_def)
qed

theorem next_occurrence_spec_witness:
  "0 < MINUTE \<and> (\<exists>candidate. cal_after ex_calendar () [] 0 = Some candidate \<and> MINUTE \<le> candidate)"
proof -
  have "next_occurrence ex_calendar () [] 0 = Inr MINUTE"
    by (simp add: next_occurrence_def ex_calendar_def timestamp_def MINUTE_def NANOS_def probe_minutes.simps)
  from next_occurrence_spec [OF ex_calendar_ok this] show ?thesis by blast
qed

definition ex_json_io :: json_io where
  "ex_json_io = \<lparr>js_parse = (\<lambda>s. Some (scheduled_payload s)),
     js_print = (\<lambda>v. case v of JObject [(_, JString s)] \<Rightarrow> s | _ \<Rightarrow> [])\<rparr>"

definition ex_workflow :: workflow_target where
  "ex_workflow = \<lparr>wt_prompt = ''p'', wt_runtime = ''codex'', wt_timeout = 60,
     wt_trigger = TSchedule ''* * * * *'' ''UTC'',
     wt_agent_profile = (''d'', \<lparr>ap_model = [], ap_reasoning_effort = [], ap_service_tier = []\<rparr>)\<rparr>"

definition ex_scheduled_targets :: targets where
  "ex_scheduled_targets = [(''a/b'', ex_target\<lparr>tg_workflows := [(''w'', ex_workflow)]\<rparr>)]"


subsection \<open>Change requests\<close>

definition ex_url :: string where "ex_url = ''https://github.com/a/b/pull/1''"

definition ex_answer_io :: reconcile_io where
  "ex_answer_io = ex_auto_io\<lparr>ri_observe := (\<lambda>_ _. Completed ''{}''),
     ri_parse := (\<lambda>_. Some (JObject [(''state'', JString ''OPEN''), (''mergedAt'', JNull),
        (''headRefOid'', JString ex_base), (''reviews'', JArray []), (''statusCheckRollup'', JArray [])]))\<rparr>"

theorem observed_event_trusted_witness:
  "\<exists>answer co. ri_observe ex_answer_io ex_target ex_url = Completed answer
     \<and> parse_observation ex_answer_io GitHub answer = Some co \<and> valid_head (co_head_sha co) \<and> co_merged_at co = None"
proof -
  obtain word fingerprint required where o: "observed_event ex_answer_io ''a/b'' ex_target ex_url = (word, fingerprint, required)"
    using prod_cases3 by blast
  have "fst (observed_event ex_answer_io ''a/b'' ex_target ex_url) = ''open''" by code_simp
  with o have "word = ''open''" by simp
  with observed_event_trusted [OF o] show ?thesis
    by (auto simp: ex_target_def split: option.splits)
qed

theorem reconcile_refines_event_machine_witness:
  "fst (reconcile_pull_request_event ex_auto_io ex_repository (''a/b'', ''42'', replicate 64 (CHR ''a'')) ex_clock
     ''open'' True \<lparr>rx_ledger = ex_running, rx_calls = []\<rparr>) = Inr ()"
proof -
  let ?s = "\<lparr>rx_ledger = ex_running, rx_calls = []\<rparr>"
  have "events_unique (rx_ledger ?s)" by code_simp
  from reconcile_refines_event_machine [OF ex_key_valid this,
      where io = ex_auto_io and p = ex_repository and clock = ex_clock and word = "''open''" and required = True]
  show ?thesis by (auto split: prod.splits)
qed

theorem reconciliation_completes_witness:
  "fst (reconcile_pull_request_observations ex_auto_io (\<lambda>_. ex_clock) [(''a/b'', ex_target)] False
     \<lparr>rx_ledger = ex_running\<lparr>autonomous_pull_requests :=
         [\<lparr>pa_repository = ''a/b'', pa_task_gid = ''42'', pa_pull_request = ex_url, pa_associated_at = 1\<rparr>]\<rparr>, rx_calls = []\<rparr>) = Inr ()"
proof -
  let ?s = "\<lparr>rx_ledger = ex_running\<lparr>autonomous_pull_requests :=
      [\<lparr>pa_repository = ''a/b'', pa_task_gid = ''42'', pa_pull_request = ex_url, pa_associated_at = 1\<rparr>]\<rparr>, rx_calls = []\<rparr>"
  have "length (ri_sha256 ex_auto_io t) = 32" for t by (simp add: ex_auto_io_def)
  moreover have "events_unique (rx_ledger ?s)" by code_simp
  moreover have "list_all named_association (autonomous_pull_requests (rx_ledger ?s))" by code_simp
  ultimately show ?thesis using reconciliation_completes [of ex_auto_io ?s] by blast
qed

theorem reconciliation_keeps_bound_witness:
  "continuations_of ''a/b'' ''42'' (rx_ledger (snd (reconcile_pull_request_observations ex_auto_io (\<lambda>_. ex_clock)
     [(''a/b'', ex_target)] False \<lparr>rx_ledger = empty_ledger, rx_calls = []\<rparr>))) \<le> 3"
proof -
  have "continuations_bounded (rx_ledger \<lparr>rx_ledger = empty_ledger, rx_calls = []\<rparr>)"
    by (simp add: continuations_bounded_def continuations_of_def empty_ledger_def count_where_def)
  from reconciliation_keeps_bound [OF this] show ?thesis by blast
qed

theorem observation_text_identifies_witness:
  "observation_text ''open'' ex_base ''r'' \<noteq> observation_text ''closed'' ex_base ''r''"
proof -
  have "valid_head ex_base" by code_simp
  from observation_text_identifies [OF _ _ this this, of "''open''" "''closed''" "''r''" "''r''"] show ?thesis by simp
qed

end
