(* ===== verification/Ticket_Payload.thy ===== *)
theory Ticket_Payload
  imports Ticket_Context Workflow_Fingerprint
begin

text \<open>
  What pollers and approvals write: the contexts as the JSON values \<open>serde\<close> prints (\<open>src/source.rs\<close>,
  \<open>src/github.rs\<close>), and the comments that carry an approval or a claim on an issue
  (\<open>src/approval.rs\<close>). Everything written is read back as it was. A negative zero is a
  float to the JSON crate.
\<close>

subsection \<open>Writing values\<close>

definition json_nat :: "nat \<Rightarrow> json" where "json_nat n = JNumber (nat_dec n)"
definition json_texts :: "string list \<Rightarrow> json" where "json_texts ws = JArray (map JString ws)"

lemma nat_dec_not_Nil [simp]: "nat_dec n \<noteq> []"
  by (subst nat_dec.simps) simp

lemma parse_u64_nat_dec: "n < 2 ^ 64 \<Longrightarrow> parse_u64 (nat_dec n) = Some n"
  using nat_dec_digits by (auto simp: parse_u64_def dec_value_nat_dec list_all_iff)

lemma those_strings [simp]: "those (map (json_as_str \<circ> JString) ws) = Some ws"
  by (induction ws) simp_all

text \<open>What a reader finds at a key of a written object.\<close>

lemma written_fields:
  "json_get k v = Some (JString s) \<Longrightarrow> field_text k v = Some s"
  "json_get k v = Some (JString s) \<Longrightarrow> field_default_text k v = Some s"
  "json_get k v = Some (json_texts ws) \<Longrightarrow> field_default_texts k v = Some ws"
  "json_get k v = Some (json_nat n) \<Longrightarrow> n < 2 ^ 64 \<Longrightarrow> field_u64 k v = Some n"
  by (simp_all add: field_text_def field_default_text_def field_default_texts_def field_list_def json_texts_def
      field_u64_def json_nat_def parse_u64_nat_dec)

subsection \<open>Contexts\<close>

definition source_context_json :: "source_ticket_context \<Rightarrow> json" where
  "source_context_json c = JObject [(''key'', JString (st_key c)), (''title'', JString (st_title c)),
     (''description'', JString (st_description c)), (''state'', JString (st_state c)), (''labels'', json_texts (st_labels c)),
     (''url'', JString (st_url c)), (''author'', JString (st_author c)),
     (''observed_revision'', JString (st_observed_revision c)), (''dependencies'', json_texts (st_dependencies c)),
     (''dependency_revision'', JString (st_dependency_revision c))]"

definition project_context_json :: "project_ticket_context \<Rightarrow> json" where
  "project_context_json c = JObject [(''project_id'', JString (pt_project_id c)), (''project_item_id'', JString (pt_project_item_id c)),
     (''status_field_id'', JString (pt_status_field_id c)), (''issue_node_id'', JString (pt_issue_node_id c)),
     (''number'', json_nat (pt_number c)), (''url'', JString (pt_url c)), (''title'', JString (pt_title c)),
     (''author_id'', JString (pt_author_id c)), (''author_login'', JString (pt_author_login c)),
     (''repository'', JString (pt_repository c)), (''expected_status'', JString (pt_expected_status c)),
     (''expected_option_id'', JString (pt_expected_option_id c)), (''status_updated_at'', JString (pt_status_updated_at c))]"

definition label_context_json :: "label_ticket_context \<Rightarrow> json" where
  "label_context_json c = JObject [(''number'', json_nat (lt_number c)), (''url'', JString (lt_url c)),
     (''title'', JString (lt_title c)), (''author_id'', json_nat (lt_author_id c)), (''author_login'', JString (lt_author_login c)),
     (''repository'', JString (lt_repository c)), (''expected_label'', JString (lt_expected_label c)),
     (''label_event_id'', json_nat (lt_label_event_id c))]"

lemma source_context_read: "source_context_of (source_context_json c) = Some c"
  by (simp add: source_context_of_def source_context_json_def written_fields)

lemma project_context_read: "pt_number c < 2 ^ 64 \<Longrightarrow> project_context_of (project_context_json c) = Some c"
  by (simp add: project_context_of_def project_context_json_def written_fields)

lemma label_context_read:
  "lt_number c < 2 ^ 64 \<Longrightarrow> lt_author_id c < 2 ^ 64 \<Longrightarrow> lt_label_event_id c < 2 ^ 64 \<Longrightarrow>
     label_context_of (label_context_json c) = Some c"
  by (simp add: label_context_of_def label_context_json_def written_fields)

subsection \<open>Approvals and claims\<close>

record approval_artifact =
  aa_version :: nat
  aa_issue :: nat
  aa_workflow_id :: string
  aa_workflow_hash :: string
  aa_approved_content_hash :: string
  aa_approver_id :: nat
  aa_nonce :: string

record claim_artifact =
  ca_version :: nat
  ca_task_id :: int
  ca_approval_artifact_id :: nat
  ca_label_event_id :: nat

definition APPROVAL_PREFIX :: string where "APPROVAL_PREFIX = ''<!-- factory-approval:v1 ''"
definition CLAIM_PREFIX :: string where "CLAIM_PREFIX = ''<!-- factory-claim:v1 ''"
definition ARTIFACT_SUFFIX :: string where "ARTIFACT_SUFFIX = '' -->''"

text \<open>
  \<open>deny_unknown_fields\<close>: an object with just these keys, each at most once. A number of another
  type than \<open>u64\<close> is a decimal with an optional sign that fits.
\<close>

definition only_fields :: "string list \<Rightarrow> json \<Rightarrow> bool" where
  "only_fields ks v \<longleftrightarrow> (case json_as_object v of None \<Rightarrow> False
     | Some kvs \<Rightarrow> list_all (\<lambda>f. fst f \<in> set ks) kvs \<and> distinct (map fst kvs))"

definition field_u8 :: "string \<Rightarrow> json \<Rightarrow> nat option" where
  "field_u8 k v = Option.bind (field_u64 k v) (\<lambda>n. if n < 256 then Some n else None)"

definition field_i64 :: "string \<Rightarrow> json \<Rightarrow> int option" where
  "field_i64 k v =
     (case json_get k v of
        Some (JNumber (c # s)) \<Rightarrow>
          if c = CHR ''-'' then Option.bind (parse_u64 s) (\<lambda>n. if 0 < n \<and> n \<le> 2 ^ 63 then Some (- int n) else None)
          else Option.bind (parse_u64 (c # s)) (\<lambda>n. if n < 2 ^ 63 then Some (int n) else None)
      | _ \<Rightarrow> None)"

definition json_int :: "int \<Rightarrow> json" where "json_int i = JNumber (int_dec i)"

definition approval_json :: "approval_artifact \<Rightarrow> json" where
  "approval_json a = JObject [(''version'', json_nat (aa_version a)), (''issue'', json_nat (aa_issue a)),
     (''workflow_id'', JString (aa_workflow_id a)), (''workflow_hash'', JString (aa_workflow_hash a)),
     (''approved_content_hash'', JString (aa_approved_content_hash a)), (''approver_id'', json_nat (aa_approver_id a)),
     (''nonce'', JString (aa_nonce a))]"

definition claim_json :: "claim_artifact \<Rightarrow> json" where
  "claim_json c = JObject [(''version'', json_nat (ca_version c)), (''task_id'', json_int (ca_task_id c)),
     (''approval_artifact_id'', json_nat (ca_approval_artifact_id c)), (''label_event_id'', json_nat (ca_label_event_id c))]"

definition approval_artifact_of :: "json \<Rightarrow> approval_artifact option" where
  "approval_artifact_of v =
     (if \<not> only_fields [''version'', ''issue'', ''workflow_id'', ''workflow_hash'', ''approved_content_hash'', ''approver_id'', ''nonce''] v
      then None else
      Option.bind (field_u8 ''version'' v) (\<lambda>version.
      Option.bind (field_u64 ''issue'' v) (\<lambda>issue.
      Option.bind (field_text ''workflow_id'' v) (\<lambda>workflow.
      Option.bind (field_text ''workflow_hash'' v) (\<lambda>workflow_hash.
      Option.bind (field_text ''approved_content_hash'' v) (\<lambda>content.
      Option.bind (field_u64 ''approver_id'' v) (\<lambda>approver.
      Option.bind (field_text ''nonce'' v) (\<lambda>nonce.
      Some \<lparr>aa_version = version, aa_issue = issue, aa_workflow_id = workflow, aa_workflow_hash = workflow_hash,
        aa_approved_content_hash = content, aa_approver_id = approver, aa_nonce = nonce\<rparr>))))))))"

definition claim_artifact_of :: "json \<Rightarrow> claim_artifact option" where
  "claim_artifact_of v =
     (if \<not> only_fields [''version'', ''task_id'', ''approval_artifact_id'', ''label_event_id''] v then None else
      Option.bind (field_u8 ''version'' v) (\<lambda>version.
      Option.bind (field_i64 ''task_id'' v) (\<lambda>task.
      Option.bind (field_u64 ''approval_artifact_id'' v) (\<lambda>artifact.
      Option.bind (field_u64 ''label_event_id'' v) (\<lambda>event.
      Some \<lparr>ca_version = version, ca_task_id = task, ca_approval_artifact_id = artifact, ca_label_event_id = event\<rparr>)))))"

definition render_approval :: "(json \<Rightarrow> string) \<Rightarrow> approval_artifact \<Rightarrow> string" where
  "render_approval print a = APPROVAL_PREFIX @ print (approval_json a) @ ARTIFACT_SUFFIX"

definition render_claim :: "(json \<Rightarrow> string) \<Rightarrow> claim_artifact \<Rightarrow> string" where
  "render_claim print c = CLAIM_PREFIX @ print (claim_json c) @ ARTIFACT_SUFFIX"

definition between :: "string \<Rightarrow> string \<Rightarrow> string \<Rightarrow> string option" where
  "between prefix suffix body = Option.bind (strip_prefix prefix (trim body)) (strip_suffix suffix)"

definition parse_approval :: "(string \<Rightarrow> json option) \<Rightarrow> string \<Rightarrow> approval_artifact option" where
  "parse_approval parse body =
     Option.bind (between APPROVAL_PREFIX ARTIFACT_SUFFIX body) (\<lambda>text.
     Option.bind (Option.bind (parse text) approval_artifact_of) (\<lambda>a.
     if aa_version a = 1 then Some a else None))"

definition parse_claim :: "(string \<Rightarrow> json option) \<Rightarrow> string \<Rightarrow> claim_artifact option" where
  "parse_claim parse body =
     Option.bind (between CLAIM_PREFIX ARTIFACT_SUFFIX body) (\<lambda>text.
     Option.bind (Option.bind (parse text) claim_artifact_of) (\<lambda>c.
     if ca_version c = 1 then Some c else None))"

lemma chars_snoc: "\<not> is_cont c \<Longrightarrow> chars (s @ [c]) = chars s @ [[c]]"
proof (induction s rule: chars.induct)
  case (2 b bs)
  moreover have "takeWhile is_cont (bs @ [c]) = takeWhile is_cont bs" using "2.prems" by (induction bs) auto
  moreover have "dropWhile is_cont (bs @ [c]) = dropWhile is_cont bs @ [c]"
    using "2.prems" by (rule dropWhile_append3)
  ultimately show ?case by simp
qed simp

lemma trim_enclosed:
  assumes "\<not> is_cont b" and "\<not> is_cont d" and "\<not> is_whitespace [a]" and "\<not> is_whitespace [d]"
  shows "trim (a # b # s @ [d]) = a # b # s @ [d]"
proof -
  have "chars (a # b # s @ [d]) = [a] # chars (b # s @ [d])" using assms(1) by simp
  moreover have "chars (b # s @ [d]) = chars (b # s) @ [[d]]" using chars_snoc [OF assms(2), of "b # s"] by simp
  ultimately have c: "chars (a # b # s @ [d]) = [a] # chars (b # s) @ [[d]]" by simp
  have "concat (chars (b # s)) = b # s" by (rule concat_chars)
  then show ?thesis using assms(3,4) by (simp only: trim_def c) simp
qed

lemma comment_trimmed:
  "trim (APPROVAL_PREFIX @ s @ ARTIFACT_SUFFIX) = APPROVAL_PREFIX @ s @ ARTIFACT_SUFFIX"
  "trim (CLAIM_PREFIX @ s @ ARTIFACT_SUFFIX) = CLAIM_PREFIX @ s @ ARTIFACT_SUFFIX"
  using trim_enclosed [of "CHR ''!''" "CHR ''>''" "CHR ''<''" "''-- factory-approval:v1 '' @ s @ '' --''"]
    trim_enclosed [of "CHR ''!''" "CHR ''>''" "CHR ''<''" "''-- factory-claim:v1 '' @ s @ '' --''"]
  by (simp_all add: APPROVAL_PREFIX_def CLAIM_PREFIX_def ARTIFACT_SUFFIX_def is_cont_def is_whitespace_def byte_def)

lemma json_int_read:
  assumes "json_get k v = Some (json_int i)" and "- (2 ^ 63) \<le> i" and "i < 2 ^ 63"
  shows "field_i64 k v = Some i"
proof (cases "i < 0")
  case True
  then have "nat (- i) \<le> 2 ^ 63" using assms(2) by simp
  with True have "parse_u64 (nat_dec (nat (- i))) = Some (nat (- i))" by (intro parse_u64_nat_dec) simp
  with True assms(1) \<open>nat (- i) \<le> 2 ^ 63\<close> show ?thesis by (simp add: field_i64_def json_int_def int_dec_def)
next
  case False
  obtain c s where d: "nat_dec (nat i) = c # s" using nat_dec_not_Nil [of "nat i"] by (cases "nat_dec (nat i)") auto
  have "is_ascii_digit c" using nat_dec_digits [of c "nat i"] d by simp
  then have "c \<noteq> CHR ''-''" by (auto simp: is_ascii_digit_def byte_def)
  moreover have "parse_u64 (c # s) = Some (nat i)" using parse_u64_nat_dec [of "nat i"] False assms(3) d by simp
  ultimately show ?thesis using False assms(1,3) d by (simp add: field_i64_def json_int_def int_dec_def)
qed

text \<open>
  C35. What is posted on an issue is what is read from it: as long as the JSON crate reads back what it printed of them, an approval of version
  one, and a claim of version one, come back from the comments that carry them.
\<close>

theorem artifacts_roundtrip:
  assumes "parse (print (approval_json a)) = Some (approval_json a)" and "parse (print (claim_json c)) = Some (claim_json c)"
    and "aa_version a = 1" and "aa_issue a < 2 ^ 64" and "aa_approver_id a < 2 ^ 64"
    and "ca_version c = 1" and "- (2 ^ 63) \<le> ca_task_id c" and "ca_task_id c < 2 ^ 63"
    and "ca_approval_artifact_id c < 2 ^ 64" and "ca_label_event_id c < 2 ^ 64"
  shows "parse_approval parse (render_approval print a) = Some a \<and> parse_claim parse (render_claim print c) = Some c"
proof
  have "approval_artifact_of (approval_json a) = Some a"
    using assms(3-5)
    by (simp add: approval_artifact_of_def approval_json_def only_fields_def written_fields field_u8_def)
  then show "parse_approval parse (render_approval print a) = Some a"
    using assms(1,3)
    by (simp add: parse_approval_def render_approval_def between_def comment_trimmed strip_suffix_def)
  have "claim_artifact_of (claim_json c) = Some c"
    using assms(6-)
    by (simp add: claim_artifact_of_def claim_json_def only_fields_def written_fields field_u8_def json_int_read)
  then show "parse_claim parse (render_claim print c) = Some c"
    using assms(2,6)
    by (simp add: parse_claim_def render_claim_def between_def comment_trimmed strip_suffix_def)
qed

text \<open>The hashed text of what was approved is a JSON array of the kind of hash, issue, title, body and workflow.\<close>

definition approved_content :: "nat \<Rightarrow> string \<Rightarrow> string \<Rightarrow> string \<Rightarrow> string \<Rightarrow> json" where
  "approved_content issue title body workflow_id workflow_hash = JArray [JString ''factory-approved-content-v1'',
     json_nat issue, JString title, JString body, JString workflow_id, JString workflow_hash]"

definition approved_content_hash ::
  "(json \<Rightarrow> string) \<Rightarrow> (string \<Rightarrow> 8 word list) \<Rightarrow> nat \<Rightarrow> string \<Rightarrow> string \<Rightarrow> string \<Rightarrow> string \<Rightarrow> string" where
  "approved_content_hash print sha256 issue title body workflow_id workflow_hash =
     ''v1:'' @ sha256_hex sha256 (print (approved_content issue title body workflow_id workflow_hash))"

lemma approved_content_inject:
  "approved_content i t b w h = approved_content i' t' b' w' h' \<longleftrightarrow> i = i' \<and> t = t' \<and> b = b' \<and> w = w' \<and> h = h'"
  by (auto simp: approved_content_def json_nat_def)

end
