(* ===== verification/GitHub_Client.thy ===== *)
theory GitHub_Client
  imports Ticket_Payload Forge Config_Data
begin

text \<open>
  The calls of the GitHub client (\<open>src/github.rs\<close>) beyond those of \<open>Forge\<close>: the structs its answers decode to, the
  requests for one value and for all pages, and the operations built from them. Fields a struct does not name are ignored, as
  \<open>serde\<close> does.
\<close>

subsection \<open>Decoding answers\<close>

definition field_of :: "string \<Rightarrow> (json \<Rightarrow> 'a option) \<Rightarrow> json \<Rightarrow> 'a option" where
  "field_of k decode v = Option.bind (json_get k v) decode"

definition field_maybe :: "string \<Rightarrow> (json \<Rightarrow> 'a option) \<Rightarrow> json \<Rightarrow> 'a option option" where
  "field_maybe k decode v =
     (case json_get k v of None \<Rightarrow> Some None | Some JNull \<Rightarrow> Some None | Some w \<Rightarrow> map_option Some (decode w))"

definition each_of :: "(json \<Rightarrow> 'a option) \<Rightarrow> json \<Rightarrow> 'a list option" where
  "each_of decode v = Option.bind (json_as_array v) (\<lambda>vs. those (map decode vs))"

record api_user =
  au_id :: nat
  au_login :: string

record api_issue =
  ai_number :: nat
  ai_html_url :: string
  ai_title :: string
  ai_body :: "string option"
  ai_labels :: "string list"
  ai_updated_at :: string
  ai_state :: string
  ai_pull_request :: "json option"
  ai_user :: api_user

record api_comment =
  ao_id :: nat
  ao_html_url :: string
  ao_user :: api_user
  ao_body :: "string option"
  ao_created_at :: string
  ao_updated_at :: string

record api_timeline_event =
  ae_id :: nat
  ae_event :: string
  ae_actor :: api_user
  ae_label :: "string option"
  ae_created_at :: string

record github_user =
  gu_id :: nat
  gu_login :: string
  gu_node_id :: "string option"

record issue_snapshot =
  is_number :: nat
  is_url :: string
  is_title :: string
  is_body :: string
  is_state :: string
  is_labels :: "string list"
  is_updated_at :: string
  is_author_id :: nat
  is_author_login :: string

definition api_user_of :: "json \<Rightarrow> api_user option" where
  "api_user_of v =
     Option.bind (field_u64 ''id'' v) (\<lambda>i. Option.bind (field_text ''login'' v) (\<lambda>login.
     Some \<lparr>au_id = i, au_login = login\<rparr>))"

text \<open>A label is its name.\<close>

definition api_label_of :: "json \<Rightarrow> string option" where
  "api_label_of v = field_text ''name'' v"

definition api_issue_of :: "json \<Rightarrow> api_issue option" where
  "api_issue_of v =
     Option.bind (field_u64 ''number'' v) (\<lambda>number.
     Option.bind (field_text ''html_url'' v) (\<lambda>url.
     Option.bind (field_text ''title'' v) (\<lambda>title.
     Option.bind (field_optional_text ''body'' v) (\<lambda>body.
     Option.bind (field_of ''labels'' (each_of api_label_of) v) (\<lambda>labels.
     Option.bind (field_text ''updated_at'' v) (\<lambda>updated.
     Option.bind (case json_get ''state'' v of None \<Rightarrow> Some ''open'' | Some w \<Rightarrow> json_as_str w) (\<lambda>state.
     Option.bind (field_of ''user'' api_user_of v) (\<lambda>user.
     Some \<lparr>ai_number = number, ai_html_url = url, ai_title = title, ai_body = body, ai_labels = labels,
       ai_updated_at = updated, ai_state = state, ai_pull_request = field_value ''pull_request'' v, ai_user = user\<rparr>))))))))"

definition api_comment_of :: "json \<Rightarrow> api_comment option" where
  "api_comment_of v =
     Option.bind (field_u64 ''id'' v) (\<lambda>i.
     Option.bind (field_text ''html_url'' v) (\<lambda>url.
     Option.bind (field_of ''user'' api_user_of v) (\<lambda>user.
     Option.bind (field_optional_text ''body'' v) (\<lambda>body.
     Option.bind (field_text ''created_at'' v) (\<lambda>created.
     Option.bind (field_text ''updated_at'' v) (\<lambda>updated.
     Some \<lparr>ao_id = i, ao_html_url = url, ao_user = user, ao_body = body, ao_created_at = created, ao_updated_at = updated\<rparr>))))))"

definition api_timeline_event_of :: "json \<Rightarrow> api_timeline_event option" where
  "api_timeline_event_of v =
     Option.bind (field_u64 ''id'' v) (\<lambda>i.
     Option.bind (field_text ''event'' v) (\<lambda>event.
     Option.bind (field_of ''actor'' api_user_of v) (\<lambda>actor.
     Option.bind (field_maybe ''label'' api_label_of v) (\<lambda>label.
     Option.bind (field_text ''created_at'' v) (\<lambda>created.
     Some \<lparr>ae_id = i, ae_event = event, ae_actor = actor, ae_label = label, ae_created_at = created\<rparr>)))))"

definition github_user_of :: "json \<Rightarrow> github_user option" where
  "github_user_of v =
     Option.bind (field_u64 ''id'' v) (\<lambda>i. Option.bind (field_text ''login'' v) (\<lambda>login.
     Option.bind (field_optional_text ''node_id'' v) (\<lambda>node.
     Some \<lparr>gu_id = i, gu_login = login, gu_node_id = node\<rparr>)))"

definition issue_snapshot_of :: "api_issue \<Rightarrow> issue_snapshot" where
  "issue_snapshot_of issue =
     \<lparr>is_number = ai_number issue, is_url = ai_html_url issue, is_title = ai_title issue,
       is_body = (case ai_body issue of None \<Rightarrow> [] | Some b \<Rightarrow> b), is_state = ai_state issue, is_labels = ai_labels issue,
       is_updated_at = ai_updated_at issue, is_author_id = au_id (ai_user issue), is_author_login = au_login (ai_user issue)\<rparr>"

lemma field_u64_bound: "field_u64 k v = Some n \<Longrightarrow> n < 2 ^ 64"
  by (auto simp: field_u64_def parse_u64_def split: option.splits json.splits if_splits)

lemma api_issue_bounds:
  "api_issue_of v = Some issue \<Longrightarrow> ai_number issue < 2 ^ 64 \<and> au_id (ai_user issue) < 2 ^ 64"
  by (auto simp: api_issue_of_def bind_eq_Some_conv api_user_of_def field_of_def dest!: field_u64_bound)

lemma api_event_bound: "api_timeline_event_of v = Some e \<Longrightarrow> ae_id e < 2 ^ 64"
  by (auto simp: api_timeline_event_of_def bind_eq_Some_conv dest!: field_u64_bound)

lemma each_of_member:
  assumes "each_of decode v = Some xs" and "x \<in> set xs"
  obtains w where "decode w = Some x"
proof -
  from assms(1) obtain vs where "those (map decode vs) = Some xs"
    by (auto simp: each_of_def bind_eq_Some_conv)
  then have "map decode vs = map Some xs"
  proof (induction vs arbitrary: xs)
    case (Cons w ws)
    then show ?case by (cases "decode w"; cases "those (map decode ws)") auto
  qed simp
  with assms(2) have "Some x \<in> set (map decode vs)" by simp
  then show thesis using that by auto
qed

subsection \<open>Requests\<close>

text \<open>Why approved work is not claimed, why a ticket is no longer the one that was queued, and what is wrong with a project.\<close>

datatype approval_refusal =
    NotItsApproval | ApprovalReserved | ActorNotTrusted | ApproverNotTrusted | IssueNotOpen | ContextNotApproved | NotReady
  | ArtifactGone | ArtifactMalformed | ArtifactDiffers | ClaimConflict | AlreadyClaimed | ReadyEventGone | ReadyEventDiffers
  | ContentChanged | ConsumptionDiffers | ChangedConcurrently | SupersededByEvent | SupersededByApproval | ClaimNotVisible

datatype ticket_refusal =
    NotItsIdentity | RepositoryDiffers | AuthorNotTrusted | StatusNotConfigured string | SourceChanged
  | NoProjectItem | NoProjectIssue | NoProjectStatus | ProjectIssueDiffers | NoProjectAuthor | ProjectIssueChanged
  | IssueChanged | LabelEntryChanged

datatype project_fault =
    EmptyProjectId | NoStatusField | AmbiguousStatusField | NotSingleSelect | DuplicateOptionName string
  | DuplicateOptionId string | NoNodeId string | NoProjectNode | NoEndCursor

datatype hub_error =
    HubCommand forge_error | MalformedAnswer | TokenNotSet | TokenIsEmpty | InvalidBranch | InvalidCommentId
  | NoPayload | InvalidPayload | NoIssueNumber | Unapproved approval_refusal | NotCurrent ticket_refusal
  | BadProject project_fault | PollCancelled | NoHubSource | HubLedger ledger_error

type_synonym ('a, 's) hubbed = "(hub_error, 'a, 's) outcome"

definition relabel :: "('e \<Rightarrow> 'f) \<Rightarrow> ('e, 'a, 's) outcome \<Rightarrow> ('f, 'a, 's) outcome" where
  "relabel f r = (map_err f (fst r), snd r)"

lemma relabel_Inr_iff [result_simps]: "relabel f r = (Inr v, s) \<longleftrightarrow> r = (Inr v, s)"
  by (cases r; cases "fst r") (auto simp: relabel_def)

lemma allowed_relabel [request_rules]: "allowed P t (snd r) \<Longrightarrow> allowed P t (snd (relabel f r))"
  by (simp add: relabel_def)

definition hub_run :: "outside \<Rightarrow> path option \<Rightarrow> string list \<Rightarrow> trace \<Rightarrow> (string, trace) hubbed" where
  "hub_run o' repository args t = relabel HubCommand (gh o' repository args t)"

text \<open>\<open>parse\<close> is the JSON crate's parser.\<close>

definition api_json ::
  "outside \<Rightarrow> (string \<Rightarrow> json option) \<Rightarrow> (json \<Rightarrow> 'a option) \<Rightarrow> path option \<Rightarrow> string \<Rightarrow> trace \<Rightarrow> ('a, trace) hubbed" where
  "api_json o' parse decode repository endpoint t =
     continue (hub_run o' repository [''api'', endpoint] t) (\<lambda>out t.
     pure (ok_or MalformedAnswer (Option.bind (parse out) decode)) t)"

definition api_pages ::
  "outside \<Rightarrow> (string \<Rightarrow> json option) \<Rightarrow> (json \<Rightarrow> 'a option) \<Rightarrow> path \<Rightarrow> string \<Rightarrow> trace \<Rightarrow> ('a list, trace) hubbed" where
  "api_pages o' parse decode repository endpoint t =
     continue (hub_run o' (Some repository) [''api'', ''--paginate'', ''--slurp'', endpoint] t) (\<lambda>out t.
     continue (pure (ok_or MalformedAnswer (Option.bind (parse out) (each_of (each_of decode)))) t) (\<lambda>pages t.
     (Inr (concat pages), t)))"

definition hub_validate_token_env :: "outside \<Rightarrow> (string \<Rightarrow> json option) \<Rightarrow> string \<Rightarrow> trace \<Rightarrow> (github_user, trace) hubbed" where
  "hub_validate_token_env o' parse environment t =
     continue (ask (AskVariable environment) (\<lambda>t. o_variable o' t environment) t) (\<lambda>token t.
     continue (pure (ok_or TokenNotSet token) t) (\<lambda>token t.
     continue (demand TokenIsEmpty (\<not> blank token) t) (\<lambda>_ t.
     continue (relabel HubCommand (gh_with_token o' None [''api'', ''user''] (Some token) t)) (\<lambda>out t.
     pure (ok_or MalformedAnswer (Option.bind (parse out) github_user_of)) t))))"

definition hub_labels :: "outside \<Rightarrow> path \<Rightarrow> trace \<Rightarrow> (string list, trace) hubbed" where
  "hub_labels o' repository t =
     continue (hub_run o' (Some repository)
       [''api'', ''repos/{owner}/{repo}/labels'', ''--paginate'', ''--jq'', ''.[].name''] t) (\<lambda>out t.
     (Inr (text_lines out), t))"

definition create_label :: "outside \<Rightarrow> path \<Rightarrow> string \<Rightarrow> string \<Rightarrow> string \<Rightarrow> trace \<Rightarrow> (unit, trace) hubbed" where
  "create_label o' repository name description color t =
     continue (hub_run o' (Some repository)
       [''label'', ''create'', name, ''--description'', description, ''--color'', color] t) (\<lambda>_ t. (Inr (), t))"

definition current_user :: "outside \<Rightarrow> (string \<Rightarrow> json option) \<Rightarrow> trace \<Rightarrow> (github_user, trace) hubbed" where
  "current_user o' parse t = api_json o' parse github_user_of None ''user'' t"

definition hub_user :: "outside \<Rightarrow> (string \<Rightarrow> json option) \<Rightarrow> path \<Rightarrow> string \<Rightarrow> trace \<Rightarrow> (github_user, trace) hubbed" where
  "hub_user o' parse repository login t = api_json o' parse github_user_of (Some repository) (''users/'' @ login) t"

definition issue_endpoint :: "string \<Rightarrow> nat \<Rightarrow> string" where
  "issue_endpoint name issue = ''repos/'' @ name @ ''/issues/'' @ nat_dec issue"

definition hub_issue ::
  "outside \<Rightarrow> (string \<Rightarrow> json option) \<Rightarrow> path \<Rightarrow> string \<Rightarrow> nat \<Rightarrow> trace \<Rightarrow> (issue_snapshot, trace) hubbed" where
  "hub_issue o' parse repository name issue t =
     continue (api_json o' parse api_issue_of (Some repository) (issue_endpoint name issue) t) (\<lambda>issue t.
     (Inr (issue_snapshot_of issue), t))"

definition hub_default_branch ::
  "outside \<Rightarrow> (string \<Rightarrow> json option) \<Rightarrow> path \<Rightarrow> string \<Rightarrow> trace \<Rightarrow> (string, trace) hubbed" where
  "hub_default_branch o' parse repository name t =
     continue (api_json o' parse (field_text ''default_branch'') (Some repository) (''repos/'' @ name) t) (\<lambda>branch t.
     pure (map_err (\<lambda>_. InvalidBranch) (forge_validate_branch (trim branch))) t)"

definition issue_comments ::
  "outside \<Rightarrow> (string \<Rightarrow> json option) \<Rightarrow> path \<Rightarrow> string \<Rightarrow> nat \<Rightarrow> trace \<Rightarrow> (api_comment list, trace) hubbed" where
  "issue_comments o' parse repository name issue t =
     api_pages o' parse api_comment_of repository (issue_endpoint name issue @ ''/comments?per_page=100'') t"

definition issue_timeline ::
  "outside \<Rightarrow> (string \<Rightarrow> json option) \<Rightarrow> path \<Rightarrow> string \<Rightarrow> nat \<Rightarrow> trace \<Rightarrow> (api_timeline_event list, trace) hubbed" where
  "issue_timeline o' parse repository name issue t =
     api_pages o' parse api_timeline_event_of repository (issue_endpoint name issue @ ''/timeline?per_page=100'') t"

text \<open>\<open>str::parse::<u64>\<close>, which allows a plus sign.\<close>

definition parse_u64_text :: "string \<Rightarrow> nat option" where
  "parse_u64_text s = parse_u64 (case s of CHR ''+'' # digits \<Rightarrow> digits | _ \<Rightarrow> s)"

definition post_comment_args :: "string \<Rightarrow> nat \<Rightarrow> string \<Rightarrow> string list" where
  "post_comment_args name issue body =
     [''api'', ''--method'', ''POST'', issue_endpoint name issue @ ''/comments'', ''-f'', ''body='' @ body, ''--jq'', ''.id'']"

definition post_issue_comment :: "outside \<Rightarrow> path \<Rightarrow> string \<Rightarrow> nat \<Rightarrow> string \<Rightarrow> trace \<Rightarrow> (nat, trace) hubbed" where
  "post_issue_comment o' repository name issue body t =
     continue (hub_run o' (Some repository) (post_comment_args name issue body) t) (\<lambda>out t.
     pure (ok_or InvalidCommentId (parse_u64_text (trim out))) t)"

definition edit_issue_label :: "outside \<Rightarrow> path \<Rightarrow> nat \<Rightarrow> string \<Rightarrow> bool \<Rightarrow> trace \<Rightarrow> (unit, trace) hubbed" where
  "edit_issue_label o' repository issue label add t =
     continue (hub_run o' (Some repository)
       [''issue'', ''edit'', nat_dec issue, if add then ''--add-label'' else ''--remove-label'', label] t) (\<lambda>_ t. (Inr (), t))"

subsection \<open>Trusted users\<close>

text \<open>The logins that are trusted now, by numeric and by node identifier.\<close>

fun trusted_numeric_ids ::
  "outside \<Rightarrow> (string \<Rightarrow> json option) \<Rightarrow> path \<Rightarrow> (nat \<Rightarrow> string option) \<Rightarrow> string list \<Rightarrow> trace \<Rightarrow> (nat \<Rightarrow> string option, trace) hubbed" where
  "trusted_numeric_ids o' parse repository users [] t = (Inr users, t)"
| "trusted_numeric_ids o' parse repository users (login # logins) t =
     continue (hub_user o' parse repository login t) (\<lambda>user t.
     trusted_numeric_ids o' parse repository (users(gu_id user \<mapsto> gu_login user)) logins t)"

fun trusted_node_ids ::
  "outside \<Rightarrow> (string \<Rightarrow> json option) \<Rightarrow> path \<Rightarrow> (string \<Rightarrow> string option) \<Rightarrow> string list \<Rightarrow> trace \<Rightarrow> (string \<Rightarrow> string option, trace) hubbed" where
  "trusted_node_ids o' parse repository users [] t = (Inr users, t)"
| "trusted_node_ids o' parse repository users (login # logins) t =
     continue (hub_user o' parse repository login t) (\<lambda>user t.
     continue (pure (ok_or (BadProject (NoNodeId (gu_login user))) (gu_node_id user)) t) (\<lambda>node t.
     trusted_node_ids o' parse repository (users(node \<mapsto> gu_login user)) logins t))"

definition trusted_source_numeric_user_ids ::
  "outside \<Rightarrow> (string \<Rightarrow> json option) \<Rightarrow> path \<Rightarrow> source_config \<Rightarrow> trace \<Rightarrow> (nat \<Rightarrow> string option, trace) hubbed" where
  "trusted_source_numeric_user_ids o' parse repository source t =
     trusted_numeric_ids o' parse repository Map.empty (sc_trusted_users source) t"

definition trusted_source_user_ids ::
  "outside \<Rightarrow> (string \<Rightarrow> json option) \<Rightarrow> path \<Rightarrow> source_config \<Rightarrow> trace \<Rightarrow> (string \<Rightarrow> string option, trace) hubbed" where
  "trusted_source_user_ids o' parse repository source t =
     trusted_node_ids o' parse repository Map.empty (sc_trusted_users source) t"

subsection \<open>Requests that change nothing\<close>

text \<open>What the client asks for without a change on the host.\<close>

definition reads_host :: "request \<Rightarrow> bool" where
  "reads_host r \<longleftrightarrow> (case r of
      Run c \<Rightarrow> cm_program c = ''gh'' \<and> (case cm_args c of
          a # b # _ \<Rightarrow> a = ''api'' \<and> b \<noteq> ''--method'' \<or> a \<in> set [''repo'', ''project''] \<and> b \<in> set [''view'', ''field-list''] | _ \<Rightarrow> False)
    | _ \<Rightarrow> False)"

lemma allowed_hub_run [request_rules]:
  "P (Run (gh_command repository args None)) \<Longrightarrow> allowed P t (snd (hub_run o' repository args t))"
  unfolding hub_run_def gh_def gh_with_token_def by (intro request_rules)

lemma reads_gh [simp]:
  "reads_host (Run (gh_command repository (''api'' # b # args) token)) \<longleftrightarrow> b \<noteq> ''--method''"
  "reads_host (Run (gh_command repository (''repo'' # ''view'' # args) token))"
  "reads_host (Run (gh_command repository (''project'' # ''view'' # args) token))"
  "reads_host (Run (gh_command repository (''project'' # ''field-list'' # args) token))"
  by (simp_all add: reads_host_def gh_command_def)

lemma issue_endpoint_read [simp]:
  "issue_endpoint name issue \<noteq> ''--method''" "''users/'' @ login \<noteq> ''--method''" "issue_endpoint name issue @ s \<noteq> ''--method''"
  by (simp_all add: issue_endpoint_def)

lemma read_requests [request_rules]:
  "endpoint \<noteq> ''--method'' \<Longrightarrow> allowed reads_host t (snd (api_json o' parse decode path endpoint t))"
  "allowed reads_host t (snd (api_pages o' parse decode repository endpoint t))"
  unfolding api_json_def api_pages_def by (intro request_rules; simp add: request_rules)+

lemma client_reads [request_rules]:
  "allowed reads_host t (snd (current_user o' parse t))"
  "allowed reads_host t (snd (hub_user o' parse repository login t))"
  "allowed reads_host t (snd (hub_issue o' parse repository name issue t))"
  "allowed reads_host t (snd (issue_comments o' parse repository name issue t))"
  "allowed reads_host t (snd (issue_timeline o' parse repository name issue t))"
  unfolding current_user_def hub_user_def hub_issue_def issue_comments_def issue_timeline_def
  by (intro request_rules; simp)+

lemma trusted_reads [request_rules]:
  "allowed reads_host t (snd (trusted_numeric_ids o' parse repository users logins t))"
  "allowed reads_host t (snd (trusted_node_ids o' parse repository nodes logins t))"
proof -
  show "allowed reads_host t (snd (trusted_numeric_ids o' parse repository users logins t))"
    by (induction logins arbitrary: users t) (auto intro!: request_rules)
  show "allowed reads_host t (snd (trusted_node_ids o' parse repository nodes logins t))"
    by (induction logins arbitrary: nodes t) (auto intro!: request_rules simp del: pure_eq)
qed

end
