(* ===== verification/Ticket_Source.thy ===== *)
theory Ticket_Source
  imports Ticket_Payload Outside Ledger_Poll Workflow_Catalog
begin

text \<open>
  The ticket source of a repository (\<open>src/source.rs\<close>): a configured command is asked for the tickets in a state with
  labels, its answer is checked, and what it reports becomes observations for the ledger. The
  same query decides again before a task starts. A command that is cancelled or overdue is one that gave no answer.
\<close>

subsection \<open>Bounded reading\<close>

record bounded_bytes =
  bb_bytes :: string
  bb_truncated :: bool

definition read_chunk :: "nat \<Rightarrow> bool \<Rightarrow> string \<Rightarrow> bounded_bytes \<Rightarrow> bounded_bytes" where
  "read_chunk maximum retain_tail chunk b =
     (if retain_tail
      then if maximum \<le> length chunk
           then \<lparr>bb_bytes = drop (length chunk - maximum) chunk, bb_truncated = True\<rparr>
           else let overflow = length (bb_bytes b) + length chunk - maximum
                in \<lparr>bb_bytes = drop overflow (bb_bytes b) @ chunk, bb_truncated = bb_truncated b \<or> 0 < overflow\<rparr>
      else let remaining = maximum - length (bb_bytes b)
           in \<lparr>bb_bytes = bb_bytes b @ take remaining chunk, bb_truncated = bb_truncated b \<or> remaining < length chunk\<rparr>)"

text \<open>The chunks are what successive reads of the pipe return, up to its end.\<close>

definition read_bounded :: "nat \<Rightarrow> bool \<Rightarrow> string list \<Rightarrow> bounded_bytes" where
  "read_bounded maximum retain_tail chunks = fold (read_chunk maximum retain_tail) chunks \<lparr>bb_bytes = [], bb_truncated = False\<rparr>"

definition MAX_OUTPUT_BYTES :: int where "MAX_OUTPUT_BYTES = 1024 * 1024"

definition too_long :: "string \<Rightarrow> bool" where
  "too_long out \<longleftrightarrow> MAX_OUTPUT_BYTES < int (length out)"

lemma read_head:
  "fold (read_chunk maximum False) chunks \<lparr>bb_bytes = take maximum s, bb_truncated = (maximum < length s)\<rparr>
     = \<lparr>bb_bytes = take maximum (s @ concat chunks), bb_truncated = (maximum < length (s @ concat chunks))\<rparr>"
proof (induction chunks arbitrary: s)
  case (Cons c cs)
  have "read_chunk maximum False c \<lparr>bb_bytes = take maximum s, bb_truncated = (maximum < length s)\<rparr>
      = \<lparr>bb_bytes = take maximum (s @ c), bb_truncated = (maximum < length (s @ c))\<rparr>"
    by (auto simp: read_chunk_def Let_def min_def)
  with Cons.IH [of "s @ c"] show ?case by simp
qed simp

lemma read_tail:
  assumes "list_all (\<lambda>c. length c < maximum) chunks"
  shows "fold (read_chunk maximum True) chunks \<lparr>bb_bytes = drop (length s - maximum) s, bb_truncated = (maximum < length s)\<rparr>
     = \<lparr>bb_bytes = drop (length (s @ concat chunks) - maximum) (s @ concat chunks),
        bb_truncated = (maximum < length (s @ concat chunks))\<rparr>"
  using assms
proof (induction chunks arbitrary: s)
  case (Cons c cs)
  have "read_chunk maximum True c \<lparr>bb_bytes = drop (length s - maximum) s, bb_truncated = (maximum < length s)\<rparr>
      = \<lparr>bb_bytes = drop (length (s @ c) - maximum) (s @ c), bb_truncated = (maximum < length (s @ c))\<rparr>"
    using Cons.prems by (cases "maximum \<le> length s") (auto simp: read_chunk_def Let_def ac_simps simp flip: length_greater_0_conv)
  with Cons show ?case using Cons.IH [of "s @ c"] by simp
qed simp

text \<open>
  However a pipe is cut into reads, the head of the output is its first bytes and the tail its last ones, and
  the result is marked exactly when something was dropped; the tail needs a buffer that is smaller than
  the bound.
\<close>

theorem read_bounded_spec:
  assumes "list_all (\<lambda>c. length c < maximum) chunks"
  shows "read_bounded maximum False chunks
      = \<lparr>bb_bytes = take maximum (concat chunks), bb_truncated = (maximum < length (concat chunks))\<rparr>
    \<and> read_bounded maximum True chunks
      = \<lparr>bb_bytes = drop (length (concat chunks) - maximum) (concat chunks), bb_truncated = (maximum < length (concat chunks))\<rparr>"
  using read_head [of maximum chunks "[]"] read_tail [OF assms, of "[]"] by (simp add: read_bounded_def)

subsection \<open>Answers\<close>

record source_rate_limit =
  sl_message :: string
  sl_retry_at :: "int option"

record source_issue =
  si_key :: string
  si_title :: string
  si_description :: string
  si_state :: string
  si_labels :: "string list"
  si_url :: string
  si_author :: string
  si_revision :: "string option"
  si_dependencies :: "string list"
  si_dependency_revision :: string

definition source_issue_of :: "json \<Rightarrow> source_issue option" where
  "source_issue_of v =
     (if \<not> only_fields [''key'', ''title'', ''description'', ''state'', ''labels'', ''url'', ''author'', ''revision'',
        ''dependencies'', ''dependency_revision''] v then None else
      Option.bind (field_text ''key'' v) (\<lambda>key.
      Option.bind (field_text ''title'' v) (\<lambda>title.
      Option.bind (field_default_text ''description'' v) (\<lambda>description.
      Option.bind (field_text ''state'' v) (\<lambda>state.
      Option.bind (field_default_texts ''labels'' v) (\<lambda>labels.
      Option.bind (field_default_text ''url'' v) (\<lambda>url.
      Option.bind (field_default_text ''author'' v) (\<lambda>author.
      Option.bind (field_optional_text ''revision'' v) (\<lambda>revision.
      Option.bind (field_default_texts ''dependencies'' v) (\<lambda>dependencies.
      Option.bind (field_default_text ''dependency_revision'' v) (\<lambda>dependency_revision.
      Some \<lparr>si_key = key, si_title = title, si_description = description, si_state = state, si_labels = labels,
        si_url = url, si_author = author, si_revision = revision, si_dependencies = dependencies,
        si_dependency_revision = dependency_revision\<rparr>)))))))))))"

definition source_output_of :: "json \<Rightarrow> source_issue list option" where
  "source_output_of v =
     (if \<not> only_fields [''issues''] v then None
      else Option.bind (Option.bind (json_get ''issues'' v) json_as_array) (\<lambda>vs. those (map source_issue_of vs)))"

definition parse_rate_limit ::
  "(string \<Rightarrow> json option) \<Rightarrow> (string \<Rightarrow> int option) \<Rightarrow> string \<Rightarrow> source_rate_limit option" where
  "parse_rate_limit parse rfc3339 out =
     (if out = [] \<or> too_long out then None
      else Option.bind (parse out) (\<lambda>envelope.
      if \<not> only_fields [''error''] envelope then None
      else Option.bind (json_get ''error'' envelope) (\<lambda>body.
      if \<not> only_fields [''kind'', ''message'', ''retry_at''] body then None
      else Option.bind (field_text ''kind'' body) (\<lambda>kind.
      Option.bind (field_text ''message'' body) (\<lambda>message.
      if kind = [] \<or> 64 < length kind \<or> \<not> list_all (\<lambda>c. is_ascii_lower c \<or> is_ascii_digit c \<or> c = CHR ''_'') kind
        \<or> kind \<noteq> ''rate_limited'' then None
      else if message = [] \<or> 500 < char_count message \<or> has_control message then None
      else Some \<lparr>sl_message = message,
             sl_retry_at = Option.bind (Option.bind (field_value ''retry_at'' body) json_as_str) rfc3339\<rparr>)))))"

datatype source_error =
    NoSource | NoExecutable | CommandNotRun | CommandFailed "source_rate_limit option" | OutputTooLong | OutputInvalid
  | InvalidKey | DuplicateKey string | InvalidTitle string | DoesNotMatch string | InvalidRevisionOf string
  | InvalidDependencies string | NoDependencyRevision string
  | NotSourceTriggered | NoTicketContext | InvalidTicketContext | OtherTicket | NoLongerMatches string
  | NoIdentity | PollRefused ledger_error

subsection \<open>Checks\<close>

definition valid_dependency_gid :: "string \<Rightarrow> bool" where
  "valid_dependency_gid value \<longleftrightarrow> value \<noteq> [] \<and> length value \<le> 100
     \<and> list_all (\<lambda>c. is_ascii_alphanumeric c \<or> c \<in> set ''_-'') value"

definition valid_dependency_revision :: "string \<Rightarrow> bool" where
  "valid_dependency_revision value \<longleftrightarrow> length value = 71 \<and> text_starts value ''sha256:''
     \<and> list_all (\<lambda>c. is_ascii_digit c \<or> c \<in> set ''abcdef'') (drop 7 value)"

definition valid_issue_key :: "string \<Rightarrow> bool" where
  "valid_issue_key key \<longleftrightarrow> \<not> blank key \<and> char_count key \<le> 100 \<and> \<not> has_control key"

definition validate_issue :: "string \<Rightarrow> string list \<Rightarrow> string list \<Rightarrow> source_issue \<Rightarrow> source_error + unit" where
  "validate_issue state labels seen issue =
     (if \<not> valid_issue_key (si_key issue) then Inl InvalidKey
      else if si_key issue \<in> set seen then Inl (DuplicateKey (si_key issue))
      else if blank (si_title issue) \<or> has_control (si_title issue) then Inl (InvalidTitle (si_key issue))
      else if si_state issue \<noteq> state \<or> \<not> list_all (\<lambda>l. l \<in> set (si_labels issue)) labels then Inl (DoesNotMatch (si_key issue))
      else if (case si_revision issue of None \<Rightarrow> False | Some r \<Rightarrow> blank r \<or> has_control r) then Inl (InvalidRevisionOf (si_key issue))
      else if \<not> list_all valid_dependency_gid (si_dependencies issue) \<or> \<not> distinct (si_dependencies issue)
      then Inl (InvalidDependencies (si_key issue))
      else if (si_dependencies issue \<noteq> [] \<or> si_dependency_revision issue \<noteq> [])
        \<and> \<not> valid_dependency_revision (si_dependency_revision issue) then Inl (NoDependencyRevision (si_key issue))
      else Inr ())"

fun validate_each :: "string \<Rightarrow> string list \<Rightarrow> string list \<Rightarrow> source_issue list \<Rightarrow> source_error + unit" where
  "validate_each state labels seen [] = Inr ()"
| "validate_each state labels seen (issue # issues) =
     and_then (validate_issue state labels seen issue) (\<lambda>_. validate_each state labels (si_key issue # seen) issues)"

definition validate_issues :: "source_issue list \<Rightarrow> string \<Rightarrow> string list \<Rightarrow> source_error + source_issue list" where
  "validate_issues issues state labels = and_then (validate_each state labels [] issues) (\<lambda>_. Inr issues)"

subsection \<open>The query\<close>

text \<open>The JSON crate, the date parser and SHA-256.\<close>

record source_io =
  so_parse :: "string \<Rightarrow> json option"
  so_print :: "json \<Rightarrow> string"
  so_rfc3339 :: "string \<Rightarrow> int option"
  so_sha256 :: "string \<Rightarrow> 8 word list"

definition source_command :: "path \<Rightarrow> string list \<Rightarrow> string \<Rightarrow> string list \<Rightarrow> command" where
  "source_command repository cmd state labels =
     \<lparr>cm_program = hd cmd, cm_directory = Some repository,
       cm_args = tl cmd @ [''--state'', state] @ concat (map (\<lambda>l. [''--label'', l]) labels),
       cm_env = [], cm_removed = []\<rparr>"

definition query_answer ::
  "source_io \<Rightarrow> string \<Rightarrow> string list \<Rightarrow> run_result \<Rightarrow> source_error + source_issue list" where
  "query_answer io state labels r =
     (case r of
        NoStart \<Rightarrow> Inl CommandNotRun
      | Exited _ out \<Rightarrow>
          if \<not> succeeds r
          then Inl (CommandFailed (Option.bind out (\<lambda>out. if too_long out then None
            else parse_rate_limit (so_parse io) (so_rfc3339 io) out)))
          else and_then (ok_or OutputInvalid out) (\<lambda>out.
          if too_long out then Inl OutputTooLong
          else and_then (ok_or OutputInvalid (Option.bind (so_parse io out) source_output_of)) (\<lambda>issues.
          validate_issues issues state labels)))"

definition source_query ::
  "outside \<Rightarrow> source_io \<Rightarrow> path \<Rightarrow> source_config \<Rightarrow> string \<Rightarrow> string list \<Rightarrow> trace \<Rightarrow>
     (source_error, source_issue list, trace) outcome" where
  "source_query o' io repository source state labels t =
     continue (demand NoExecutable (sc_command source \<noteq> []) t) (\<lambda>_ t.
     continue (run o' (source_command repository (sc_command source) state labels) t) (\<lambda>r t.
     pure (query_answer io state labels r) t))"

definition source_validate ::
  "outside \<Rightarrow> source_io \<Rightarrow> path \<Rightarrow> source_config \<Rightarrow> string \<Rightarrow> string list \<Rightarrow> trace \<Rightarrow> (source_error, unit, trace) outcome" where
  "source_validate o' io repository source state labels t =
     continue (source_query o' io repository source state labels t) (\<lambda>_ t. (Inr (), t))"

text \<open>A task may start when its own ticket is still among the tickets of its trigger.\<close>

definition source_authorize ::
  "outside \<Rightarrow> source_io \<Rightarrow> path \<Rightarrow> source_config \<Rightarrow> trigger \<Rightarrow> task \<Rightarrow> trace \<Rightarrow> (source_error, unit, trace) outcome" where
  "source_authorize o' io repository source trig task t =
     (case trig of
        TSource state labels \<Rightarrow>
          continue (pure (ok_or NoTicketContext (t_payload task)) t) (\<lambda>payload t.
          continue (pure (ok_or InvalidTicketContext (Option.bind (so_parse io payload) source_context_of)) t) (\<lambda>expected t.
          if t_source_item task \<noteq> Some (st_key expected) then (Inl OtherTicket, t)
          else continue (source_query o' io repository source state labels t) (\<lambda>current t.
          demand (NoLongerMatches (st_key expected)) (list_ex (\<lambda>issue. si_key issue = st_key expected) current) t)))
      | _ \<Rightarrow> (Inl NotSourceTriggered, t))"

subsection \<open>Polling\<close>

definition default_revision :: "source_io \<Rightarrow> string \<Rightarrow> string \<Rightarrow> string list \<Rightarrow> string" where
  "default_revision io key state labels =
     ''source:'' @ sha256_hex (so_sha256 io) (so_print io (JArray [JString key, JString state, json_texts (sort labels)]))"

definition issue_context :: "source_issue \<Rightarrow> string \<Rightarrow> source_ticket_context" where
  "issue_context issue revision =
     \<lparr>st_key = si_key issue, st_title = si_title issue, st_description = si_description issue, st_state = si_state issue,
       st_labels = si_labels issue, st_url = si_url issue, st_author = si_author issue, st_observed_revision = revision,
       st_dependencies = si_dependencies issue, st_dependency_revision = si_dependency_revision issue\<rparr>"

definition observed_ticket_of :: "source_io \<Rightarrow> source_issue \<Rightarrow> string \<Rightarrow> string list \<Rightarrow> observed_ticket" where
  "observed_ticket_of io issue state labels =
     (let revision = (case si_revision issue of Some r \<Rightarrow> r | None \<Rightarrow> default_revision io (si_key issue) state labels)
      in \<lparr>ot_source_item = si_key issue, ot_revision = revision, ot_eligible = True,
           ot_payload = so_print io (source_context_json (issue_context issue revision))\<rparr>)"

record poller =
  po_ledger :: ledger
  po_trace :: trace

definition polling :: "(trace \<Rightarrow> ('e, 'a, trace) outcome) \<Rightarrow> poller \<Rightarrow> ('e, 'a, poller) outcome" where
  "polling op s = (fst (op (po_trace s)), s\<lparr>po_trace := snd (op (po_trace s))\<rparr>)"

lemma polling_ledger [simp]: "po_ledger (snd (polling op s)) = po_ledger s"
  by (simp add: polling_def)

lemma polling_Inr_iff [result_simps]:
  "polling op s = (Inr v, s') \<longleftrightarrow> (\<exists>t. op (po_trace s) = (Inr v, t) \<and> s' = s\<lparr>po_trace := t\<rparr>)"
  by (cases "op (po_trace s)") (auto simp: polling_def)

definition on_poll_ledger :: "(ledger_error \<Rightarrow> 'e) \<Rightarrow> (ledger \<Rightarrow> ledger_error + ('a \<times> ledger)) \<Rightarrow> poller \<Rightarrow> ('e, 'a, poller) outcome" where
  "on_poll_ledger f op s = (case op (po_ledger s) of
      Inl e \<Rightarrow> (Inl (f e), s)
    | Inr (v, db) \<Rightarrow> (Inr v, s\<lparr>po_ledger := db\<rparr>))"

record repository_poll =
  rp_repository :: path
  rp_identity :: "string option"
  rp_issues_seen :: nat
  rp_tasks_created :: nat
  rp_failed :: bool

definition poll_workflow ::
  "outside \<Rightarrow> source_io \<Rightarrow> (nat \<Rightarrow> int) \<Rightarrow> path \<Rightarrow> string \<Rightarrow> source_config \<Rightarrow> workflow_entry \<Rightarrow> poller \<Rightarrow>
     (source_error, repository_poll, poller) outcome" where
  "poll_workflow o' io clk repository identity source workflow s =
     (case we_trigger workflow of
        Some (TSource state labels) \<Rightarrow>
          continue (polling (source_query o' io repository source state labels) s) (\<lambda>issues s.
          let observations = map (\<lambda>issue. observed_ticket_of io issue state labels) issues
          in continue (on_poll_ledger PollRefused (reconcile_ticket_poll identity (we_id workflow) observations clk) s)
               (\<lambda>enqueued s.
             (Inr \<lparr>rp_repository = repository, rp_identity = Some identity, rp_issues_seen = length issues,
                rp_tasks_created = length (filter enq_created enqueued), rp_failed = False\<rparr>, s)))
      | _ \<Rightarrow> (Inl NotSourceTriggered, s))"

definition is_source_entry :: "workflow_entry \<Rightarrow> bool" where
  "is_source_entry w \<longleftrightarrow> we_errors w = [] \<and> (case we_trigger w of Some (TSource _ _) \<Rightarrow> True | _ \<Rightarrow> False)"

fun poll_workflows ::
  "outside \<Rightarrow> source_io \<Rightarrow> (string \<Rightarrow> nat \<Rightarrow> int) \<Rightarrow> path \<Rightarrow> string \<Rightarrow> source_config \<Rightarrow> workflow_entry list \<Rightarrow> poller \<Rightarrow>
     (source_error, nat \<times> nat, poller) outcome" where
  "poll_workflows o' io clk repository identity source [] s = (Inr (0, 0), s)"
| "poll_workflows o' io clk repository identity source (w # ws) s =
     continue (poll_workflow o' io (clk (we_id w)) repository identity source w s) (\<lambda>report s.
     continue (poll_workflows o' io clk repository identity source ws s) (\<lambda>(seen, created) s.
     (Inr (rp_issues_seen report + seen, rp_tasks_created report + created), s)))"

text \<open>\<open>remote\<close> is the identity of a checkout's remote; a repository that fails is reported and the next one polled.\<close>

definition poll_repository ::
  "outside \<Rightarrow> source_io \<Rightarrow> (string \<Rightarrow> nat \<Rightarrow> int) \<Rightarrow> (path \<Rightarrow> string option) \<Rightarrow> source_config \<Rightarrow> workflow_entry list \<Rightarrow>
     path \<Rightarrow> poller \<Rightarrow> repository_poll \<times> poller" where
  "poll_repository o' io clk remote source entries repository s =
     (case continue (pure (ok_or NoIdentity (remote repository)) s) (\<lambda>name s.
         continue (poll_workflows o' io clk repository name source
             (filter (\<lambda>w. we_repository w = repository \<and> is_source_entry w) entries) s) (\<lambda>(seen, created) s.
         (Inr \<lparr>rp_repository = repository, rp_identity = Some name, rp_issues_seen = seen, rp_tasks_created = created,
            rp_failed = False\<rparr>, s))) of
        (Inr report, s) \<Rightarrow> (report, s)
      | (Inl _, s) \<Rightarrow> (\<lparr>rp_repository = repository, rp_identity = None, rp_issues_seen = 0, rp_tasks_created = 0, rp_failed = True\<rparr>, s))"

fun poll_repositories ::
  "outside \<Rightarrow> source_io \<Rightarrow> (string \<Rightarrow> nat \<Rightarrow> int) \<Rightarrow> (path \<Rightarrow> string option) \<Rightarrow> source_config \<Rightarrow> workflow_entry list \<Rightarrow>
     path list \<Rightarrow> poller \<Rightarrow> repository_poll list \<times> poller" where
  "poll_repositories o' io clk remote source entries [] s = ([], s)"
| "poll_repositories o' io clk remote source entries (r # rs) s =
     (let (report, s) = poll_repository o' io clk remote source entries r s;
          (reports, s) = poll_repositories o' io clk remote source entries rs s
      in (report # reports, s))"

definition poll_once ::
  "outside \<Rightarrow> source_io \<Rightarrow> (string \<Rightarrow> nat \<Rightarrow> int) \<Rightarrow> (path \<Rightarrow> string option) \<Rightarrow> config \<Rightarrow> workflow_entry list \<Rightarrow> poller \<Rightarrow>
     (source_error, repository_poll list, poller) outcome" where
  "poll_once o' io clk remote cfg entries s =
     (case cfg_source cfg of
        None \<Rightarrow> (Inl NoSource, s)
      | Some source \<Rightarrow> (let (reports, s) = poll_repositories o' io clk remote source entries (cfg_repositories cfg) s in (Inr reports, s)))"

text \<open>
  Rounds until the daemon is cancelled, which it is at the latest after \<open>pauses\<close> pauses; a round that fails ends the
  polling. The reports go to the operator in turn.
\<close>

fun poll_until_cancelled ::
  "(poller \<Rightarrow> bool) \<Rightarrow> (nat \<Rightarrow> poller \<Rightarrow> ('e, repository_poll list, poller) outcome) \<Rightarrow> nat \<Rightarrow> poller \<Rightarrow>
     ('e, repository_poll list list, poller) outcome" where
  "poll_until_cancelled cancelled round_at 0 s = (Inr [], s)"
| "poll_until_cancelled cancelled round_at (Suc pauses) s =
     (if cancelled s then (Inr [], s)
      else continue (round_at pauses s) (\<lambda>report s.
           continue (poll_until_cancelled cancelled round_at pauses s) (\<lambda>reports s. (Inr (report # reports), s))))"

definition tasks_created :: "repository_poll list \<Rightarrow> nat" where
  "tasks_created reports = sum_list (map rp_tasks_created reports)"

definition failures :: "repository_poll list \<Rightarrow> nat" where
  "failures reports = length (filter rp_failed reports)"

subsection \<open>What an accepted answer contains\<close>

definition sound_issue :: "string \<Rightarrow> string list \<Rightarrow> source_issue \<Rightarrow> bool" where
  "sound_issue state labels issue \<longleftrightarrow> valid_issue_key (si_key issue)
     \<and> \<not> blank (si_title issue) \<and> \<not> has_control (si_title issue)
     \<and> si_state issue = state \<and> set labels \<subseteq> set (si_labels issue)
     \<and> (case si_revision issue of None \<Rightarrow> True | Some r \<Rightarrow> \<not> blank r \<and> \<not> has_control r)
     \<and> list_all valid_dependency_gid (si_dependencies issue) \<and> distinct (si_dependencies issue)
     \<and> (si_dependencies issue = [] \<and> si_dependency_revision issue = [] \<or> valid_dependency_revision (si_dependency_revision issue))"

lemma validate_issue_iff:
  "validate_issue state labels seen issue = Inr () \<longleftrightarrow> sound_issue state labels issue \<and> si_key issue \<notin> set seen"
proof -
  have labels: "list_all (\<lambda>l. l \<in> set (si_labels issue)) labels \<longleftrightarrow> set labels \<subseteq> set (si_labels issue)"
    by (auto simp: list_all_iff)
  show ?thesis
    unfolding validate_issue_def sound_issue_def labels by (auto split: option.splits)
qed

lemma validate_each_iff:
  "validate_each state labels seen issues = Inr () \<longleftrightarrow>
     list_all (sound_issue state labels) issues \<and> distinct (map si_key issues) \<and> set (map si_key issues) \<inter> set seen = {}"
proof (induction issues arbitrary: seen)
  case (Cons issue issues)
  have "and_then (validate_issue state labels seen issue) (\<lambda>_. r) = Inr () \<longleftrightarrow>
      sound_issue state labels issue \<and> si_key issue \<notin> set seen \<and> r = Inr ()" for r :: "source_error + unit"
    using validate_issue_iff [of state labels seen issue] by (cases "validate_issue state labels seen issue") auto
  then show ?case using Cons.IH by (simp del: set_map) (auto simp del: set_map)
qed simp

lemma validate_issues_iff:
  "validate_issues issues state labels = Inr found \<longleftrightarrow>
     found = issues \<and> list_all (sound_issue state labels) issues \<and> distinct (map si_key issues)"
  using validate_each_iff [of state labels "[]" issues] by (auto simp: validate_issues_def result_simps)

lemma query_sound:
  assumes "source_query o' io repository source state labels t = (Inr issues, t')"
  shows "list_all (sound_issue state labels) issues \<and> distinct (map si_key issues)
    \<and> sc_command source \<noteq> [] \<and> t' = t @ [Run (source_command repository (sc_command source) state labels)]
    \<and> query_answer io state labels (o_run o' t (source_command repository (sc_command source) state labels)) = Inr issues"
proof -
  let ?c = "source_command repository (sc_command source) state labels"
  have a: "query_answer io state labels (o_run o' t ?c) = Inr issues" and "sc_command source \<noteq> []" "t' = t @ [Run ?c]"
    using assms by (auto simp: source_query_def run_def result_simps)
  moreover have "validate_issues issues state labels = Inr issues"
    using a by (auto simp: query_answer_def result_simps validate_issues_def split: run_result.splits if_splits)
  ultimately show ?thesis by (simp add: validate_issues_iff)
qed

text \<open>
  C16. A task starts only while its own ticket is still reported: the authorization of a task runs the configured command
  once, for the trigger's state and labels, and succeeds exactly when the task's payload is a ticket context of its
  own item and a well-formed answer contains that ticket, in that state and with those labels.
\<close>

theorem source_authorization_is_current:
  "fst (source_authorize o' io repository source trig task t) = Inr () \<longleftrightarrow>
     (\<exists>state labels context issues. trig = TSource state labels
       \<and> Option.bind (Option.bind (t_payload task) (so_parse io)) source_context_of = Some context
       \<and> t_source_item task = Some (st_key context)
       \<and> source_query o' io repository source state labels t
          = (Inr issues, t @ [Run (source_command repository (sc_command source) state labels)])
       \<and> (\<exists>issue\<in>set issues. si_key issue = st_key context \<and> sound_issue state labels issue))"
proof -
  have query: "fst (continue (source_query o' io repository source state labels t) (\<lambda>current t.
        demand (NoLongerMatches k) (list_ex (\<lambda>issue. si_key issue = k) current) t)) = Inr () \<longleftrightarrow>
      (\<exists>issues. source_query o' io repository source state labels t
          = (Inr issues, t @ [Run (source_command repository (sc_command source) state labels)])
        \<and> (\<exists>issue\<in>set issues. si_key issue = k \<and> sound_issue state labels issue))" for state labels k
  proof (cases "source_query o' io repository source state labels t")
    case (Pair r t')
    show ?thesis
    proof (cases r)
      case (Inr issues)
      with Pair query_sound [of o' io repository source state labels t issues t'] show ?thesis
        by (auto simp: demand_def list_ex_iff list_all_iff)
    qed (simp add: Pair)
  qed
  show ?thesis
  proof (cases trig)
    case (TSource state labels)
    then show ?thesis
      using query [of state labels]
      by (cases "t_payload task"; cases "Option.bind (Option.bind (t_payload task) (so_parse io)) source_context_of")
        (auto simp: source_authorize_def)
  qed (auto simp: source_authorize_def)
qed

subsection \<open>What a poll adds\<close>

lemma enqueue_visit_added:
  assumes step: "enqueue_visit repository workflow previous now obs (enqueued, db) = Inr (enqueued', db')"
  shows "\<exists>new. enqueued' = enqueued @ new \<and> tasks db' = tasks db @ map enq_task (filter enq_created new)
    \<and> runs db' = runs db
    \<and> (\<forall>e\<in>set new. enq_created e \<longrightarrow> visit_task repository workflow obs (enq_task e) \<and> ot_eligible obs)"
proof (cases "\<not> opens_visit previous obs \<or> ticket_active repository workflow obs db")
  case True
  then show ?thesis using enqueue_visit_skip [OF step True] by (intro exI [of _ "[]"]) simp
next
  case False
  then have go: "opens_visit previous obs" "\<not> ticket_active repository workflow obs db" by auto
  obtain identity where
      identity: "identity = Ticket repository workflow (ot_source_item obs) (visit_revision previous obs db)"
    by blast
  obtain task inserted where out: "enqueued' = enqueued @ [\<lparr>enq_task = task, enq_created = inserted\<rparr>]"
      and ins: "insert_task_or_ignore (identity_key identity) ''ticket'' repository workflow
          (Some (ot_source_item obs)) (Some (ot_payload obs)) now db = (db', inserted)"
      and q: "query_task_by_key (identity_key identity) db' = Some task"
    by (rule enqueue_visit_insert [OF step go identity])
  note row = insert_then_query [OF ins]
  have "visit_task repository workflow obs task" if inserted
    using row(3) [OF q] that identity unfolding visit_task_def by blast
  moreover have "tasks db' = tasks db @ (if inserted then [task] else [])"
    using row(2) row(3) [OF q] by (cases inserted) auto
  moreover have "runs db' = runs db" using ins by (auto simp: insert_task_or_ignore_def split: if_splits)
  moreover have "ot_eligible obs" using go(1) by (simp add: opens_visit_def)
  ultimately show ?thesis
    using out by (intro exI [of _ "[\<lparr>enq_task = task, enq_created = inserted\<rparr>]"]) auto
qed

lemma observe_each_added:
  assumes "observe_each repository workflow previous clk i obs (enqueued, db) = Inr (enqueued', db')"
  shows "\<exists>new. enqueued' = enqueued @ new \<and> tasks db' = tasks db @ map enq_task (filter enq_created new)
    \<and> runs db' = runs db
    \<and> (\<forall>e\<in>set new. enq_created e \<longrightarrow> (\<exists>x\<in>set obs. visit_task repository workflow x (enq_task e) \<and> ot_eligible x))"
  using assms
proof (induction obs arbitrary: i enqueued db)
  case (Cons x xs)
  from Cons.prems obtain e1 db1 where
      v: "enqueue_visit repository workflow (previous (ot_source_item x)) (clk (2 * i)) x (enqueued, db)
        = Inr (e1, db1)"
      and rest: "observe_each repository workflow previous clk (Suc i) xs
        (e1, record_observation repository workflow (clk (2 * i + 1)) x db1) = Inr (enqueued', db')"
    by (auto split: if_splits sum.splits)
  from enqueue_visit_added [OF v] obtain new1 where
      n1: "e1 = enqueued @ new1" "tasks db1 = tasks db @ map enq_task (filter enq_created new1)" "runs db1 = runs db"
      "\<forall>e\<in>set new1. enq_created e \<longrightarrow> visit_task repository workflow x (enq_task e) \<and> ot_eligible x" by blast
  from Cons.IH [OF rest] obtain new2 where
      n2: "enqueued' = e1 @ new2" "tasks db' = tasks db1 @ map enq_task (filter enq_created new2)" "runs db' = runs db1"
      "\<forall>e\<in>set new2. enq_created e \<longrightarrow> (\<exists>y\<in>set xs. visit_task repository workflow y (enq_task e) \<and> ot_eligible y)"
    by (auto simp: record_observation_def)
  show ?case using n1 n2 by (intro exI [of _ "new1 @ new2"]) auto
qed simp

lemma reconcile_added:
  assumes "reconcile_ticket_poll repository workflow obs clk db = Inr (enqueued, db')"
  shows "tasks db' = tasks db @ map enq_task (filter enq_created enqueued) \<and> runs db' = runs db
    \<and> (\<forall>e\<in>set enqueued. enq_created e \<longrightarrow> (\<exists>x\<in>set obs. visit_task repository workflow x (enq_task e) \<and> ot_eligible x))"
  using assms observe_each_added [of repository workflow _ clk 0 obs "[]" "reset_eligibility repository workflow db" enqueued db']
  by (auto simp: reconcile_ticket_poll_def reset_eligibility_def split: if_splits)

definition ticket_of :: "(string \<Rightarrow> json option) \<Rightarrow> string \<Rightarrow> string list \<Rightarrow> task \<Rightarrow> bool" where
  "ticket_of parse state labels t \<longleftrightarrow> (\<exists>context.
     Option.bind (Option.bind (t_payload t) parse) source_context_of = Some context
     \<and> t_source_item t = Some (st_key context) \<and> valid_issue_key (st_key context)
     \<and> st_state context = state \<and> set labels \<subseteq> set (st_labels context))"


subsection \<open>A round over all repositories\<close>

definition poll_keeps :: "poller \<Rightarrow> poller \<Rightarrow> bool" where
  "poll_keeps s s' \<longleftrightarrow> runs (po_ledger s') = runs (po_ledger s)
     \<and> (\<exists>added. tasks (po_ledger s') = tasks (po_ledger s) @ added)
     \<and> (queue_inv (po_ledger s) \<longrightarrow> queue_inv (po_ledger s'))
     \<and> (one_active_ticket (po_ledger s) \<longrightarrow> one_active_ticket (po_ledger s'))"

interpretation poll_keeps: step_relation poll_keeps
  by unfold_locales (auto simp: poll_keeps_def)

lemma polling_keeps: "poll_keeps s (snd (polling op s))"
  by (simp add: poll_keeps_def polling_def)

lemma reconcile_keeps:
  "poll_keeps s (snd (on_poll_ledger f (reconcile_ticket_poll identity workflow observations clk) s))"
proof (cases "reconcile_ticket_poll identity workflow observations clk (po_ledger s)")
  case (Inr r)
  obtain enqueued db where r: "r = (enqueued, db)" by (cases r)
  have "one_active_ticket db" if "one_active_ticket (po_ledger s)"
    using Inr r that observe_each_one_active [of identity workflow _ clk 0 observations "[]"
        "reset_eligibility identity workflow (po_ledger s)" enqueued db]
    by (auto simp: reconcile_ticket_poll_def one_active_ticket_def split: if_splits)
  then show ?thesis
    using Inr r reconcile_added [of identity workflow observations clk "po_ledger s" enqueued db]
      reconcile_ticket_poll_inv [of identity workflow observations clk "po_ledger s" enqueued db]
    by (auto simp: poll_keeps_def on_poll_ledger_def)
qed (simp add: on_poll_ledger_def poll_keeps.related_refl)

lemma poll_workflow_keeps: "poll_keeps s (snd (poll_workflow o' io clk repository identity source workflow s))"
  unfolding poll_workflow_def Let_def
  by (auto intro!: poll_keeps.after_continue polling_keeps reconcile_keeps
      simp: poll_keeps.related_refl split: option.split trigger.split)

lemma poll_workflows_keeps: "poll_keeps s (snd (poll_workflows o' io clk repository identity source ws s))"
proof (induction ws arbitrary: s)
  case (Cons w ws)
  then show ?case
    by (auto intro!: poll_keeps.after_continue poll_workflow_keeps simp: poll_keeps.related_refl)
qed (simp add: poll_keeps.related_refl)

lemma poll_repository_keeps: "poll_keeps s (snd (poll_repository o' io clk remote source entries repository s))"
proof -
  have "poll_keeps s (snd (continue (pure (ok_or NoIdentity (remote repository)) s) (\<lambda>name s.
      continue (poll_workflows o' io clk repository name source ws s) (\<lambda>p s. (f name p, s)))))"
    for ws and f :: "string \<Rightarrow> nat \<times> nat \<Rightarrow> source_error + repository_poll"
    by (intro poll_keeps.after_continue poll_workflows_keeps poll_keeps.after_pure) (simp add: poll_keeps.related_refl)
  from this [of "filter (\<lambda>w. we_repository w = repository \<and> is_source_entry w) entries"
      "\<lambda>name (seen, created). Inr \<lparr>rp_repository = repository, rp_identity = Some name, rp_issues_seen = seen,
         rp_tasks_created = created, rp_failed = False\<rparr>"]
  show ?thesis by (simp add: poll_repository_def case_prod_unfold split: sum.split prod.split)
qed

text \<open>
  A round over all repositories, whatever fails in it, leaves every run alone, only adds tasks, and keeps the invariant of
  the queue and one active task per ticket.
\<close>

theorem poll_round_keeps_queue:
  "poll_keeps s (snd (poll_once o' io clk remote cfg entries s))"
proof -
  have "poll_keeps s (snd (poll_repositories o' io clk remote source entries rs s))" for source rs s
  proof (induction rs arbitrary: s)
    case (Cons r rs)
    show ?case
      using poll_keeps.related_trans [OF poll_repository_keeps Cons.IH] by (simp add: case_prod_unfold Let_def)
  qed (simp add: poll_keeps.related_refl)
  then show ?thesis
    by (auto simp: poll_once_def poll_keeps.related_refl case_prod_unfold Let_def split: option.split)
qed

lemma polling_keeps_queue:
  "poll_keeps s (snd (poll_until_cancelled cancelled (\<lambda>n. poll_once o' io (clk n) remote cfg entries) pauses s))"
proof (induction pauses arbitrary: s)
  case (Suc pauses)
  show ?case
    by (auto intro!: poll_keeps.after_continue poll_round_keeps_queue Suc.IH simp: poll_keeps.related_refl)
qed (simp add: poll_keeps.related_refl)

end
