(* ===== verification/GitHub_Claims.thy ===== *)
theory GitHub_Claims
  imports GitHub_Client Ticket_Source Ledger_Approvals
begin

text \<open>
  The claim of approved work on GitHub (\<open>authorize_claim\<close> of \<open>src/github.rs\<close>). An approval is a comment of a
  trusted user with the hash of the issue and the workflow, followed by the ready label. The claim checks
  that nothing changed, consumes the approval in the ledger, and only then takes the label away and posts the claim;
  then it looks once more. The clock is read for the reservation (0) and for the consumption (1).
\<close>

subsection \<open>Comments and events\<close>

record github_config =
  gc_trusted_approvers :: "string list"
  gc_ready_label :: string
  gc_proposed_label :: string
  gc_needs_review_label :: string

definition comment_text :: "api_comment \<Rightarrow> string" where
  "comment_text c = (case ao_body c of None \<Rightarrow> [] | Some b \<Rightarrow> b)"

definition matching_claim ::
  "(string \<Rightarrow> json option) \<Rightarrow> api_comment list \<Rightarrow> nat \<Rightarrow> nat \<Rightarrow> int \<Rightarrow> (nat \<Rightarrow> string option) \<Rightarrow> api_comment option" where
  "matching_claim parse comments artifact_id label_event_id task_id trusted =
     List.find (\<lambda>c. trusted (au_id (ao_user c)) \<noteq> None
       \<and> (case parse_claim parse (comment_text c) of None \<Rightarrow> False
          | Some claim \<Rightarrow> ca_approval_artifact_id claim = artifact_id \<and> ca_label_event_id claim = label_event_id
              \<and> ca_task_id claim = task_id)) (rev comments)"

definition conflicting_claim ::
  "(string \<Rightarrow> json option) \<Rightarrow> api_comment list \<Rightarrow> nat \<Rightarrow> nat \<Rightarrow> (nat \<Rightarrow> string option) \<Rightarrow> api_comment option" where
  "conflicting_claim parse comments artifact_id label_event_id trusted =
     List.find (\<lambda>c. trusted (au_id (ao_user c)) \<noteq> None
       \<and> (case parse_claim parse (comment_text c) of None \<Rightarrow> False
          | Some claim \<Rightarrow> ca_approval_artifact_id claim = artifact_id \<or> ca_label_event_id claim = label_event_id)) (rev comments)"

definition latest_ready_event :: "api_timeline_event list \<Rightarrow> string \<Rightarrow> api_timeline_event option" where
  "latest_ready_event timeline ready_label =
     List.find (\<lambda>e. ae_event e = ''labeled'' \<and> ae_label e = Some ready_label) (rev timeline)"

definition latest_approval :: "(string \<Rightarrow> json option) \<Rightarrow> api_comment list \<Rightarrow> nat option" where
  "latest_approval parse comments =
     Option.bind (List.find (\<lambda>c. case ao_body c of None \<Rightarrow> False | Some b \<Rightarrow> contains_text ''<!-- factory-approval:'' b)
       (rev comments)) (\<lambda>c. Option.bind (ao_body c) (\<lambda>b. map_option (\<lambda>_. ao_id c) (parse_approval parse b)))"

subsection \<open>The queued ticket\<close>

definition content_hash :: "source_io \<Rightarrow> nat \<Rightarrow> string \<Rightarrow> string \<Rightarrow> string \<Rightarrow> string \<Rightarrow> string" where
  "content_hash io = approved_content_hash (so_print io) (so_sha256 io)"

definition ticket_context_hash :: "source_io \<Rightarrow> ticket_context \<Rightarrow> string \<Rightarrow> string \<Rightarrow> string" where
  "ticket_context_hash io context workflow_id workflow_hash =
     content_hash io (tc_number context) (tc_title context) (tc_body context) workflow_id workflow_hash"

definition queued_approval :: "source_io \<Rightarrow> task \<Rightarrow> string \<Rightarrow> hub_error + ticket_context" where
  "queued_approval io task workflow_hash =
     and_then (ok_or NoPayload (t_payload task)) (\<lambda>payload.
     and_then (ok_or InvalidPayload (Option.bind (so_parse io payload) ticket_context_of)) (\<lambda>approved.
     and_then (ok_or NoIssueNumber (t_source_item task)) (\<lambda>item.
     and_then (ok_or NoIssueNumber (parse_u64_text item)) (\<lambda>number.
     if tc_number approved \<noteq> number \<or> ta_workflow_hash (tc_approval approved) \<noteq> workflow_hash
     then Inl (Unapproved NotItsApproval) else Inr approved))))"

definition evidence_of :: "ticket_approval \<Rightarrow> string \<Rightarrow> string \<Rightarrow> string \<Rightarrow> approval_evidence" where
  "evidence_of a hash workflow_hash revision =
     \<lparr>ev_artifact_id = ta_artifact_id a, ev_label_event_id = ta_label_event_id a, ev_approver_id = ta_approver_id a,
       ev_content_hash = hash, ev_workflow_hash = workflow_hash, ev_source_revision = revision\<rparr>"

subsection \<open>The checks on the host\<close>

text \<open>
  What is read before anything changes: who is trusted, the issue, the approval comment, the claims, the last
  ready event. The result is the trusted users, the issue and whether the task's claim is already posted.
\<close>

definition check_artifact ::
  "source_io \<Rightarrow> ticket_context \<Rightarrow> task \<Rightarrow> string \<Rightarrow> api_comment list \<Rightarrow> hub_error + api_comment" where
  "check_artifact io approved task workflow_hash comments =
     (let a = tc_approval approved in
      and_then (ok_or (Unapproved ArtifactGone) (List.find (\<lambda>c. ao_id c = ta_artifact_id a) comments)) (\<lambda>comment.
      and_then (ok_or (Unapproved ArtifactMalformed) (parse_approval (so_parse io) (comment_text comment))) (\<lambda>artifact.
      if au_id (ao_user comment) \<noteq> ta_approver_id a \<or> aa_approver_id artifact \<noteq> ta_approver_id a
        \<or> aa_issue artifact \<noteq> tc_number approved \<or> aa_workflow_id artifact \<noteq> t_workflow task
        \<or> aa_workflow_hash artifact \<noteq> workflow_hash
        \<or> aa_approved_content_hash artifact \<noteq> ta_approved_content_hash a \<or> aa_nonce artifact \<noteq> ta_nonce a
      then Inl (Unapproved ArtifactDiffers) else Inr comment)))"

definition check_claims ::
  "source_io \<Rightarrow> ticket_approval \<Rightarrow> task \<Rightarrow> (nat \<Rightarrow> string option) \<Rightarrow> bool \<Rightarrow> api_comment list \<Rightarrow> hub_error + bool" where
  "check_claims io a task trusted locally_consumed comments =
     (let claimed = matching_claim (so_parse io) comments (ta_artifact_id a) (ta_label_event_id a) (t_id task) trusted \<noteq> None;
          conflict = conflicting_claim (so_parse io) comments (ta_artifact_id a) (ta_label_event_id a) trusted \<noteq> None
      in if conflict \<and> \<not> claimed then Inl (Unapproved ClaimConflict)
         else if \<not> locally_consumed \<and> conflict then Inl (Unapproved AlreadyClaimed)
         else Inr claimed)"

definition check_ready_event ::
  "ticket_approval \<Rightarrow> api_comment \<Rightarrow> (nat \<Rightarrow> string option) \<Rightarrow> string \<Rightarrow> api_timeline_event list \<Rightarrow> hub_error + unit" where
  "check_ready_event a comment trusted ready_label timeline =
     and_then (ok_or (Unapproved ReadyEventGone) (latest_ready_event timeline ready_label)) (\<lambda>event.
     if ae_id event \<noteq> ta_label_event_id a \<or> au_id (ae_actor event) \<noteq> ta_approver_id a
       \<or> trusted (au_id (ae_actor event)) = None \<or> ae_created_at event < ao_created_at comment
     then Inl (Unapproved ReadyEventDiffers) else Inr ())"

definition check_approval ::
  "outside \<Rightarrow> source_io \<Rightarrow> path \<Rightarrow> github_config \<Rightarrow> task \<Rightarrow> string \<Rightarrow> ticket_context \<Rightarrow> bool \<Rightarrow> trace \<Rightarrow>
     ((nat \<Rightarrow> string option) \<times> issue_snapshot \<times> bool, trace) hubbed" where
  "check_approval o' io repository cfg task workflow_hash approved locally_consumed t =
     (let a = tc_approval approved; number = tc_number approved in
      continue (trusted_numeric_ids o' (so_parse io) repository Map.empty (gc_trusted_approvers cfg) t) (\<lambda>trusted t.
      continue (current_user o' (so_parse io) t) (\<lambda>actor t.
      continue (demand (Unapproved ActorNotTrusted) (trusted (gu_id actor) \<noteq> None) t) (\<lambda>_ t.
      continue (demand (Unapproved ApproverNotTrusted) (trusted (ta_approver_id a) \<noteq> None) t) (\<lambda>_ t.
      continue (hub_issue o' (so_parse io) repository (t_repository task) number t) (\<lambda>issue t.
      continue (demand (Unapproved IssueNotOpen) (is_state issue = ''open'') t) (\<lambda>_ t.
      continue (demand (Unapproved ContextNotApproved)
        (ticket_context_hash io approved (t_workflow task) workflow_hash = ta_approved_content_hash a
          \<and> tc_url approved = is_url issue) t) (\<lambda>_ t.
      continue (demand (Unapproved NotReady) (locally_consumed \<or> gc_ready_label cfg \<in> set (is_labels issue)) t) (\<lambda>_ t.
      continue (issue_comments o' (so_parse io) repository (t_repository task) number t) (\<lambda>comments t.
      continue (pure (check_artifact io approved task workflow_hash comments) t) (\<lambda>comment t.
      continue (pure (check_claims io a task trusted locally_consumed comments) t) (\<lambda>claimed t.
      continue (issue_timeline o' (so_parse io) repository (t_repository task) number t) (\<lambda>timeline t.
      continue (pure (check_ready_event a comment trusted (gc_ready_label cfg) timeline) t) (\<lambda>_ t.
      continue (demand (Unapproved ContentChanged)
        (content_hash io (is_number issue) (is_title issue) (is_body issue) (t_workflow task) workflow_hash
          = ta_approved_content_hash a) t) (\<lambda>_ t.
      (Inr (trusted, issue, claimed), t))))))))))))))))"

subsection \<open>The claim\<close>

definition consume_approval :: "(nat \<Rightarrow> int) \<Rightarrow> task \<Rightarrow> bool \<Rightarrow> approval_evidence \<Rightarrow> poller \<Rightarrow> (unit, poller) hubbed" where
  "consume_approval clk task locally_consumed evidence s =
     (if locally_consumed
      then demand (Unapproved ConsumptionDiffers) (task_consumed_exact_approval (t_id task) evidence (po_ledger s)) s
      else on_poll_ledger HubLedger (\<lambda>db. and_then (consume_task_approval (t_id task) evidence (clk 1) db) (\<lambda>db. Inr ((), db))) s)"

definition publish_claim ::
  "outside \<Rightarrow> source_io \<Rightarrow> path \<Rightarrow> github_config \<Rightarrow> task \<Rightarrow> ticket_context \<Rightarrow> issue_snapshot \<Rightarrow> bool \<Rightarrow> trace \<Rightarrow> (unit, trace) hubbed" where
  "publish_claim o' io repository cfg task approved issue claimed t =
     (let a = tc_approval approved; number = tc_number approved in
      continue (if gc_ready_label cfg \<in> set (is_labels issue)
        then edit_issue_label o' repository number (gc_ready_label cfg) False t else (Inr (), t)) (\<lambda>_ t.
      if claimed then (Inr (), t)
      else continue (post_issue_comment o' repository (t_repository task) number
        (render_claim (so_print io) \<lparr>ca_version = 1, ca_task_id = t_id task, ca_approval_artifact_id = ta_artifact_id a,
           ca_label_event_id = ta_label_event_id a\<rparr>) t) (\<lambda>_ t. (Inr (), t))))"

definition verify_claim ::
  "outside \<Rightarrow> source_io \<Rightarrow> path \<Rightarrow> github_config \<Rightarrow> task \<Rightarrow> string \<Rightarrow> ticket_context \<Rightarrow> (nat \<Rightarrow> string option) \<Rightarrow> trace \<Rightarrow>
     (unit, trace) hubbed" where
  "verify_claim o' io repository cfg task workflow_hash approved trusted t =
     (let a = tc_approval approved; number = tc_number approved in
      continue (hub_issue o' (so_parse io) repository (t_repository task) number t) (\<lambda>verified t.
      continue (demand (Unapproved ChangedConcurrently)
        (is_state verified = ''open'' \<and> gc_ready_label cfg \<notin> set (is_labels verified)
          \<and> content_hash io (is_number verified) (is_title verified) (is_body verified) (t_workflow task) workflow_hash
            = ta_approved_content_hash a) t) (\<lambda>_ t.
      continue (issue_timeline o' (so_parse io) repository (t_repository task) number t) (\<lambda>timeline t.
      continue (demand (Unapproved SupersededByEvent)
        (map_option ae_id (latest_ready_event timeline (gc_ready_label cfg)) = Some (ta_label_event_id a)) t) (\<lambda>_ t.
      continue (issue_comments o' (so_parse io) repository (t_repository task) number t) (\<lambda>comments t.
      continue (demand (Unapproved SupersededByApproval)
        (latest_approval (so_parse io) comments = Some (ta_artifact_id a)) t) (\<lambda>_ t.
      demand (Unapproved ClaimNotVisible)
        (matching_claim (so_parse io) comments (ta_artifact_id a) (ta_label_event_id a) (t_id task) trusted \<noteq> None) t)))))))"

definition authorize_claim ::
  "outside \<Rightarrow> source_io \<Rightarrow> (nat \<Rightarrow> int) \<Rightarrow> path \<Rightarrow> github_config \<Rightarrow> task \<Rightarrow> string \<Rightarrow> poller \<Rightarrow> (unit, poller) hubbed" where
  "authorize_claim o' io clk repository cfg task workflow_hash s =
     continue (pure (queued_approval io task workflow_hash) s) (\<lambda>approved s.
     continue (demand (Unapproved ApprovalReserved)
       (\<not> issue_approval_is_reserved (t_repository task) (tc_number approved) (clk 0) (po_ledger s)) s) (\<lambda>_ s.
     let locally_consumed = task_has_consumed_approval (t_id task) (po_ledger s) in
     continue (polling (check_approval o' io repository cfg task workflow_hash approved locally_consumed) s)
       (\<lambda>(trusted, issue, claimed) s.
     continue (consume_approval clk task locally_consumed
       (evidence_of (tc_approval approved) (ta_approved_content_hash (tc_approval approved)) workflow_hash (is_updated_at issue)) s) (\<lambda>_ s.
     continue (polling (publish_claim o' io repository cfg task approved issue claimed) s) (\<lambda>_ s.
     polling (verify_claim o' io repository cfg task workflow_hash approved trusted) s)))))"

subsection \<open>An approval is consumed before anything is published\<close>

text \<open>The consumption the ledger holds for a claim: the task's, with the queued approval's artifact, event, approver and hashes.\<close>

definition claim_recorded :: "task \<Rightarrow> string \<Rightarrow> ticket_context \<Rightarrow> ledger \<Rightarrow> bool" where
  "claim_recorded task workflow_hash approved db \<longleftrightarrow> (let a = tc_approval approved in
     \<exists>c\<in>set (approval_consumptions db). ac_task_id c = t_id task \<and> ac_artifact_id c = ta_artifact_id a
       \<and> ac_label_event_id c = ta_label_event_id a \<and> ac_approver_id c = ta_approver_id a
       \<and> ac_content_hash c = ta_approved_content_hash a \<and> ac_workflow_hash c = workflow_hash)"

definition approvals_unique :: "ledger \<Rightarrow> bool" where
  "approvals_unique db \<longleftrightarrow> unique_key ac_artifact_id (approval_consumptions db)
     \<and> unique_key ac_label_event_id (approval_consumptions db) \<and> unique_key ac_task_id (approval_consumptions db)"

definition claim_quiet :: "poller \<Rightarrow> poller \<Rightarrow> bool" where
  "claim_quiet s s' \<longleftrightarrow> po_ledger s' = po_ledger s \<and> allowed reads_host (po_trace s) (po_trace s')"

interpretation claim_quiet: step_relation claim_quiet
  by unfold_locales (auto simp: claim_quiet_def intro: requests.related_refl requests.related_trans)

lemma check_approval_quiet:
  assumes "polling (check_approval o' io repository cfg task workflow_hash approved locally_consumed) s = (r, s')"
  shows "claim_quiet s s'"
proof -
  have "allowed reads_host t (snd (check_approval o' io repository cfg task workflow_hash approved locally_consumed t))" for t
    unfolding check_approval_def by (intro request_rules)
  with assms show ?thesis by (auto simp: claim_quiet_def polling_def)
qed

lemma after_consumption_ledger:
  "po_ledger (snd (continue (polling publish s) (\<lambda>_ s. polling verify s))) = po_ledger s"
  by (cases "polling publish s"; cases "fst (polling publish s)") (auto simp: polling_def)

lemma consume_approval_spec:
  assumes "consume_approval clk task (task_has_consumed_approval (t_id task) (po_ledger s))
      (evidence_of (tc_approval approved) (ta_approved_content_hash (tc_approval approved)) workflow_hash revision) s = (r, s')"
  shows "po_trace s' = po_trace s \<and> (case r of Inl e \<Rightarrow> po_ledger s' = po_ledger s
     | Inr _ \<Rightarrow> claim_recorded task workflow_hash approved (po_ledger s')
        \<and> set (approval_consumptions (po_ledger s)) \<subseteq> set (approval_consumptions (po_ledger s'))
        \<and> (approvals_unique (po_ledger s) \<longrightarrow> approvals_unique (po_ledger s')))"
proof (cases "task_has_consumed_approval (t_id task) (po_ledger s)")
  case True
  with assms show ?thesis
    by (auto simp: consume_approval_def demand_def task_consumed_exact_approval_def exists_where_iff evidence_of_def
        claim_recorded_def Let_def)
next
  case False
  with assms show ?thesis
    by (auto simp: consume_approval_def on_poll_ledger_def consume_task_approval_def exists_where_iff evidence_of_def
        claim_recorded_def Let_def approvals_unique_def unique_key_append1 split: if_splits)
qed

text \<open>How a claim goes: it stays quiet and fails, or it records the consumption, and what follows keeps the ledger.\<close>

lemma authorize_claim_cases:
  obtains (quiet) e where "fst (authorize_claim o' io clk repository cfg task workflow_hash s) = Inl e"
      and "claim_quiet s (snd (authorize_claim o' io clk repository cfg task workflow_hash s))"
  | (recorded) approved where "queued_approval io task workflow_hash = Inr approved"
      and "claim_recorded task workflow_hash approved (po_ledger (snd (authorize_claim o' io clk repository cfg task workflow_hash s)))"
      and "set (approval_consumptions (po_ledger s))
        \<subseteq> set (approval_consumptions (po_ledger (snd (authorize_claim o' io clk repository cfg task workflow_hash s))))"
      and "approvals_unique (po_ledger s) \<Longrightarrow>
        approvals_unique (po_ledger (snd (authorize_claim o' io clk repository cfg task workflow_hash s)))"
proof (cases "queued_approval io task workflow_hash")
  case (Inl e)
  then show thesis using quiet by (simp add: authorize_claim_def claim_quiet.related_refl)
next
  case (Inr approved)
  show thesis
  proof (cases "issue_approval_is_reserved (t_repository task) (tc_number approved) (clk 0) (po_ledger s)")
    case True
    with Inr show thesis
      using quiet by (simp add: authorize_claim_def demand_def claim_quiet.related_refl)
  next
    case False
    let ?consumed = "task_has_consumed_approval (t_id task) (po_ledger s)"
    let ?evidence = "\<lambda>revision. evidence_of (tc_approval approved) (ta_approved_content_hash (tc_approval approved)) workflow_hash revision"
    obtain r1 s1 where check: "polling (check_approval o' io repository cfg task workflow_hash approved ?consumed) s = (r1, s1)"
      by fastforce
    note quiet1 = check_approval_quiet [OF check]
    show thesis
    proof (cases r1)
      case (Inl e)
      with Inr False check quiet1 show thesis using quiet by (simp add: authorize_claim_def demand_def Let_def)
    next
      case checked: (Inr v)
      obtain trusted issue claimed where v: "v = (trusted, issue, claimed)" by (cases v)
      obtain r2 s2 where consume: "consume_approval clk task ?consumed (?evidence (is_updated_at issue)) s1 = (r2, s2)"
        by fastforce
      have ledger1: "po_ledger s1 = po_ledger s" using quiet1 by (simp add: claim_quiet_def)
      note spec = consume_approval_spec [OF consume [folded ledger1]]
      show thesis
      proof (cases r2)
        case (Inl e)
        with spec quiet1 have "claim_quiet s s2" by (simp add: claim_quiet_def)
        with Inr False check checked v consume Inl show thesis using quiet by (simp add: authorize_claim_def demand_def Let_def)
      next
        case (Inr u)
        then have "authorize_claim o' io clk repository cfg task workflow_hash s
            = continue (polling (publish_claim o' io repository cfg task approved issue claimed) s2) (\<lambda>_ s.
                polling (verify_claim o' io repository cfg task workflow_hash approved trusted) s)"
          using \<open>queued_approval io task workflow_hash = Inr approved\<close> False check checked v consume
          by (simp add: authorize_claim_def demand_def Let_def)
        then show thesis
          using \<open>queued_approval io task workflow_hash = Inr approved\<close> spec Inr ledger1
          by (intro recorded [of approved]) (simp_all add: after_consumption_ledger)
      qed
    qed
  qed
qed

lemma authorize_claim_success:
  assumes "fst (authorize_claim o' io clk repository cfg task workflow_hash s) = Inr ()"
    and "queued_approval io task workflow_hash = Inr approved"
  shows "claim_recorded task workflow_hash approved (po_ledger (snd (authorize_claim o' io clk repository cfg task workflow_hash s)))"
    and "set (approval_consumptions (po_ledger s))
      \<subseteq> set (approval_consumptions (po_ledger (snd (authorize_claim o' io clk repository cfg task workflow_hash s))))"
    and "approvals_unique (po_ledger s) \<Longrightarrow>
      approvals_unique (po_ledger (snd (authorize_claim o' io clk repository cfg task workflow_hash s)))"
proof -
  have "claim_recorded task workflow_hash approved (po_ledger (snd (authorize_claim o' io clk repository cfg task workflow_hash s)))
      \<and> set (approval_consumptions (po_ledger s))
        \<subseteq> set (approval_consumptions (po_ledger (snd (authorize_claim o' io clk repository cfg task workflow_hash s))))
      \<and> (approvals_unique (po_ledger s) \<longrightarrow>
        approvals_unique (po_ledger (snd (authorize_claim o' io clk repository cfg task workflow_hash s))))"
  proof (cases rule: authorize_claim_cases [of o' io clk repository cfg task workflow_hash s])
    case (quiet e)
    with assms(1) show ?thesis by simp
  next
    case (recorded a)
    from recorded(1) assms(2) have "a = approved" by simp
    with recorded show ?thesis by blast
  qed
  then show "claim_recorded task workflow_hash approved (po_ledger (snd (authorize_claim o' io clk repository cfg task workflow_hash s)))"
    and "set (approval_consumptions (po_ledger s))
      \<subseteq> set (approval_consumptions (po_ledger (snd (authorize_claim o' io clk repository cfg task workflow_hash s))))"
    and "approvals_unique (po_ledger s) \<Longrightarrow>
      approvals_unique (po_ledger (snd (authorize_claim o' io clk repository cfg task workflow_hash s)))"
    by blast+
qed

text \<open>
  C33. Whatever the host answers and wherever the claim stops: as long as the ledger does not hold the consumption of exactly
  the approval that was queued, nothing but reads was sent to the host, and the ledger is as it was.
\<close>

theorem claim_published_only_recorded:
  "claim_quiet s (snd (authorize_claim o' io clk repository cfg task workflow_hash s))
   \<or> (\<exists>approved. queued_approval io task workflow_hash = Inr approved
       \<and> claim_recorded task workflow_hash approved (po_ledger (snd (authorize_claim o' io clk repository cfg task workflow_hash s))))"
proof (cases rule: authorize_claim_cases [of o' io clk repository cfg task workflow_hash s])
  case (recorded approved)
  then show ?thesis by blast
qed blast

text \<open>
  C34. An approval is given to one task: after a claim that succeeded, and whatever else happens to a ledger that keeps its
  consumptions, a claim that names the same approval comment or the same ready event succeeds only for the same task.
\<close>

theorem approved_claims_exclusive:
  assumes "fst (authorize_claim o1 io clk1 repository1 cfg1 task1 hash1 s) = Inr ()"
    and "fst (authorize_claim o2 io clk2 repository2 cfg2 task2 hash2 s2) = Inr ()"
    and "set (approval_consumptions (po_ledger (snd (authorize_claim o1 io clk1 repository1 cfg1 task1 hash1 s))))
      \<subseteq> set (approval_consumptions (po_ledger s2))"
    and "approvals_unique (po_ledger s2)"
    and "queued_approval io task1 hash1 = Inr a1" and "queued_approval io task2 hash2 = Inr a2"
    and "ta_artifact_id (tc_approval a1) = ta_artifact_id (tc_approval a2)
      \<or> ta_label_event_id (tc_approval a1) = ta_label_event_id (tc_approval a2)"
  shows "t_id task1 = t_id task2"
proof -
  let ?db = "po_ledger (snd (authorize_claim o2 io clk2 repository2 cfg2 task2 hash2 s2))"
  note first = authorize_claim_success [OF assms(1,5)]
  note second = authorize_claim_success [OF assms(2,6)]
  from first(1) obtain c1 where c1: "c1 \<in> set (approval_consumptions ?db)" "ac_task_id c1 = t_id task1"
      "ac_artifact_id c1 = ta_artifact_id (tc_approval a1)" "ac_label_event_id c1 = ta_label_event_id (tc_approval a1)"
    using assms(3) second(2) unfolding claim_recorded_def Let_def by blast
  from second(1) obtain c2 where c2: "c2 \<in> set (approval_consumptions ?db)" "ac_task_id c2 = t_id task2"
      "ac_artifact_id c2 = ta_artifact_id (tc_approval a2)" "ac_label_event_id c2 = ta_label_event_id (tc_approval a2)"
    unfolding claim_recorded_def Let_def by blast
  from second(3) [OF assms(4)] have "c1 = c2"
    using assms(7) c1 c2 unique_key_inj [of ac_artifact_id _ c1 c2] unique_key_inj [of ac_label_event_id _ c1 c2]
    unfolding approvals_unique_def by auto
  with c1(2) c2(2) show ?thesis by simp
qed

subsection \<open>What a claimed task works on\<close>

lemma content_hash_inject:
  assumes "content_hash io i t b w h = content_hash io i' t' b' w h"
    and "\<And>i t b. so_parse io (so_print io (approved_content i t b w h)) = Some (approved_content i t b w h)"
  shows "i = i' \<and> t = t' \<and> b = b' \<or> (\<exists>x y. x \<noteq> y \<and> sha256_hex (so_sha256 io) x = sha256_hex (so_sha256 io) y)"
proof -
  let ?v = "approved_content i t b w h" and ?v' = "approved_content i' t' b' w h"
  have "sha256_hex (so_sha256 io) (so_print io ?v) = sha256_hex (so_sha256 io) (so_print io ?v')"
    using assms(1) by (simp add: content_hash_def approved_content_hash_def)
  moreover have "?v = ?v'" if "so_print io ?v = so_print io ?v'"
    using assms(2) [of i t b] assms(2) [of i' t' b'] that by (metis option.inject)
  ultimately show ?thesis
    using approved_content_inject [of i t b w h i' t' b' w h] by (cases "so_print io ?v = so_print io ?v'") auto
qed

text \<open>
  When a claim succeeds the agent gets what was approved and what is on the issue: after its last change to the host the issue
  was read open, without the ready label, with the number, title and body of the queued ticket, unless two texts share a
  SHA-256 digest; the queued approval was the newest, its event the last one, and the task's claim was visible.
\<close>

theorem claimed_content_is_approved:
  assumes "authorize_claim o' io clk repository cfg task workflow_hash s = (Inr (), s')"
    and "\<And>i t b. so_parse io (so_print io (approved_content i t b (t_workflow task) workflow_hash))
      = Some (approved_content i t b (t_workflow task) workflow_hash)"
  shows "\<exists>approved t issue t1 timeline t2 comments.
     queued_approval io task workflow_hash = Inr approved
     \<and> hub_issue o' (so_parse io) repository (t_repository task) (tc_number approved) t = (Inr issue, t1)
     \<and> issue_timeline o' (so_parse io) repository (t_repository task) (tc_number approved) t1 = (Inr timeline, t2)
     \<and> issue_comments o' (so_parse io) repository (t_repository task) (tc_number approved) t2 = (Inr comments, po_trace s')
     \<and> is_state issue = ''open'' \<and> gc_ready_label cfg \<notin> set (is_labels issue)
     \<and> (is_number issue = tc_number approved \<and> is_title issue = tc_title approved \<and> is_body issue = tc_body approved
        \<or> (\<exists>x y. x \<noteq> y \<and> sha256_hex (so_sha256 io) x = sha256_hex (so_sha256 io) y))
     \<and> map_option ae_id (latest_ready_event timeline (gc_ready_label cfg)) = Some (ta_label_event_id (tc_approval approved))
     \<and> latest_approval (so_parse io) comments = Some (ta_artifact_id (tc_approval approved))
     \<and> list_ex (\<lambda>c. map_option ca_task_id (parse_claim (so_parse io) (comment_text c)) = Some (t_id task)) comments"
proof -
  from assms(1) obtain approved t trusted issue claimed t0 where
      q: "queued_approval io task workflow_hash = Inr approved"
      and check: "check_approval o' io repository cfg task workflow_hash approved
        (task_has_consumed_approval (t_id task) (po_ledger s)) (po_trace s) = (Inr (trusted, issue, claimed), t0)"
      and verify: "verify_claim o' io repository cfg task workflow_hash approved trusted t = (Inr (), po_trace s')"
    unfolding authorize_claim_def Let_def by (auto simp: result_simps)
  from check have hash: "ticket_context_hash io approved (t_workflow task) workflow_hash
      = ta_approved_content_hash (tc_approval approved)"
    unfolding check_approval_def Let_def by (auto simp: result_simps)
  from verify obtain verified t1 timeline t2 comments where
      reads: "hub_issue o' (so_parse io) repository (t_repository task) (tc_number approved) t = (Inr verified, t1)"
        "issue_timeline o' (so_parse io) repository (t_repository task) (tc_number approved) t1 = (Inr timeline, t2)"
        "issue_comments o' (so_parse io) repository (t_repository task) (tc_number approved) t2 = (Inr comments, po_trace s')"
      and facts: "is_state verified = ''open''" "gc_ready_label cfg \<notin> set (is_labels verified)"
        "content_hash io (is_number verified) (is_title verified) (is_body verified) (t_workflow task) workflow_hash
          = ta_approved_content_hash (tc_approval approved)"
        "map_option ae_id (latest_ready_event timeline (gc_ready_label cfg)) = Some (ta_label_event_id (tc_approval approved))"
        "latest_approval (so_parse io) comments = Some (ta_artifact_id (tc_approval approved))"
      and claim: "matching_claim (so_parse io) comments (ta_artifact_id (tc_approval approved))
        (ta_label_event_id (tc_approval approved)) (t_id task) trusted \<noteq> None"
    unfolding verify_claim_def Let_def by (auto simp: result_simps)
  have "list_ex (\<lambda>c. map_option ca_task_id (parse_claim (so_parse io) (comment_text c)) = Some (t_id task)) comments"
    using claim by (auto simp: matching_claim_def find_None_iff list_ex_iff split: option.splits)
  moreover from hash facts(3) have "content_hash io (is_number verified) (is_title verified) (is_body verified) (t_workflow task) workflow_hash
      = content_hash io (tc_number approved) (tc_title approved) (tc_body approved) (t_workflow task) workflow_hash"
    by (simp add: ticket_context_hash_def)
  note content_hash_inject [OF this assms(2)]
  ultimately show ?thesis using q reads facts by blast
qed

end
