(* ===== verification/GitHub_Tickets.thy ===== *)
theory GitHub_Tickets
  imports GitHub_Client Ticket_Source
begin

text \<open>
  Tickets from GitHub (\<open>src/github.rs\<close>): issues with a label and issues with a status on a project board, polled into the
  ledger and checked again when a task is claimed.
\<close>

subsection \<open>Projects\<close>

record project_option =
  po_id :: string
  po_name :: string

record project_field =
  pf_id :: string
  pf_name :: string
  pf_kind :: string
  pf_options :: "project_option list"

record project_author =
  pa_id :: "string option"
  pa_login :: string

record project_issue =
  pi_id :: string
  pi_number :: nat
  pi_title :: string
  pi_url :: string
  pi_state :: string
  pi_author :: "project_author option"
  pi_repository :: string

record project_status_value =
  ps_option_id :: string
  ps_name :: string
  ps_updated_at :: string

record project_item =
  pj_id :: string
  pj_updated_at :: string
  pj_content :: "project_issue option"
  pj_field_value :: "project_status_value option"

record resolved_project_source =
  rj_project_id :: string
  rj_status_field_id :: string
  rj_options :: "(string \<times> string) list"

definition project_option_of :: "json \<Rightarrow> project_option option" where
  "project_option_of v =
     Option.bind (field_text ''id'' v) (\<lambda>i. Option.bind (field_text ''name'' v) (\<lambda>name.
     Some \<lparr>po_id = i, po_name = name\<rparr>))"

definition project_field_of :: "json \<Rightarrow> project_field option" where
  "project_field_of v =
     Option.bind (field_text ''id'' v) (\<lambda>i.
     Option.bind (field_text ''name'' v) (\<lambda>name.
     Option.bind (field_text ''type'' v) (\<lambda>kind.
     Option.bind (case json_get ''options'' v of None \<Rightarrow> Some [] | Some w \<Rightarrow> each_of project_option_of w) (\<lambda>options.
     Some \<lparr>pf_id = i, pf_name = name, pf_kind = kind, pf_options = options\<rparr>))))"

definition project_author_of :: "json \<Rightarrow> project_author option" where
  "project_author_of v =
     Option.bind (field_optional_text ''id'' v) (\<lambda>i. Option.bind (field_text ''login'' v) (\<lambda>login.
     Some \<lparr>pa_id = i, pa_login = login\<rparr>))"

definition project_issue_of :: "json \<Rightarrow> project_issue option" where
  "project_issue_of v =
     Option.bind (field_text ''id'' v) (\<lambda>i.
     Option.bind (field_u64 ''number'' v) (\<lambda>number.
     Option.bind (field_text ''title'' v) (\<lambda>title.
     Option.bind (field_text ''url'' v) (\<lambda>url.
     Option.bind (field_text ''state'' v) (\<lambda>state.
     Option.bind (field_text ''updatedAt'' v) (\<lambda>updated.
     Option.bind (field_maybe ''author'' project_author_of v) (\<lambda>author.
     Option.bind (field_of ''repository'' (field_text ''nameWithOwner'') v) (\<lambda>repository.
     Some \<lparr>pi_id = i, pi_number = number, pi_title = title, pi_url = url, pi_state = state, pi_author = author,
       pi_repository = repository\<rparr>))))))))"

definition project_status_value_of :: "json \<Rightarrow> project_status_value option" where
  "project_status_value_of v =
     Option.bind (field_text ''optionId'' v) (\<lambda>i. Option.bind (field_text ''name'' v) (\<lambda>name.
     Option.bind (field_text ''updatedAt'' v) (\<lambda>updated.
     Some \<lparr>ps_option_id = i, ps_name = name, ps_updated_at = updated\<rparr>)))"

text \<open>What is listed with an issue's \<open>id\<close> must be an issue; a draft or a pull request has none.\<close>

definition listed_content :: "json \<Rightarrow> project_issue option option" where
  "listed_content v =
     (case json_get ''content'' v of None \<Rightarrow> Some None
      | Some w \<Rightarrow> if json_get ''id'' w = None then Some None else map_option Some (project_issue_of w))"

text \<open>The value of the field stands under one of two names, not both.\<close>

definition project_item_of :: "json \<Rightarrow> project_item option" where
  "project_item_of v =
     Option.bind (field_text ''id'' v) (\<lambda>i.
     Option.bind (field_text ''updatedAt'' v) (\<lambda>updated.
     Option.bind (listed_content v) (\<lambda>content.
     if json_get ''fieldValueByName'' v \<noteq> None \<and> json_get ''fieldValue'' v \<noteq> None then None else
     Option.bind (if json_get ''fieldValueByName'' v \<noteq> None then field_maybe ''fieldValueByName'' project_status_value_of v
       else field_maybe ''fieldValue'' project_status_value_of v) (\<lambda>status.
     Some \<lparr>pj_id = i, pj_updated_at = updated, pj_content = content, pj_field_value = status\<rparr>))))"

subsection \<open>The project of a source\<close>

fun resolve_options :: "project_option list \<Rightarrow> (string \<times> string) list \<Rightarrow> hub_error + (string \<times> string) list" where
  "resolve_options [] options = Inr options"
| "resolve_options (x # xs) options =
     (if po_name x \<in> set (map fst options) then Inl (BadProject (DuplicateOptionName (po_name x)))
      else if po_id x \<in> set (map snd options) then Inl (BadProject (DuplicateOptionId (po_name x)))
      else resolve_options xs (options @ [(po_name x, po_id x)]))"

definition status_field :: "string \<Rightarrow> project_field list \<Rightarrow> hub_error + project_field" where
  "status_field name kvs =
     (case filter (\<lambda>f. pf_name f = name) kvs of
        [] \<Rightarrow> Inl (BadProject NoStatusField)
      | [f] \<Rightarrow> if pf_kind f \<noteq> ''ProjectV2SingleSelectField'' then Inl (BadProject NotSingleSelect) else Inr f
      | _ \<Rightarrow> Inl (BadProject AmbiguousStatusField))"

definition resolve_project_source ::
  "outside \<Rightarrow> (string \<Rightarrow> json option) \<Rightarrow> path \<Rightarrow> source_config \<Rightarrow> trace \<Rightarrow> (resolved_project_source, trace) hubbed" where
  "resolve_project_source o' parse repository source t =
     (let number = nat_dec (sc_project_number source) in
      continue (hub_run o' (Some repository)
        [''project'', ''view'', number, ''--owner'', sc_owner source, ''--format'', ''json''] t) (\<lambda>out t.
      continue (pure (ok_or MalformedAnswer (Option.bind (parse out) (field_text ''id''))) t) (\<lambda>project t.
      continue (demand (BadProject EmptyProjectId) (\<not> blank project) t) (\<lambda>_ t.
      continue (hub_run o' (Some repository)
        [''project'', ''field-list'', number, ''--owner'', sc_owner source, ''--limit'', ''1000'', ''--format'', ''json''] t) (\<lambda>out t.
      continue (pure (ok_or MalformedAnswer (Option.bind (parse out) (field_of ''fields'' (each_of project_field_of)))) t) (\<lambda>kvs t.
      continue (pure (status_field (sc_status_field source) kvs) t) (\<lambda>f t.
      continue (pure (resolve_options (pf_options f) []) t) (\<lambda>options t.
      (Inr \<lparr>rj_project_id = project, rj_status_field_id = pf_id f, rj_options = options\<rparr>, t)))))))))"

fun require_statuses :: "(string \<times> string) list \<Rightarrow> string list \<Rightarrow> hub_error + unit" where
  "require_statuses options [] = Inr ()"
| "require_statuses options (status # statuses) =
     (if map_of options status = None then Inl (NotCurrent (StatusNotConfigured status)) else require_statuses options statuses)"

definition validate_project_source ::
  "outside \<Rightarrow> (string \<Rightarrow> json option) \<Rightarrow> path \<Rightarrow> source_config \<Rightarrow> string list \<Rightarrow> trace \<Rightarrow> (resolved_project_source, trace) hubbed" where
  "validate_project_source o' parse repository source statuses t =
     continue (trusted_source_user_ids o' parse repository source t) (\<lambda>_ t.
     continue (resolve_project_source o' parse repository source t) (\<lambda>resolved t.
     continue (pure (require_statuses (rj_options resolved) statuses) t) (\<lambda>_ t.
     (Inr resolved, t))))"

definition validate_issue_source ::
  "outside \<Rightarrow> (string \<Rightarrow> json option) \<Rightarrow> path \<Rightarrow> source_config \<Rightarrow> trace \<Rightarrow> (unit, trace) hubbed" where
  "validate_issue_source o' parse repository source t =
     continue (trusted_source_numeric_user_ids o' parse repository source t) (\<lambda>_ t. (Inr (), t))"

subsection \<open>The items of a project\<close>

definition PROJECT_ITEMS_QUERY :: string where
  "PROJECT_ITEMS_QUERY = ''query($project:ID!,$endCursor:String,$statusField:String!){node(id:$project){... on ProjectV2{items(first:100,after:$endCursor){pageInfo{hasNextPage endCursor} nodes{id updatedAt content{... on Issue{id number title url state updatedAt author{login ... on User{id}} repository{nameWithOwner}}} fieldValueByName(name:$statusField){... on ProjectV2ItemFieldSingleSelectValue{optionId name updatedAt}}}}}}}''"

definition PROJECT_ITEM_QUERY :: string where
  "PROJECT_ITEM_QUERY = ''query($item:ID!){node(id:$item){... on ProjectV2Item{id updatedAt content{... on Issue{id number title url state updatedAt author{login ... on User{id}} repository{nameWithOwner}}} fieldValues(first:100){nodes{... on ProjectV2ItemFieldSingleSelectValue{optionId name updatedAt field{... on ProjectV2SingleSelectField{id}}}}}}}}''"

record project_page =
  pg_nodes :: "project_item list"
  pg_next :: bool
  pg_cursor :: "string option"

definition project_page_of :: "json \<Rightarrow> project_page option" where
  "project_page_of v =
     Option.bind (field_of ''nodes'' (each_of project_item_of) v) (\<lambda>nodes.
     Option.bind (json_get ''pageInfo'' v) (\<lambda>info.
     Option.bind (Option.bind (json_get ''hasNextPage'' info) json_as_bool) (\<lambda>next.
     Option.bind (field_optional_text ''endCursor'' info) (\<lambda>cursor.
     Some \<lparr>pg_nodes = nodes, pg_next = next, pg_cursor = cursor\<rparr>))))"

definition project_pages_answer :: "json \<Rightarrow> project_page option option" where
  "project_pages_answer v =
     field_of ''data'' (field_maybe ''node'' (field_of ''items'' project_page_of)) v"

definition project_items_page ::
  "outside \<Rightarrow> (string \<Rightarrow> json option) \<Rightarrow> path \<Rightarrow> string \<Rightarrow> string \<Rightarrow> string option \<Rightarrow> trace \<Rightarrow> (project_page, trace) hubbed" where
  "project_items_page o' parse repository project status_name cursor t =
     continue (hub_run o' (Some repository)
       ([''api'', ''graphql'', ''-f'', ''query='' @ PROJECT_ITEMS_QUERY, ''-F'', ''project='' @ project,
         ''-f'', ''statusField='' @ status_name] @ (case cursor of None \<Rightarrow> [] | Some c \<Rightarrow> [''-f'', ''endCursor='' @ c])) t) (\<lambda>out t.
     continue (pure (ok_or MalformedAnswer (Option.bind (parse out) project_pages_answer)) t) (\<lambda>node t.
     pure (ok_or (BadProject NoProjectNode) node) t))"

text \<open>
  The loop over the pages ends when the host says so or the poll is cancelled: \<open>patience\<close> is the number of pages that
  are asked for before the cancellation, which every command fails after.
\<close>

fun project_items ::
  "nat \<Rightarrow> outside \<Rightarrow> (string \<Rightarrow> json option) \<Rightarrow> path \<Rightarrow> string \<Rightarrow> string \<Rightarrow> string option \<Rightarrow> trace \<Rightarrow> (project_item list, trace) hubbed" where
  "project_items 0 o' parse repository project status_name cursor t = (Inl PollCancelled, t)"
| "project_items (Suc patience) o' parse repository project status_name cursor t =
     continue (project_items_page o' parse repository project status_name cursor t) (\<lambda>page t.
     if \<not> pg_next page then (Inr (pg_nodes page), t)
     else continue (pure (ok_or (BadProject NoEndCursor) (pg_cursor page)) t) (\<lambda>next t.
          continue (project_items patience o' parse repository project status_name (Some next) t) (\<lambda>items t.
          (Inr (pg_nodes page @ items), t))))"

definition field_status_of :: "string \<Rightarrow> json list \<Rightarrow> project_status_value option" where
  "field_status_of field_id values =
     map_option fst (List.find (\<lambda>(status, f). f = field_id) (List.map_filter
       (\<lambda>v. Option.bind (project_status_value_of v) (\<lambda>status.
          Option.bind (field_of ''field'' (field_text ''id'') v) (\<lambda>f. Some (status, f)))) values))"

definition project_item_with_values :: "string \<Rightarrow> json \<Rightarrow> project_item option" where
  "project_item_with_values field_id v =
     Option.bind (field_text ''id'' v) (\<lambda>i.
     Option.bind (field_text ''updatedAt'' v) (\<lambda>updated.
     Option.bind (field_maybe ''content'' project_issue_of v) (\<lambda>content.
     Option.bind (field_of ''fieldValues'' (field_of ''nodes'' json_as_array) v) (\<lambda>values.
     Some \<lparr>pj_id = i, pj_updated_at = updated, pj_content = content, pj_field_value = field_status_of field_id values\<rparr>))))"

definition current_project_item ::
  "outside \<Rightarrow> (string \<Rightarrow> json option) \<Rightarrow> path \<Rightarrow> string \<Rightarrow> string \<Rightarrow> trace \<Rightarrow> (project_item option, trace) hubbed" where
  "current_project_item o' parse repository item_id field_id t =
     continue (hub_run o' (Some repository)
       [''api'', ''graphql'', ''-f'', ''query='' @ PROJECT_ITEM_QUERY, ''-F'', ''item='' @ item_id] t) (\<lambda>out t.
     pure (ok_or MalformedAnswer (Option.bind (parse out)
       (field_of ''data'' (field_maybe ''node'' (project_item_with_values field_id))))) t)"

subsection \<open>Claims of tickets\<close>

definition latest_label_event_id :: "api_timeline_event list \<Rightarrow> string \<Rightarrow> nat option" where
  "latest_label_event_id timeline label =
     fold (\<lambda>e latest. case latest of None \<Rightarrow> Some (ae_id e) | Some i \<Rightarrow> Some (max i (ae_id e)))
       (filter (\<lambda>e. ae_event e = ''labeled'' \<and> ae_label e = Some label) timeline) None"

definition project_source_revision :: "string \<Rightarrow> string \<Rightarrow> string \<Rightarrow> string" where
  "project_source_revision item option_id updated_at = ''project-item:'' @ item @ '':option:'' @ option_id @ '':at:'' @ updated_at"

definition validate_project_item :: "project_item \<Rightarrow> project_ticket_context \<Rightarrow> string \<Rightarrow> hub_error + unit" where
  "validate_project_item current expected required_option =
     and_then (ok_or (NotCurrent NoProjectIssue) (pj_content current)) (\<lambda>issue.
     and_then (ok_or (NotCurrent NoProjectStatus) (pj_field_value current)) (\<lambda>status.
     if pj_id current \<noteq> pt_project_item_id expected \<or> pi_id issue \<noteq> pt_issue_node_id expected
       \<or> pi_number issue \<noteq> pt_number expected \<or> pi_url issue \<noteq> pt_url expected
       \<or> pi_repository issue \<noteq> pt_repository expected \<or> pi_state issue \<noteq> ''OPEN''
     then Inl (NotCurrent ProjectIssueDiffers)
     else and_then (ok_or (NotCurrent NoProjectAuthor) (pi_author issue)) (\<lambda>author.
       if pa_id author \<noteq> Some (pt_author_id expected) \<or> ps_option_id status \<noteq> required_option
       then Inl (NotCurrent ProjectIssueChanged) else Inr ())))"

text \<open>The context a task was queued with.\<close>

definition queued_context :: "(string \<Rightarrow> json option) \<Rightarrow> (json \<Rightarrow> 'a option) \<Rightarrow> task \<Rightarrow> hub_error + ('a \<times> string)" where
  "queued_context parse decode task =
     and_then (ok_or NoPayload (t_payload task)) (\<lambda>payload.
     and_then (ok_or InvalidPayload (Option.bind (parse payload) decode)) (\<lambda>expected.
     and_then (ok_or NoIssueNumber (t_source_item task)) (\<lambda>item. Inr (expected, item))))"

definition hub_identity :: "outside \<Rightarrow> path \<Rightarrow> trace \<Rightarrow> (string, trace) hubbed" where
  "hub_identity o' repository t = relabel HubCommand (gh_validate_repository o' repository t)"

definition authorize_project_claim ::
  "outside \<Rightarrow> (string \<Rightarrow> json option) \<Rightarrow> path \<Rightarrow> source_config \<Rightarrow> task \<Rightarrow> trace \<Rightarrow> (unit, trace) hubbed" where
  "authorize_project_claim o' parse repository source task t =
     continue (pure (queued_context parse project_context_of task) t) (\<lambda>(expected, item) t.
     continue (demand (NotCurrent NotItsIdentity)
       (item = nat_dec (pt_number expected) \<and> t_repository task = pt_repository expected) t) (\<lambda>_ t.
     continue (hub_identity o' repository t) (\<lambda>name t.
     continue (demand (NotCurrent RepositoryDiffers) (name = t_repository task) t) (\<lambda>_ t.
     continue (resolve_project_source o' parse repository source t) (\<lambda>resolved t.
     continue (trusted_source_user_ids o' parse repository source t) (\<lambda>trusted t.
     continue (demand (NotCurrent AuthorNotTrusted) (trusted (pt_author_id expected) \<noteq> None) t) (\<lambda>_ t.
     continue (pure (ok_or (NotCurrent (StatusNotConfigured (pt_expected_status expected)))
       (map_of (rj_options resolved) (pt_expected_status expected))) t) (\<lambda>current_option t.
     continue (demand (NotCurrent SourceChanged)
       (rj_project_id resolved = pt_project_id expected \<and> rj_status_field_id resolved = pt_status_field_id expected
         \<and> current_option = pt_expected_option_id expected) t) (\<lambda>_ t.
     continue (current_project_item o' parse repository (pt_project_item_id expected) (pt_status_field_id expected) t) (\<lambda>current t.
     continue (pure (ok_or (NotCurrent NoProjectItem) current) t) (\<lambda>current t.
     pure (validate_project_item current expected (pt_expected_option_id expected)) t)))))))))))"

definition label_issue_current ::
  "label_ticket_context \<Rightarrow> string \<Rightarrow> (nat \<Rightarrow> string option) \<Rightarrow> issue_snapshot \<Rightarrow> bool" where
  "label_issue_current expected label trusted issue \<longleftrightarrow>
     is_state issue = ''open'' \<and> is_author_id issue = lt_author_id expected \<and> is_author_login issue = lt_author_login expected
     \<and> is_url issue = lt_url expected \<and> trusted (is_author_id issue) \<noteq> None \<and> label \<in> set (is_labels issue)"

definition authorize_label_claim ::
  "outside \<Rightarrow> (string \<Rightarrow> json option) \<Rightarrow> path \<Rightarrow> source_config \<Rightarrow> string \<Rightarrow> task \<Rightarrow> trace \<Rightarrow> (unit, trace) hubbed" where
  "authorize_label_claim o' parse repository source label task t =
     continue (pure (queued_context parse label_context_of task) t) (\<lambda>(expected, item) t.
     continue (demand (NotCurrent NotItsIdentity)
       (item = nat_dec (lt_number expected) \<and> t_repository task = lt_repository expected \<and> lt_expected_label expected = label) t) (\<lambda>_ t.
     continue (hub_identity o' repository t) (\<lambda>name t.
     continue (demand (NotCurrent RepositoryDiffers) (name = t_repository task) t) (\<lambda>_ t.
     continue (trusted_source_numeric_user_ids o' parse repository source t) (\<lambda>trusted t.
     continue (hub_issue o' parse repository (t_repository task) (lt_number expected) t) (\<lambda>issue t.
     continue (demand (NotCurrent IssueChanged) (label_issue_current expected label trusted issue) t) (\<lambda>_ t.
     continue (issue_timeline o' parse repository (t_repository task) (lt_number expected) t) (\<lambda>timeline t.
     demand (NotCurrent LabelEntryChanged) (latest_label_event_id timeline label = Some (lt_label_event_id expected)) t))))))))"

subsection \<open>Polling\<close>

definition validated_repository_identity :: "outside \<Rightarrow> path \<Rightarrow> string option \<Rightarrow> trace \<Rightarrow> (string, trace) hubbed" where
  "validated_repository_identity o' repository pinned t =
     (case pinned of Some identity \<Rightarrow> (Inr identity, t) | None \<Rightarrow> hub_identity o' repository t)"

definition of_repository :: "string \<Rightarrow> project_item \<Rightarrow> bool" where
  "of_repository name item \<longleftrightarrow>
     (case pj_content item of None \<Rightarrow> False | Some issue \<Rightarrow> eq_ignore_ascii_case (pi_repository issue) name)"

text \<open>What a status trigger sees of an item: nothing, or a ticket that is eligible in the expected status of a trusted author.\<close>

definition project_context ::
  "string \<Rightarrow> resolved_project_source \<Rightarrow> string \<Rightarrow> string \<Rightarrow> project_item \<Rightarrow> project_issue \<Rightarrow> project_author \<Rightarrow> string \<Rightarrow>
     project_status_value \<Rightarrow> project_ticket_context" where
  "project_context name resolved expected_status expected_option item issue author author_id status =
     \<lparr>pt_project_id = rj_project_id resolved, pt_project_item_id = pj_id item, pt_status_field_id = rj_status_field_id resolved,
       pt_issue_node_id = pi_id issue, pt_number = pi_number issue, pt_url = pi_url issue, pt_title = pi_title issue,
       pt_author_id = author_id, pt_author_login = pa_login author, pt_repository = name, pt_expected_status = expected_status,
       pt_expected_option_id = expected_option, pt_status_updated_at = ps_updated_at status\<rparr>"

definition project_observation ::
  "(json \<Rightarrow> string) \<Rightarrow> string \<Rightarrow> resolved_project_source \<Rightarrow> (string \<Rightarrow> string option) \<Rightarrow> string \<Rightarrow> string \<Rightarrow> project_item \<Rightarrow>
     observed_ticket option" where
  "project_observation print name resolved trusted expected_status expected_option item =
     Option.bind (pj_content item) (\<lambda>issue.
     if \<not> of_repository name item \<or> pi_state issue \<noteq> ''OPEN'' then None else
     Option.bind (pi_author issue) (\<lambda>author.
     Option.bind (pa_id author) (\<lambda>author_id.
     Option.bind (pj_field_value item) (\<lambda>status.
     Some \<lparr>ot_source_item = nat_dec (pi_number issue),
       ot_revision = project_source_revision (pj_id item) expected_option (ps_updated_at status),
       ot_eligible = (ps_option_id status = expected_option \<and> trusted author_id \<noteq> None),
       ot_payload = print (project_context_json
         (project_context name resolved expected_status expected_option item issue author author_id status))\<rparr>))))"

text \<open>The observations of a workflow go to the ledger; the number of tasks it created comes back.\<close>

definition reconcile_workflow ::
  "(nat \<Rightarrow> int) \<Rightarrow> string \<Rightarrow> string \<Rightarrow> observed_ticket list \<Rightarrow> poller \<Rightarrow> (nat, poller) hubbed" where
  "reconcile_workflow clk name workflow observations s =
     continue (on_poll_ledger HubLedger (reconcile_ticket_poll name workflow observations clk) s) (\<lambda>enqueued s.
     (Inr (length (filter enq_created enqueued)), s))"

definition poll_project_workflow ::
  "(json \<Rightarrow> string) \<Rightarrow> (nat \<Rightarrow> int) \<Rightarrow> string \<Rightarrow> resolved_project_source \<Rightarrow> (string \<Rightarrow> string option) \<Rightarrow> project_item list \<Rightarrow>
     workflow_entry \<Rightarrow> poller \<Rightarrow> (nat, poller) hubbed" where
  "poll_project_workflow print clk name resolved trusted items workflow s =
     (case we_trigger workflow of
        Some (TStatus status) \<Rightarrow>
          continue (pure (ok_or (NotCurrent (StatusNotConfigured status)) (map_of (rj_options resolved) status)) s) (\<lambda>option_id s.
          reconcile_workflow clk name (we_id workflow)
            (List.map_filter (project_observation print name resolved trusted status option_id) items) s)
      | _ \<Rightarrow> (Inr 0, s))"

text \<open>The timeline of an issue is read only where its label is present and its author trusted.\<close>

definition label_context_at :: "string \<Rightarrow> string \<Rightarrow> api_issue \<Rightarrow> nat \<Rightarrow> label_ticket_context" where
  "label_context_at name label issue event =
     \<lparr>lt_number = ai_number issue, lt_url = ai_html_url issue, lt_title = ai_title issue, lt_author_id = au_id (ai_user issue),
       lt_author_login = au_login (ai_user issue), lt_repository = name, lt_expected_label = label, lt_label_event_id = event\<rparr>"

definition label_observation :: "(json \<Rightarrow> string) \<Rightarrow> string \<Rightarrow> string \<Rightarrow> api_issue \<Rightarrow> nat option \<Rightarrow> observed_ticket" where
  "label_observation print name label issue event =
     (let ticket = ''issue:'' @ nat_dec (ai_number issue) @ '':label:'' @ label in
      \<lparr>ot_source_item = nat_dec (ai_number issue),
        ot_revision = (case event of None \<Rightarrow> ticket @ '':absent'' | Some e \<Rightarrow> ticket @ '':event:'' @ nat_dec e),
        ot_eligible = (event \<noteq> None),
        ot_payload = (case event of None \<Rightarrow> ''{}'' | Some e \<Rightarrow> print (label_context_json (label_context_at name label issue e)))\<rparr>)"

fun label_observations ::
  "outside \<Rightarrow> (string \<Rightarrow> json option) \<Rightarrow> (json \<Rightarrow> string) \<Rightarrow> path \<Rightarrow> string \<Rightarrow> string \<Rightarrow> (nat \<Rightarrow> string option) \<Rightarrow> api_issue list \<Rightarrow>
     trace \<Rightarrow> (observed_ticket list, trace) hubbed" where
  "label_observations o' parse print repository name label trusted [] t = (Inr [], t)"
| "label_observations o' parse print repository name label trusted (issue # issues) t =
     continue (if label \<in> set (ai_labels issue) \<and> trusted (au_id (ai_user issue)) \<noteq> None
       then continue (issue_timeline o' parse repository name (ai_number issue) t) (\<lambda>timeline t.
            (Inr (latest_label_event_id timeline label), t))
       else (Inr None, t)) (\<lambda>event t.
     continue (label_observations o' parse print repository name label trusted issues t) (\<lambda>rest t.
     (Inr (label_observation print name label issue event # rest), t)))"

definition poll_label_workflow ::
  "outside \<Rightarrow> (string \<Rightarrow> json option) \<Rightarrow> (json \<Rightarrow> string) \<Rightarrow> (nat \<Rightarrow> int) \<Rightarrow> path \<Rightarrow> string \<Rightarrow> (nat \<Rightarrow> string option) \<Rightarrow> api_issue list \<Rightarrow>
     workflow_entry \<Rightarrow> poller \<Rightarrow> (nat, poller) hubbed" where
  "poll_label_workflow o' parse print clk repository name trusted issues workflow s =
     (case we_trigger workflow of
        Some (TLabel label) \<Rightarrow>
          continue (polling (label_observations o' parse print repository name label trusted issues) s) (\<lambda>observations s.
          reconcile_workflow clk name (we_id workflow) observations s)
      | _ \<Rightarrow> (Inr 0, s))"

text \<open>The tasks that a list of workflows adds, each polled by \<open>poll\<close>.\<close>

fun poll_each :: "(workflow_entry \<Rightarrow> poller \<Rightarrow> (nat, poller) hubbed) \<Rightarrow> workflow_entry list \<Rightarrow> poller \<Rightarrow> (nat, poller) hubbed" where
  "poll_each poll [] s = (Inr 0, s)"
| "poll_each poll (w # ws) s =
     continue (poll w s) (\<lambda>n s. continue (poll_each poll ws s) (\<lambda>m s. (Inr (n + m), s)))"

definition poll_project_repository ::
  "nat \<Rightarrow> outside \<Rightarrow> (string \<Rightarrow> json option) \<Rightarrow> (json \<Rightarrow> string) \<Rightarrow> (string \<Rightarrow> nat \<Rightarrow> int) \<Rightarrow> path \<Rightarrow> source_config \<Rightarrow>
     string option \<Rightarrow> workflow_entry list \<Rightarrow> poller \<Rightarrow> (repository_poll, poller) hubbed" where
  "poll_project_repository patience o' parse print clk repository source pinned ws s =
     continue (polling (validated_repository_identity o' repository pinned) s) (\<lambda>name s.
     continue (polling (resolve_project_source o' parse repository source) s) (\<lambda>resolved s.
     continue (polling (trusted_source_user_ids o' parse repository source) s) (\<lambda>trusted s.
     continue (polling (project_items patience o' parse repository (rj_project_id resolved) (sc_status_field source) None) s) (\<lambda>items s.
     continue (poll_each (\<lambda>w. poll_project_workflow print (clk (we_id w)) name resolved trusted items w) ws s) (\<lambda>created s.
     (Inr \<lparr>rp_repository = repository, rp_identity = Some name, rp_issues_seen = length (filter (of_repository name) items),
        rp_tasks_created = created, rp_failed = False\<rparr>, s))))))"

definition poll_label_repository ::
  "outside \<Rightarrow> (string \<Rightarrow> json option) \<Rightarrow> (json \<Rightarrow> string) \<Rightarrow> (string \<Rightarrow> nat \<Rightarrow> int) \<Rightarrow> path \<Rightarrow> source_config \<Rightarrow>
     string option \<Rightarrow> workflow_entry list \<Rightarrow> poller \<Rightarrow> (repository_poll, poller) hubbed" where
  "poll_label_repository o' parse print clk repository source pinned ws s =
     continue (polling (validated_repository_identity o' repository pinned) s) (\<lambda>name s.
     continue (polling (api_pages o' parse api_issue_of repository (''repos/'' @ name @ ''/issues?state=open&per_page=100'')) s) (\<lambda>listed s.
     let issues = filter (\<lambda>i. ai_pull_request i = None) listed in
     continue (polling (trusted_source_numeric_user_ids o' parse repository source) s) (\<lambda>trusted s.
     continue (poll_each (\<lambda>w. poll_label_workflow o' parse print (clk (we_id w)) repository name trusted issues w) ws s) (\<lambda>created s.
     (Inr \<lparr>rp_repository = repository, rp_identity = Some name, rp_issues_seen = length issues, rp_tasks_created = created,
        rp_failed = False\<rparr>, s)))))"

definition status_workflows :: "workflow_entry list \<Rightarrow> path \<Rightarrow> workflow_entry list" where
  "status_workflows entries repository = filter (\<lambda>w. we_repository w = repository \<and> we_errors w = []
     \<and> (case we_trigger w of Some (TStatus _) \<Rightarrow> True | _ \<Rightarrow> False)) entries"

definition label_workflows :: "workflow_entry list \<Rightarrow> path \<Rightarrow> workflow_entry list" where
  "label_workflows entries repository = filter (\<lambda>w. we_repository w = repository \<and> we_errors w = []
     \<and> (case we_trigger w of Some (TLabel _) \<Rightarrow> True | _ \<Rightarrow> False)) entries"

text \<open>A repository's tickets of both kinds; a report over none is one that only names the repository.\<close>

definition merge_report :: "repository_poll \<Rightarrow> repository_poll \<Rightarrow> repository_poll" where
  "merge_report report r = report\<lparr>rp_identity := rp_identity r, rp_issues_seen := max (rp_issues_seen report) (rp_issues_seen r),
     rp_tasks_created := rp_tasks_created report + rp_tasks_created r\<rparr>"

definition hub_poll_repository ::
  "nat \<Rightarrow> outside \<Rightarrow> (string \<Rightarrow> json option) \<Rightarrow> (json \<Rightarrow> string) \<Rightarrow> (string \<Rightarrow> nat \<Rightarrow> int) \<Rightarrow> source_config option \<Rightarrow>
     workflow_entry list \<Rightarrow> string option \<Rightarrow> path \<Rightarrow> poller \<Rightarrow> (repository_poll, poller) hubbed" where
  "hub_poll_repository patience o' parse print clk source entries pinned repository s =
     continue (pure (ok_or NoHubSource source) s) (\<lambda>source s.
     let report = \<lparr>rp_repository = repository, rp_identity = None, rp_issues_seen = 0, rp_tasks_created = 0, rp_failed = False\<rparr> in
     continue (if status_workflows entries repository = [] then (Inr report, s)
       else continue (poll_project_repository patience o' parse print clk repository source pinned (status_workflows entries repository) s)
         (\<lambda>r s. (Inr (merge_report report r), s))) (\<lambda>report s.
     continue (if label_workflows entries repository = [] then (Inr report, s)
       else continue (poll_label_repository o' parse print clk repository source pinned (label_workflows entries repository) s)
         (\<lambda>r s. (Inr (merge_report report r), s))) (\<lambda>report s.
     if rp_identity report \<noteq> None then (Inr report, s)
     else continue (polling (validated_repository_identity o' repository pinned) s) (\<lambda>name s.
       (Inr (report\<lparr>rp_identity := Some name\<rparr>), s)))))"

fun hub_poll_repositories ::
  "nat \<Rightarrow> outside \<Rightarrow> (string \<Rightarrow> json option) \<Rightarrow> (json \<Rightarrow> string) \<Rightarrow> (string \<Rightarrow> nat \<Rightarrow> int) \<Rightarrow> source_config option \<Rightarrow>
     workflow_entry list \<Rightarrow> string option \<Rightarrow> path list \<Rightarrow> poller \<Rightarrow> repository_poll list \<times> poller" where
  "hub_poll_repositories patience o' parse print clk source entries pinned [] s = ([], s)"
| "hub_poll_repositories patience o' parse print clk source entries pinned (r # rs) s =
     (let (result, s) = hub_poll_repository patience o' parse print clk source entries pinned r s;
          report = (case result of Inr report \<Rightarrow> report
            | Inl _ \<Rightarrow> \<lparr>rp_repository = r, rp_identity = None, rp_issues_seen = 0, rp_tasks_created = 0, rp_failed = True\<rparr>);
          (reports, s) = hub_poll_repositories patience o' parse print clk source entries pinned rs s
      in (report # reports, s))"

definition hub_poll_once ::
  "nat \<Rightarrow> outside \<Rightarrow> (string \<Rightarrow> json option) \<Rightarrow> (json \<Rightarrow> string) \<Rightarrow> (string \<Rightarrow> nat \<Rightarrow> int) \<Rightarrow> config \<Rightarrow> workflow_entry list \<Rightarrow>
     string option \<Rightarrow> poller \<Rightarrow> (repository_poll list, poller) hubbed" where
  "hub_poll_once patience o' parse print clk cfg entries pinned s =
     continue (polling (\<lambda>t. relabel HubCommand (gh_validate_global o' t)) s) (\<lambda>_ s.
     let (reports, s) = hub_poll_repositories patience o' parse print clk (cfg_source cfg) entries pinned (cfg_repositories cfg) s
     in (Inr reports, s))"

text \<open>Here a round that fails because the daemon was cancelled ends the polling as cancelled.\<close>

fun hub_poll_until_cancelled ::
  "(poller \<Rightarrow> bool) \<Rightarrow> (nat \<Rightarrow> poller \<Rightarrow> (repository_poll list, poller) hubbed) \<Rightarrow> nat \<Rightarrow> poller \<Rightarrow>
     (repository_poll list list, poller) hubbed" where
  "hub_poll_until_cancelled cancelled round_at 0 s = (Inr [], s)"
| "hub_poll_until_cancelled cancelled round_at (Suc pauses) s =
     (if cancelled s then (Inr [], s)
      else case round_at pauses s of
             (Inl e, s) \<Rightarrow> if cancelled s then (Inr [], s) else (Inl e, s)
           | (Inr report, s) \<Rightarrow>
               continue (hub_poll_until_cancelled cancelled round_at pauses s) (\<lambda>reports s. (Inr (report # reports), s)))"

end
