(* ===== verification/GitHub_Ticket_Proofs.thy ===== *)
theory GitHub_Ticket_Proofs
  imports GitHub_Tickets
begin

text \<open>
  From poll to claim: the tasks that polls of GitHub add, and when their claims succeed. Polls only add tasks; a task is added for
  an eligible ticket with what the claim needs to check it; and the claim succeeds exactly when the ticket is as it was polled.
\<close>

subsection \<open>What a poll adds\<close>

definition adds :: "(task \<Rightarrow> bool) \<Rightarrow> nat \<Rightarrow> poller \<Rightarrow> poller \<Rightarrow> bool" where
  "adds P n s s' \<longleftrightarrow> runs (po_ledger s') = runs (po_ledger s)
     \<and> (\<exists>added. tasks (po_ledger s') = tasks (po_ledger s) @ added \<and> length added = n \<and> list_all P added)"

lemma adds_none: "po_ledger s' = po_ledger s \<Longrightarrow> adds P 0 s s'"
  by (simp add: adds_def)

lemma adds_trans: "adds P n s s1 \<Longrightarrow> adds P m s1 s' \<Longrightarrow> adds P (n + m) s s'"
  by (auto simp: adds_def)

lemma adds_mono: "adds P n s s' \<Longrightarrow> (\<And>t. P t \<Longrightarrow> Q t) \<Longrightarrow> adds Q n s s'"
  unfolding adds_def list_all_iff by blast

lemma adds_from: "adds P n s1 s' \<Longrightarrow> po_ledger s1 = po_ledger s \<Longrightarrow> adds P n s s'"
  by (simp add: adds_def)

lemma poll_each_added:
  assumes "\<And>w s n s'. w \<in> set ws \<Longrightarrow> poll w s = (Inr n, s') \<Longrightarrow> adds (P w) n s s'"
    and "poll_each poll ws s = (Inr n, s')"
  shows "adds (\<lambda>t. \<exists>w\<in>set ws. P w t) n s s'"
  using assms
proof (induction ws arbitrary: s n)
  case (Cons w ws)
  from Cons.prems(2) obtain k s1 m where
      p: "poll w s = (Inr k, s1)" and r: "poll_each poll ws s1 = (Inr m, s')" and n: "n = k + m"
    by (auto simp: result_simps)
  have "adds (P w) k s s1" using Cons.prems(1) [OF _ p] by simp
  moreover have "adds (\<lambda>t. \<exists>w\<in>set ws. P w t) m s1 s'"
    using Cons.IH [OF _ r] Cons.prems(1) by simp
  ultimately show ?case unfolding n by (intro adds_trans [of _ _ _ s1]; elim adds_mono) auto
qed (simp add: adds_none)

lemma reconcile_workflow_added:
  assumes "reconcile_workflow clk name workflow observations s = (Inr n, s')"
  shows "adds (\<lambda>t. \<exists>x\<in>set observations. visit_task name workflow x t \<and> ot_eligible x) n s s'"
proof -
  from assms obtain enqueued where
      r: "reconcile_ticket_poll name workflow observations clk (po_ledger s) = Inr (enqueued, po_ledger s')"
      and n: "n = length (filter enq_created enqueued)"
    by (auto simp: reconcile_workflow_def on_poll_ledger_def result_simps split: sum.splits)
  show ?thesis
    using reconcile_added [OF r] unfolding adds_def n
    by (intro conjI exI [of _ "map enq_task (filter enq_created enqueued)"]) (auto simp: list_all_iff)
qed

lemma pages_decoded:
  assumes "api_pages o' parse decode repository endpoint t = (Inr xs, t')" and "x \<in> set xs"
  obtains v where "decode v = Some x"
proof -
  from assms obtain v pages where "each_of (each_of decode) v = Some pages" and "xs = concat pages"
    by (auto simp: api_pages_def result_simps bind_eq_Some_conv)
  moreover from this(2) assms(2) obtain page where "page \<in> set pages" "x \<in> set page" by auto
  ultimately show thesis using each_of_member that by metis
qed

subsection \<open>Labels\<close>

lemma fold_max: "fold (\<lambda>e latest. case latest of None \<Rightarrow> Some (f e) | Some i \<Rightarrow> Some (max i (f e))) xs (Some m)
    = Some (Max (insert m (f ` set xs)))"
proof (induction xs arbitrary: m)
  case (Cons x xs)
  have "Max (insert m (insert (f x) (f ` set xs))) = Max (insert (max m (f x)) (f ` set xs))"
    by (cases "set xs = {}") (simp_all add: insert_commute max.assoc)
  with Cons show ?case by simp
qed simp

text \<open>The event of a label is the one with the greatest number among those that set it.\<close>

lemma latest_label_event_id_iff:
  "latest_label_event_id timeline label = Some i \<longleftrightarrow>
     (let ids = ae_id ` {e \<in> set timeline. ae_event e = ''labeled'' \<and> ae_label e = Some label} in i \<in> ids \<and> (\<forall>j\<in>ids. j \<le> i))"
proof (cases "filter (\<lambda>e. ae_event e = ''labeled'' \<and> ae_label e = Some label) timeline")
  case Nil
  then have "{e \<in> set timeline. ae_event e = ''labeled'' \<and> ae_label e = Some label} = {}" by (auto simp: filter_empty_conv)
  with Nil show ?thesis by (auto simp: latest_label_event_id_def)
next
  case (Cons e es)
  then have "{e \<in> set timeline. ae_event e = ''labeled'' \<and> ae_label e = Some label} = insert e (set es)"
    by (metis (no_types) list.simps(15) set_filter)
  with Cons show ?thesis
    by (auto simp: latest_label_event_id_def fold_max Let_def Max_eq_iff intro: Max_eqI [symmetric])
qed

lemma label_observations_member:
  assumes "label_observations o' parse print repository name label trusted issues t = (Inr observations, t')"
    and "x \<in> set observations" and "ot_eligible x"
  shows "\<exists>issue\<in>set issues. \<exists>event. x = label_observation print name label issue (Some event)
    \<and> label \<in> set (ai_labels issue) \<and> trusted (au_id (ai_user issue)) \<noteq> None
    \<and> (\<exists>t1 timeline t2. issue_timeline o' parse repository name (ai_number issue) t1 = (Inr timeline, t2)
        \<and> latest_label_event_id timeline label = Some event)"
  using assms
proof (induction issues arbitrary: t observations)
  case (Cons issue issues)
  from Cons.prems(1) obtain event t1 rest where
      event: "(if label \<in> set (ai_labels issue) \<and> trusted (au_id (ai_user issue)) \<noteq> None
        then continue (issue_timeline o' parse repository name (ai_number issue) t) (\<lambda>timeline t.
            (Inr (latest_label_event_id timeline label), t)) else (Inr None, t)) = (Inr event, t1)"
      and rest: "label_observations o' parse print repository name label trusted issues t1 = (Inr rest, t')"
      and obs: "observations = label_observation print name label issue event # rest"
    by (auto simp: result_simps simp del: if_split_eq1 split del: if_split)
  show ?case
  proof (cases "x \<in> set rest")
    case True
    with Cons.IH [OF rest True Cons.prems(3)] show ?thesis by auto
  next
    case False
    with Cons.prems(2) obs have x: "x = label_observation print name label issue event" by simp
    with Cons.prems(3) obtain e where e: "event = Some e" by (auto simp: label_observation_def Let_def)
    with event show ?thesis
      unfolding x by (intro bexI [of _ issue] exI [of _ e]) (auto simp: result_simps split: if_splits)
  qed
qed simp

text \<open>The ticket of a polled issue is as it was: the same open issue of the same trusted author, and the same entry of its label.\<close>

definition label_unchanged ::
  "outside \<Rightarrow> (string \<Rightarrow> json option) \<Rightarrow> path \<Rightarrow> source_config \<Rightarrow> string \<Rightarrow> string \<Rightarrow> api_issue \<Rightarrow> nat \<Rightarrow> trace \<Rightarrow> bool" where
  "label_unchanged o' parse repository source name label issue event t \<longleftrightarrow> (\<exists>t1 trusted t2 current t3 timeline t4.
     hub_identity o' repository t = (Inr name, t1)
     \<and> trusted_source_numeric_user_ids o' parse repository source t1 = (Inr trusted, t2)
     \<and> hub_issue o' parse repository name (ai_number issue) t2 = (Inr current, t3)
     \<and> is_state current = ''open'' \<and> is_author_id current = au_id (ai_user issue)
     \<and> is_author_login current = au_login (ai_user issue) \<and> is_url current = ai_html_url issue
     \<and> trusted (au_id (ai_user issue)) \<noteq> None \<and> label \<in> set (is_labels current)
     \<and> issue_timeline o' parse repository name (ai_number issue) t3 = (Inr timeline, t4)
     \<and> latest_label_event_id timeline label = Some event)"

lemma fst_Inr_iff: "fst r = Inr v \<longleftrightarrow> (\<exists>s. r = (Inr v, s))"
  by (cases r) auto

lemma label_claim_iff:
  assumes "queued_context parse label_context_of task = Inr (label_context_at name label issue event, nat_dec (ai_number issue))"
    and "t_repository task = name"
  shows "fst (authorize_label_claim o' parse repository source label task t) = Inr ()
    \<longleftrightarrow> label_unchanged o' parse repository source name label issue event t"
  unfolding fst_Inr_iff authorize_label_claim_def label_unchanged_def
  by (simp add: assms result_simps label_context_at_def label_issue_current_def cong: conj_cong) blast

definition label_task ::
  "(string \<Rightarrow> json option) \<Rightarrow> path \<Rightarrow> source_config \<Rightarrow> string \<Rightarrow> workflow_entry \<Rightarrow> task \<Rightarrow> bool" where
  "label_task parse repository source name w task \<longleftrightarrow>
     t_repository task = name \<and> t_workflow task = we_id w \<and> t_state task = task_state.Queued
     \<and> (\<exists>label issue event. we_trigger w = Some (TLabel label) \<and> label \<in> set (ai_labels issue) \<and> ai_pull_request issue = None
       \<and> t_source_item task = Some (nat_dec (ai_number issue))
       \<and> (\<forall>o' t. fst (authorize_label_claim o' parse repository source label task t) = Inr ()
            \<longleftrightarrow> label_unchanged o' parse repository source name label issue event t))"

lemma polled_label_task:
  assumes "visit_task name (we_id w) (label_observation print name label issue (Some event)) task"
    and "we_trigger w = Some (TLabel label)" and "label \<in> set (ai_labels issue)" and "ai_pull_request issue = None"
    and "api_issue_of v = Some issue" and "event < 2 ^ 64"
    and "\<And>c. parse (print (label_context_json c)) = Some (label_context_json c)"
  shows "label_task parse repository source name w task"
proof -
  have payload: "t_payload task = Some (print (label_context_json (label_context_at name label issue event)))"
    and item: "t_source_item task = Some (nat_dec (ai_number issue))" and repository: "t_repository task = name"
    using assms(1) by (auto simp: visit_task_def label_observation_def Let_def)
  have "label_context_of (label_context_json (label_context_at name label issue event)) = Some (label_context_at name label issue event)"
    using api_issue_bounds [OF assms(5)] assms(6) by (intro label_context_read) (simp_all add: label_context_at_def)
  then have "queued_context parse label_context_of task = Inr (label_context_at name label issue event, nat_dec (ai_number issue))"
    by (simp add: queued_context_def payload item assms(7))
  from label_claim_iff [OF this repository] show ?thesis
    using assms(1-4) item unfolding label_task_def visit_task_def by blast
qed

lemma label_workflow_added:
  assumes "poll_label_workflow o' parse print clk repository name trusted issues w s = (Inr n, s')"
    and issues: "\<And>issue. issue \<in> set issues \<Longrightarrow> ai_pull_request issue = None \<and> (\<exists>v. api_issue_of v = Some issue)"
    and print: "\<And>c. parse (print (label_context_json c)) = Some (label_context_json c)"
  shows "adds (label_task parse repository source name w) n s s'"
proof (cases "\<exists>label. we_trigger w = Some (TLabel label)")
  case True
  then obtain label where trig: "we_trigger w = Some (TLabel label)" by blast
  with assms(1) obtain observations t where
      obs: "label_observations o' parse print repository name label trusted issues (po_trace s) = (Inr observations, t)"
      and r: "reconcile_workflow clk name (we_id w) observations (s\<lparr>po_trace := t\<rparr>) = (Inr n, s')"
    by (cases "label_observations o' parse print repository name label trusted issues (po_trace s)")
      (auto simp: poll_label_workflow_def polling_def result_simps)
  have "label_task parse repository source name w task"
    if x: "x \<in> set observations" and e: "ot_eligible x" and v: "visit_task name (we_id w) x task" for x task
  proof -
    from label_observations_member [OF obs x e] obtain issue event t1 timeline t2 where
        i: "issue \<in> set issues" "x = label_observation print name label issue (Some event)" "label \<in> set (ai_labels issue)"
        and tl: "issue_timeline o' parse repository name (ai_number issue) t1 = (Inr timeline, t2)"
          "latest_label_event_id timeline label = Some event" by blast
    from tl(2) obtain ev where "ev \<in> set timeline" "ae_id ev = event" by (auto simp: latest_label_event_id_iff Let_def)
    with tl(1) have "event < 2 ^ 64"
      unfolding issue_timeline_def by (metis pages_decoded api_event_bound)
    with i issues [OF i(1)] v trig print show ?thesis by (metis polled_label_task)
  qed
  with reconcile_workflow_added [OF r] have "adds (label_task parse repository source name w) n (s\<lparr>po_trace := t\<rparr>) s'"
    by (elim adds_mono) blast
  then show ?thesis by (rule adds_from) simp
next
  case False
  then show ?thesis
    using assms(1) by (auto simp: poll_label_workflow_def adds_none split: option.splits trigger.splits)
qed


subsection \<open>Projects\<close>

text \<open>An option is found by its name and by its identifier.\<close>

lemma resolve_options_unique:
  assumes "resolve_options xs acc = Inr options" and "distinct (map fst acc)" and "distinct (map snd acc)"
  shows "options = acc @ map (\<lambda>x. (po_name x, po_id x)) xs \<and> distinct (map fst options) \<and> distinct (map snd options)"
  using assms
proof (induction xs arbitrary: acc)
  case (Cons x xs)
  from Cons.prems have "resolve_options xs (acc @ [(po_name x, po_id x)]) = Inr options"
    and "po_name x \<notin> fst ` set acc" and "po_id x \<notin> snd ` set acc"
    by (auto split: if_splits)
  with Cons.prems(2,3) have "options = (acc @ [(po_name x, po_id x)]) @ map (\<lambda>x. (po_name x, po_id x)) xs
      \<and> distinct (map fst options) \<and> distinct (map snd options)"
    by (intro Cons.IH) simp_all
  then show ?case unfolding append_assoc append.simps list.map .
qed simp

lemma decoded_field:
  "field_of k decode v = Some x \<Longrightarrow> \<exists>w. decode w = Some x"
  "field_maybe k decode v = Some (Some x) \<Longrightarrow> \<exists>w. decode w = Some x"
  by (auto simp: field_of_def field_maybe_def bind_eq_Some_conv split: option.splits json.splits)

lemma items_decoded:
  "project_items patience o' parse repository project status_name cursor t = (Inr items, t') \<Longrightarrow> item \<in> set items \<Longrightarrow>
     \<exists>v. project_item_of v = Some item"
proof (induction patience arbitrary: cursor t items)
  case (Suc patience)
  from Suc.prems(1) obtain page t1 where
      page: "project_items_page o' parse repository project status_name cursor t = (Inr page, t1)"
      and tail: "(if \<not> pg_next page then (Inr (pg_nodes page), t1)
        else continue (pure (ok_or (BadProject NoEndCursor) (pg_cursor page)) t1) (\<lambda>next t.
          continue (project_items patience o' parse repository project status_name (Some next) t) (\<lambda>items t.
          (Inr (pg_nodes page @ items), t)))) = (Inr items, t')"
    unfolding project_items.simps continue_Inr_iff by blast
  have rest: "item \<in> set (pg_nodes page) \<or> (\<exists>next items'. item \<in> set items'
      \<and> project_items patience o' parse repository project status_name (Some next) t1 = (Inr items', t'))"
  proof (cases "pg_next page")
    case True
    with tail obtain "next" items' where "items = pg_nodes page @ items'"
        "project_items patience o' parse repository project status_name (Some next) t1 = (Inr items', t')"
      by (auto simp: result_simps)
    with Suc.prems(2) show ?thesis by auto
  qed (use tail Suc.prems(2) in simp)
  from page obtain v where "project_pages_answer v = Some (Some page)"
    by (auto simp: project_items_page_def result_simps bind_eq_Some_conv)
  from decoded_field(1) [OF this [unfolded project_pages_answer_def]] obtain w where
      "field_maybe ''node'' (field_of ''items'' project_page_of) w = Some (Some page)" by blast
  from decoded_field(2) [OF this] obtain w where "field_of ''items'' project_page_of w = Some page" by blast
  from decoded_field(1) [OF this] obtain w where "project_page_of w = Some page" by blast
  then have "field_of ''nodes'' (each_of project_item_of) w = Some (pg_nodes page)"
    by (auto simp: project_page_of_def bind_eq_Some_conv)
  from decoded_field(1) [OF this] obtain w where "each_of project_item_of w = Some (pg_nodes page)" by blast
  then have "\<exists>v. project_item_of v = Some item" if "item \<in> set (pg_nodes page)"
    using that by (metis each_of_member)
  with rest Suc.IH show ?case by blast
qed simp

lemma project_item_bound:
  "project_item_of v = Some item \<Longrightarrow> pj_content item = Some issue \<Longrightarrow> pi_number issue < 2 ^ 64"
  by (auto simp: project_item_of_def bind_eq_Some_conv listed_content_def project_issue_of_def
      dest!: field_u64_bound split: option.splits if_splits)

text \<open>The number of pages that are asked for does not matter once it is enough.\<close>

lemma project_items_more:
  assumes "project_items n o' parse repository project status_name cursor t = (r, t')" and "r \<noteq> Inl PollCancelled" and "n \<le> m"
  shows "project_items m o' parse repository project status_name cursor t = (r, t')"
  using assms
proof (induction n arbitrary: m cursor t r t')
  case (Suc n)
  then obtain k where m: "m = Suc k" and "n \<le> k" by (cases m) auto
  obtain r1 t1 where page: "project_items_page o' parse repository project status_name cursor t = (r1, t1)" by fastforce
  show ?case
  proof (cases "\<exists>page next. r1 = Inr page \<and> pg_next page \<and> pg_cursor page = Some next")
    case True
    then obtain page "next" where p: "r1 = Inr page" "pg_next page" "pg_cursor page = Some next" by blast
    obtain r2 t2 where rest: "project_items n o' parse repository project status_name (Some next) t1 = (r2, t2)" by fastforce
    with Suc.prems(1,2) page p have "r2 \<noteq> Inl PollCancelled" by auto
    from Suc.IH [OF rest this \<open>n \<le> k\<close>] rest Suc.prems(1) page p m show ?thesis by simp
  next
    case False
    with Suc.prems(1) page m show ?thesis by (cases r1; cases "pg_cursor (projr r1)") auto
  qed
qed simp

text \<open>
  The item of a queued ticket is as it was: in the same project with the same status option, the same open issue of the same
  trusted author.
\<close>

definition item_matches :: "project_ticket_context \<Rightarrow> project_item \<Rightarrow> bool" where
  "item_matches c item \<longleftrightarrow> pj_id item = pt_project_item_id c
     \<and> (\<exists>issue status author. pj_content item = Some issue \<and> pj_field_value item = Some status \<and> pi_author issue = Some author
        \<and> pi_id issue = pt_issue_node_id c \<and> pi_number issue = pt_number c \<and> pi_url issue = pt_url c
        \<and> pi_repository issue = pt_repository c \<and> pi_state issue = ''OPEN'' \<and> pa_id author = Some (pt_author_id c)
        \<and> ps_option_id status = pt_expected_option_id c)"

definition project_unchanged ::
  "outside \<Rightarrow> (string \<Rightarrow> json option) \<Rightarrow> path \<Rightarrow> source_config \<Rightarrow> project_ticket_context \<Rightarrow> trace \<Rightarrow> bool" where
  "project_unchanged o' parse repository source c t \<longleftrightarrow> (\<exists>t1 resolved t2 trusted t3 item t4.
     hub_identity o' repository t = (Inr (pt_repository c), t1)
     \<and> resolve_project_source o' parse repository source t1 = (Inr resolved, t2)
     \<and> trusted_source_user_ids o' parse repository source t2 = (Inr trusted, t3) \<and> trusted (pt_author_id c) \<noteq> None
     \<and> rj_project_id resolved = pt_project_id c \<and> rj_status_field_id resolved = pt_status_field_id c
     \<and> map_of (rj_options resolved) (pt_expected_status c) = Some (pt_expected_option_id c)
     \<and> current_project_item o' parse repository (pt_project_item_id c) (pt_status_field_id c) t3 = (Inr (Some item), t4)
     \<and> item_matches c item)"

lemma validate_project_item_iff: "validate_project_item item c (pt_expected_option_id c) = Inr () \<longleftrightarrow> item_matches c item"
  by (cases "pj_content item"; cases "pj_field_value item"; cases "pi_author (the (pj_content item))")
    (auto simp: validate_project_item_def item_matches_def)

lemma project_claim_iff:
  assumes "queued_context parse project_context_of task = Inr (c, nat_dec (pt_number c))" and "t_repository task = pt_repository c"
  shows "fst (authorize_project_claim o' parse repository source task t) = Inr ()
    \<longleftrightarrow> project_unchanged o' parse repository source c t"
  unfolding fst_Inr_iff authorize_project_claim_def project_unchanged_def
  by (simp add: assms result_simps validate_project_item_iff) blast

definition project_task ::
  "(string \<Rightarrow> json option) \<Rightarrow> path \<Rightarrow> source_config \<Rightarrow> string \<Rightarrow> workflow_entry \<Rightarrow> task \<Rightarrow> bool" where
  "project_task parse repository source name w task \<longleftrightarrow>
     t_repository task = name \<and> t_workflow task = we_id w \<and> t_state task = task_state.Queued
     \<and> (\<exists>c. we_trigger w = Some (TStatus (pt_expected_status c)) \<and> pt_repository c = name
       \<and> t_source_item task = Some (nat_dec (pt_number c))
       \<and> (\<forall>o' t. fst (authorize_project_claim o' parse repository source task t) = Inr ()
            \<longleftrightarrow> project_unchanged o' parse repository source c t))"

lemma project_workflow_added:
  assumes "poll_project_workflow print clk name resolved trusted items w s = (Inr n, s')"
    and items: "\<And>item. item \<in> set items \<Longrightarrow> \<exists>v. project_item_of v = Some item"
    and print: "\<And>c. parse (print (project_context_json c)) = Some (project_context_json c)"
  shows "adds (project_task parse repository source name w) n s s'"
proof (cases "\<exists>status. we_trigger w = Some (TStatus status)")
  case True
  then obtain status where trig: "we_trigger w = Some (TStatus status)" by blast
  with assms(1) obtain option_id where
      r: "reconcile_workflow clk name (we_id w)
        (List.map_filter (project_observation print name resolved trusted status option_id) items) s = (Inr n, s')"
    by (auto simp: poll_project_workflow_def result_simps)
  have "project_task parse repository source name w task"
    if x: "x \<in> set (List.map_filter (project_observation print name resolved trusted status option_id) items)"
      and v: "visit_task name (we_id w) x task" for x task
  proof -
    from x obtain item issue author author_id st where
        i: "item \<in> set items" "pj_content item = Some issue"
        and obs: "ot_source_item x = nat_dec (pi_number issue)"
          "ot_payload x = print (project_context_json (project_context name resolved status option_id item issue author author_id st))"
      by (auto simp: map_filter_def project_observation_def bind_eq_Some_conv split: if_splits)
    let ?c = "project_context name resolved status option_id item issue author author_id st"
    have c: "pt_number ?c = pi_number issue" "pt_repository ?c = name" "pt_expected_status ?c = status"
      by (simp_all add: project_context_def)
    have "pt_number ?c < 2 ^ 64" using i items project_item_bound c(1) by metis
    then have "queued_context parse project_context_of task = Inr (?c, nat_dec (pt_number ?c))"
      using v obs print by (simp add: queued_context_def visit_task_def project_context_read c(1))
    from project_claim_iff [OF this] v obs trig c show ?thesis
      unfolding project_task_def visit_task_def by metis
  qed
  with reconcile_workflow_added [OF r] show ?thesis by (elim adds_mono) blast
next
  case False
  then show ?thesis
    using assms(1) by (auto simp: poll_project_workflow_def adds_none split: option.splits trigger.splits)
qed


subsection \<open>Mixed case\<close>

text \<open>
  C18. A repository whose name has an upper-case letter on the host is named in lower case by the daemon. No ticket that was polled
  under that name can be claimed: the claim compares it with the name as the host writes it.
\<close>

theorem mixed_case_repository_never_claimed:
  assumes "hub_identity o' repository t = (Inr name, t1)" and "name \<noteq> to_ascii_lowercase name"
    and "t_repository task = to_ascii_lowercase name"
  shows "fst (authorize_label_claim o' parse repository source label task t) \<noteq> Inr ()
    \<and> fst (authorize_project_claim o' parse repository source task t) \<noteq> Inr ()"
  using assms unfolding fst_Inr_iff authorize_label_claim_def authorize_project_claim_def
  by (auto simp: result_simps)

end
