(* ===== verification/Task_Launch.thy ===== *)
theory Task_Launch
  imports Task_Prompt GitHub_Ticket_Proofs
begin

text \<open>
  From a claimed run to its agent (the worker of \<open>dispatch_available\<close> in \<open>src/daemon.rs\<close>): the ticket is checked again
  at its source, a workspace is prepared, the prompt is written. What fails before the agent starts ends the
  attempt and gives the task back to the queue. The agent itself is what comes next.
\<close>

datatype authorization_error = SourceRefused source_error | HubRefused hub_error | NoConfiguredSource

definition authorize_task ::
  "outside \<Rightarrow> source_io \<Rightarrow> path \<Rightarrow> source_config option \<Rightarrow> trigger \<Rightarrow> task \<Rightarrow> trace \<Rightarrow>
     (authorization_error, unit, trace) outcome" where
  "authorize_task o' io repository source trig task t =
     (case trig of
        TSource _ _ \<Rightarrow> (case source of
            Some sc \<Rightarrow> relabel SourceRefused (source_authorize o' io repository sc trig task t)
          | None \<Rightarrow> (Inl NoConfiguredSource, t))
      | TStatus _ \<Rightarrow> (case source of
            Some sc \<Rightarrow> relabel HubRefused (authorize_project_claim o' (so_parse io) repository sc task t)
          | None \<Rightarrow> (Inl NoConfiguredSource, t))
      | TLabel label \<Rightarrow> (case source of
            Some sc \<Rightarrow> relabel HubRefused (authorize_label_claim o' (so_parse io) repository sc label task t)
          | None \<Rightarrow> (Inl NoConfiguredSource, t))
      | TSchedule _ _ \<Rightarrow> (Inr (), t))"

datatype launch_failure = Unauthorized authorization_error | NoWorkspace work_error | NoPrompt prompt_error

datatype launch = NotLaunched launch_failure | Launched repository_target string

text \<open>The text of a failure is what the ledger keeps of it.\<close>

record launch_io =
  la_host :: host_io
  la_source :: source_io
  la_prompt :: prompt_io
  la_describe :: "launch_failure \<Rightarrow> string"

definition is_ticket_trigger :: "trigger \<Rightarrow> bool" where
  "is_ticket_trigger trig \<longleftrightarrow> (case trig of TSchedule _ _ \<Rightarrow> False | _ \<Rightarrow> True)"

definition settle_unlaunched :: "launch_io \<Rightarrow> launch_failure \<Rightarrow> bool \<Rightarrow> int \<Rightarrow> host \<Rightarrow> launch work" where
  "settle_unlaunched io failure requeue run_id s =
     (let sanitize = pr_sanitize (la_prompt io); now = hi_now (la_host io) s in
      continue (set_ledger (\<lambda>db. and_then
        (if requeue then fail_prelaunch_and_requeue sanitize run_id (la_describe io failure) now db
         else finish_run_and_task sanitize run_id run_outcome.Failed None (Some (la_describe io failure)) None now now db)
        (\<lambda>(_, db). Inr db)) s) (\<lambda>_ s. (Inr (NotLaunched failure), s)))"

definition on_host :: "(trace \<Rightarrow> ('e, 'a, trace) outcome) \<Rightarrow> host \<Rightarrow> ('e, 'a, host) outcome" where
  "on_host op s = (fst (op (ht_trace s)), s\<lparr>ht_trace := snd (op (ht_trace s))\<rparr>)"

text \<open>The prompt for the directory the agent works in; a sandbox has no session to continue.\<close>

definition launch_prompt ::
  "launch_io \<Rightarrow> task \<Rightarrow> int \<Rightarrow> repository_target \<Rightarrow> workflow_target \<Rightarrow> string option \<Rightarrow> int option \<Rightarrow> run option \<Rightarrow> host \<Rightarrow>
     (prompt_error, string, host) outcome" where
  "launch_prompt io task run_id target workflow prior_session prior_success recovery s =
     continue (execution_prompt (la_host io) (la_prompt io) task run_id target workflow prior_session prior_success s) (\<lambda>prompt s.
     case recovery of
       None \<Rightarrow> (Inr prompt, s)
     | Some previous \<Rightarrow> (let (p, s) = recovery_prompt (la_host io) (la_prompt io) prompt previous target s in (Inr p, s)))"

definition launch_task ::
  "launch_io \<Rightarrow> source_config option \<Rightarrow> repository_target \<Rightarrow> string \<Rightarrow> path \<Rightarrow> task \<Rightarrow> int \<Rightarrow> bool \<Rightarrow> string option \<Rightarrow>
     workflow_target \<Rightarrow> string option \<Rightarrow> int option \<Rightarrow> run option \<Rightarrow> host \<Rightarrow> launch work" where
  "launch_task io source target repository workspace_root task run_id sandboxed token workflow prior_session prior_success recovery s =
     (case on_host (authorize_task (hi_outside (la_host io)) (la_source io) (tg_path target) source (wt_trigger workflow) task) s of
        (Inl e, s) \<Rightarrow> settle_unlaunched io (Unauthorized e) (is_ticket_trigger (wt_trigger workflow)) run_id s
      | (Inr _, s) \<Rightarrow>
     (case prepare_task_workspace (la_host io) target repository workspace_root task run_id sandboxed token s of
        (Inl e, s) \<Rightarrow> settle_unlaunched io (NoWorkspace e) True run_id s
      | (Inr execution_target, s) \<Rightarrow>
     (case launch_prompt io task run_id execution_target workflow (if sandboxed then None else prior_session) prior_success recovery s of
        (Inl e, s) \<Rightarrow> settle_unlaunched io (NoPrompt e) True run_id s
      | (Inr prompt, s) \<Rightarrow> (Inr (Launched execution_target prompt), s))))"

subsection \<open>Launched\<close>

lemma settle_not_launched: "settle_unlaunched io failure requeue run_id s \<noteq> (Inr (Launched w p), s')"
  by (auto simp: settle_unlaunched_def Let_def result_simps)

lemma launch_prompt_policy:
  assumes "launch_prompt io task run_id target workflow prior_session prior_success recovery s = (Inr p, s')"
  shows "\<exists>suffix. policy_first workflow suffix p \<and> (recovery = None \<longrightarrow> suffix = [])"
proof -
  show ?thesis
  proof (cases recovery)
    case None
    with assms show ?thesis by (auto simp: launch_prompt_def result_simps dest: execution_prompt_policy)
  next
    case (Some previous)
    with assms obtain base s1 where
        base: "execution_prompt (la_host io) (la_prompt io) task run_id target workflow prior_session prior_success s = (Inr base, s1)"
        and p: "p = fst (recovery_prompt (la_host io) (la_prompt io) base previous target s1)"
      by (auto simp: launch_prompt_def result_simps case_prod_unfold Let_def)
    from recovery_prompt_policy [OF execution_prompt_policy [OF base]] p Some show ?thesis by auto
  qed
qed

lemma launched_steps:
  assumes "launch_task io source target repository workspace_root task run_id sandboxed token workflow prior_session prior_success
      recovery s = (Inr (Launched execution_target prompt), s')"
  shows "fst (authorize_task (hi_outside (la_host io)) (la_source io) (tg_path target) source (wt_trigger workflow) task (ht_trace s)) = Inr ()
    \<and> (\<exists>s1 s2. ht_ledger s1 = ht_ledger s
        \<and> prepare_task_workspace (la_host io) target repository workspace_root task run_id sandboxed token s1 = (Inr execution_target, s2))
    \<and> (\<exists>suffix. policy_first workflow suffix prompt \<and> (recovery = None \<longrightarrow> suffix = []))"
proof -
  let ?op = "authorize_task (hi_outside (la_host io)) (la_source io) (tg_path target) source (wt_trigger workflow) task"
  obtain r1 s1 where a: "on_host ?op s = (r1, s1)" by fastforce
  obtain r2 s2 where w: "prepare_task_workspace (la_host io) target repository workspace_root task run_id sandboxed token s1 = (r2, s2)"
    by fastforce
  from assms a obtain u where u: "r1 = Inr u"
    by (cases r1) (auto simp: launch_task_def settle_not_launched)
  with assms a w obtain e where e: "r2 = Inr e"
    by (cases r2) (auto simp: launch_task_def settle_not_launched)
  obtain r3 s3 where p: "launch_prompt io task run_id e workflow (if sandboxed then None else prior_session) prior_success recovery s2 = (r3, s3)"
    by fastforce
  with assms a w u e have "r3 = Inr prompt" and "e = execution_target"
    by (cases r3; auto simp: launch_task_def settle_not_launched)+
  with p launch_prompt_policy have "\<exists>suffix. policy_first workflow suffix prompt \<and> (recovery = None \<longrightarrow> suffix = [])" by blast
  moreover have "fst (?op (ht_trace s)) = Inr ()" and "ht_ledger s1 = ht_ledger s"
    using a u by (auto simp: on_host_def)
  ultimately show ?thesis using w e \<open>e = execution_target\<close> by blast
qed

text \<open>
  C9. An agent is started only for a task that its source authorized just before, in a workspace that was prepared after that,
  with a prompt that opens with the policy and holds the workflow.
\<close>

theorem launch_is_authorized:
  assumes "launch_task io source target repository workspace_root task run_id sandboxed token workflow prior_session prior_success
      recovery s = (Inr (Launched execution_target prompt), s')"
  shows "fst (authorize_task (hi_outside (la_host io)) (la_source io) (tg_path target) source (wt_trigger workflow) task (ht_trace s)) = Inr ()
    \<and> (\<exists>s1 s2. ht_ledger s1 = ht_ledger s
        \<and> prepare_task_workspace (la_host io) target repository workspace_root task run_id sandboxed token s1 = (Inr execution_target, s2))
    \<and> (\<exists>suffix. policy_first workflow suffix prompt \<and> (recovery = None \<longrightarrow> suffix = []))"
  using launched_steps [OF assms] by blast

subsection \<open>Not launched\<close>

definition run_settled :: "int \<Rightarrow> ledger \<Rightarrow> bool" where
  "run_settled i db \<longleftrightarrow> (\<exists>r\<in>set (runs db). r_id r = i \<and> r_outcome r = run_outcome.Failed \<and> r_finished_at r \<noteq> None
     \<and> list_all (\<lambda>t. t_id t = r_task_id r \<longrightarrow> t_state t \<noteq> task_state.Running) (tasks db))"

lemma fail_prelaunch_settles:
  assumes "fail_prelaunch_and_requeue sanitize i err now db = Inr (x, db')"
  shows "run_settled i db' \<and> task_workspaces db' = task_workspaces db"
proof -
  from assms obtain r f where r: "find_where (\<lambda>r. r_id r = i \<and> r_outcome r = run_outcome.Running \<and> r_process_id r = None) (runs db) = Some r"
      and db': "db' = close_attempt r f (if r_recovery_attempt r < MAX_RECOVERY_ATTEMPTS then requeue_task now i
        else move_task now task_state.Failed) db"
      and f: "f = (\<lambda>x. x\<lparr>r_outcome := run_outcome.Failed, r_finished_at := Some now, r_error := Some (truncate_utf8 (sanitize err) MAX_ERROR_BYTES)\<rparr>)"
    by (cases "find_where (\<lambda>r. r_id r = i \<and> r_outcome r = run_outcome.Running \<and> r_process_id r = None) (runs db)")
      (auto simp: fail_prelaunch_and_requeue_def Let_def split: option.splits if_split_asm)
  from r have m: "r \<in> set (runs db)" "r_id r = i" "r_outcome r = run_outcome.Running"
    by (auto simp: find_where_def find_Some_iff)
  then have "f r \<in> set (runs db')" by (auto simp: db' close_attempt_def update_where_def)
  moreover have "r_id (f r) = i" "r_outcome (f r) = run_outcome.Failed" "r_finished_at (f r) \<noteq> None" "r_task_id (f r) = r_task_id r"
    using m by (simp_all add: f)
  moreover have "list_all (\<lambda>t. t_id t = r_task_id r \<longrightarrow> t_state t \<noteq> task_state.Running) (tasks db')"
    by (auto simp: db' close_attempt_def update_where_def list_all_iff requeue_task_def move_task_def)
  moreover have "task_workspaces db' = task_workspaces db" by (simp add: db' close_attempt_def)
  ultimately show ?thesis unfolding run_settled_def by (intro conjI bexI [of _ "f r"]) simp_all
qed

lemma settle_unlaunched_settles:
  assumes "settle_unlaunched io failure True run_id s = (Inr launched, s')"
  shows "launched = NotLaunched failure \<and> run_settled run_id (ht_ledger s') \<and> ht_trace s' = ht_trace s
    \<and> task_workspaces (ht_ledger s') = task_workspaces (ht_ledger s)"
  using assms fail_prelaunch_settles
  by (auto simp: settle_unlaunched_def set_ledger_def Let_def result_simps and_then_def split: sum.splits)

text \<open>
  C10. Whatever keeps an agent from starting, the attempt is over when the worker reports it: its run has failed and its
  task is not running, so that it is back in the queue or has failed for good.
\<close>

theorem unlaunched_run_is_settled:
  assumes "launch_task io source target repository workspace_root task run_id sandboxed token workflow prior_session prior_success
      recovery s = (Inr (NotLaunched failure), s')"
  shows "run_settled run_id (ht_ledger s')"
proof -
  let ?op = "authorize_task (hi_outside (la_host io)) (la_source io) (tg_path target) source (wt_trigger workflow) task"
  obtain r1 s1 where a: "on_host ?op s = (r1, s1)" by fastforce
  obtain r2 s2 where w: "prepare_task_workspace (la_host io) target repository workspace_root task run_id sandboxed token s1 = (r2, s2)"
    by fastforce
  show ?thesis
  proof (cases r1)
    case (Inl e)
    moreover have "is_ticket_trigger (wt_trigger workflow)"
      using a Inl by (auto simp: on_host_def is_ticket_trigger_def authorize_task_def split: trigger.splits)
    ultimately show ?thesis using assms a by (auto simp: launch_task_def dest: settle_unlaunched_settles)
  next
    case authorized: (Inr u)
    show ?thesis
    proof (cases r2)
      case (Inl e)
      with authorized assms a w show ?thesis by (auto simp: launch_task_def dest: settle_unlaunched_settles)
    next
      case (Inr e)
      with authorized assms a w show ?thesis
        by (cases "launch_prompt io task run_id e workflow (if sandboxed then None else prior_session) prior_success recovery s2")
          (auto simp: launch_task_def dest: settle_unlaunched_settles split: sum.splits)
    qed
  qed
qed

text \<open>The questions an authorization asks: reads of the host, and the configured command.\<close>

definition asks_source :: "source_config option \<Rightarrow> path \<Rightarrow> request \<Rightarrow> bool" where
  "asks_source source repository r \<longleftrightarrow> reads_host r
     \<or> (\<exists>sc state labels. source = Some sc \<and> r = Run (source_command repository (sc_command sc) state labels))"

lemma hub_identity_reads [request_rules]: "allowed reads_host t (snd (hub_identity o' repository t))"
  unfolding hub_identity_def gh_validate_repository_def gh_def gh_with_token_def
  by (intro request_rules) (simp_all add: request_rules)

lemma authorize_reads:
  "allowed reads_host t (snd (authorize_label_claim o' parse repository sc label task t))"
  "allowed reads_host t (snd (authorize_project_claim o' parse repository sc task t))"
proof -
  have "allowed reads_host t (snd (resolve_project_source o' parse repository sc t))" for t
    unfolding resolve_project_source_def by (intro request_rules) (simp_all add: request_rules)
  moreover have "allowed reads_host t (snd (current_project_item o' parse repository item f t))" for item f t
    unfolding current_project_item_def by (intro request_rules) (simp_all add: request_rules)
  ultimately show "allowed reads_host t (snd (authorize_label_claim o' parse repository sc label task t))"
    "allowed reads_host t (snd (authorize_project_claim o' parse repository sc task t))"
    unfolding authorize_label_claim_def authorize_project_claim_def trusted_source_user_ids_def trusted_source_numeric_user_ids_def
      case_prod_unfold
    by (intro request_rules; assumption?)+
qed

lemma authorize_task_asks: "allowed (asks_source source repository) t (snd (authorize_task o' io repository source trig task t))"
proof -
  have reads: "allowed (asks_source src repository) t t'" if "allowed reads_host t t'" for src t'
    using that by (auto elim: allowed_mono simp: asks_source_def)
  have query: "allowed (asks_source (Some sc) repository) t (snd (source_authorize o' io repository sc trig task t))" for sc trig
  proof -
    have "asks_source (Some sc) repository (Run (source_command repository (sc_command sc) state labels))" for state labels
      by (auto simp: asks_source_def)
    then show ?thesis
      unfolding source_authorize_def source_query_def
      by (cases trig) (auto simp del: pure_eq intro!: request_rules)
  qed
  show ?thesis
    unfolding authorize_task_def
    by (cases trig; cases source)
      (auto simp: allowed_refl intro!: allowed_relabel query intro: reads authorize_reads)
qed

text \<open>
  C25. A task that is not authorized leaves no trace but its failed attempt: only questions were asked, of the configured command or
  of the host, and no workspace was reserved or changed.
\<close>

theorem unauthorized_task_changes_nothing:
  assumes "launch_task io source target repository workspace_root task run_id sandboxed token workflow prior_session prior_success
      recovery s = (Inr (NotLaunched (Unauthorized e)), s')"
  shows "allowed (asks_source source (tg_path target)) (ht_trace s) (ht_trace s')
    \<and> task_workspaces (ht_ledger s') = task_workspaces (ht_ledger s) \<and> is_ticket_trigger (wt_trigger workflow)"
proof -
  let ?op = "authorize_task (hi_outside (la_host io)) (la_source io) (tg_path target) source (wt_trigger workflow) task"
  obtain r1 s1 where a: "on_host ?op s = (r1, s1)" by fastforce
  obtain r2 s2 where w: "prepare_task_workspace (la_host io) target repository workspace_root task run_id sandboxed token s1 = (r2, s2)"
    by fastforce
  have other: "settle_unlaunched io failure True run_id s0 \<noteq> (Inr (NotLaunched (Unauthorized e)), s')"
    if "\<And>e. failure \<noteq> Unauthorized e" for failure s0
    using that settle_unlaunched_settles by blast
  show ?thesis
  proof (cases r1)
    case (Inl e1)
    have ticket: "is_ticket_trigger (wt_trigger workflow)"
      using a Inl by (auto simp: on_host_def is_ticket_trigger_def authorize_task_def split: trigger.splits)
    with Inl assms a have "settle_unlaunched io (Unauthorized e1) True run_id s1 = (Inr (NotLaunched (Unauthorized e)), s')"
      by (simp add: launch_task_def)
    from settle_unlaunched_settles [OF this] have "ht_trace s' = ht_trace s1"
      "task_workspaces (ht_ledger s') = task_workspaces (ht_ledger s1)" by simp_all
    moreover have "ht_trace s1 = snd (?op (ht_trace s))" "ht_ledger s1 = ht_ledger s" using a by (auto simp: on_host_def)
    ultimately show ?thesis using ticket authorize_task_asks by metis
  next
    case (Inr u)
    then have False
      using assms a w other
      by (cases r2; cases "launch_prompt io task run_id (projr r2) workflow (if sandboxed then None else prior_session) prior_success recovery s2")
        (auto simp: launch_task_def split: sum.splits)
    then show ?thesis ..
  qed
qed

text \<open>
  A label ticket that a poll queued starts an agent only while it is unchanged on the host.
\<close>

lemma launched_label_task_unchanged:
  assumes "launch_task io (Some source) target repository workspace_root task run_id sandboxed token workflow prior_session
      prior_success recovery s = (Inr (Launched execution_target prompt), s')"
    and "label_task (so_parse (la_source io)) (tg_path target) source name w task" and "wt_trigger workflow = the (we_trigger w)"
  shows "\<exists>label issue event. we_trigger w = Some (TLabel label)
    \<and> label_unchanged (hi_outside (la_host io)) (so_parse (la_source io)) (tg_path target) source name label issue event (ht_trace s)"
proof -
  from assms(2) obtain label issue event where trig: "we_trigger w = Some (TLabel label)"
      and iff: "\<And>o' t. fst (authorize_label_claim o' (so_parse (la_source io)) (tg_path target) source label task t) = Inr ()
        \<longleftrightarrow> label_unchanged o' (so_parse (la_source io)) (tg_path target) source name label issue event t"
    unfolding label_task_def by blast
  have "fst (authorize_label_claim (hi_outside (la_host io)) (so_parse (la_source io)) (tg_path target) source label task (ht_trace s)) = Inr ()"
    using launched_steps [OF assms(1)] assms(3) trig by (simp add: authorize_task_def relabel_def result_simps)
  with iff trig show ?thesis by blast
qed

end
