(* ===== verification/Task_Execution.thy ===== *)
theory Task_Execution
  imports Task_Launch Ledger_PullRequests
begin

text \<open>
  An agent at work (\<open>execute_task_inner\<close> and \<open>record_execution\<close> of \<open>src/daemon.rs\<close>): a session that is continued where
  there is one, a second attempt without it where that fails, and the end of the run in the ledger. The agent is an argument:
  what it is asked, what it answers, and the ledger as its monitor and everybody else left it meanwhile.
\<close>

subsection \<open>Results\<close>

datatype run_termination = RunExited | RunTimedOut | RunCancelled

record execution_result =
  er_termination :: run_termination
  er_code :: "int option"
  er_status :: string
  er_final_response :: string
  er_final_response_truncated :: bool
  er_thread_id :: "string option"
  er_activity_lines :: nat
  er_activity_error :: "string option"
  er_stderr_tail :: string

record runtime_observation =
  ob_sequence :: nat
  ob_process_id :: "nat option"
  ob_process_identity :: "string option"
  ob_session_id :: "string option"
  ob_pull_request :: "string option"
  ob_activity :: "string option"

definition exit_success :: "execution_result \<Rightarrow> bool" where
  "exit_success r \<longleftrightarrow> er_code r = Some 0"

definition execution_outcome :: "string \<Rightarrow> execution_result \<Rightarrow> run_outcome \<times> string option" where
  "execution_outcome runtime r =
     (case er_termination r of
        RunCancelled \<Rightarrow> (run_outcome.Cancelled, Some (runtime @ '' execution cancelled''))
      | RunTimedOut \<Rightarrow> (run_outcome.Failed, Some (runtime @ '' execution timed out''))
      | RunExited \<Rightarrow>
          if exit_success r
          then case er_activity_error r of
                 Some e \<Rightarrow> (run_outcome.Failed, Some (runtime @ '' emitted malformed JSON activity: '' @ e))
               | None \<Rightarrow> (run_outcome.Succeeded, None)
          else (run_outcome.Failed, Some (runtime @ '' exited with status '' @ er_status r @ ''; stderr: '' @ er_stderr_tail r)))"

text \<open>The outcome that is printed for the operator.\<close>

definition printed_outcome :: "execution_result \<Rightarrow> string" where
  "printed_outcome r =
     (case er_termination r of RunCancelled \<Rightarrow> ''cancelled'' | RunTimedOut \<Rightarrow> ''failed''
      | RunExited \<Rightarrow> if exit_success r then ''succeeded'' else ''failed'')"

definition record_execution ::
  "(string \<Rightarrow> string) \<Rightarrow> (nat \<Rightarrow> int) \<Rightarrow> int \<Rightarrow> string \<Rightarrow> repository_provider \<Rightarrow> execution_result \<Rightarrow> ledger \<Rightarrow>
     (ledger_error, unit, ledger) outcome" where
  "record_execution sanitize clk run_id runtime provider r db =
     (let (outcome, err) = execution_outcome runtime r;
          finish = (if er_termination r = RunTimedOut then finish_run_and_task_terminal else finish_run_and_task)
      in continue (commit (finish sanitize run_id outcome (Some (er_final_response r)) err (er_thread_id r) (clk 0) (clk 1) db) db)
           (\<lambda>completed db.
         commit_state (associate_successful_implementation_handoff run_id (r_repository completed) provider (clk 2) db) db))"

subsection \<open>Executing a task\<close>

record agent_call =
  ac_prompt :: string
  ac_directory :: path
  ac_timeout :: nat
  ac_session :: "string option"

text \<open>
  The answer to a call: the result or the text of an error, the last observation, whether the run is cancelled by then,
  the time that is left of the run's timeout.
\<close>

record agent_answer =
  an_result :: "string + execution_result"
  an_observation :: runtime_observation
  an_cancelled :: bool
  an_remaining :: nat

type_synonym agent = "agent_call \<Rightarrow> ledger \<Rightarrow> agent_answer \<times> ledger"

datatype execution_error = RuntimeFailed string | FallbackNotPrepared ledger_error | ExecutionLedger ledger_error

definition to_execution :: "(ledger_error, 'a, ledger) outcome \<Rightarrow> (execution_error, 'a, ledger) outcome" where
  "to_execution r = relabel ExecutionLedger r"

definition observe_answer ::
  "(string \<Rightarrow> string) \<Rightarrow> int \<Rightarrow> int \<Rightarrow> runtime_observation \<Rightarrow> ledger \<Rightarrow> (ledger_error, unit, ledger) outcome" where
  "observe_answer sanitize now run_id ob db =
     (if ob_sequence ob = 0 then (Inr (), db)
      else commit_state (observe_run sanitize run_id (ob_process_id ob) (ob_process_identity ob) (ob_session_id ob)
        (ob_pull_request ob) (ob_activity ob) now db) db)"

definition finish_failed ::
  "(string \<Rightarrow> string) \<Rightarrow> (nat \<Rightarrow> int) \<Rightarrow> int \<Rightarrow> string \<Rightarrow> ledger \<Rightarrow> (ledger_error, unit, ledger) outcome" where
  "finish_failed sanitize clk run_id detail db =
     continue (commit (finish_run_and_task sanitize run_id run_outcome.Failed None (Some detail) None (clk 0) (clk 1) db) db)
       (\<lambda>_ db. (Inr (), db))"

definition settle_execution ::
  "(string \<Rightarrow> string) \<Rightarrow> (nat \<Rightarrow> int) \<Rightarrow> int \<Rightarrow> string \<Rightarrow> repository_provider \<Rightarrow> agent_answer \<Rightarrow> ledger \<Rightarrow>
     (execution_error, execution_result, ledger) outcome" where
  "settle_execution sanitize clk run_id runtime provider a db =
     continue (to_execution (observe_answer sanitize (clk 5) run_id (an_observation a) db)) (\<lambda>_ db.
     case an_result a of
       Inr r \<Rightarrow> continue (to_execution (record_execution sanitize clk run_id runtime provider r db)) (\<lambda>_ db. (Inr r, db))
     | Inl detail \<Rightarrow> continue (to_execution (finish_failed sanitize clk run_id detail db)) (\<lambda>_ db. (Inl (RuntimeFailed detail), db)))"

definition needs_fallback :: "agent_answer \<Rightarrow> bool" where
  "needs_fallback a \<longleftrightarrow> (case an_result a of Inl _ \<Rightarrow> True | Inr r \<Rightarrow> er_termination r = RunExited \<and> \<not> exit_success r)"

definition fallback_detail :: "agent_answer \<Rightarrow> string" where
  "fallback_detail a = (case an_result a of
      Inr r \<Rightarrow> ''Codex session resume exited with '' @ er_status r
    | Inl e \<Rightarrow> ''Codex session resume failed: '' @ e)"

definition fallback_prompt :: "(string \<Rightarrow> string) \<Rightarrow> string \<Rightarrow> string \<Rightarrow> repository_provider \<Rightarrow> string" where
  "fallback_prompt sanitize prompt detail provider =
     prompt @ ''\<newline>\<newline># Session fallback\<newline>\<newline>'' @
     ''The stored Codex session could not be resumed: '' @ sanitize detail @ ''.\<newline>'' @
     ''Start one bounded recovery run. Inspect current Git, '' @ repository_provider_name provider
       @ '', change-request, and CI reality before continuing. Do not replay assumed steps.''"

definition execute_task_inner ::
  "(string \<Rightarrow> string) \<Rightarrow> (ledger_error \<Rightarrow> string) \<Rightarrow> (nat \<Rightarrow> int) \<Rightarrow> agent \<Rightarrow> repository_target \<Rightarrow> workflow_target \<Rightarrow> int \<Rightarrow>
     string \<Rightarrow> string option \<Rightarrow> ledger \<Rightarrow> (execution_error, execution_result, ledger) outcome" where
  "execute_task_inner sanitize describe clk agent target workflow run_id prompt recovery_session db =
     (let settle = settle_execution sanitize clk run_id (wt_runtime workflow) (tg_provider target);
          call = \<lparr>ac_prompt = prompt, ac_directory = tg_path target, ac_timeout = wt_timeout workflow, ac_session = recovery_session\<rparr>;
          (resumed, db) = agent call db
      in if recovery_session = None \<or> \<not> needs_fallback resumed \<or> an_cancelled resumed then settle resumed db
         else let detail = fallback_detail resumed in
           continue (to_execution (commit_state (observe_run sanitize run_id None None None None (Some detail) (clk 3) db) db)) (\<lambda>_ db.
           if an_remaining resumed = 0 then settle resumed db
           else (case reset_run_runtime_observation run_id (clk 4) db of
              Inl e \<Rightarrow> continue (to_execution (finish_failed sanitize clk run_id
                  (''failed to prepare a fresh recovery fallback: '' @ describe e) db)) (\<lambda>_ db. (Inl (FallbackNotPrepared e), db))
            | Inr db \<Rightarrow>
                let (answer, db) = agent (call\<lparr>ac_prompt := fallback_prompt sanitize prompt detail (tg_provider target),
                      ac_timeout := an_remaining resumed, ac_session := None\<rparr>) db
                in settle answer db)))"

subsection \<open>The run is over\<close>

definition run_ended :: "int \<Rightarrow> ledger \<Rightarrow> bool" where
  "run_ended i db \<longleftrightarrow> (\<forall>r\<in>set (runs db). r_id r = i \<longrightarrow> r_outcome r \<noteq> run_outcome.Running)"

lemma finish_ends:
  assumes inv: "queue_inv db" and "outcome \<noteq> run_outcome.Running"
  shows "case finish_run_and_task_with_recovery sanitize i outcome result err session_id allow now1 now2 db of
     Inl e \<Rightarrow> run_ended i db | Inr (x, db') \<Rightarrow> run_ended i db'"
proof (cases "finish_run_and_task_with_recovery sanitize i outcome result err session_id allow now1 now2 db")
  case (Inl e)
  have "r_outcome r \<noteq> run_outcome.Running" if "r \<in> set (runs db)" "r_id r = i" for r
  proof
    assume "r_outcome r = run_outcome.Running"
    from finish_run_spec [OF inv that(1) this assms(2), of sanitize result err session_id allow now1 now2] that(2) Inl
    show False by auto
  qed
  with Inl show ?thesis by (simp add: run_ended_def)
next
  case (Inr p)
  obtain x db' where p: "p = (x, db')" by (cases p)
  from Inr p obtain r g res e s where
      r: "find_where (\<lambda>r. r_id r = i \<and> r_outcome r = run_outcome.Running) (runs db) = Some r"
      and db': "db' = close_attempt r (record_terminal now1 (final_outcome r outcome) res e s) g db"
    by (cases "find_where (\<lambda>r. r_id r = i \<and> r_outcome r = run_outcome.Running) (runs db)")
      (auto simp: finish_run_and_task_with_recovery_def Let_def split: if_split_asm option.split_asm)
  have "final_outcome r outcome \<noteq> run_outcome.Running" using assms(2) by (rule final_outcome_terminal)
  moreover have "r_id r = i" using r by (auto simp: find_where_def find_Some_iff)
  ultimately have "run_ended i db'"
    by (auto simp: run_ended_def db' close_attempt_def update_where_def record_terminal_def split: if_splits)
  with Inr p show ?thesis by simp
qed

lemma update_running_run_error:
  assumes "queue_inv db" and "update_running_run i f db = Inl e"
  shows "run_ended i db"
proof (rule ccontr)
  assume "\<not> run_ended i db"
  then obtain r where r: "r \<in> set (runs db)" "r_id r = i" "r_outcome r = run_outcome.Running" by (auto simp: run_ended_def)
  have u: "unique_key r_id (runs db)" using assms(1) by (simp add: queue_inv_def queue_ok_def)
  from r have "exists_where (\<lambda>r. r_id r = i \<and> r_outcome r = run_outcome.Running) (runs db)" by (auto simp: exists_where_iff)
  then have "count_where (\<lambda>r. r_id r = i \<and> r_outcome r = run_outcome.Running) (runs db) = 1"
    using count_where_one_iff [OF u, of i "\<lambda>r. r_outcome r = run_outcome.Running"] by simp
  with assms(2) show False by (simp add: update_running_run_def)
qed

definition ends :: "int \<Rightarrow> ('e, 'a, ledger) outcome \<Rightarrow> bool" where
  "ends i r \<longleftrightarrow> run_ended i (snd r)"

lemma ends_relabel: "ends i r \<Longrightarrow> ends i (to_execution r)"
  by (simp add: ends_def to_execution_def relabel_def)

lemma finish_failed_ends: "queue_inv db \<Longrightarrow> ends run_id (finish_failed sanitize clk run_id detail db)"
  using finish_ends [of db run_outcome.Failed run_id sanitize None "Some detail" None True "clk 0" "clk 1"]
  by (cases "finish_run_and_task_with_recovery sanitize run_id run_outcome.Failed None (Some detail) None True (clk 0) (clk 1) db")
    (auto simp: ends_def finish_failed_def finish_run_and_task_def)

lemma associate_runs: "associate_successful_implementation_handoff run_id repository provider now db = Inr db' \<Longrightarrow> runs db' = runs db"
  by (auto simp: associate_successful_implementation_handoff_def record_pull_request_association_def
      split: option.splits if_splits)

lemma execution_outcome_terminal: "fst (execution_outcome runtime r) \<noteq> run_outcome.Running"
  by (simp add: execution_outcome_def split: run_termination.split option.split)

lemma record_execution_ends:
  assumes "queue_inv db"
  shows "ends run_id (record_execution sanitize clk run_id runtime provider r db)"
proof -
  obtain outcome err where o: "execution_outcome runtime r = (outcome, err)" by fastforce
  let ?finish = "finish_run_and_task_with_recovery sanitize run_id outcome (Some (er_final_response r)) err (er_thread_id r)
      (er_termination r \<noteq> RunTimedOut) (clk 0) (clk 1) db"
  have eq: "record_execution sanitize clk run_id runtime provider r db = continue (commit ?finish db) (\<lambda>completed db.
      commit_state (associate_successful_implementation_handoff run_id (r_repository completed) provider (clk 2) db) db)"
    by (simp add: record_execution_def o finish_run_and_task_def finish_run_and_task_terminal_def)
  have "outcome \<noteq> run_outcome.Running" using execution_outcome_terminal [of runtime r] o by simp
  note fin = finish_ends [OF assms this, of run_id sanitize "Some (er_final_response r)" err "er_thread_id r"
      "er_termination r \<noteq> RunTimedOut" "clk 0" "clk 1"]
  show ?thesis
  proof (cases ?finish)
    case (Inl e)
    with fin show ?thesis by (simp add: eq ends_def)
  next
    case (Inr p)
    obtain completed db1 where p: "p = (completed, db1)" by (cases p)
    with Inr fin have "run_ended run_id db1" by simp
    with Inr p show ?thesis
      by (cases "associate_successful_implementation_handoff run_id (r_repository completed) provider (clk 2) db1")
        (auto simp: eq ends_def run_ended_def dest!: associate_runs)
  qed
qed

lemma observe_answer_cases:
  assumes "queue_inv db" and "ob_process_id ob \<noteq> Some 0"
  shows "case observe_answer sanitize now run_id ob db of (Inl e, db') \<Rightarrow> run_ended run_id db' | (Inr _, db') \<Rightarrow> queue_inv db'"
proof (cases "ob_sequence ob = 0")
  case True
  with assms show ?thesis by (simp add: observe_answer_def)
next
  case False
  let ?o = "observe_run sanitize run_id (ob_process_id ob) (ob_process_identity ob) (ob_session_id ob) (ob_pull_request ob)
      (ob_activity ob) now db"
  show ?thesis
  proof (cases ?o)
    case (Inl e)
    with assms have "run_ended run_id db"
      by (auto simp: observe_run_def Let_def dest: update_running_run_error)
    with False Inl show ?thesis by (simp add: observe_answer_def)
  next
    case (Inr db')
    with observation_inv(3) [OF this assms(1)] False show ?thesis by (simp add: observe_answer_def)
  qed
qed

lemma settle_execution_ends:
  assumes "queue_inv db" and "ob_process_id (an_observation a) \<noteq> Some 0"
  shows "ends run_id (settle_execution sanitize clk run_id runtime provider a db)"
proof -
  obtain r db1 where o: "observe_answer sanitize (clk 5) run_id (an_observation a) db = (r, db1)" by fastforce
  note obs = observe_answer_cases [OF assms, of run_id sanitize "clk 5"]
  show ?thesis
  proof (cases r)
    case (Inl e)
    with o obs show ?thesis by (simp add: settle_execution_def to_execution_def relabel_def ends_def)
  next
    case (Inr u)
    with o obs have inv: "queue_inv db1" by simp
    have keep: "ends run_id (continue (to_execution q) (\<lambda>_ db. (v, db)))" if "ends run_id q"
      for q :: "(ledger_error, unit, ledger) outcome" and v :: "execution_error + execution_result"
      using that by (cases q; cases "fst q") (auto simp: ends_def to_execution_def relabel_def)
    show ?thesis
      using o Inr keep [OF record_execution_ends [OF inv]] keep [OF finish_failed_ends [OF inv]]
      by (cases "an_result a") (simp_all add: settle_execution_def to_execution_def relabel_def)
  qed
qed

text \<open>
  What the ledger needs of everybody who works on it while the agent runs: the queue's invariant is kept, and no process zero is
  reported.
\<close>

definition agent_ok :: "agent \<Rightarrow> bool" where
  "agent_ok agent \<longleftrightarrow> (\<forall>call db. queue_inv db \<longrightarrow>
     queue_inv (snd (agent call db)) \<and> ob_process_id (an_observation (fst (agent call db))) \<noteq> Some 0)"


end
