(* ===== verification/Ticket_Examples.thy ===== *)
theory Ticket_Examples
  imports Workspace_Examples GitHub_Claims Task_Launch Task_Execution
begin

text \<open>
  Tickets at work: a small printer and parser in the place of the JSON crate, a host with one issue and one
  project, and what the pollers, the claims and the launch of a task do with them.
\<close>

subsection \<open>A codec for JSON values\<close>

fun ex_text :: "string \<Rightarrow> string" where
  "ex_text [] = ''.''"
| "ex_text (c # s) = CHR ''+'' # c # ex_text s"

fun ex_read_text :: "string \<Rightarrow> (string \<times> string) option" where
  "ex_read_text (a # c # r) = (if a = CHR ''.'' then Some ([], c # r) else map_option (\<lambda>(s, r). (c # s, r)) (ex_read_text r))"
| "ex_read_text [a] = (if a = CHR ''.'' then Some ([], []) else None)"
| "ex_read_text [] = None"

fun ex_print :: "json \<Rightarrow> string" where
  "ex_print JNull = ''n''"
| "ex_print (JBool b) = [if b then CHR ''t'' else CHR ''f'']"
| "ex_print (JNumber s) = CHR ''d'' # ex_text s"
| "ex_print (JString s) = CHR ''s'' # ex_text s"
| "ex_print (JArray vs) = CHR ''a'' # concat (map (\<lambda>v. CHR ''+'' # ex_print v) vs) @ ''.''"
| "ex_print (JObject kvs) = CHR ''o'' # concat (map (\<lambda>(k, v). CHR ''+'' # ex_text k @ ex_print v) kvs) @ ''.''"

text \<open>The first argument bounds the depth of the recursion by the length of the text.\<close>

fun ex_read :: "string \<Rightarrow> string \<Rightarrow> (json \<times> string) option"
  and ex_read_list :: "string \<Rightarrow> string \<Rightarrow> (json list \<times> string) option"
  and ex_read_object :: "string \<Rightarrow> string \<Rightarrow> ((string \<times> json) list \<times> string) option" where
  "ex_read [] s = None"
| "ex_read (_ # bound) s = (case s of [] \<Rightarrow> None | c # r \<Rightarrow>
     if c = CHR ''n'' then Some (JNull, r) else if c = CHR ''t'' then Some (JBool True, r)
     else if c = CHR ''f'' then Some (JBool False, r)
     else if c = CHR ''d'' then map_option (\<lambda>(w, r). (JNumber w, r)) (ex_read_text r)
     else if c = CHR ''s'' then map_option (\<lambda>(w, r). (JString w, r)) (ex_read_text r)
     else if c = CHR ''a'' then map_option (\<lambda>(vs, r). (JArray vs, r)) (ex_read_list bound r)
     else map_option (\<lambda>(kvs, r). (JObject kvs, r)) (ex_read_object bound r))"
| "ex_read_list [] s = None"
| "ex_read_list (_ # bound) s = (case s of [] \<Rightarrow> None | c # r \<Rightarrow>
     if c = CHR ''.'' then Some ([], r)
     else Option.bind (ex_read bound r) (\<lambda>(v, r). map_option (\<lambda>(vs, r). (v # vs, r)) (ex_read_list bound r)))"
| "ex_read_object [] s = None"
| "ex_read_object (_ # bound) s = (case s of [] \<Rightarrow> None | c # r \<Rightarrow>
     if c = CHR ''.'' then Some ([], r)
     else Option.bind (ex_read_text r) (\<lambda>(k, r). Option.bind (ex_read bound r) (\<lambda>(v, r).
       map_option (\<lambda>(kvs, r). ((k, v) # kvs, r)) (ex_read_object bound r))))"

definition ex_parse :: "string \<Rightarrow> json option" where
  "ex_parse s = (case ex_read s s of Some (v, []) \<Rightarrow> Some v | _ \<Rightarrow> None)"

lemma ex_read_text [simp]: "ex_read_text (ex_text s @ r) = Some (s, r)"
  by (induction s; cases r) auto

lemma ex_read_list_written:
  assumes "\<And>v bound r. v \<in> set vs \<Longrightarrow> length (ex_print v) \<le> length bound \<Longrightarrow> ex_read bound (ex_print v @ r) = Some (v, r)"
    and "length (concat (map (\<lambda>v. CHR ''+'' # ex_print v) vs)) < length bound"
  shows "ex_read_list bound (concat (map (\<lambda>v. CHR ''+'' # ex_print v) vs) @ CHR ''.'' # r) = Some (vs, r)"
  using assms
proof (induction vs arbitrary: bound)
  case Nil
  then show ?case by (cases bound) simp_all
next
  case (Cons v vs)
  then show ?case by (cases bound) simp_all
qed

lemma ex_read_object_written:
  assumes "\<And>v bound r. v \<in> snd ` set kvs \<Longrightarrow> length (ex_print v) \<le> length bound \<Longrightarrow> ex_read bound (ex_print v @ r) = Some (v, r)"
    and "length (concat (map (\<lambda>(k, v). CHR ''+'' # ex_text k @ ex_print v) kvs)) < length bound"
  shows "ex_read_object bound (concat (map (\<lambda>(k, v). CHR ''+'' # ex_text k @ ex_print v) kvs) @ CHR ''.'' # r) = Some (kvs, r)"
  using assms
proof (induction kvs arbitrary: bound)
  case Nil
  then show ?case by (cases bound) simp_all
next
  case (Cons kv kvs)
  obtain k v where "kv = (k, v)" by (cases kv)
  with Cons show ?case by (cases bound) simp_all
qed

lemma ex_read_print: "length (ex_print v) \<le> length bound \<Longrightarrow> ex_read bound (ex_print v @ r) = Some (v, r)"
proof (induction v arbitrary: bound r)
  case (JArray vs)
  then show ?case by (cases bound) (simp_all add: ex_read_list_written)
next
  case (JObject kvs)
  have "ex_read b (ex_print v @ r') = Some (v, r')" if "v \<in> snd ` set kvs" "length (ex_print v) \<le> length b" for v b r'
    using that JObject.IH by (auto intro: snds.intros)
  with JObject.prems show ?case by (cases bound) (simp_all add: ex_read_object_written)
qed (case_tac [!] bound, simp_all)

lemma ex_codec: "ex_parse (ex_print v) = Some v"
  using ex_read_print [of v "ex_print v" "[]"] by (simp add: ex_parse_def)


text \<open>Bounds of 64 bits are compared as integers when the examples are evaluated.\<close>

lemma parse_u64_code [code]:
  "parse_u64 s = (if s \<noteq> [] \<and> list_all is_ascii_digit s \<and> int (dec_value s) < 18446744073709551616 then Some (dec_value s) else None)"
  by (simp add: parse_u64_def)

lemma field_i64_code [code]:
  "field_i64 k v =
     (case json_get k v of
        Some (JNumber (c # s)) \<Rightarrow>
          if c = CHR ''-''
          then Option.bind (parse_u64 s) (\<lambda>n. if 0 < n \<and> int n \<le> 9223372036854775808 then Some (- int n) else None)
          else Option.bind (parse_u64 (c # s)) (\<lambda>n. if int n < 9223372036854775808 then Some (int n) else None)
      | _ \<Rightarrow> None)"
proof -
  have "int n \<le> 9223372036854775808 \<longleftrightarrow> n \<le> 2 ^ 63" and "int n < 9223372036854775808 \<longleftrightarrow> n < 2 ^ 63" for n
    by simp_all
  then show ?thesis by (simp only: field_i64_def)
qed

subsection \<open>A host\<close>

text \<open>
  Its answers have short names for the parser. The host remembers: once the label was taken off issue 42 it is gone, and
  a posted comment is listed.
\<close>

definition ex_user :: json where
  "ex_user = JObject [(''id'', JNumber ''5''), (''login'', JString ''u''), (''node_id'', JString ''U5'')]"

definition ex_issue :: "string list \<Rightarrow> json" where
  "ex_issue labels = JObject [(''number'', JNumber ''42''), (''html_url'', JString ''h''), (''title'', JString ''t''),
     (''body'', JString ''b''), (''labels'', JArray (map (\<lambda>l. JObject [(''name'', JString l)]) labels)),
     (''updated_at'', JString ''1''), (''state'', JString ''open''), (''user'', ex_user)]"

definition ex_event :: json where
  "ex_event = JObject [(''id'', JNumber ''7''), (''event'', JString ''labeled''), (''actor'', ex_user),
     (''label'', JObject [(''name'', JString ''go'')]), (''created_at'', JString ''2'')]"

definition ex_approval :: approval_artifact where
  "ex_approval = \<lparr>aa_version = 1, aa_issue = 42, aa_workflow_id = ''w'', aa_workflow_hash = ''x'',
     aa_approved_content_hash = ''v1:'', aa_approver_id = 5, aa_nonce = ''n''\<rparr>"

definition ex_claim :: claim_artifact where
  "ex_claim = \<lparr>ca_version = 1, ca_task_id = 1, ca_approval_artifact_id = 9, ca_label_event_id = 7\<rparr>"

definition ex_comment :: "string \<Rightarrow> string \<Rightarrow> json" where
  "ex_comment i body = JObject [(''id'', JNumber i), (''html_url'', JString ''c''), (''user'', ex_user),
     (''body'', JString body), (''created_at'', JString ''1''), (''updated_at'', JString ''1'')]"

definition ex_board_issue :: json where
  "ex_board_issue = JObject [(''id'', JString ''I''), (''number'', JNumber ''42''), (''title'', JString ''t''), (''url'', JString ''h''),
     (''state'', JString ''OPEN''), (''updatedAt'', JString ''1''),
     (''author'', JObject [(''id'', JString ''U5''), (''login'', JString ''u'')]),
     (''repository'', JObject [(''nameWithOwner'', JString ''a/b'')])]"

definition ex_board_status :: json where
  "ex_board_status = JObject [(''optionId'', JString ''O''), (''name'', JString ''Todo''), (''updatedAt'', JString ''3'')]"

definition ex_board_fields :: json where
  "ex_board_fields = JObject [(''fields'', JArray [JObject [(''id'', JString ''F''), (''name'', JString ''Status''),
     (''type'', JString ''ProjectV2SingleSelectField''),
     (''options'', JArray [JObject [(''id'', JString ''O''), (''name'', JString ''Todo'')]])]])]"

definition ex_board_items :: json where
  "ex_board_items = JObject [(''data'', JObject [(''node'', JObject [(''items'', JObject [
     (''pageInfo'', JObject [(''hasNextPage'', JBool False), (''endCursor'', JNull)]),
     (''nodes'', JArray [JObject [(''id'', JString ''T''), (''updatedAt'', JString ''1''), (''content'', ex_board_issue),
        (''fieldValueByName'', ex_board_status)]])])])])]"

definition ex_tickets :: json where
  "ex_tickets = JObject [(''issues'', JArray [JObject [(''key'', JString ''42''), (''title'', JString ''t''),
     (''state'', JString ''open''), (''labels'', JArray [JString ''go'']), (''revision'', JString ''r'')]])]"

definition ex_pages :: "json list \<Rightarrow> json" where "ex_pages vs = JArray [JArray vs]"

definition ex_ticket :: json where
  "ex_ticket = JObject [(''number'', JNumber ''42''), (''url'', JString ''h''), (''title'', JString ''t''), (''body'', JString ''b''),
     (''observed_revision'', JString ''1''), (''approval'', JObject [(''artifact_id'', JNumber ''9''), (''label_event_id'', JNumber ''7''),
        (''approver_id'', JNumber ''5''), (''workflow_hash'', JString ''x''),
        (''approved_content_hash'', JString ''v1:''), (''nonce'', JString ''n'')])]"

definition ex_label_ticket :: label_ticket_context where
  "ex_label_ticket = \<lparr>lt_number = 42, lt_url = ''h'', lt_title = ''t'', lt_author_id = 5, lt_author_login = ''u'', lt_repository = ''a/b'',
     lt_expected_label = ''go'', lt_label_event_id = 7\<rparr>"

definition ex_named :: "string \<Rightarrow> json" where
  "ex_named s =
     (if s = ''@user'' then ex_user
      else if s = ''@issue'' then ex_issue [''go'']
      else if s = ''@edited'' then ex_issue []
      else if s = ''@issues'' then ex_pages [ex_issue [''go'']]
      else if s = ''@timeline'' then ex_pages [ex_event]
      else if s = ''@comments'' then ex_pages [ex_comment ''9'' (APPROVAL_PREFIX @ ''@approval'' @ ARTIFACT_SUFFIX)]
      else if s = ''@posted'' then ex_pages [ex_comment ''9'' (APPROVAL_PREFIX @ ''@approval'' @ ARTIFACT_SUFFIX),
        ex_comment ''10'' (CLAIM_PREFIX @ ''@claim'' @ ARTIFACT_SUFFIX)]
      else if s = ''@approval'' then approval_json ex_approval
      else if s = ''@claim'' then claim_json ex_claim
      else if s = ''@ticket'' then ex_ticket
      else if s = ''@label'' then label_context_json ex_label_ticket
      else if s = ''@project'' then JObject [(''id'', JString ''P'')]
      else if s = ''@fields'' then ex_board_fields
      else if s = ''@items'' then ex_board_items
      else ex_tickets)"

definition ex_document :: "string \<Rightarrow> json option" where
  "ex_document s = (if take 1 s = ''@'' then Some (ex_named s) else ex_parse s)"

definition requested :: "string list \<Rightarrow> trace \<Rightarrow> bool" where
  "requested args t \<longleftrightarrow> list_ex (\<lambda>r. case r of Run c \<Rightarrow> take (length args) (cm_args c) = args | _ \<Rightarrow> False) t"

definition ex_endpoint :: "trace \<Rightarrow> string \<Rightarrow> string" where
  "ex_endpoint t path =
     (if path = ''user'' \<or> path = ''users/u'' then ''@user''
      else if path = ''repos/a/b/issues/42'' then if requested [''issue'', ''edit''] t then ''@edited'' else ''@issue''
      else if path = ''repos/a/b/issues/42/timeline?per_page=100'' then ''@timeline''
      else if path = ''repos/a/b/issues/42/comments?per_page=100''
        then if requested [''api'', ''--method''] t then ''@posted'' else ''@comments''
      else ''@issues'')"

definition ex_hub_answer :: "string \<Rightarrow> trace \<Rightarrow> string list \<Rightarrow> string" where
  "ex_hub_answer name t args =
     (if take 4 args = [''repo'', ''view'', ''--json'', ''nameWithOwner''] then name
      else if take 2 args = [''repo'', ''view''] then ''main''
      else if take 2 args = [''project'', ''view''] then ''@project''
      else if take 2 args = [''project'', ''field-list''] then ''@fields''
      else if take 2 args = [''api'', ''graphql''] then ''@items''
      else if take 2 args = [''api'', ''--method''] then ''10''
      else if take 1 args = [''api''] then ex_endpoint t (last args)
      else [])"

definition ex_listed_one :: string where
  "ex_listed_one = ex_lines [''worktree /r'', ''branch refs/heads/main'', []]"

definition ex_hub :: "string \<Rightarrow> outside" where
  "ex_hub name = (ex_outside ex_listed_one False)\<lparr>o_run := (\<lambda>t c.
     if cm_program c = ''gh'' then Exited (Some 0) (Some (ex_hub_answer name t (cm_args c)))
     else if cm_program c = ''tickets'' then Exited (Some 0) (Some ''@tickets'')
     else ex_answer ex_listed_one (cm_args c))\<rparr>"

definition ex_source_io :: source_io where
  "ex_source_io = \<lparr>so_parse = ex_document, so_print = ex_print, so_rfc3339 = (\<lambda>_. None), so_sha256 = (\<lambda>_. [])\<rparr>"

definition ex_source :: source_config where
  "ex_source = \<lparr>sc_command = [''tickets''], sc_owner = ''a'', sc_project_number = 1, sc_status_field = ''Status'',
     sc_trusted_users = [''u'']\<rparr>"

definition ex_entry :: "trigger \<Rightarrow> workflow_entry" where
  "ex_entry trig = \<lparr>we_repository = ex_repository, we_path = ex_repository, we_id = ''w'', we_trigger = Some trig,
     we_runtime = None, we_timeout = None, we_agent_profile = None, we_prompt = None, we_errors = []\<rparr>"

definition ex_poller :: poller where "ex_poller = \<lparr>po_ledger = ex_registered, po_trace = []\<rparr>"

lemma ex_document_print: "ex_document (ex_print v) = Some v"
proof -
  have "take 1 (ex_print v) \<noteq> ''@''" by (cases v) auto
  then show ?thesis by (simp add: ex_document_def ex_codec)
qed

subsection \<open>Artifacts\<close>

theorem artifacts_roundtrip_witness:
  "parse_approval ex_parse (render_approval ex_print ex_approval) = Some ex_approval
     \<and> parse_claim ex_parse (render_claim ex_print ex_claim) = Some ex_claim"
  using artifacts_roundtrip [of ex_parse ex_print ex_approval ex_claim]
  by (simp add: ex_codec ex_approval_def ex_claim_def)

theorem read_bounded_spec_witness:
  "read_bounded 3 True [''ab'', ''cd''] = \<lparr>bb_bytes = ''bcd'', bb_truncated = True\<rparr>"
  using read_bounded_spec [of 3 "[''ab'', ''cd'']"] by simp

subsection \<open>Polls\<close>

lemma ex_source_poll:
  "fst (poll_workflow (ex_hub ''a/b'') ex_source_io (\<lambda>_. 1000) ex_repository ''a/b'' ex_source (ex_entry (TSource ''open'' [''go''])) ex_poller)
     = Inr \<lparr>rp_repository = ex_repository, rp_identity = Some ''a/b'', rp_issues_seen = 1, rp_tasks_created = 1, rp_failed = False\<rparr>"
  by code_simp


definition ex_label_poll :: "(repository_poll, poller) hubbed" where
  "ex_label_poll = poll_label_repository (ex_hub ''a/b'') ex_document ex_print (\<lambda>_ _. 1000) ex_repository ex_source None
     [ex_entry (TLabel ''go'')] ex_poller"

definition ex_project_poll :: "(repository_poll, poller) hubbed" where
  "ex_project_poll = poll_project_repository 1 (ex_hub ''a/b'') ex_document ex_print (\<lambda>_ _. 1000) ex_repository ex_source None
     [ex_entry (TStatus ''Todo'')] ex_poller"

definition ex_report :: repository_poll where
  "ex_report = \<lparr>rp_repository = ex_repository, rp_identity = Some ''a/b'', rp_issues_seen = 1, rp_tasks_created = 1, rp_failed = False\<rparr>"

lemma ex_polled: "fst ex_label_poll = Inr ex_report" "fst ex_project_poll = Inr ex_report"
  by code_simp+



theorem mixed_case_repository_never_claimed_witness:
  "fst (authorize_label_claim (ex_hub ''A/b'') ex_document ex_repository ex_source ''go'' (ex_task task_state.Running 1) []) \<noteq> Inr ()"
proof -
  have "fst (hub_identity (ex_hub ''A/b'') ex_repository []) = Inr ''A/b''" by code_simp
  then have i: "hub_identity (ex_hub ''A/b'') ex_repository [] = (Inr ''A/b'', snd (hub_identity (ex_hub ''A/b'') ex_repository []))"
    by (metis prod.collapse)
  have "''A/b'' \<noteq> to_ascii_lowercase ''A/b''" and "t_repository (ex_task task_state.Running 1) = to_ascii_lowercase ''A/b''"
    by code_simp+
  from mixed_case_repository_never_claimed [OF i this] show ?thesis by blast
qed

subsection \<open>A claim\<close>

definition ex_github :: github_config where
  "ex_github = \<lparr>gc_trusted_approvers = [''u''], gc_ready_label = ''go'', gc_proposed_label = ''p'', gc_needs_review_label = ''n''\<rparr>"

definition ex_approved :: task where
  "ex_approved = (ex_task task_state.Running 1002)\<lparr>t_payload := Some ''@ticket''\<rparr>"

definition ex_claiming :: poller where
  "ex_claiming = \<lparr>po_ledger = ex_ledger [ex_approved] [ex_run], po_trace = []\<rparr>"

definition ex_authorized :: "poller \<Rightarrow> (unit, poller) hubbed" where
  "ex_authorized = authorize_claim (ex_hub ''a/b'') ex_source_io (\<lambda>_. 2000) ex_repository ex_github ex_approved ''x''"

definition ex_consumption :: approval_consumption where
  "ex_consumption = \<lparr>ac_artifact_id = 9, ac_label_event_id = 7, ac_task_id = 1, ac_approver_id = 5, ac_content_hash = ''v1:'',
     ac_workflow_hash = ''x'', ac_source_revision = ''1'', ac_consumed_at = 2000\<rparr>"

text \<open>The same claim again, after a crash between the consumption and what is published.\<close>

definition ex_reclaiming :: poller where
  "ex_reclaiming = ex_claiming\<lparr>po_ledger := po_ledger ex_claiming\<lparr>approval_consumptions := [ex_consumption]\<rparr>\<rparr>"

lemma ex_authorizes:
  "(case ex_authorized ex_claiming of (r, s) \<Rightarrow> (r, approval_consumptions (po_ledger s))) = (Inr (), [ex_consumption])"
  by code_simp

lemma ex_authorizes_again: "fst (ex_authorized ex_reclaiming) = Inr ()" by code_simp

lemma ex_authorized_first:
  "fst (ex_authorized ex_claiming) = Inr ()" "approval_consumptions (po_ledger (snd (ex_authorized ex_claiming))) = [ex_consumption]"
  using ex_authorizes by (simp_all add: case_prod_unfold)

lemma ex_queued_approval: "queued_approval ex_source_io ex_approved ''x'' = Inr (the (ticket_context_of ex_ticket))" by code_simp

theorem approved_claims_exclusive_witness:
  "fst (ex_authorized ex_claiming) = Inr () \<and> fst (ex_authorized ex_reclaiming) = Inr () \<and> t_id ex_approved = t_id ex_approved"
proof -
  have "approvals_unique (po_ledger ex_reclaiming)" by code_simp
  moreover have "set (approval_consumptions (po_ledger (snd (ex_authorized ex_claiming))))
      \<subseteq> set (approval_consumptions (po_ledger ex_reclaiming))"
    by (simp add: ex_authorized_first(2) ex_reclaiming_def)
  ultimately have "t_id ex_approved = t_id ex_approved"
    using approved_claims_exclusive [OF ex_authorized_first(1) [unfolded ex_authorized_def] ex_authorizes_again [unfolded ex_authorized_def]
        _ _ ex_queued_approval ex_queued_approval]
    by (simp add: ex_authorized_def)
  with ex_authorized_first(1) ex_authorizes_again show ?thesis by simp
qed

theorem claimed_content_is_approved_witness:
  "\<exists>t issue t1. hub_issue (ex_hub ''a/b'') ex_document ex_repository ''a/b'' 42 t = (Inr issue, t1) \<and> ''go'' \<notin> set (is_labels issue)"
proof -
  have "ex_authorized ex_claiming = (Inr (), snd (ex_authorized ex_claiming))"
    using ex_authorized_first(1) by (metis prod.collapse)
  moreover have "tc_number (the (ticket_context_of ex_ticket)) = 42" and "t_repository ex_approved = ''a/b''" by code_simp+
  ultimately show ?thesis
    using claimed_content_is_approved [of "ex_hub ''a/b''" ex_source_io "\<lambda>_. 2000" ex_repository ex_github ex_approved "''x''"
        ex_claiming "snd (ex_authorized ex_claiming)"]
    by (auto simp: ex_source_io_def ex_document_print ex_authorized_def ex_queued_approval [unfolded ex_source_io_def] ex_github_def)
qed

end
