(* ===== verification/Daemon_Dispatch.thy ===== *)
theory Daemon_Dispatch
  imports Daemon_Data Ledger_Workspaces Rust_State
begin

text \<open>
  The dispatcher of a daemon (\<open>dispatch_available\<close> of \<open>src/daemon.rs\<close>): while there is room it claims a task for a
  repository below its limit and hands the run to a worker; a worker that ends gives its place back. The state is the
  ledger, the active counts and the workers that have not ended. The rest of the daemon works on the ledger in between.
\<close>

record dispatcher =
  dp_ledger :: ledger
  dp_active :: "string \<rightharpoonup> nat"
  dp_runs :: "(string \<times> int) list"

text \<open>The admission of a fleet, the clock and the cancellation are asked as the dispatcher stands.\<close>

record dispatch_config =
  dg_targets :: targets
  dg_global_limit :: nat
  dg_repository_limit :: nat
  dg_owner_id :: string
  dg_owner_pid :: nat
  dg_parse :: "string \<Rightarrow> json option"
  dg_admits :: "dispatcher \<Rightarrow> string \<Rightarrow> bool"
  dg_cancelled :: "dispatcher \<Rightarrow> bool"
  dg_now :: "dispatcher \<Rightarrow> int"

datatype dispatch_error = DispatchLedger ledger_error | RepositoryNotConfigured string | WorkflowNotConfigured string

definition task_kind_of :: "trigger \<Rightarrow> string" where
  "task_kind_of trig = (case trig of TSchedule _ _ \<Rightarrow> ''scheduled'' | _ \<Rightarrow> ''ticket'')"

definition workflow_runtimes :: "targets \<Rightarrow> string \<times> string \<times> string \<Rightarrow> string option" where
  "workflow_runtimes ts = (\<lambda>(repository, workflow, kind).
     Option.bind (map_of ts repository) (\<lambda>target.
     Option.bind (map_of (tg_workflows target) workflow) (\<lambda>w.
     if task_kind_of (wt_trigger w) = kind then Some (wt_runtime w) else None)))"

definition working_directories :: "targets \<Rightarrow> string \<Rightarrow> string option" where
  "working_directories ts repository = map_option (\<lambda>target. path_text (tg_path target)) (map_of ts repository)"

definition available :: "dispatch_config \<Rightarrow> dispatcher \<Rightarrow> string list" where
  "available cfg s = filter (\<lambda>r. active_count (dp_active s) r < dg_repository_limit cfg) (map fst (dg_targets cfg))"

definition delivery_slots_available :: "ledger \<Rightarrow> bool" where
  "delivery_slots_available db \<longleftrightarrow> retained_delivery_workspace_count db < 10"

definition dispatch_context :: "dispatch_config \<Rightarrow> dispatcher \<Rightarrow> claim_context" where
  "dispatch_context cfg s =
     \<lparr>cc_repositories = available cfg s, cc_runtimes = workflow_runtimes (dg_targets cfg), cc_owner_id = dg_owner_id cfg,
       cc_owner_pid = dg_owner_pid cfg, cc_workdirs = working_directories (dg_targets cfg),
       cc_allow_new_tickets = delivery_slots_available (dp_ledger s)\<rparr>"

text \<open>A worker is started for the claimed run, after its profile is recorded.\<close>

definition start_worker :: "dispatch_config \<Rightarrow> task \<Rightarrow> run \<Rightarrow> dispatcher \<Rightarrow> (dispatch_error, bool, dispatcher) outcome" where
  "start_worker cfg task run s =
     continue (pure (ok_or (RepositoryNotConfigured (t_repository task)) (map_of (dg_targets cfg) (t_repository task))) s) (\<lambda>target s.
     continue (pure (ok_or (WorkflowNotConfigured (t_workflow task)) (map_of (tg_workflows target) (t_workflow task))) s) (\<lambda>workflow s.
     case set_run_agent_profile (r_id run) (fst (wt_agent_profile workflow)) (ap_model (snd (wt_agent_profile workflow)))
         (ap_reasoning_effort (snd (wt_agent_profile workflow))) (ap_service_tier (snd (wt_agent_profile workflow))) (dp_ledger s) of
       Inl e \<Rightarrow> (Inl (DispatchLedger e), s)
     | Inr db \<Rightarrow> (Inr True, s\<lparr>dp_ledger := db, dp_active := increment_active (t_repository task) (dp_active s),
         dp_runs := dp_runs s @ [(t_repository task, r_id run)]\<rparr>)))"

definition dispatch_one :: "dispatch_config \<Rightarrow> dispatcher \<Rightarrow> (dispatch_error, bool, dispatcher) outcome" where
  "dispatch_one cfg s =
     (case available cfg s of
        [] \<Rightarrow> (Inr False, s)
      | repository # _ \<Rightarrow>
          if \<not> dg_admits cfg s repository then (Inr False, s)
          else (case claim_and_start_run (dg_parse cfg) (dispatch_context cfg s) (dg_now cfg s) (dp_ledger s) of
             Inl e \<Rightarrow> (Inl (DispatchLedger e), s)
           | Inr (None, db) \<Rightarrow> (Inr False, s\<lparr>dp_ledger := db\<rparr>)
           | Inr (Some (task, run), db) \<Rightarrow> start_worker cfg task run (s\<lparr>dp_ledger := db\<rparr>)))"

lemma start_worker_cases:
  assumes "start_worker cfg task run s = (r, s')"
  shows "r = Inr True \<and> dp_runs s' = dp_runs s @ [(t_repository task, r_id run)]
      \<and> dp_active s' = increment_active (t_repository task) (dp_active s)
    \<or> (\<exists>e. r = Inl e) \<and> s' = s"
  using assms
  by (cases "map_of (dg_targets cfg) (t_repository task)";
      cases "map_of (tg_workflows (the (map_of (dg_targets cfg) (t_repository task)))) (t_workflow task)")
    (auto simp: start_worker_def split: sum.splits)

subsection \<open>One dispatch\<close>

text \<open>The counts are those of the workers, nothing is above its limit, and the ledger is sound.\<close>

definition dispatch_ok :: "dispatch_config \<Rightarrow> dispatcher \<Rightarrow> bool" where
  "dispatch_ok cfg s \<longleftrightarrow> queue_inv (dp_ledger s) \<and> length (dp_runs s) \<le> dg_global_limit cfg
     \<and> (\<forall>r. active_count (dp_active s) r = count_where (\<lambda>x. fst x = r) (dp_runs s))
     \<and> (\<forall>r. count_where (\<lambda>x. fst x = r) (dp_runs s) \<le> dg_repository_limit cfg)"

lemma claim_dispatchable:
  assumes "claim_and_start_run parse (dispatch_context cfg s) now (dp_ledger s) = Inr (Some (task, run), db)"
    and "queue_inv (dp_ledger s)"
  shows "queue_inv db \<and> active_count (dp_active s) (t_repository task) < dg_repository_limit cfg"
proof -
  from assms obtain c where "List.find (claimable parse (dispatch_context cfg s) (dp_ledger s)) (queued_tasks (dp_ledger s)) = Some c"
      and "t_repository task = t_repository c" and "queue_inv db"
    by (rule claim_and_start_cases) simp
  with claim_candidate(5) [of parse "dispatch_context cfg s" "dp_ledger s" c] show ?thesis
    by (auto simp: dispatch_context_def available_def)
qed

lemma start_worker_inv: "start_worker cfg task run s = (r, s') \<Longrightarrow> queue_inv (dp_ledger s) \<Longrightarrow> queue_inv (dp_ledger s')"
  by (cases "map_of (dg_targets cfg) (t_repository task)";
      cases "map_of (tg_workflows (the (map_of (dg_targets cfg) (t_repository task)))) (t_workflow task)")
    (auto simp: start_worker_def dest: observation_inv(1) split: sum.splits)

lemma dispatch_one_ok:
  assumes "dispatch_one cfg s = (r, s')" and "dispatch_ok cfg s" and "length (dp_runs s) < dg_global_limit cfg"
  shows "dispatch_ok cfg s' \<and> (r = Inr True \<longrightarrow> length (dp_runs s') = Suc (length (dp_runs s)))"
proof (cases "available cfg s")
  case Nil
  with assms show ?thesis by (auto simp: dispatch_one_def)
next
  case (Cons repository rest)
  let ?claim = "claim_and_start_run (dg_parse cfg) (dispatch_context cfg s) (dg_now cfg s) (dp_ledger s)"
  have inv: "queue_inv (dp_ledger s)" using assms(2) by (simp add: dispatch_ok_def)
  show ?thesis
  proof (cases "\<exists>task run db. dg_admits cfg s repository \<and> ?claim = Inr (Some (task, run), db)")
    case True
    then obtain task run db where claim: "dg_admits cfg s repository" "?claim = Inr (Some (task, run), db)" by blast
    note d = claim_dispatchable [OF claim(2) inv]
    have w: "start_worker cfg task run (s\<lparr>dp_ledger := db\<rparr>) = (r, s')"
      using assms(1) Cons claim by (simp add: dispatch_one_def)
    have inv': "queue_inv (dp_ledger s')" using start_worker_inv [OF w] d by simp
    from start_worker_cases [OF w] show ?thesis
    proof
      assume "(\<exists>e. r = Inl e) \<and> s' = s\<lparr>dp_ledger := db\<rparr>"
      with assms(2) inv' show ?thesis by (auto simp: dispatch_ok_def)
    next
      assume started: "r = Inr True \<and> dp_runs s' = dp_runs (s\<lparr>dp_ledger := db\<rparr>) @ [(t_repository task, r_id run)]
        \<and> dp_active s' = increment_active (t_repository task) (dp_active (s\<lparr>dp_ledger := db\<rparr>))"
      then show ?thesis
        using assms(2,3) inv' d by (auto simp: dispatch_ok_def count_where_def)
    qed
  next
    case False
    with assms(1) Cons have "r \<noteq> Inr True \<and> (s' = s \<or> (\<exists>db. ?claim = Inr (None, db) \<and> s' = s\<lparr>dp_ledger := db\<rparr>))"
      by (auto simp: dispatch_one_def split: if_splits sum.splits option.splits)
    with assms(2) claim_and_start_inv [of "dg_parse cfg" "dispatch_context cfg s" "dg_now cfg s" "dp_ledger s" None] show ?thesis
      by (auto simp: dispatch_ok_def)
  qed
qed

lemma dispatch_one_grows: "dispatch_one cfg s = (Inr True, s') \<Longrightarrow> length (dp_runs s') = Suc (length (dp_runs s))"
proof -
  assume d: "dispatch_one cfg s = (Inr True, s')"
  then obtain task run db where "start_worker cfg task run (s\<lparr>dp_ledger := db\<rparr>) = (Inr True, s')"
    by (auto simp: dispatch_one_def split: list.splits if_splits sum.splits option.splits)
  from start_worker_cases [OF this] show ?thesis by auto
qed

subsection \<open>The loop\<close>

function dispatch_available :: "dispatch_config \<Rightarrow> dispatcher \<Rightarrow> (dispatch_error, unit, dispatcher) outcome" where
  "dispatch_available cfg s =
     (if dg_global_limit cfg \<le> length (dp_runs s) \<or> dg_cancelled cfg s then (Inr (), s)
      else case dispatch_one cfg s of
             (Inl e, s') \<Rightarrow> (Inl e, s')
           | (Inr started, s') \<Rightarrow> if started then dispatch_available cfg s' else (Inr (), s'))"
  by pat_completeness auto
termination
  by (relation "measure (\<lambda>(cfg, s). dg_global_limit cfg - length (dp_runs s))") (auto dest!: dispatch_one_grows [OF sym])

declare dispatch_available.simps [simp del]

lemma dispatch_available_ok: "dispatch_ok cfg s \<Longrightarrow> dispatch_ok cfg (snd (dispatch_available cfg s))"
proof (induction cfg s rule: dispatch_available.induct)
  case (1 cfg s)
  show ?case
  proof (cases "dg_global_limit cfg \<le> length (dp_runs s) \<or> dg_cancelled cfg s")
    case False
    obtain r s' where d: "dispatch_one cfg s = (r, s')" by fastforce
    with 1 False dispatch_one_ok [OF d] show ?thesis
      by (cases r) (auto simp: dispatch_available.simps [of cfg s])
  qed (use 1 in \<open>simp add: dispatch_available.simps [of cfg s]\<close>)
qed

text \<open>
  C24. The dispatcher leaves no work that it could take: when it returns without an error and was not cancelled, all places are
  taken, or no repository is below its limit, or the fleet withheld its admission, or the claim found no task for
  the repositories that are.
\<close>

theorem dispatch_is_work_conserving:
  assumes "dispatch_available cfg s = (Inr (), s')"
  shows "dg_global_limit cfg \<le> length (dp_runs s') \<or> dg_cancelled cfg s'
    \<or> (\<exists>s1. dp_runs s1 = dp_runs s' \<and> dp_active s1 = dp_active s' \<and>
        (available cfg s1 = [] \<or> \<not> dg_admits cfg s1 (hd (available cfg s1))
         \<or> claim_and_start_run (dg_parse cfg) (dispatch_context cfg s1) (dg_now cfg s1) (dp_ledger s1) = Inr (None, dp_ledger s')))"
  using assms
proof (induction cfg s rule: dispatch_available.induct)
  case (1 cfg s)
  show ?case
  proof (cases "dg_global_limit cfg \<le> length (dp_runs s) \<or> dg_cancelled cfg s")
    case True
    with "1.prems" show ?thesis by (auto simp: dispatch_available.simps [of cfg s])
  next
    case False
    obtain r s1 where d: "dispatch_one cfg s = (r, s1)" by fastforce
    with "1.prems" False obtain started where r: "r = Inr started" by (cases r) (auto simp: dispatch_available.simps [of cfg s])
    show ?thesis
    proof (cases started)
      case True
      with d r False "1.prems" have "dispatch_available cfg s1 = (Inr (), s')" by (simp add: dispatch_available.simps [of cfg s])
      with "1.IH" [OF False d [unfolded r, symmetric]] True d r show ?thesis by auto
    next
      case idle: False
      with d r False "1.prems" have "s' = s1" by (simp add: dispatch_available.simps [of cfg s])
      with d r idle have "dp_runs s = dp_runs s' \<and> dp_active s = dp_active s' \<and>
          (available cfg s = [] \<or> \<not> dg_admits cfg s (hd (available cfg s))
           \<or> claim_and_start_run (dg_parse cfg) (dispatch_context cfg s) (dg_now cfg s) (dp_ledger s) = Inr (None, dp_ledger s'))"
        by (cases "available cfg s")
          (auto simp: dispatch_one_def split: if_splits sum.splits option.splits dest: start_worker_cases)
      then show ?thesis by blast
    qed
  qed
qed

subsection \<open>The daemon at work\<close>

text \<open>
  Between dispatches workers end, in any order, and everything else the daemon and other processes do changes the ledger
  only, keeping its invariant.
\<close>

inductive dispatcher_step :: "dispatch_config \<Rightarrow> dispatcher \<Rightarrow> dispatcher \<Rightarrow> bool" for cfg where
  dispatching: "dispatch_available cfg s = (r, s') \<Longrightarrow> dispatcher_step cfg s s'"
| worker_ends: "(repository, run_id) \<in> set (dp_runs s) \<Longrightarrow>
     dispatcher_step cfg s (s\<lparr>dp_active := decrement_active repository (dp_active s),
       dp_runs := remove1 (repository, run_id) (dp_runs s)\<rparr>)"
| ledger_changes: "queue_inv db \<Longrightarrow> dispatcher_step cfg s (s\<lparr>dp_ledger := db\<rparr>)"

inductive_cases dispatcher_stepE: "dispatcher_step cfg s s'"

definition idle_dispatcher :: "ledger \<Rightarrow> dispatcher" where
  "idle_dispatcher db = \<lparr>dp_ledger = db, dp_active = Map.empty, dp_runs = []\<rparr>"

lemma count_remove1: "x \<in> set xs \<Longrightarrow> count_where P (remove1 x xs) = count_where P xs - (if P x then 1 else 0)"
proof (induction xs)
  case (Cons a xs)
  have "0 < length (filter P xs)" if "x \<in> set xs" "P x" using that by (auto simp: filter_empty_conv)
  with Cons show ?case by (auto simp: count_where_def Suc_pred)
qed simp

lemma dispatcher_step_ok: "dispatcher_step cfg s s' \<Longrightarrow> dispatch_ok cfg s \<Longrightarrow> dispatch_ok cfg s'"
proof (elim dispatcher_stepE)
  fix r assume "dispatch_available cfg s = (r, s')" "dispatch_ok cfg s"
  with dispatch_available_ok [of cfg s] show "dispatch_ok cfg s'" by simp
next
  fix repository run_id
  assume s': "s' = s\<lparr>dp_active := decrement_active repository (dp_active s), dp_runs := remove1 (repository, run_id) (dp_runs s)\<rparr>"
    and m: "(repository, run_id) \<in> set (dp_runs s)" and ok: "dispatch_ok cfg s"
  from m have "length (remove1 (repository, run_id) (dp_runs s)) \<le> length (dp_runs s)" by (simp add: length_remove1)
  then show "dispatch_ok cfg s'"
    using ok by (auto simp: dispatch_ok_def s' count_remove1 [OF m] intro: le_trans [OF diff_le_self])
qed (auto simp: dispatch_ok_def)

text \<open>
  C8. In every history of a daemon that starts idle, at most the configured number of agents is at work, and at most the
  configured number for each repository, however workers end and whatever happens to the ledger.
\<close>

theorem concurrency_limits_hold:
  assumes "(dispatcher_step cfg)\<^sup>*\<^sup>* (idle_dispatcher db) s" and "queue_inv db"
  shows "length (dp_runs s) \<le> dg_global_limit cfg
    \<and> count_where (\<lambda>x. fst x = repository) (dp_runs s) \<le> dg_repository_limit cfg"
proof -
  from assms(1) have "dispatch_ok cfg s"
  proof (induction rule: rtranclp_induct)
    case base
    show ?case using assms(2) by (simp add: dispatch_ok_def idle_dispatcher_def active_count_def count_where_def)
  next
    case (step s1 s2)
    then show ?case by (blast intro: dispatcher_step_ok)
  qed
  then have "length (dp_runs s) \<le> dg_global_limit cfg"
    and "count_where (\<lambda>x. fst x = repository) (dp_runs s) \<le> dg_repository_limit cfg"
    by (simp_all add: dispatch_ok_def)
  then show ?thesis by simp
qed

end
