(* ===== verification/Launch_Examples.thy ===== *)
theory Launch_Examples
  imports Ticket_Examples Daemon_Dispatch
begin

text \<open>A task from its dispatch to the end of its run: a dispatcher with one repository, a label task that is launched, one that is not.\<close>

subsection \<open>The launch of a task\<close>

definition ex_launch_host :: host_io where
  "ex_launch_host = \<lparr>hi_outside = ex_hub ''a/b'', hi_now = (\<lambda>_. 2000), hi_parse = ex_document\<rparr>"

definition ex_launch_io :: launch_io where
  "ex_launch_io = \<lparr>la_host = ex_launch_host, la_source = ex_source_io,
     la_prompt = \<lparr>pr_parse = ex_document, pr_print = ex_print, pr_sanitize = (\<lambda>s. s), pr_duration = (\<lambda>_. ''1m''),
       pr_rfc3339_millis = (\<lambda>_. None)\<rparr>,
     la_describe = (\<lambda>_. ''no'')\<rparr>"

definition ex_label_workflow :: "string \<Rightarrow> workflow_target" where
  "ex_label_workflow label = \<lparr>wt_prompt = ''p'', wt_runtime = ''codex'', wt_timeout = 60, wt_trigger = TLabel label,
     wt_agent_profile = (''d'', \<lparr>ap_model = ''m'', ap_reasoning_effort = ''e'', ap_service_tier = ''s''\<rparr>)\<rparr>"

definition ex_label_task :: task where
  "ex_label_task = (ex_task task_state.Running 1002)\<lparr>t_payload := Some ''@label''\<rparr>"

definition ex_launch_state :: host where
  "ex_launch_state = \<lparr>ht_ledger = ex_ledger [ex_label_task] [ex_new_run], ht_trace = []\<rparr>"

definition ex_launch :: "string \<Rightarrow> launch work" where
  "ex_launch label = launch_task ex_launch_io (Some ex_source) ex_target ''a/b'' ex_root ex_label_task 1 False None
     (ex_label_workflow label) None None None ex_launch_state"

definition ex_launched_target :: repository_target where
  "ex_launched_target = ex_target\<lparr>tg_path := ex_root @ [Normal ''proposal-1'']\<rparr>"

lemma ex_launch_parts:
  "la_host ex_launch_io = ex_launch_host" "la_source ex_launch_io = ex_source_io" "hi_outside ex_launch_host = ex_hub ''a/b''"
  "tg_path ex_target = ex_repository"
  by (simp_all add: ex_launch_io_def ex_launch_host_def ex_target_def)

lemma ex_launch_ready:
  "case on_host (authorize_task (ex_hub ''a/b'') ex_source_io ex_repository (Some ex_source) (TLabel ''go'') ex_label_task) ex_launch_state
     of (r, s) \<Rightarrow> (r, fst (prepare_task_workspace ex_launch_host ex_target ''a/b'' ex_root ex_label_task 1 False None s))
        = (Inr (), Inr ex_launched_target)"
  by code_simp

lemma ex_launches: "\<exists>prompt. fst (ex_launch ''go'') = Inr (Launched ex_launched_target prompt)"
proof -
  obtain s1 where a: "on_host (authorize_task (ex_hub ''a/b'') ex_source_io ex_repository (Some ex_source) (TLabel ''go'') ex_label_task)
      ex_launch_state = (Inr (), s1)"
      and "fst (prepare_task_workspace ex_launch_host ex_target ''a/b'' ex_root ex_label_task 1 False None s1) = Inr ex_launched_target"
    using ex_launch_ready by (auto split: prod.splits)
  then obtain s2 where w: "prepare_task_workspace ex_launch_host ex_target ''a/b'' ex_root ex_label_task 1 False None s1
      = (Inr ex_launched_target, s2)"
    by (metis prod.collapse)
  have task: "t_kind ex_label_task \<noteq> ''scheduled''" "t_source_item ex_label_task = Some ''42''"
    by (simp_all add: ex_label_task_def ex_task_def)
  have "\<exists>prompt. launch_prompt ex_launch_io ex_label_task 1 ex_launched_target (ex_label_workflow ''go'') None None None s2 = (Inr prompt, s2)"
    using task by (simp add: launch_prompt_def execution_prompt_def)
  then obtain prompt where
    p: "launch_prompt ex_launch_io ex_label_task 1 ex_launched_target (ex_label_workflow ''go'') None None None s2 = (Inr prompt, s2)" ..
  have trig: "wt_trigger (ex_label_workflow ''go'') = TLabel ''go''" by (simp add: ex_label_workflow_def)
  have "ex_launch ''go'' = (Inr (Launched ex_launched_target prompt), s2)"
    unfolding ex_launch_def launch_task_def ex_launch_parts trig a by (simp add: w p)
  then show ?thesis by simp
qed

lemma ex_denied:
  "on_host (authorize_task (ex_hub ''a/b'') ex_source_io ex_repository (Some ex_source) (TLabel ''stop'') ex_label_task) ex_launch_state
     = (Inl (HubRefused (NotCurrent NotItsIdentity)), ex_launch_state)"
  by code_simp

lemma ex_given_back:
  "\<exists>run db. fail_prelaunch_and_requeue sanitize 1 err now (ht_ledger ex_launch_state) = Inr (run, db)"
  by (simp add: fail_prelaunch_and_requeue_def Let_def ex_launch_state_def ex_ledger_def empty_ledger_def ex_label_task_def ex_task_def
      ex_new_run_def find_where_def count_where_def close_attempt_def query_run_def update_where_def)

lemma ex_unlaunched: "fst (ex_launch ''stop'') = Inr (NotLaunched (Unauthorized (HubRefused (NotCurrent NotItsIdentity))))"
proof -
  have trig: "wt_trigger (ex_label_workflow ''stop'') = TLabel ''stop''" by (simp add: ex_label_workflow_def)
  obtain run db where r: "fail_prelaunch_and_requeue (pr_sanitize (la_prompt ex_launch_io)) 1
      (la_describe ex_launch_io (Unauthorized (HubRefused (NotCurrent NotItsIdentity)))) (hi_now ex_launch_host ex_launch_state)
      (ht_ledger ex_launch_state) = Inr (run, db)"
    using ex_given_back by blast
  show ?thesis
    unfolding ex_launch_def launch_task_def ex_launch_parts trig ex_denied
    by (simp add: settle_unlaunched_def is_ticket_trigger_def Let_def ex_launch_parts r set_ledger_def)
qed

theorem launch_is_authorized_witness:
  "fst (authorize_task (ex_hub ''a/b'') ex_source_io ex_repository (Some ex_source) (TLabel ''go'') ex_label_task []) = Inr ()"
proof -
  from ex_launches obtain prompt where "fst (ex_launch ''go'') = Inr (Launched ex_launched_target prompt)" ..
  then have "ex_launch ''go'' = (Inr (Launched ex_launched_target prompt), snd (ex_launch ''go''))" by (metis prod.collapse)
  from launch_is_authorized [OF this [unfolded ex_launch_def]] show ?thesis
    by (simp add: ex_launch_io_def ex_launch_host_def ex_label_workflow_def ex_target_def ex_launch_state_def)
qed

lemma ex_unlaunched_state:
  "ex_launch ''stop'' = (Inr (NotLaunched (Unauthorized (HubRefused (NotCurrent NotItsIdentity)))), snd (ex_launch ''stop''))"
  using ex_unlaunched by (metis prod.collapse)

theorem unlaunched_run_is_settled_witness:
  "run_settled 1 (ht_ledger (snd (ex_launch ''stop'')))"
  using unlaunched_run_is_settled [OF ex_unlaunched_state [unfolded ex_launch_def]] by (simp add: ex_launch_def)

theorem unauthorized_task_changes_nothing_witness:
  "task_workspaces (ht_ledger (snd (ex_launch ''stop''))) = []"
proof -
  have "task_workspaces (ht_ledger ex_launch_state) = []" by code_simp
  with unauthorized_task_changes_nothing [OF ex_unlaunched_state [unfolded ex_launch_def]] show ?thesis
    by (simp add: ex_launch_def)
qed

subsection \<open>Its execution\<close>

text \<open>An agent whose session is gone: the first call fails, the second one succeeds.\<close>

definition ex_agent :: agent where
  "ex_agent call db = (\<lparr>an_result = (case ac_session call of
       Some _ \<Rightarrow> Inl ''gone''
     | None \<Rightarrow> Inr \<lparr>er_termination = RunExited, er_code = Some 0, er_status = ''0'', er_final_response = ''ok'',
         er_final_response_truncated = False, er_thread_id = None, er_activity_lines = 1, er_activity_error = None,
         er_stderr_tail = []\<rparr>),
     an_observation = \<lparr>ob_sequence = 0, ob_process_id = None, ob_process_identity = None, ob_session_id = None,
       ob_pull_request = None, ob_activity = None\<rparr>,
     an_cancelled = False, an_remaining = 30\<rparr>, db)"


subsection \<open>The dispatcher\<close>

definition ex_dispatch :: dispatch_config where
  "ex_dispatch = \<lparr>dg_targets = [(''a/b'', ex_target\<lparr>tg_workflows := [(''w'', ex_label_workflow ''go'')]\<rparr>)],
     dg_global_limit = 2, dg_repository_limit = 1, dg_owner_id = ''d'', dg_owner_pid = 7, dg_parse = ex_no_json,
     dg_admits = (\<lambda>_ _. True), dg_cancelled = (\<lambda>_. False), dg_now = (\<lambda>_. 1002)\<rparr>"

lemma ex_dispatched:
  "(case dispatch_available ex_dispatch (idle_dispatcher ex_queued) of (r, s) \<Rightarrow> (r, dp_runs s)) = (Inr (), [(''a/b'', 1)])"
  by code_simp

theorem dispatch_is_work_conserving_witness:
  "\<exists>s. dispatch_available ex_dispatch (idle_dispatcher ex_queued) = (Inr (), s) \<and> dp_runs s = [(''a/b'', 1)]
     \<and> (\<exists>s1. dp_runs s1 = [(''a/b'', 1)] \<and>
         (available ex_dispatch s1 = []
          \<or> claim_and_start_run ex_no_json (dispatch_context ex_dispatch s1) 1002 (dp_ledger s1) = Inr (None, dp_ledger s)))"
proof -
  obtain s where s: "dispatch_available ex_dispatch (idle_dispatcher ex_queued) = (Inr (), s)" "dp_runs s = [(''a/b'', 1)]"
    using ex_dispatched by (cases "dispatch_available ex_dispatch (idle_dispatcher ex_queued)") auto
  from dispatch_is_work_conserving [OF s(1)] s show ?thesis by (auto simp: ex_dispatch_def)
qed

theorem concurrency_limits_hold_witness:
  "length (dp_runs (snd (dispatch_available ex_dispatch (idle_dispatcher ex_queued)))) \<le> 2"
proof -
  have "dispatcher_step ex_dispatch (idle_dispatcher ex_queued) (snd (dispatch_available ex_dispatch (idle_dispatcher ex_queued)))"
    by (rule dispatching) (rule prod.collapse [symmetric])
  moreover have "queue_inv ex_queued" by (rule ex_queued_inv)
  ultimately show ?thesis
    using concurrency_limits_hold [OF r_into_rtranclp] by (force simp: ex_dispatch_def)
qed

end
