(* ===== verification/Spec2Isabelle.thy ===== *)
theory Spec2Isabelle
  imports Ledger_System Ledger_Examples Register_Examples Ledger_Schema Fleet_Examples Workspace_Examples Daemon_Examples
    Launch_Examples
begin

text \<open>
  Flashy Factory: a verification development.

  THE PROGRAM. Flashy Factory runs coding agents on tickets. One or more daemons (\<open>src/daemon.rs\<close>)
  watch ticket hosts and schedules, turn what they see into durable tasks, claim tasks one by one,
  run an agent for each claim in a worktree, and follow the change requests the agents open. All
  that must survive a crash is in one SQLite file per repository, the ledger
  (\<open>src/storage.rs\<close>); every exported operation of the ledger is one immediate transaction, so
  the operations of several daemons and of the command line interleave as whole steps. The
  repository's behaviour is decided by a configuration file (\<open>src/config.rs\<close>) and by one
  Markdown prompt per workflow (\<open>src/workflow.rs\<close>). A fleet (\<open>src/fleet.rs\<close> and the first
  part of \<open>src/daemon.rs\<close>) runs the daemons of several repositories in one process: they share
  run permits, the pacing of ticket hosts, and a manifest other commands read.

  HOW IT IS MODELLED. The embedding is shallow: a struct is a record, an enum a datatype, a
  fallible function returns \<open>error + value\<close> with every early return a branch. A table of the
  ledger is the list of its rows in insertion order and an operation a function from ledger to
  ledger; a transaction that fails returns the error and leaves the ledger as it was. Time is an
  argument (milliseconds since the epoch, or nanoseconds for the fleet's monotonic clock), never
  read inside a definition. Strings are char lists, of the bytes the program handles. Every string
  comparison, order and length of the source is therefore byte-wise, as in Rust and in SQLite's
  BINARY collation. What the source calls but does not contain (the parsers for TOML,
  cron, time zones and durations, SHA-256, git, the file system, process inspection) is a parameter:
  a field of a record of functions, as \<open>host\<close> in \<open>Config_Data\<close> and \<open>os\<close> in
  \<open>Ledger_Recovery\<close>, or an argument. Where a property needs something of a parameter
  it is a hypothesis of the theorem, with a witness at a concrete function.

  SHARED THEORIES.
  \<open>Factory_Prelude\<close>: tables as lists; \<open>update_where\<close>, \<open>find_where\<close>,
  \<open>exists_where\<close>, \<open>count_where\<close>, insertion under a unique index, orders; the collections of
  simplification rules the other theories extend.
  \<open>Rust_Text\<close>: the functions of Rust's standard library on text that the source uses: trim, split,
  strip_prefix, decimal printing and parsing into machine integers, truncation at a character
  boundary. \<open>Rust_Result\<close>: \<open>Result\<close> and its combinators, and the text helpers shared by
  daemon and fleet. \<open>Rust_Path\<close>: components, joining and prefixes of Unix paths.
  \<open>Json_Value\<close>: what payload texts decode to. \<open>Registers\<close>: the interfaces (locales) of
  a table into which a key goes at most once, and of a table whose rows are only ever added to; they are
  interpreted on the task table, the approvals, the schedules and the continuations.

  THE LEDGER (\<open>src/storage.rs\<close>).
  \<open>Ledger_Data\<close>: the rows of every table, states and outcomes with the words the database
  stores for them. \<open>Task_Identity\<close>: the identity of a task and its durable key; keys are
  injective and validation is what makes them so.
  \<open>Ledger_Core\<close>, \<open>Ledger_Queue\<close>: tasks, runs and daemon leases: enqueue, claim,
  record_started, observation of the runtime, finish, failed launches, cancellation, history
  queries. \<open>queue_inv\<close> (unique ids and identities, at most one running run of a task, a running
  run belongs to a running task) is the invariant of the two tables. \<open>Ledger_Queue_Proofs\<close>:
  every operation keeps it; what claim, completion and enqueue do, on every branch.
  \<open>Ledger_Recovery\<close>: the recovery pass for runs whose daemon died, with the signals it sends as a
  trace. \<open>Ledger_Poll\<close>: reconcile_ticket_poll, from observations to new tasks.
  \<open>Ledger_Schedule\<close>: cursors and owners of schedules, due occurrences.
  \<open>Ledger_PullRequests\<close>: change requests, the life cycle of their events, continuations.
  \<open>Ledger_Approvals\<close>: approvals, reservations, project claims. \<open>Ledger_Workspaces\<close>:
  worktrees, containers and sandboxes. \<open>Ledger_Status\<close>: health, poll status and the summary
  before a reset. \<open>Ledger_Schema\<close>: the fifteen migrations as data with a small evaluator for
  the statements they use.
  \<open>Run_Evolution\<close>: what each operation can do to a run row and to the rows it does not name.
  \<open>Ledger_System\<close>: all operations as one transition relation \<open>ledger_step\<close>, the
  reachable ledgers, and the theorems about every history (\<open>reachable_ledger_sound\<close>,
  \<open>cancellation_wins\<close>, \<open>run_history_monotone\<close>). \<open>Ledger_Examples\<close> and
  \<open>Register_Examples\<close> drive small ledgers through the operations.

  CONFIGURATION AND WORKFLOWS.
  \<open>Config_Data\<close>: the decoded file (raw records), the resolved configuration, path expansion.
  \<open>Factory_Config\<close>: \<open>Config::resolve\<close> with every check in the order of the code, the
  default data directory, the identity of the repository. \<open>Workflow_Catalog\<close>: catalog entries
  and the targets the daemon dispatches to. \<open>Workflow_Fingerprint\<close>: the texts whose SHA-256
  identifies a workflow definition. \<open>Repository_Ref\<close>: remotes and links to change requests
  (\<open>src/repository.rs\<close>). \<open>Config_Examples\<close>: a repository whose configuration loads.

  THE FLEET.
  \<open>Fleet_Config\<close>: the inventory file, loading its repositories, pinning a daemon to the
  identity it was loaded under. \<open>Fleet_Admission\<close>: the permits and the round robin between
  repositories. \<open>Fleet_Manifest\<close>:
  the manifest and its two file locks. \<open>Fleet_Health\<close>: the poll grid, backoff and the health table.
  \<open>Fleet_Poller\<close>: the coordinator of a host and the poller as interleaved steps.
  \<open>Fleet_Examples\<close>: small fleets.

  THE DAEMON AND ITS WORKSPACES.
  \<open>Outside\<close>: the file system and the child processes. A request is a value, the outside a record of
  functions from the requests made so far to the answer, and every operation returns its result with the
  requests it has made, so that a theorem can speak about what is removed, renamed or started, whatever is answered.
  \<open>Rust_State\<close>: the composition of fallible operations on a state, and rules that carry a
  relation of states, or a fact about a returned value, through it. \<open>Workspace_Manager\<close>
  (\<open>src/workspace.rs\<close>): worktrees. \<open>Forge\<close> (\<open>src/forge.rs\<close> and the
  commands of \<open>src/github.rs\<close> it uses): the code hosts. \<open>Clone_Manager\<close>
  (\<open>src/clone.rs\<close>): standalone clones for sandboxed runs. \<open>Ticket_Context\<close>: what a task's
  payload says of its ticket. \<open>Daemon_Data\<close>: targets, owner, counts of active runs.
  \<open>Daemon_Workspaces\<close>: preparing a workspace for a run, settling it when the task has ended, the
  reconciliation at startup; the state is the ledger with the requests made. \<open>Workspace_Protocol\<close>: the
  cleanup protocol (record the intent, ask, remove, record the end) as a step relation, the refinement, and
  what a delivery needs to be removed. \<open>Workspace_Lifecycle\<close>: what a finished settlement or
  preparation has recorded, and that no history queues a continuation.
  \<open>Daemon_Schedules\<close>: from cron expressions to occurrences in the ledger, with the calendar as a record of
  functions. \<open>Daemon_Change_Requests\<close>: from a provider's answer to the update of a ticket; one event refines a
  machine with three phases. \<open>Workspace_Examples\<close> and \<open>Daemon_Examples\<close>: a small
  repository, its worktrees, schedules and change requests.

  TICKETS, CLAIMS AND RUNS.
  \<open>Ticket_Payload\<close>: contexts as the JSON values that payloads hold, and the comments that carry an approval or
  a claim (\<open>src/approval.rs\<close>). \<open>Ticket_Source\<close> (\<open>src/source.rs\<close>): the configured command, the checks
  of its answer, rounds of polling, and the same query again before a task starts; the state of a poller is the ledger with
  the requests made. \<open>GitHub_Client\<close>: the requests and decoders of \<open>src/github.rs\<close>.
  \<open>GitHub_Claims\<close>: the claim of approved work, where the consumption in the ledger comes before anything that
  is published. \<open>GitHub_Tickets\<close>: issues with a label and items of a project board, polled and
  claimed; \<open>GitHub_Ticket_Proofs\<close>: what a poll adds, and when the claim of what it added succeeds.
  \<open>Daemon_Dispatch\<close>: the dispatcher; its workers end in any order, and the ledger changes between dispatches.
  \<open>Task_Prompt\<close>: the prompts. \<open>Task_Launch\<close>: from a claimed run to its agent: authorization, workspace, prompt,
  and how an attempt that fails on the way ends. \<open>Task_Execution\<close>: the agent's answers, the second attempt
  without a session, and the end of the run. \<open>Ticket_Examples\<close> and \<open>Launch_Examples\<close>: a codec for JSON values,
  a host with one issue and one project, and a task from its ticket to the end of its run.

  WHAT THE LEMMAS SHOW. For each component: a well-formedness invariant and its preservation;
  the result of every operation on success and on each error; equivalence with a shorter
  reference definition where the code is indirect (the upgrade of old databases, link recognition, the
  closed form of the backoff); round trips (stored words, remotes, keys, fingerprints); bounds
  (continuations, retained deliveries, permits, host calls, delays); termination with the number of steps where the
  source loops. Theorems about sequences of operations quantify over arbitrary interleavings
  (\<open>ledger_step\<close>, \<open>fleet_step\<close>, folds over lists of calls).

  BOUNDS AND FUEL. The loops of the source are structural recursions over the
  rows, characters or components they visit, with a termination measure where they are not (the walk to an
  existing ancestor in \<open>Config_Data\<close>, the expansion of environment variables, the decoding of
  characters). The retry loop of the WAL switch takes the list of the answers of the
  database and reads at most as many as the source has attempts. The loop that reschedules a late poll
  (\<open>advance_due\<close>) is a partial function, and \<open>advance_due_terminates\<close> shows that it
  returns for every positive interval. Ids and counters that SQLite and Rust hold in 64 bits are
  natural numbers or integers where the source cannot reach the bound (a row id counts
  insertions), and are kept at their width with the overflow branch where it can: parsed
  numbers, durations, backoff exponents. Three loops end when somebody else wants it: the pages of a project, which a host could go on
  announcing, and the two polling loops. They count down the pages or pauses that pass before the daemon is cancelled;
  \<open>project_items_more\<close> shows that a longer patience changes nothing once all pages were read. The dispatcher
  terminates because every worker it starts takes one of the places.

  NOT MODELLED. The select loop of the daemon is asynchronous; what it calls is here, with
  the clock's readings as arguments and the order of the calls left open. The agent process, its pipes and the monitor that
  observes it (\<open>src/runtime.rs\<close>), and docker (\<open>src/sandbox.rs\<close>) are asynchronous processes: their answers are
  arguments (\<open>agent\<close> in \<open>Task_Execution\<close>), and an execution in a sandbox ends outside the model. A
  command that is cancelled or overdue is one that gave no answer. In the ledger: opening the file, file locks, and
  reading rows back (a row of the right type is taken as the row stored). Argument parsing, table
  printing and the set-up wizard are presentation. Text printed to the operator is left out everywhere.
\<close>

end
